(* ===== verification/Ranks.thy ===== *)
theory Ranks
  imports Prelude
begin

text \<open>
  The identity of one participant (\<open>crates/collectives/src/rank.rs\<close>) and the error type
  every communication operation returns (\<open>crates/collectives/src/error.rs\<close>). A
  \<open>Duration\<close> is a number of nanoseconds; an operating-system error keeps its
  \<open>ErrorKind\<close>, the only part of it the code inspects. The tensor errors are those of the
  Candle operations that the collectives call.
\<close>

section \<open>Errors\<close>

type_synonym duration = nat

datatype io_kind = TimedOut | WouldBlock | UnexpectedEof | ConnectionReset | BrokenPipe
  | NotConnected | ConnectionRefused | NotFound | AddrNotAvailable | OtherIo

datatype candle_error =
    DimOutOfRange "nat list" nat
  | NarrowInvalidArgs "nat list" nat nat nat
  | ShapeMismatchBinaryOp "nat list" "nat list"
  | DeviceMismatchBinaryOp
  | DTypeMismatchBinaryOp
  | OpRequiresAtLeastOneTensor
  | UnexpectedNumberOfDims nat nat
  | ShapeMismatchCat nat "nat list" nat "nat list"
  | ShapeMismatchSplit "nat list" nat nat
  | UnexpectedShape string "nat list" "nat list"
  | CandleMsg string

type_synonym message_tag = u64

datatype collectives_error =
    InvalidWorldSize
  | InvalidRank usize usize
  | InvalidPeer usize usize usize
  | SelfSend usize
  | P2pWorldTooSmall usize
  | UnsupportedTensorDevice string
  | UnsupportedTensorDType string
  | ShapeOverflow "nat list"
  | ElementCountMismatch "nat list" nat nat
  | SendDisconnected usize usize message_tag
  | ReceiveDisconnected usize usize message_tag
  | ReceiveTimeout usize usize message_tag duration
  | BarrierTimeout usize u64 duration
  | BarrierBroken usize u64
  | Io string io_kind
  | Protocol string
  | Rendezvous string
  | Collective string
  | ControlJson string
  | Synchronization usize
  | WorkerFailed usize collectives_error
  | WorkerPanicked usize string
  | TensorError candle_error

type_synonym 'a cresult = "collectives_error + 'a"

section \<open>Ranks\<close>

record rank =
  global_rank :: usize
  world_size :: usize

definition rank_new :: "usize \<Rightarrow> usize \<Rightarrow> rank cresult" where
  "rank_new g w =
     (if w = 0 then Inl InvalidWorldSize
      else if g \<ge> w then Inl (InvalidRank g w)
      else Inr \<lparr>global_rank = g, world_size = w\<rparr>)"

definition validate_peer :: "rank \<Rightarrow> usize \<Rightarrow> unit cresult" where
  "validate_peer r peer =
     (if peer \<ge> world_size r then Inl (InvalidPeer (global_rank r) peer (world_size r))
      else if peer = global_rank r then Inl (SelfSend (global_rank r))
      else Inr ())"

definition wf_rank :: "rank \<Rightarrow> bool" where
  "wf_rank r \<longleftrightarrow> global_rank r < world_size r"

lemma rank_new_Inr [simp]:
  "rank_new g w = Inr r \<longleftrightarrow> g < w \<and> r = \<lparr>global_rank = g, world_size = w\<rparr>"
  by (auto simp: rank_new_def)

lemma validate_peer_Inr [simp]:
  "validate_peer r p = Inr u \<longleftrightarrow> p < world_size r \<and> p \<noteq> global_rank r"
  by (auto simp: validate_peer_def)

text \<open>
  Only a member of a non-empty world gets a rank, and exactly the other members of that
  world pass as its peers; in particular the relation "may exchange with" is symmetric.
\<close>

lemma peers_of_new_rank:
  "rank_new g w = Inr r \<Longrightarrow> {p. validate_peer r p = Inr ()} = {0..<w} - {g}"
  by auto

lemma peers_symmetric:
  assumes "rank_new g w = Inr r" "rank_new h w = Inr s"
  shows "validate_peer r h = Inr () \<longleftrightarrow> validate_peer s g = Inr ()"
  using assms by auto

end
