(* ===== verification/Packets.thy ===== *)
theory Packets
  imports Ranks
begin

text \<open>
  Tensors and the owned packets that cross a rank boundary
  (\<open>crates/collectives/src/tensor.rs\<close>, \<open>crates/collectives/src/control.rs\<close>).

  A tensor is its device, element type, dimensions and values in row-major order, the
  view of a Candle tensor through \<open>dims\<close> and \<open>flatten_all().to_vec1()\<close>. The operations
  are those the repository calls on it from the vendored \<open>candle-core\<close>: \<open>narrow\<close>, \<open>cat\<close>,
  \<open>reshape\<close>, \<open>flatten_all\<close>, \<open>from_vec\<close> and same-shape addition, with their error
  branches. The element type is a type variable: the wire uses \<open>f32\<close> bit patterns.
\<close>

section \<open>Tensors\<close>

datatype device = Cpu | Cuda nat | Metal nat

datatype dtype = U8 | U32 | I16 | I32 | I64 | BF16 | F16 | F32 | F64
  | F8E4M3 | F6E2M3 | F6E3M2 | F4 | F8E8M0

fun size_in_bytes :: "dtype \<Rightarrow> nat" where
  "size_in_bytes U8 = 1" | "size_in_bytes U32 = 4" | "size_in_bytes I16 = 2"
| "size_in_bytes I32 = 4" | "size_in_bytes I64 = 8" | "size_in_bytes BF16 = 2"
| "size_in_bytes F16 = 2" | "size_in_bytes F32 = 4" | "size_in_bytes F64 = 8"
| "size_in_bytes F8E4M3 = 1" | "size_in_bytes F6E2M3 = 0" | "size_in_bytes F6E3M2 = 0"
| "size_in_bytes F4 = 0" | "size_in_bytes F8E8M0 = 1"

fun show_device :: "device \<Rightarrow> string" where
  "show_device Cpu = ''Cpu''"
| "show_device (Cuda n) = ''Cuda('' @ show_nat n @ '')''"
| "show_device (Metal n) = ''Metal('' @ show_nat n @ '')''"

fun show_dtype :: "dtype \<Rightarrow> string" where
  "show_dtype U8 = ''U8''" | "show_dtype U32 = ''U32''" | "show_dtype I16 = ''I16''"
| "show_dtype I32 = ''I32''" | "show_dtype I64 = ''I64''" | "show_dtype BF16 = ''BF16''"
| "show_dtype F16 = ''F16''" | "show_dtype F32 = ''F32''" | "show_dtype F64 = ''F64''"
| "show_dtype F8E4M3 = ''F8E4M3''" | "show_dtype F6E2M3 = ''F6E2M3''"
| "show_dtype F6E3M2 = ''F6E3M2''" | "show_dtype F4 = ''F4''" | "show_dtype F8E8M0 = ''F8E8M0''"

record 'v tensor =
  t_device :: device
  t_dtype :: dtype
  t_dims :: "nat list"
  t_values :: "'v list"

definition elem_count :: "'v tensor \<Rightarrow> nat" where
  "elem_count t = prod_list (t_dims t)"

definition wf_tensor :: "'v tensor \<Rightarrow> bool" where
  "wf_tensor t \<longleftrightarrow> length (t_values t) = elem_count t"

definition cpu_f32 :: "nat list \<Rightarrow> 'v list \<Rightarrow> 'v tensor" where
  "cpu_f32 ds vs = \<lparr>t_device = Cpu, t_dtype = F32, t_dims = ds, t_values = vs\<rparr>"

definition from_vec :: "'v list \<Rightarrow> nat list \<Rightarrow> candle_error + 'v tensor" where
  "from_vec vs ds = Inr (cpu_f32 ds vs)"

definition reshape :: "'v tensor \<Rightarrow> nat list \<Rightarrow> candle_error + 'v tensor" where
  "reshape t ds =
     (if prod_list ds = elem_count t then Inr (t\<lparr>t_dims := ds\<rparr>)
      else Inl (ShapeMismatchBinaryOp (t_dims t) ds))"

definition flatten_all :: "'v tensor \<Rightarrow> 'v tensor" where
  "flatten_all t = t\<lparr>t_dims := [elem_count t]\<rparr>"

definition tensor_dim :: "'v tensor \<Rightarrow> nat \<Rightarrow> candle_error + nat" where
  "tensor_dim t axis =
     (if axis < length (t_dims t) then Inr (t_dims t ! axis)
      else Inl (DimOutOfRange (t_dims t) axis))"

text \<open>Row-major position: \<open>outer\<close> blocks of \<open>d * inner\<close> values each.\<close>

definition outer_size :: "nat list \<Rightarrow> nat \<Rightarrow> nat" where
  "outer_size ds axis = prod_list (take axis ds)"

definition inner_size :: "nat list \<Rightarrow> nat \<Rightarrow> nat" where
  "inner_size ds axis = prod_list (drop (Suc axis) ds)"

definition block :: "nat \<Rightarrow> nat \<Rightarrow> 'v list \<Rightarrow> 'v list" where
  "block start len vs = take len (drop start vs)"

definition narrow :: "'v tensor \<Rightarrow> nat \<Rightarrow> nat \<Rightarrow> nat \<Rightarrow> candle_error + 'v tensor" where
  "narrow t axis start len =
     (if axis \<ge> length (t_dims t) then Inl (DimOutOfRange (t_dims t) axis)
      else let d = t_dims t ! axis; inner = inner_size (t_dims t) axis in
        if start > d then Inl (NarrowInvalidArgs (t_dims t) axis start len)
        else if start + len > d then Inl (NarrowInvalidArgs (t_dims t) axis start len)
        else if start = 0 \<and> d = len then Inr t
        else Inr (t\<lparr>t_dims := (t_dims t)[axis := len],
                    t_values := concat (map (\<lambda>o'. block ((o' * d + start) * inner) (len * inner) (t_values t))
                                          [0..<outer_size (t_dims t) axis])\<rparr>))"

fun cat_mismatch :: "nat list \<Rightarrow> nat \<Rightarrow> nat \<Rightarrow> 'v tensor list \<Rightarrow> candle_error option" where
  "cat_mismatch ds axis n [] = None"
| "cat_mismatch ds axis n (t # ts) =
     (if length (t_dims t) \<noteq> length ds
      then Some (UnexpectedNumberOfDims (length ds) (length (t_dims t)))
      else case find (\<lambda>i. i \<noteq> axis \<and> ds ! i \<noteq> t_dims t ! i) [0..<length ds] of
             Some i \<Rightarrow> Some (ShapeMismatchCat i ds (Suc n) (t_dims t))
           | None \<Rightarrow> cat_mismatch ds axis (Suc n) ts)"

fun cat_foreign :: "'v tensor \<Rightarrow> 'v tensor list \<Rightarrow> candle_error option" where
  "cat_foreign t0 [] = None"
| "cat_foreign t0 (t # ts) =
     (if t_dtype t \<noteq> t_dtype t0 then Some DTypeMismatchBinaryOp
      else if t_device t \<noteq> t_device t0 then Some DeviceMismatchBinaryOp
      else cat_foreign t0 ts)"

definition tensor_cat :: "'v tensor list \<Rightarrow> nat \<Rightarrow> candle_error + 'v tensor" where
  "tensor_cat ts axis =
     (case ts of
        [] \<Rightarrow> Inl OpRequiresAtLeastOneTensor
      | [t] \<Rightarrow> Inr t
      | t0 # _ \<Rightarrow>
          (if axis \<ge> length (t_dims t0) then Inl (DimOutOfRange (t_dims t0) axis)
           else case find (\<lambda>t. axis \<ge> length (t_dims t)) ts of
             Some t \<Rightarrow> Inl (DimOutOfRange (t_dims t) axis)
           | None \<Rightarrow>
          (case cat_mismatch (t_dims t0) axis 0 ts of
             Some e \<Rightarrow> Inl e
           | None \<Rightarrow>
          (case cat_foreign t0 ts of
             Some e \<Rightarrow> Inl e
           | None \<Rightarrow> Inr (t0\<lparr>
                 t_dims := (t_dims t0)[axis := sum_list (map (\<lambda>t. t_dims t ! axis) ts)],
                 t_values := concat (map (\<lambda>o'. concat (map (\<lambda>t.
                     let w = t_dims t ! axis * inner_size (t_dims t0) axis
                     in block (o' * w) w (t_values t)) ts))
                   [0..<outer_size (t_dims t0) axis])\<rparr>)))))"

text \<open>
  Same-shape element-wise addition; \<open>add\<close> is the element addition (IEEE 754 single
  precision in the program).
\<close>

definition tensor_add :: "('v \<Rightarrow> 'v \<Rightarrow> 'v) \<Rightarrow> 'v tensor \<Rightarrow> 'v tensor \<Rightarrow> candle_error + 'v tensor" where
  "tensor_add add a b =
     (if t_dims a \<noteq> t_dims b then Inl (ShapeMismatchBinaryOp (t_dims a) (t_dims b))
      else if elem_count a = 0 then Inr a
      else if t_device a \<noteq> t_device b then Inl DeviceMismatchBinaryOp
      else if t_dtype a \<noteq> t_dtype b then Inl DTypeMismatchBinaryOp
      else Inr (a\<lparr>t_values := map2 add (t_values a) (t_values b)\<rparr>))"

section \<open>Tensor packets\<close>

record 'v tensor_packet =
  p_shape :: "nat list"
  p_values :: "'v list"

fun element_count_from :: "nat list \<Rightarrow> nat \<Rightarrow> nat list \<Rightarrow> nat cresult" where
  "element_count_from shape count [] = Inr count"
| "element_count_from shape count (d # ds) =
     rbind (ok_or (ShapeOverflow shape) (usize_checked_mul count d))
       (\<lambda>c. element_count_from shape c ds)"

definition element_count :: "nat list \<Rightarrow> nat cresult" where
  "element_count shape = element_count_from shape 1 shape"

definition packet_new :: "nat list \<Rightarrow> 'v list \<Rightarrow> 'v tensor_packet cresult" where
  "packet_new shape vs =
     rbind (element_count shape) (\<lambda>expected.
       if expected \<noteq> length vs then Inl (ElementCountMismatch shape expected (length vs))
       else Inr \<lparr>p_shape = shape, p_values = vs\<rparr>)"

definition from_tensor :: "'v tensor \<Rightarrow> 'v tensor_packet cresult" where
  "from_tensor t =
     (if t_device t \<noteq> Cpu then Inl (UnsupportedTensorDevice (show_device (t_device t)))
      else if t_dtype t \<noteq> F32 then Inl (UnsupportedTensorDType (show_dtype (t_dtype t)))
      else packet_new (t_dims t) (t_values (flatten_all t)))"

definition to_tensor :: "'v tensor_packet \<Rightarrow> 'v tensor cresult" where
  "to_tensor p =
     rbind (element_count (p_shape p)) (\<lambda>expected.
       if expected \<noteq> length (p_values p)
       then Inl (ElementCountMismatch (p_shape p) expected (length (p_values p)))
       else map_err TensorError (from_vec (p_values p) (p_shape p)))"

definition wf_packet :: "'v tensor_packet \<Rightarrow> bool" where
  "wf_packet p \<longleftrightarrow> element_count (p_shape p) = Inr (length (p_values p))"

section \<open>Control packets\<close>

definition MAX_CONTROL_BYTES :: nat where
  "MAX_CONTROL_BYTES = 64 * 1024"

datatype control_packet = ControlPacket "u8 list"

fun packet_bytes :: "control_packet \<Rightarrow> u8 list" where
  "packet_bytes (ControlPacket bs) = bs"

definition control_packet_new :: "u8 list \<Rightarrow> control_packet cresult" where
  "control_packet_new bs =
     (if length bs > MAX_CONTROL_BYTES
      then Inl (Protocol (''control payload is '' @ show_nat (length bs) @ '' bytes, maximum is ''
                          @ show_nat MAX_CONTROL_BYTES))
      else Inr (ControlPacket bs))"

section \<open>Facts about packets\<close>

lemma element_count_from_Inr:
  assumes "element_count_from shape count ds = Inr n" and "count < 2 ^ 64"
  shows "n = count * prod_list ds \<and> n < 2 ^ 64"
  using assms
proof (induction ds arbitrary: count)
  case Nil
  then show ?case by simp
next
  case (Cons d ds)
  then have small: "count * d < 2 ^ 64" and rec: "element_count_from shape (count * d) ds = Inr n"
    by (auto simp: usize_checked_mul_def split: if_splits)
  from Cons.IH [OF rec small] show ?case by (simp add: mult.assoc)
qed

lemma element_count_Inr:
  "element_count shape = Inr n \<Longrightarrow> n = prod_list shape \<and> n < 2 ^ 64"
  unfolding element_count_def by (drule element_count_from_Inr) auto

lemma element_count_from_ok:
  assumes "0 \<notin> set ds" and "count * prod_list ds < 2 ^ 64"
  shows "element_count_from shape count ds = Inr (count * prod_list ds)"
  using assms
proof (induction ds arbitrary: count)
  case Nil
  then show ?case by simp
next
  case (Cons d ds)
  from Cons.prems(1) have "1 \<le> prod_list ds"
    by (simp add: Suc_leI prod_list_zero_iff flip: neq0_conv)
  then have "count * d \<le> count * d * prod_list ds"
    by (metis mult.right_neutral mult_le_mono2)
  also have "count * d * prod_list ds < 2 ^ 64"
    using Cons.prems(2) by (simp add: mult.assoc)
  finally have small: "count * d < 2 ^ 64" .
  from Cons.prems have "element_count_from shape (count * d) ds = Inr (count * d * prod_list ds)"
    by (intro Cons.IH) (simp_all add: mult.assoc)
  with small show ?case by (simp add: usize_checked_mul_def mult.assoc)
qed

lemma element_count_ok:
  "0 \<notin> set shape \<Longrightarrow> prod_list shape < 2 ^ 64 \<Longrightarrow> element_count shape = Inr (prod_list shape)"
  unfolding element_count_def by (subst element_count_from_ok) auto

lemma packet_new_Inr:
  "packet_new shape vs = Inr p \<longleftrightarrow>
     element_count shape = Inr (length vs) \<and> p = \<lparr>p_shape = shape, p_values = vs\<rparr>"
  by (auto simp: packet_new_def split: if_splits)

lemma packet_new_wf: "packet_new shape vs = Inr p \<Longrightarrow> wf_packet p"
  by (simp add: packet_new_Inr wf_packet_def)

lemma from_tensor_Inr:
  "from_tensor t = Inr p \<longleftrightarrow>
     t_device t = Cpu \<and> t_dtype t = F32 \<and> element_count (t_dims t) = Inr (length (t_values t))
     \<and> p = \<lparr>p_shape = t_dims t, p_values = t_values t\<rparr>"
  by (auto simp: from_tensor_def packet_new_Inr flatten_all_def)

lemma to_tensor_wf:
  "wf_packet p \<Longrightarrow> to_tensor p = Inr (cpu_f32 (p_shape p) (p_values p))"
  unfolding wf_packet_def to_tensor_def from_vec_def
  using element_count_Inr by force

lemma cpu_f32_eta:
  "t_device t = Cpu \<Longrightarrow> t_dtype t = F32 \<Longrightarrow> cpu_f32 (t_dims t) (t_values t) = t"
  by (simp add: cpu_f32_def)

lemma cpu_f32_sel [simp]:
  "t_dims (cpu_f32 ds vs) = ds" "t_values (cpu_f32 ds vs) = vs"
  "t_device (cpu_f32 ds vs) = Cpu" "t_dtype (cpu_f32 ds vs) = F32"
  by (simp_all add: cpu_f32_def)

text \<open>The boundary copies: packing and unpacking gives the tensor back unchanged.\<close>

lemma to_tensor_from_tensor:
  assumes "from_tensor t = Inr p" shows "to_tensor p = Inr t"
proof -
  from assms have "wf_packet p" by (auto simp: from_tensor_Inr wf_packet_def)
  then have "to_tensor p = Inr (cpu_f32 (p_shape p) (p_values p))" by (rule to_tensor_wf)
  also have "cpu_f32 (p_shape p) (p_values p) = t"
    using assms by (auto simp: from_tensor_Inr cpu_f32_eta)
  finally show ?thesis .
qed

lemma from_tensor_to_tensor:
  assumes "wf_packet p" and "to_tensor p = Inr t" shows "from_tensor t = Inr p"
  using assms to_tensor_wf [OF assms(1)]
  by (auto simp: from_tensor_Inr wf_packet_def)

lemma narrow_shape:
  assumes "axis < length (t_dims t)" "i + n \<le> t_dims t ! axis"
  shows "\<exists>vs. narrow t axis i n = Inr (t\<lparr>t_dims := (t_dims t)[axis := n], t_values := vs\<rparr>)"
proof (cases "i = 0 \<and> t_dims t ! axis = n")
  case True
  then have "narrow t axis i n = Inr t" using assms by (simp add: narrow_def Let_def)
  then show ?thesis using True by (intro exI [of _ "t_values t"]) auto
next
  case False
  then show ?thesis using assms by (simp add: narrow_def Let_def) blast
qed

end
