(* ===== verification/Transport.thy ===== *)
theory Transport
  imports Packets
begin

text \<open>
  The point-to-point contract (\<open>crates/collectives/src/transport.rs\<close>): frames, payloads,
  and the mailbox view of a receive. A receive names one source and one tag and takes the
  oldest matching packet from that source; frames it passes over stay available. The
  locale \<open>mailbox_transport\<close> states this contract over an abstraction function; the
  in-memory and the TCP endpoint both interpret it, and the world semantics of rank
  programs is written over mailboxes only.
\<close>

section \<open>Frames\<close>

datatype 'v message_payload = TensorPayload "'v tensor_packet" | ControlPayload control_packet

record 'v message_frame =
  f_source :: usize
  f_destination :: usize
  f_tag :: message_tag
  f_payload :: "'v message_payload"

datatype payload_kind = TensorKind | ControlKind

fun kind_of :: "'v message_payload \<Rightarrow> payload_kind" where
  "kind_of (TensorPayload p) = TensorKind"
| "kind_of (ControlPayload p) = ControlKind"

section \<open>Mailboxes\<close>

type_synonym 'v mail = "message_tag \<times> 'v message_payload"

definition mail_matches :: "payload_kind \<Rightarrow> message_tag \<Rightarrow> 'v mail \<Rightarrow> bool" where
  "mail_matches q t m \<longleftrightarrow> fst m = t \<and> kind_of (snd m) = q"

definition take_mail ::
  "payload_kind \<Rightarrow> message_tag \<Rightarrow> 'v mail list \<Rightarrow> ('v message_payload \<times> 'v mail list) option" where
  "take_mail q t ms = map_option (\<lambda>(m, rest). (snd m, rest)) (extract_first (mail_matches q t) ms)"

lemma take_mail_hit [simp]:
  "kind_of p = q \<Longrightarrow> take_mail q t ((t, p) # ms) = Some (p, ms)"
  by (simp add: take_mail_def mail_matches_def)

lemma take_mail_Nil [simp]: "take_mail q t [] = None"
  by (simp add: take_mail_def)

lemma take_mail_append:
  "take_mail q t ms = Some (p, ms') \<Longrightarrow> take_mail q t (ms @ ns) = Some (p, ms' @ ns)"
  by (auto simp: take_mail_def extract_first_append)

lemma take_mail_kind: "take_mail q t ms = Some (p, ms') \<Longrightarrow> kind_of p = q"
  by (auto simp: take_mail_def mail_matches_def dest!: extract_first_Some_split)

text \<open>Messages of other tags or kinds are neither lost nor reordered.\<close>

lemma take_mail_others:
  assumes "take_mail q t ms = Some (p, ms')"
  shows "filter (\<lambda>m. \<not> mail_matches q t m) ms' = filter (\<lambda>m. \<not> mail_matches q t m) ms"
  using assms by (auto simp: take_mail_def dest!: extract_first_Some_split)

section \<open>The transport contract\<close>

text \<open>
  \<open>box e s\<close> is the mailbox of endpoint \<open>e\<close> for source \<open>s\<close>: what has been put aside and
  what is still in the channel. \<open>deliver\<close> is the arrival of one frame, \<open>receive\<close> the
  source/tag receive; its result is \<open>None\<close> where the call has to give up, and the endpoint
  it leaves behind then has the same mailboxes.
\<close>

locale mailbox_transport =
  fixes box :: "'e \<Rightarrow> usize \<Rightarrow> 'v mail list"
    and peers :: "'e \<Rightarrow> usize set"
    and deliver :: "usize \<Rightarrow> 'v mail \<Rightarrow> 'e \<Rightarrow> 'e"
    and receive :: "payload_kind \<Rightarrow> usize \<Rightarrow> message_tag \<Rightarrow> 'e \<Rightarrow> 'v message_payload option \<times> 'e"
    and invar :: "'e \<Rightarrow> bool"
    and fits :: "'e \<Rightarrow> 'v mail \<Rightarrow> bool"
  assumes deliver_box:
      "invar e \<Longrightarrow> s \<in> peers e \<Longrightarrow> fits e m \<Longrightarrow>
         box (deliver s m e) s' = (if s' = s then box e s @ [m] else box e s')"
    and deliver_invar: "invar e \<Longrightarrow> s \<in> peers e \<Longrightarrow> fits e m \<Longrightarrow>
         invar (deliver s m e) \<and> peers (deliver s m e) = peers e"
    and receive_Some:
      "invar e \<Longrightarrow> s \<in> peers e \<Longrightarrow> receive q s t e = (Some p, e') \<Longrightarrow>
         take_mail q t (box e s) = Some (p, box e' s) \<and> (\<forall>s'. s' \<noteq> s \<longrightarrow> box e' s' = box e s')"
    and receive_None:
      "invar e \<Longrightarrow> s \<in> peers e \<Longrightarrow> receive q s t e = (None, e') \<Longrightarrow>
         take_mail q t (box e s) = None \<and> box e' = box e"
    and receive_invar:
      "invar e \<Longrightarrow> s \<in> peers e \<Longrightarrow> receive q s t e = (r, e') \<Longrightarrow> invar e' \<and> peers e' = peers e"
begin

lemma receive_iff_available:
  assumes "invar e" "s \<in> peers e"
  shows "fst (receive q s t e) = Some p \<longleftrightarrow> (\<exists>ms. take_mail q t (box e s) = Some (p, ms))"
proof (cases "receive q s t e")
  case (Pair r e')
  show ?thesis
  proof (cases r)
    case None
    with receive_None [OF assms] Pair show ?thesis by fastforce
  next
    case (Some p')
    with receive_Some [OF assms, of q t p' e'] Pair show ?thesis by auto
  qed
qed

text \<open>First in, first out for each source, tag and kind.\<close>

lemma receive_after_delivers:
  assumes "invar e" "s \<in> peers e" "fits e (t, p)" and "take_mail q t (box e s) = None" and "kind_of p = q"
  shows "\<exists>e'. receive q s t (deliver s (t, p) e) = (Some p, e') \<and> box e' = box e"
proof -
  let ?e = "deliver s (t, p) e"
  have e: "invar ?e" "s \<in> peers ?e" using deliver_invar [OF assms(1-3)] assms(2) by auto
  have "extract_first (mail_matches q t) (box e s) = None"
    using assms(4) by (simp add: take_mail_def)
  then have taken: "take_mail q t (box ?e s) = Some (p, box e s)"
    using assms(1-3,5)
    by (simp add: deliver_box take_mail_def extract_first_append mail_matches_def
        del: extract_first_None)
  then have "fst (receive q s t ?e) = Some p" using receive_iff_available [OF e] by blast
  then obtain e' where r: "receive q s t ?e = (Some p, e')" by (metis prod.collapse)
  note receive_Some [OF e r]
  then have "box e' s = box e s" "\<forall>s'. s' \<noteq> s \<longrightarrow> box e' s' = box e s'"
    using taken deliver_box [OF assms(1-3)] by auto
  with r show ?thesis by (metis ext)
qed

text \<open>A receive leaves every message it did not ask for in place.\<close>

lemma receive_keeps_others:
  assumes "invar e" "s \<in> peers e" and "receive q s t e = (r, e')" and "\<not> mail_matches q t m"
  shows "count_list (box e' s') m = count_list (box e s') m"
proof (cases r)
  case None
  then show ?thesis using receive_None [OF assms(1,2)] assms(3) by simp
next
  case (Some p)
  with assms(3) have r: "receive q s t e = (Some p, e')" by simp
  show ?thesis
  proof (cases "s' = s")
    case True
    have "take_mail q t (box e s) = Some (p, box e' s)"
      using receive_Some [OF assms(1,2) r] by blast
    then obtain us vs x where "box e s = us @ x # vs" "box e' s = us @ vs" "mail_matches q t x"
      by (auto simp: take_mail_def dest!: extract_first_Some_split)
    with assms(4) True show ?thesis by auto
  next
    case False
    then show ?thesis using receive_Some [OF assms(1,2) r] by simp
  qed
qed

end

end
