(* ===== verification/World.thy ===== *)
theory World
  imports Transport
begin

text \<open>
  Rank programs and the world they run in. A rank's code, between two points where it
  blocks, is sequential; \<open>prog\<close> is that code as a resumption: return, fail, send and go
  on, receive from one source with one tag, or enter the barrier. A world holds one
  program per rank and one mailbox per ordered rank pair (the contract of
  \<open>crates/collectives/src/transport.rs\<close>); a step lets any one rank move, so a run is an
  arbitrary interleaving of the rank threads (\<open>run_in_memory\<close>) or processes.

  The main result is generic: steps of different ranks commute, hence if one schedule
  brings a world to the end, every schedule does, in the same number of steps and with
  the same results. Every collective is then proved by exhibiting one schedule.
\<close>

section \<open>Rank programs\<close>

datatype ('v, 'r) prog =
    Ret 'r
  | Fail collectives_error
  | Send usize message_tag "'v message_payload" "('v, 'r) prog"
  | Recv usize payload_kind message_tag "'v message_payload \<Rightarrow> ('v, 'r) prog"
  | Barrier "('v, 'r) prog"

primrec pbind :: "('v, 'a) prog \<Rightarrow> ('a \<Rightarrow> ('v, 'b) prog) \<Rightarrow> ('v, 'b) prog" where
  "pbind (Ret x) f = f x"
| "pbind (Fail e) f = Fail e"
| "pbind (Send d t p k) f = Send d t p (pbind k f)"
| "pbind (Recv s q t k) f = Recv s q t (\<lambda>p. pbind (k p) f)"
| "pbind (Barrier k) f = Barrier (pbind k f)"

fun lift_result :: "'a cresult \<Rightarrow> ('v, 'a) prog" where
  "lift_result (Inl e) = Fail e"
| "lift_result (Inr x) = Ret x"

fun is_barrier :: "('v, 'r) prog \<Rightarrow> bool" where
  "is_barrier (Barrier k) = True"
| "is_barrier _ = False"

fun after_barrier :: "('v, 'r) prog \<Rightarrow> ('v, 'r) prog" where
  "after_barrier (Barrier k) = k"
| "after_barrier p = p"

lemma pbind_assoc: "pbind (pbind m f) g = pbind m (\<lambda>x. pbind (f x) g)"
  by (induction m) auto

lemma pbind_Ret [simp]: "pbind m Ret = m"
  by (induction m) auto

lemma is_barrier_pbind [simp]: "is_barrier m \<Longrightarrow> is_barrier (pbind m f)"
  by (cases m) auto

lemma after_barrier_pbind [simp]:
  "is_barrier m \<Longrightarrow> after_barrier (pbind m f) = pbind (after_barrier m) f"
  by (cases m) auto

section \<open>Worlds and steps\<close>

record ('v, 'r) world =
  progs :: "usize \<Rightarrow> ('v, 'r) prog"
  mail :: "usize \<Rightarrow> usize \<Rightarrow> 'v mail list"

abbreviation put_mail ::
  "usize \<Rightarrow> usize \<Rightarrow> 'v mail list \<Rightarrow> (usize \<Rightarrow> usize \<Rightarrow> 'v mail list) \<Rightarrow> usize \<Rightarrow> usize \<Rightarrow> 'v mail list" where
  "put_mail s d ms m \<equiv> m(s := (m s)(d := ms))"

definition exec_rank :: "nat \<Rightarrow> usize \<Rightarrow> ('v, 'r) world \<Rightarrow> ('v, 'r) world option" where
  "exec_rank W r w =
     (case progs w r of
        Ret x \<Rightarrow> None
      | Fail e \<Rightarrow> None
      | Send d t p k \<Rightarrow>
          Some (w\<lparr>progs := (progs w)(r := k), mail := put_mail r d (mail w r d @ [(t, p)]) (mail w)\<rparr>)
      | Recv s q t k \<Rightarrow>
          (case take_mail q t (mail w s r) of
             None \<Rightarrow> None
           | Some (p, rest) \<Rightarrow>
               Some (w\<lparr>progs := (progs w)(r := k p), mail := put_mail s r rest (mail w)\<rparr>))
      | Barrier k \<Rightarrow>
          (if \<forall>i < W. is_barrier (progs w i)
           then Some (w\<lparr>progs := (\<lambda>i. if i < W then after_barrier (progs w i) else progs w i)\<rparr>)
           else None))"

inductive world_step :: "nat \<Rightarrow> ('v, 'r) world \<Rightarrow> ('v, 'r) world \<Rightarrow> bool" for W where
  rank_moves: "r < W \<Longrightarrow> exec_rank W r w = Some w' \<Longrightarrow> world_step W w w'"

inductive_cases world_stepE: "world_step W w w'"

section \<open>Independent steps commute\<close>

lemma exec_send:
  "progs w r = Send d t p k \<Longrightarrow>
     exec_rank W r w =
       Some (w\<lparr>progs := (progs w)(r := k), mail := put_mail r d (mail w r d @ [(t, p)]) (mail w)\<rparr>)"
  by (simp add: exec_rank_def)

lemma exec_recv:
  "progs w r = Recv s q t k \<Longrightarrow> take_mail q t (mail w s r) = Some (p, rest) \<Longrightarrow>
     exec_rank W r w = Some (w\<lparr>progs := (progs w)(r := k p), mail := put_mail s r rest (mail w)\<rparr>)"
  by (simp add: exec_rank_def)

lemma exec_barrier_all:
  assumes "exec_rank W r w = Some w'" "is_barrier (progs w r)" "exec_rank W i w = Some u" "i < W"
  shows "u = w'"
proof -
  from assms(1,2) have "\<forall>i < W. is_barrier (progs w i)"
    and w': "w' = w\<lparr>progs := (\<lambda>i. if i < W then after_barrier (progs w i) else progs w i)\<rparr>"
    by (auto simp: exec_rank_def split: prog.splits if_splits option.splits)
  with assms(3,4) show ?thesis
    by (auto simp: exec_rank_def split: prog.splits if_splits option.splits)
qed

lemma exec_cases:
  assumes "exec_rank W r w = Some w'" "\<not> is_barrier (progs w r)"
  obtains (send) d t p k where "progs w r = Send d t p k"
      "w' = w\<lparr>progs := (progs w)(r := k), mail := put_mail r d (mail w r d @ [(t, p)]) (mail w)\<rparr>"
  | (recv) s q t k p rest where "progs w r = Recv s q t k" "take_mail q t (mail w s r) = Some (p, rest)"
      "w' = w\<lparr>progs := (progs w)(r := k p), mail := put_mail s r rest (mail w)\<rparr>"
  using assms by (auto simp: exec_rank_def split: prog.splits option.splits)

lemma exec_commute:
  assumes r: "exec_rank W r w = Some a" "\<not> is_barrier (progs w r)"
    and i: "exec_rank W i w = Some b" "\<not> is_barrier (progs w i)" and ne: "r \<noteq> i"
  shows "\<exists>c. exec_rank W i a = Some c \<and> exec_rank W r b = Some c"
proof (use r in \<open>cases rule: exec_cases\<close>)
  case R: (send d t p k)
  show ?thesis
  proof (use i in \<open>cases rule: exec_cases\<close>)
    case (send d' t' p' k')
    with R ne show ?thesis by (simp add: exec_rank_def fun_upd_twist)
  next
    case (recv s q t' k' p' rest)
    with R ne show ?thesis
      by (cases "s = r \<and> d = i") (auto simp: exec_rank_def take_mail_append fun_upd_twist)
  qed
next
  case R: (recv s q t k p rest)
  show ?thesis
  proof (use i in \<open>cases rule: exec_cases\<close>)
    case (send d' t' p' k')
    with R ne show ?thesis
      by (cases "s = i \<and> d' = r") (auto simp: exec_rank_def take_mail_append fun_upd_twist)
  next
    case (recv s' q' t' k' p' rest')
    have mail_a: "mail a s' i = mail w s' i" and mail_b: "mail b s r = mail w s r"
      and prog_a: "progs a i = progs w i" and prog_b: "progs b r = progs w r"
      using R(3) recv(3) ne by auto
    have ea: "exec_rank W i a = Some (a\<lparr>progs := (progs a)(i := k' p'), mail := put_mail s' i rest' (mail a)\<rparr>)"
      using recv(1,2) mail_a prog_a by (simp add: exec_recv)
    have eb: "exec_rank W r b = Some (b\<lparr>progs := (progs b)(r := k p), mail := put_mail s r rest (mail b)\<rparr>)"
      using R(1,2) mail_b prog_b by (simp add: exec_recv)
    have eq: "a\<lparr>progs := (progs a)(i := k' p'), mail := put_mail s' i rest' (mail a)\<rparr> =
        b\<lparr>progs := (progs b)(r := k p), mail := put_mail s r rest (mail b)\<rparr>"
      by (rule world.equality) (use R(3) recv(3) ne in \<open>simp_all add: fun_eq_iff\<close>)
    show ?thesis by (intro exI conjI, rule ea, subst eq, rule eb)
  qed
qed

lemma world_step_diamond:
  assumes "world_step W w a" "world_step W w b"
  shows "a = b \<or> (\<exists>c. world_step W a c \<and> world_step W b c)"
proof -
  from assms(1) obtain r where r: "r < W" "exec_rank W r w = Some a" by (rule world_stepE)
  from assms(2) obtain i where i: "i < W" "exec_rank W i w = Some b" by (rule world_stepE)
  consider "r = i" | "is_barrier (progs w r)" | "is_barrier (progs w i)"
    | "r \<noteq> i" "\<not> is_barrier (progs w r)" "\<not> is_barrier (progs w i)" by blast
  then show ?thesis
  proof cases
    case 1
    with r(2) i(2) show ?thesis by simp
  next
    case 2
    from exec_barrier_all [OF r(2) this i(2,1)] show ?thesis by simp
  next
    case 3
    from exec_barrier_all [OF i(2) this r(2,1)] show ?thesis by simp
  next
    case 4
    with exec_commute [OF r(2) _ i(2)] r(1) i(1) show ?thesis
      by (blast intro: rank_moves)
  qed
qed


text \<open>
  Steps that commute this way make the end state unique: once one run reaches a state
  without successors, every other run is a prefix of a run of the same length to it.
\<close>

locale commuting_steps =
  fixes step :: "'w \<Rightarrow> 'w \<Rightarrow> bool"
  assumes diamond: "step w a \<Longrightarrow> step w b \<Longrightarrow> a = b \<or> (\<exists>c. step a c \<and> step b c)"
begin

lemma step_towards_end:
  assumes "(step ^^ n) w t" and "\<And>u. \<not> step t u" and "step w a"
  shows "\<exists>k. n = Suc k \<and> (step ^^ k) a t"
  using assms(1,3)
proof (induction n arbitrary: w a)
  case 0
  with assms(2) show ?case by simp
next
  case (Suc n)
  from relpowp_Suc_D2 [OF Suc.prems(1)] obtain b where b: "step w b" "(step ^^ n) b t" by blast
  from diamond [OF Suc.prems(2) b(1)] consider "a = b" | c where "step a c" "step b c" by blast
  then show ?case
  proof cases
    case 1
    with b(2) show ?thesis by auto
  next
    case (2 c)
    from Suc.IH [OF b(2) 2(2)] obtain k where "n = Suc k" "(step ^^ k) c t" by blast
    with 2(1) show ?thesis using relpowp_Suc_I2 [of step a c k t] by blast
  qed
qed

lemma every_run_ends:
  assumes "(step ^^ n) w t" and "\<And>u. \<not> step t u" and "(step ^^ m) w u"
  shows "m \<le> n \<and> (step ^^ (n - m)) u t"
  using assms(1,3)
proof (induction m arbitrary: n w)
  case 0
  then show ?case by simp
next
  case (Suc m)
  from relpowp_Suc_D2 [OF Suc.prems(2)] obtain a where a: "step w a" "(step ^^ m) a u" by blast
  from step_towards_end [OF Suc.prems(1) assms(2) a(1)]
  obtain k where k: "n = Suc k" "(step ^^ k) a t" by blast
  from Suc.IH [OF k(2) a(2)] k(1) show ?case by simp
qed

end

interpretation ws: commuting_steps "world_step W" for W
  by unfold_locales (rule world_step_diamond)

section \<open>Complete runs\<close>

text \<open>
  \<open>start W f\<close>: rank \<open>r < W\<close> is about to run \<open>f r\<close> and no message is under way.
  \<open>all_runs_return W f res\<close>: whatever the schedule, the run ends after the same number of
  steps, every rank \<open>r\<close> returns \<open>res r\<close> and no message is left behind; no schedule
  deadlocks, fails or runs forever.
\<close>

definition start :: "nat \<Rightarrow> (usize \<Rightarrow> ('v, 'r) prog) \<Rightarrow> ('v, 'r) world" where
  "start W f = \<lparr>progs = (\<lambda>r. if r < W then f r else Fail InvalidWorldSize), mail = (\<lambda>_ _. [])\<rparr>"

definition all_runs_return :: "nat \<Rightarrow> (usize \<Rightarrow> ('v, 'r) prog) \<Rightarrow> (usize \<Rightarrow> 'r) \<Rightarrow> bool" where
  "all_runs_return W f res \<longleftrightarrow>
     (\<exists>n. \<forall>m u. (world_step W ^^ m) (start W f) u \<longrightarrow>
        m \<le> n \<and> (world_step W ^^ (n - m)) u (start W (\<lambda>r. Ret (res r))))"

abbreviation reach :: "nat \<Rightarrow> ('v, 'r) world \<Rightarrow> ('v, 'r) world \<Rightarrow> bool" where
  "reach W \<equiv> (world_step W)\<^sup>*\<^sup>*"

definition computes :: "nat \<Rightarrow> (usize \<Rightarrow> ('v, 'r) prog) \<Rightarrow> (usize \<Rightarrow> 'r) \<Rightarrow> bool" where
  "computes W f res \<longleftrightarrow> reach W (start W f) (start W (\<lambda>r. Ret (res r)))"

lemma start_cong: "(\<And>r. r < W \<Longrightarrow> f r = g r) \<Longrightarrow> start W f = start W g"
  by (auto simp: start_def)

lemma computes_cong:
  "(\<And>r. r < W \<Longrightarrow> f r = g r) \<Longrightarrow> (\<And>r. r < W \<Longrightarrow> res r = res' r) \<Longrightarrow> computes W f res = computes W g res'"
  unfolding computes_def
  by (intro arg_cong2 [where f = "reach W"] start_cong) auto

lemma returned_world_stuck: "\<not> world_step W (start W (\<lambda>r. Ret (res r))) u"
  by (auto simp: start_def exec_rank_def elim!: world_stepE)

lemma computes_all_runs: "computes W f res \<Longrightarrow> all_runs_return W f res"
  unfolding computes_def all_runs_return_def
  using ws.every_run_ends [OF _ returned_world_stuck] rtranclp_imp_relpowp by metis

lemma computes_Ret: "computes W (\<lambda>r. Ret (res r)) res"
  by (simp add: computes_def)

subsection \<open>Sequential composition\<close>

definition bindw :: "(usize \<Rightarrow> 'a \<Rightarrow> ('v, 'b) prog) \<Rightarrow> ('v, 'a) world \<Rightarrow> ('v, 'b) world" where
  "bindw K w = \<lparr>progs = (\<lambda>r. pbind (progs w r) (K r)), mail = mail w\<rparr>"

lemma bindw_start: "bindw K (start W f) = start W (\<lambda>r. pbind (f r) (K r))"
  by (auto simp: bindw_def start_def)

lemma bindw_step: "world_step W w w' \<Longrightarrow> world_step W (bindw K w) (bindw K w')"
proof (elim world_stepE)
  fix r assume r: "r < W" "exec_rank W r w = Some w'"
  have "exec_rank W r (bindw K w) = Some (bindw K w')"
  proof (cases "is_barrier (progs w r)")
    case True
    with r(2) have "\<forall>i < W. is_barrier (progs w i)"
      "w' = w\<lparr>progs := (\<lambda>i. if i < W then after_barrier (progs w i) else progs w i)\<rparr>"
      by (auto simp: exec_rank_def split: prog.splits if_splits option.splits)
    with True show ?thesis
      by (cases "progs w r") (auto simp: exec_rank_def bindw_def)
  next
    case False
    show ?thesis
      using exec_cases [OF r(2) False] by cases (auto simp: exec_rank_def bindw_def)
  qed
  with r(1) show ?thesis by (rule rank_moves)
qed

lemma bindw_reach: "reach W w w' \<Longrightarrow> reach W (bindw K w) (bindw K w')"
  by (induction rule: rtranclp_induct) (auto intro: bindw_step rtranclp.rtrancl_into_rtrancl)

lemma computes_bind:
  assumes "computes W f res" and "computes W (\<lambda>r. K r (res r)) res'"
  shows "computes W (\<lambda>r. pbind (f r) (K r)) res'"
proof -
  from assms(1) have "reach W (bindw K (start W f)) (bindw K (start W (\<lambda>r. Ret (res r))))"
    unfolding computes_def by (rule bindw_reach)
  then have "reach W (start W (\<lambda>r. pbind (f r) (K r))) (start W (\<lambda>r. K r (res r)))"
    by (simp add: bindw_start)
  from rtranclp_trans [OF this] assms(2) show ?thesis unfolding computes_def by blast
qed

subsection \<open>Communication loops\<close>

text \<open>
  \<open>send_loop\<close>: send one payload to each destination in turn; \<open>recv_loop\<close>: receive from
  each source in turn, folding what arrives into an accumulator and failing where the
  fold does.
\<close>

fun send_loop ::
  "message_tag \<Rightarrow> (usize \<Rightarrow> 'v message_payload) \<Rightarrow> usize list \<Rightarrow> ('v, 'r) prog \<Rightarrow> ('v, 'r) prog" where
  "send_loop t x [] k = k"
| "send_loop t x (d # ds) k = Send d t (x d) (send_loop t x ds k)"

fun recv_loop ::
  "payload_kind \<Rightarrow> message_tag \<Rightarrow> (usize \<Rightarrow> 'a \<Rightarrow> 'v message_payload \<Rightarrow> 'a cresult) \<Rightarrow> usize list \<Rightarrow> 'a \<Rightarrow>
     ('a \<Rightarrow> ('v, 'r) prog) \<Rightarrow> ('v, 'r) prog" where
  "recv_loop q t f [] acc k = k acc"
| "recv_loop q t f (s # ss) acc k =
     Recv s q t (\<lambda>p. case f s acc p of Inl e \<Rightarrow> Fail e | Inr acc' \<Rightarrow> recv_loop q t f ss acc' k)"

fun foldr_result :: "('b \<Rightarrow> 'a \<Rightarrow> 'e + 'a) \<Rightarrow> 'a \<Rightarrow> 'b list \<Rightarrow> 'e + 'a" where
  "foldr_result f acc [] = Inr acc"
| "foldr_result f acc (x # xs) = rbind (f x acc) (\<lambda>acc'. foldr_result f acc' xs)"

lemma reach_send:
  "r < W \<Longrightarrow> progs w r = Send d t p k \<Longrightarrow>
     reach W w (w\<lparr>progs := (progs w)(r := k), mail := put_mail r d (mail w r d @ [(t, p)]) (mail w)\<rparr>)"
  by (blast intro: rank_moves exec_send)

lemma reach_recv:
  "r < W \<Longrightarrow> progs w r = Recv s q t k \<Longrightarrow> take_mail q t (mail w s r) = Some (p, rest) \<Longrightarrow>
     reach W w (w\<lparr>progs := (progs w)(r := k p), mail := put_mail s r rest (mail w)\<rparr>)"
  by (blast intro: rank_moves exec_recv)

lemma par_send:
  assumes "distinct rs" and "\<And>r. r \<in> set rs \<Longrightarrow> r < W \<and> progs w r = Send (d r) (t r) (x r) (k r)"
  shows "reach W w (w\<lparr>progs := (\<lambda>r. if r \<in> set rs then k r else progs w r),
     mail := (\<lambda>a b. if a \<in> set rs \<and> b = d a then mail w a b @ [(t a, x a)] else mail w a b)\<rparr>)"
  using assms
proof (induction rs arbitrary: w)
  case Nil
  then show ?case by simp
next
  case (Cons r rs)
  let ?w = "w\<lparr>progs := (progs w)(r := k r), mail := put_mail r (d r) (mail w r (d r) @ [(t r, x r)]) (mail w)\<rparr>"
  have first: "reach W w ?w" using Cons.prems by (intro reach_send) auto
  have "r' < W \<and> progs ?w r' = Send (d r') (t r') (x r') (k r')" if "r' \<in> set rs" for r'
    using that Cons.prems by auto
  note rest = Cons.IH [of ?w, OF _ this]
  show ?case
    by (rule rtranclp_trans [OF first], rule back_subst [where P = "reach W ?w", OF rest])
       (use Cons.prems(1) in \<open>auto simp: fun_eq_iff\<close>)
qed

lemma par_recv:
  assumes "distinct rs"
    and "\<And>r. r \<in> set rs \<Longrightarrow> r < W \<and> progs w r = Recv (s r) (q r) (t r) (k r)"
    and "\<And>r. r \<in> set rs \<Longrightarrow> take_mail (q r) (t r) (mail w (s r) r) = Some (p r, m r)"
  shows "reach W w (w\<lparr>progs := (\<lambda>r. if r \<in> set rs then k r (p r) else progs w r),
     mail := (\<lambda>a b. if b \<in> set rs \<and> a = s b then m b else mail w a b)\<rparr>)"
  using assms
proof (induction rs arbitrary: w)
  case Nil
  then show ?case by simp
next
  case (Cons r rs)
  let ?w = "w\<lparr>progs := (progs w)(r := k r (p r)), mail := put_mail (s r) r (m r) (mail w)\<rparr>"
  have first: "reach W w ?w" using Cons.prems by (intro reach_recv) auto
  have 1: "r' < W \<and> progs ?w r' = Recv (s r') (q r') (t r') (k r')" if "r' \<in> set rs" for r'
    using that Cons.prems by auto
  have 2: "take_mail (q r') (t r') (mail ?w (s r') r') = Some (p r', m r')" if "r' \<in> set rs" for r'
  proof -
    from that Cons.prems(1) have "r' \<noteq> r" by auto
    then show ?thesis using that Cons.prems(3) [of r'] by auto
  qed
  note rest = Cons.IH [of ?w, OF _ 1 2]
  show ?case
    by (rule rtranclp_trans [OF first], rule back_subst [where P = "reach W ?w", OF rest])
       (use Cons.prems(1) in \<open>auto simp: fun_eq_iff\<close>)
qed

lemma reach_send_loop:
  assumes "distinct ds" "r < W" "progs w r = send_loop t x ds k"
  shows "reach W w (w\<lparr>progs := (progs w)(r := k),
     mail := (\<lambda>a b. if a = r \<and> b \<in> set ds then mail w a b @ [(t, x b)] else mail w a b)\<rparr>)"
  using assms
proof (induction ds arbitrary: w)
  case Nil
  then show ?case by (simp add: fun_upd_idem)
next
  case (Cons d ds)
  let ?w = "w\<lparr>progs := (progs w)(r := send_loop t x ds k), mail := put_mail r d (mail w r d @ [(t, x d)]) (mail w)\<rparr>"
  have first: "reach W w ?w" using Cons.prems by (intro reach_send) auto
  have rest: "reach W ?w (?w\<lparr>progs := (progs ?w)(r := k),
     mail := (\<lambda>a b. if a = r \<and> b \<in> set ds then mail ?w a b @ [(t, x b)] else mail ?w a b)\<rparr>)"
    using Cons.prems by (intro Cons.IH) auto
  show ?case
    by (rule rtranclp_trans [OF first], rule back_subst [where P = "reach W ?w", OF rest])
       (use Cons.prems(1) in \<open>auto simp: fun_eq_iff\<close>)
qed

lemma reach_recv_loop:
  assumes "distinct ss" "r < W" "progs w r = recv_loop q t f ss acc k"
    and "\<And>s. s \<in> set ss \<Longrightarrow> take_mail q t (mail w s r) = Some (p s, m s)"
    and "foldr_result (\<lambda>s a. f s a (p s)) acc ss = Inr acc'"
  shows "reach W w (w\<lparr>progs := (progs w)(r := k acc'),
     mail := (\<lambda>a b. if b = r \<and> a \<in> set ss then m a else mail w a b)\<rparr>)"
  using assms
proof (induction ss arbitrary: w acc)
  case Nil
  then show ?case by (simp add: fun_upd_idem)
next
  case (Cons s ss)
  from Cons.prems(5) obtain acc1 where acc1: "f s acc (p s) = Inr acc1"
    and acc': "foldr_result (\<lambda>s a. f s a (p s)) acc1 ss = Inr acc'" by auto
  let ?w = "w\<lparr>progs := (progs w)(r := recv_loop q t f ss acc1 k), mail := put_mail s r (m s) (mail w)\<rparr>"
  have "reach W w (w\<lparr>progs := (progs w)(r := (case f s acc (p s) of Inl e \<Rightarrow> Fail e
            | Inr acc' \<Rightarrow> recv_loop q t f ss acc' k)), mail := put_mail s r (m s) (mail w)\<rparr>)"
    using Cons.prems by (intro reach_recv [where k = "\<lambda>p. case f s acc p of Inl e \<Rightarrow> Fail e
            | Inr acc' \<Rightarrow> recv_loop q t f ss acc' k"]) auto
  then have first: "reach W w ?w" by (simp add: acc1)
  have rest: "reach W ?w (?w\<lparr>progs := (progs ?w)(r := k acc'),
     mail := (\<lambda>a b. if b = r \<and> a \<in> set ss then m a else mail ?w a b)\<rparr>)"
    using Cons.prems acc' by (intro Cons.IH) auto
  show ?case
    by (rule rtranclp_trans [OF first], rule back_subst [where P = "reach W ?w", OF rest])
       (use Cons.prems(1) in \<open>auto simp: fun_eq_iff\<close>)
qed

section \<open>Programs whose own errors are values\<close>

text \<open>
  A communication error ends a rank with \<open>Fail\<close>; the errors of the code above the
  communicator are returned. \<open>pr_bind\<close> is \<open>?\<close> for such programs.
\<close>

definition pr_bind ::
  "('v, 'e + 'a) prog \<Rightarrow> ('a \<Rightarrow> ('v, 'e + 'b) prog) \<Rightarrow> ('v, 'e + 'b) prog" where
  "pr_bind m f = pbind m (\<lambda>r. case r of Inl e \<Rightarrow> Ret (Inl e) | Inr x \<Rightarrow> f x)"

lemma pr_bind_simps [simp]:
  "pr_bind (Ret (Inr x)) f = f x" "pr_bind (Ret (Inl e)) f = Ret (Inl e)"
  "pr_bind (Send d t p k) f = Send d t p (pr_bind k f)"
  "pr_bind (Recv s q t k') f = Recv s q t (\<lambda>p. pr_bind (k' p) f)"
  by (simp_all add: pr_bind_def)

lemma pr_bind_send_loop [simp]: "pr_bind (send_loop t x ds k) f = send_loop t x ds (pr_bind k f)"
  by (induction ds) simp_all

lemma pr_bind_pbind: "pr_bind (pbind m g) f = pbind m (\<lambda>x. pr_bind (g x) f)"
  by (simp add: pr_bind_def pbind_assoc)

lemma pr_bind_assoc: "pr_bind (pr_bind m g) f = pr_bind m (\<lambda>x. pr_bind (g x) f)"
proof -
  have "(\<lambda>r. pbind (case r of Inl e \<Rightarrow> Ret (Inl e) | Inr x \<Rightarrow> g x) (\<lambda>r. case r of Inl e \<Rightarrow> Ret (Inl e) | Inr x \<Rightarrow> f x)) =
      (\<lambda>r. case r of Inl e \<Rightarrow> Ret (Inl e) | Inr x \<Rightarrow> pbind (g x) (\<lambda>r. case r of Inl e \<Rightarrow> Ret (Inl e) | Inr x \<Rightarrow> f x))"
    by (auto simp: fun_eq_iff split: sum.splits)
  then show ?thesis by (simp add: pr_bind_def pbind_assoc)
qed

lemma computes_pr_bind:
  "computes W f (\<lambda>r. Inr (res r)) \<Longrightarrow> computes W (\<lambda>r. K r (res r)) res' \<Longrightarrow>
     computes W (\<lambda>r. pr_bind (f r) (K r)) res'"
  unfolding pr_bind_def by (rule computes_bind [where res = "\<lambda>r. Inr (res r)"]) simp_all

lemma computes_barrier:
  assumes "0 < W" "computes W f res"
  shows "computes W (\<lambda>r. Barrier (f r)) res"
proof -
  let ?w = "start W (\<lambda>r. Barrier (f r))"
  have "exec_rank W 0 ?w = Some (?w\<lparr>progs := (\<lambda>i. if i < W then after_barrier (progs ?w i) else progs ?w i)\<rparr>)"
    using assms(1) by (auto simp: exec_rank_def start_def)
  moreover have "?w\<lparr>progs := (\<lambda>i. if i < W then after_barrier (progs ?w i) else progs ?w i)\<rparr> = start W f"
    by (auto simp: start_def)
  ultimately have "world_step W ?w (start W f)" using assms(1) rank_moves by metis
  then show ?thesis using assms(2) unfolding computes_def by (rule converse_rtranclp_into_rtranclp)
qed

end
