(* ===== verification/Collectives.thy ===== *)
theory Collectives
  imports World
begin

unbundle bit_operations_syntax

text \<open>
  The native collectives (\<open>crates/collectives/src/collective.rs\<close>) over the tensor
  communicator (\<open>crates/collectives/src/communicator.rs\<close>): tag allocation, the call
  bookkeeping (\<open>begin\<close>/\<open>finish\<close>), and the six collectives as rank programs. Wall-clock
  durations of a trace are not modelled. The concurrent send thread of \<open>exchange\<close> is a
  send that does not block: the mailbox of a pair is unbounded.
\<close>

section \<open>Communicator\<close>

definition send_tensor :: "rank \<Rightarrow> usize \<Rightarrow> message_tag \<Rightarrow> 'v tensor \<Rightarrow> ('v, unit) prog" where
  "send_tensor rk destination tag t =
     pbind (lift_result (from_tensor t)) (\<lambda>p.
     pbind (lift_result (validate_peer rk destination)) (\<lambda>_.
       Send destination tag (TensorPayload p) (Ret ())))"

definition recv_tensor :: "rank \<Rightarrow> usize \<Rightarrow> message_tag \<Rightarrow> ('v, 'v tensor) prog" where
  "recv_tensor rk source tag =
     pbind (lift_result (validate_peer rk source)) (\<lambda>_.
       Recv source TensorKind tag (\<lambda>payload. case payload of
           TensorPayload p \<Rightarrow> lift_result (to_tensor p)
         | ControlPayload _ \<Rightarrow> Fail (Protocol ''matched tensor payload'')))"

definition send_control :: "rank \<Rightarrow> usize \<Rightarrow> message_tag \<Rightarrow> u8 list \<Rightarrow> ('v, unit) prog" where
  "send_control rk destination tag bytes =
     pbind (lift_result (control_packet_new bytes)) (\<lambda>p.
     pbind (lift_result (validate_peer rk destination)) (\<lambda>_.
       Send destination tag (ControlPayload p) (Ret ())))"

definition recv_control :: "rank \<Rightarrow> usize \<Rightarrow> message_tag \<Rightarrow> ('v, u8 list) prog" where
  "recv_control rk source tag =
     pbind (lift_result (validate_peer rk source)) (\<lambda>_.
       Recv source ControlKind tag (\<lambda>payload. case payload of
           ControlPayload p \<Rightarrow> Ret (packet_bytes p)
         | TensorPayload _ \<Rightarrow> Fail (Protocol ''matched control payload'')))"

section \<open>Kinds, tags and traces\<close>

datatype reduce_op = Sum

datatype all_reduce_algorithm = Centralized | Ring

datatype collective_kind = Broadcast | AllGather | Reduce | AllReduce | ReduceScatter | AllToAll

datatype collective_algorithm = DirectAlg | CentralizedAlg | PairwiseAlg | RingAlg

fun tag_id :: "collective_kind \<Rightarrow> u64" where
  "tag_id Broadcast = 1"
| "tag_id AllGather = 2"
| "tag_id Reduce = 3"
| "tag_id AllReduce = 4"
| "tag_id ReduceScatter = 5"
| "tag_id AllToAll = 6"

fun show_kind :: "collective_kind \<Rightarrow> string" where
  "show_kind Broadcast = ''Broadcast''"
| "show_kind AllGather = ''AllGather''"
| "show_kind Reduce = ''Reduce''"
| "show_kind AllReduce = ''AllReduce''"
| "show_kind ReduceScatter = ''ReduceScatter''"
| "show_kind AllToAll = ''AllToAll''"

definition COLLECTIVE_TAG_BASE :: u64 where
  "COLLECTIVE_TAG_BASE = 0x4000000000000000"

definition COLLECTIVE_TAG_LIMIT :: u64 where
  "COLLECTIVE_TAG_LIMIT = 0x5000000000000000"

definition TAG_SEQUENCE_STRIDE :: u64 where
  "TAG_SEQUENCE_STRIDE = push_bit 16 1"

definition collective_tag :: "u64 \<Rightarrow> collective_kind \<Rightarrow> usize \<Rightarrow> usize \<Rightarrow> message_tag cresult" where
  "collective_tag sequence kind phase step =
     (if phase > 0x0f \<or> step > 255
      then Inl (Collective ''collective phase or step exceeds tag capacity'')
      else ok_or (Collective ''collective message-tag overflow'')
        (Option.bind (checked_mul sequence TAG_SEQUENCE_STRIDE) (\<lambda>v.
         Option.bind (checked_add v (push_bit 12 (tag_id kind))) (\<lambda>v.
         Option.bind (checked_add v (push_bit 8 (of_nat phase))) (\<lambda>v.
         Option.bind (checked_add v (of_nat step)) (\<lambda>v.
         Option.bind (checked_add v COLLECTIVE_TAG_BASE) (\<lambda>v.
           if v < COLLECTIVE_TAG_LIMIT then Some v else None)))))))"

record collective_descriptor =
  d_sequence :: u64
  d_kind :: collective_kind
  d_algorithm :: collective_algorithm
  d_root :: "usize option"
  d_axis :: "usize option"
  d_input_shape :: "nat list"
  d_input_bytes :: u64

record collective_trace =
  tr_descriptor :: collective_descriptor
  tr_output_shape :: "nat list option"
  tr_sent_bytes :: u64
  tr_received_bytes :: u64

datatype collective_event = CollectiveStarted collective_descriptor | CollectiveCompleted collective_trace

record native_collectives =
  nc_rank :: rank
  next_sequence :: u64
  observed :: "collective_event list"
  traces :: "collective_trace list"

definition native_new :: "rank \<Rightarrow> native_collectives" where
  "native_new rk = \<lparr>nc_rank = rk, next_sequence = 0, observed = [], traces = []\<rparr>"

definition take_traces :: "native_collectives \<Rightarrow> collective_trace list \<times> native_collectives" where
  "take_traces nc = (traces nc, nc\<lparr>traces := []\<rparr>)"

section \<open>Checks\<close>

definition validate_root :: "rank \<Rightarrow> usize \<Rightarrow> unit cresult" where
  "validate_root rk root =
     (if root \<ge> world_size rk
      then Inl (Collective (''root rank '' @ show_nat root @ '' is outside world size '' @ show_nat (world_size rk)))
      else Inr ())"

definition validate_axis :: "'v tensor \<Rightarrow> usize \<Rightarrow> unit cresult" where
  "validate_axis t axis =
     (if axis \<ge> length (t_dims t)
      then Inl (Collective (''axis '' @ show_nat axis @ '' is outside tensor rank '' @ show_nat (length (t_dims t))))
      else Inr ())"

definition ensure_f32_cpu :: "'v tensor \<Rightarrow> unit cresult" where
  "ensure_f32_cpu t = rbind (from_tensor t) (\<lambda>_. Inr ())"

definition require_same_shape :: "'v tensor \<Rightarrow> 'v tensor \<Rightarrow> collective_kind \<Rightarrow> unit cresult" where
  "require_same_shape expected actual kind =
     (if t_dims expected \<noteq> t_dims actual
      then Inl (Collective (show_kind kind @ '' expected shape '' @ show_shape (t_dims expected)
                @ '', received '' @ show_shape (t_dims actual)))
      else Inr ())"

definition require_gather_shape :: "'v tensor \<Rightarrow> 'v tensor \<Rightarrow> usize \<Rightarrow> unit cresult" where
  "require_gather_shape expected actual axis =
     (if length (t_dims expected) \<noteq> length (t_dims actual)
         \<or> (\<exists>i \<in> set [0..<length (t_dims expected)]. i \<noteq> axis \<and> t_dims expected ! i \<noteq> t_dims actual ! i)
      then Inl (Collective (''gather axis '' @ show_nat axis @ '' cannot combine shapes ''
                @ show_shape (t_dims expected) @ '' and '' @ show_shape (t_dims actual)))
      else Inr ())"

definition tensor_bytes :: "'v tensor \<Rightarrow> u64 cresult" where
  "tensor_bytes t =
     rbind (ok_or (Collective ''tensor element count does not fit u64'') (u64_try_from (elem_count t)))
       (\<lambda>elements. ok_or (Collective ''tensor byte count overflow'') (checked_mul elements 4))"

section \<open>Call bookkeeping\<close>

definition begin_call ::
  "native_collectives \<Rightarrow> collective_kind \<Rightarrow> collective_algorithm \<Rightarrow> usize option \<Rightarrow> usize option \<Rightarrow>
     'v tensor \<Rightarrow> (native_collectives \<times> collective_descriptor) cresult" where
  "begin_call nc kind alg root axis t =
     rbind (ensure_f32_cpu t) (\<lambda>_.
     let sequence = next_sequence nc in
     rbind (ok_or (Collective ''collective sequence overflow'') (checked_add sequence 1)) (\<lambda>nxt.
     rbind (collective_tag sequence kind 0 0) (\<lambda>_.
     rbind (case root of None \<Rightarrow> Inr () | Some root \<Rightarrow> validate_root (nc_rank nc) root) (\<lambda>_.
     rbind (case axis of None \<Rightarrow> Inr () | Some axis \<Rightarrow> validate_axis t axis) (\<lambda>_.
     rbind (tensor_bytes t) (\<lambda>bytes.
       let d = \<lparr>d_sequence = sequence, d_kind = kind, d_algorithm = alg, d_root = root, d_axis = axis,
                d_input_shape = t_dims t, d_input_bytes = bytes\<rparr>
       in Inr (nc\<lparr>next_sequence := nxt, observed := observed nc @ [CollectiveStarted d]\<rparr>, d)))))))"

definition finish_call ::
  "native_collectives \<Rightarrow> collective_descriptor \<Rightarrow> 'v tensor option \<Rightarrow> u64 \<Rightarrow> u64 \<Rightarrow> native_collectives" where
  "finish_call nc d output sent received =
     (let tr = \<lparr>tr_descriptor = d, tr_output_shape = map_option t_dims output,
                tr_sent_bytes = sent, tr_received_bytes = received\<rparr>
      in nc\<lparr>observed := observed nc @ [CollectiveCompleted tr], traces := traces nc @ [tr]\<rparr>)"

section \<open>Point-to-point helpers\<close>

definition nc_send :: "rank \<Rightarrow> usize \<Rightarrow> message_tag \<Rightarrow> 'v tensor \<Rightarrow> ('v, u64) prog" where
  "nc_send rk destination tag t =
     pbind (send_tensor rk destination tag t) (\<lambda>_. lift_result (tensor_bytes t))"

definition nc_recv :: "rank \<Rightarrow> usize \<Rightarrow> message_tag \<Rightarrow> ('v, 'v tensor \<times> u64) prog" where
  "nc_recv rk source tag =
     pbind (recv_tensor rk source tag) (\<lambda>t.
     pbind (lift_result (tensor_bytes t)) (\<lambda>bytes. Ret (t, bytes)))"

definition exchange ::
  "rank \<Rightarrow> usize \<Rightarrow> usize \<Rightarrow> message_tag \<Rightarrow> message_tag \<Rightarrow> 'v tensor \<Rightarrow> ('v, 'v tensor \<times> u64 \<times> u64) prog" where
  "exchange rk destination source send_tag recv_tag t =
     pbind (lift_result (tensor_bytes t)) (\<lambda>send_bytes.
     pbind (send_tensor rk destination send_tag t) (\<lambda>_.
     pbind (recv_tensor rk source recv_tag) (\<lambda>result.
     pbind (lift_result (tensor_bytes result)) (\<lambda>received_bytes.
       Ret (result, send_bytes, received_bytes)))))"

text \<open>\<open>for source in sources { recv; require_same_shape; reduced = reduced + incoming }\<close>\<close>

fun reduce_from ::
  "('v \<Rightarrow> 'v \<Rightarrow> 'v) \<Rightarrow> rank \<Rightarrow> collective_kind \<Rightarrow> message_tag \<Rightarrow> 'v tensor \<Rightarrow> usize list \<Rightarrow> 'v tensor \<Rightarrow> u64 \<Rightarrow>
     ('v, 'v tensor \<times> u64) prog" where
  "reduce_from add rk kind tag t [] reduced received = Ret (reduced, received)"
| "reduce_from add rk kind tag t (source # sources) reduced received =
     pbind (nc_recv rk source tag) (\<lambda>(incoming, bytes).
     pbind (lift_result (require_same_shape t incoming kind)) (\<lambda>_.
     pbind (lift_result (map_err TensorError (tensor_add add reduced incoming))) (\<lambda>reduced'.
       reduce_from add rk kind tag t sources reduced' (received + bytes))))"

text \<open>\<open>for destination in destinations { sent += send(tensor) }\<close>\<close>

fun send_to_all ::
  "rank \<Rightarrow> message_tag \<Rightarrow> 'v tensor \<Rightarrow> usize list \<Rightarrow> u64 \<Rightarrow> ('v, u64) prog" where
  "send_to_all rk tag t [] sent = Ret sent"
| "send_to_all rk tag t (destination # destinations) sent =
     pbind (nc_send rk destination tag t) (\<lambda>bytes. send_to_all rk tag t destinations (sent + bytes))"

section \<open>All-reduce algorithms\<close>

definition centralized_all_reduce ::
  "('v \<Rightarrow> 'v \<Rightarrow> 'v) \<Rightarrow> rank \<Rightarrow> 'v tensor \<Rightarrow> u64 \<Rightarrow> ('v, 'v tensor \<times> u64 \<times> u64) prog" where
  "centralized_all_reduce add rk t sequence =
     pbind (lift_result (collective_tag sequence AllReduce 1 0)) (\<lambda>gather_tag.
     pbind (lift_result (collective_tag sequence AllReduce 2 0)) (\<lambda>broadcast_tag.
       if global_rank rk = 0 then
         pbind (reduce_from add rk AllReduce gather_tag t [1..<world_size rk] t 0) (\<lambda>(reduced, received).
         pbind (send_to_all rk broadcast_tag reduced [1..<world_size rk] 0) (\<lambda>sent.
           Ret (reduced, sent, received)))
       else
         pbind (nc_send rk 0 gather_tag t) (\<lambda>sent.
         pbind (nc_recv rk 0 broadcast_tag) (\<lambda>(result, bytes).
         pbind (lift_result (require_same_shape t result AllReduce)) (\<lambda>_.
           Ret (result, 0 + sent, 0 + bytes))))))"

definition ring_next :: "rank \<Rightarrow> usize" where
  "ring_next rk = (global_rank rk + 1) mod world_size rk"

definition ring_previous :: "rank \<Rightarrow> usize" where
  "ring_previous rk = (global_rank rk + world_size rk - 1) mod world_size rk"

fun ring_reduce_steps ::
  "('v \<Rightarrow> 'v \<Rightarrow> 'v) \<Rightarrow> rank \<Rightarrow> u64 \<Rightarrow> usize list \<Rightarrow> 'v tensor list \<Rightarrow> u64 \<Rightarrow> u64 \<Rightarrow>
     ('v, 'v tensor list \<times> u64 \<times> u64) prog" where
  "ring_reduce_steps add rk sequence [] chunks sent received = Ret (chunks, sent, received)"
| "ring_reduce_steps add rk sequence (step # steps) chunks sent received =
     (let world = world_size rk;
          send_index = (global_rank rk + world - step) mod world;
          receive_index = (global_rank rk + world - step - 1) mod world in
      pbind (lift_result (collective_tag sequence AllReduce 1 step)) (\<lambda>tag.
      pbind (exchange rk (ring_next rk) (ring_previous rk) tag tag (chunks ! send_index))
        (\<lambda>(incoming, sent_bytes, received_bytes).
      pbind (lift_result (require_same_shape (chunks ! receive_index) incoming AllReduce)) (\<lambda>_.
      pbind (lift_result (map_err TensorError (tensor_add add (chunks ! receive_index) incoming))) (\<lambda>total.
        ring_reduce_steps add rk sequence steps (chunks[receive_index := total])
          (sent + sent_bytes) (received + received_bytes))))))"

fun ring_gather_steps ::
  "rank \<Rightarrow> u64 \<Rightarrow> usize list \<Rightarrow> 'v tensor list \<Rightarrow> u64 \<Rightarrow> u64 \<Rightarrow>
     ('v, 'v tensor list \<times> u64 \<times> u64) prog" where
  "ring_gather_steps rk sequence [] chunks sent received = Ret (chunks, sent, received)"
| "ring_gather_steps rk sequence (step # steps) chunks sent received =
     (let world = world_size rk;
          send_index = (global_rank rk + 1 + world - step) mod world;
          receive_index = (global_rank rk + world - step) mod world in
      pbind (lift_result (collective_tag sequence AllReduce 2 step)) (\<lambda>tag.
      pbind (exchange rk (ring_next rk) (ring_previous rk) tag tag (chunks ! send_index))
        (\<lambda>(incoming, sent_bytes, received_bytes).
      pbind (lift_result (require_same_shape (chunks ! receive_index) incoming AllReduce)) (\<lambda>_.
        ring_gather_steps rk sequence steps (chunks[receive_index := incoming])
          (sent + sent_bytes) (received + received_bytes)))))"

definition ring_all_reduce ::
  "('v \<Rightarrow> 'v \<Rightarrow> 'v) \<Rightarrow> rank \<Rightarrow> 'v tensor \<Rightarrow> u64 \<Rightarrow> ('v, 'v tensor \<times> u64 \<times> u64) prog" where
  "ring_all_reduce add rk t sequence =
     (let world = world_size rk in
      if world = 1 then Ret (t, 0, 0)
      else let flattened = flatten_all t; elements = elem_count flattened in
        if elements mod world \<noteq> 0
        then Fail (Collective (''ring all-reduce requires '' @ show_nat elements
               @ '' elements to divide evenly across '' @ show_nat world @ '' ranks''))
        else let chunk_elements = elements div world in
          pbind (lift_result (map_err TensorError (collect_results
              (map (\<lambda>index. narrow flattened 0 (index * chunk_elements) chunk_elements) [0..<world])))) (\<lambda>chunks.
          pbind (ring_reduce_steps add rk sequence [0..<world - 1] chunks 0 0) (\<lambda>(chunks, sent, received).
          pbind (ring_gather_steps rk sequence [0..<world - 1] chunks sent received) (\<lambda>(chunks, sent, received).
          pbind (lift_result (map_err TensorError (tensor_cat chunks 0))) (\<lambda>joined.
          pbind (lift_result (map_err TensorError (reshape joined (t_dims t)))) (\<lambda>result.
            Ret (result, sent, received)))))))"

section \<open>The collective operations\<close>

definition broadcast ::
  "native_collectives \<Rightarrow> 'v tensor \<Rightarrow> usize \<Rightarrow> ('v, native_collectives \<times> 'v tensor) prog" where
  "broadcast nc t root =
     pbind (lift_result (begin_call nc Broadcast DirectAlg (Some root) None t)) (\<lambda>(nc, d).
     pbind (lift_result (collective_tag (d_sequence d) (d_kind d) 0 0)) (\<lambda>tag.
     let rk = nc_rank nc in
     if global_rank rk = root then
       pbind (send_to_all rk tag t (filter (\<lambda>destination. destination \<noteq> root) [0..<world_size rk]) 0) (\<lambda>sent.
         Ret (finish_call nc d (Some t) sent 0, t))
     else
       pbind (nc_recv rk root tag) (\<lambda>(result, bytes).
         Ret (finish_call nc d (Some result) 0 (0 + bytes), result))))"

definition reduce ::
  "('v \<Rightarrow> 'v \<Rightarrow> 'v) \<Rightarrow> native_collectives \<Rightarrow> 'v tensor \<Rightarrow> usize \<Rightarrow> reduce_op \<Rightarrow>
     ('v, native_collectives \<times> 'v tensor option) prog" where
  "reduce add nc t root op =
     pbind (lift_result (begin_call nc Reduce CentralizedAlg (Some root) None t)) (\<lambda>(nc, d).
     pbind (lift_result (collective_tag (d_sequence d) (d_kind d) 0 0)) (\<lambda>tag.
     let rk = nc_rank nc in
     if global_rank rk = root then
       pbind (reduce_from add rk (d_kind d) tag t (filter (\<lambda>source. source \<noteq> root) [0..<world_size rk]) t 0)
         (\<lambda>(reduced, received).
         Ret (finish_call nc d (Some reduced) 0 received, Some reduced))
     else
       pbind (nc_send rk root tag t) (\<lambda>sent.
         Ret (finish_call nc d (None :: 'v tensor option) (0 + sent) 0, None))))"

fun gather_from ::
  "rank \<Rightarrow> message_tag \<Rightarrow> 'v tensor \<Rightarrow> usize \<Rightarrow> usize list \<Rightarrow> 'v tensor list \<Rightarrow> u64 \<Rightarrow>
     ('v, 'v tensor list \<times> u64) prog" where
  "gather_from rk tag t axis [] shards received = Ret (shards, received)"
| "gather_from rk tag t axis (source # sources) shards received =
     pbind (nc_recv rk source tag) (\<lambda>(incoming, bytes).
     pbind (lift_result (require_gather_shape t incoming axis)) (\<lambda>_.
       gather_from rk tag t axis sources (shards @ [incoming]) (received + bytes)))"

definition all_gather ::
  "native_collectives \<Rightarrow> 'v tensor \<Rightarrow> usize \<Rightarrow> ('v, native_collectives \<times> 'v tensor) prog" where
  "all_gather nc t axis =
     pbind (lift_result (begin_call nc AllGather CentralizedAlg (Some 0) (Some axis) t)) (\<lambda>(nc, d).
     let rk = nc_rank nc in
     pbind (lift_result (collective_tag (d_sequence d) (d_kind d) 1 0)) (\<lambda>gather_tag.
     pbind (lift_result (collective_tag (d_sequence d) (d_kind d) 2 0)) (\<lambda>broadcast_tag.
     if global_rank rk = 0 then
       pbind (gather_from rk gather_tag t axis [1..<world_size rk] [t] 0) (\<lambda>(shards, received).
       pbind (lift_result (map_err TensorError (tensor_cat shards axis))) (\<lambda>gathered.
       pbind (send_to_all rk broadcast_tag gathered [1..<world_size rk] 0) (\<lambda>sent.
         Ret (finish_call nc d (Some gathered) sent received, gathered))))
     else
       pbind (nc_send rk 0 gather_tag t) (\<lambda>sent.
       pbind (nc_recv rk 0 broadcast_tag) (\<lambda>(gathered, bytes).
         Ret (finish_call nc d (Some gathered) (0 + sent) (0 + bytes), gathered))))))"

fun trace_algorithm :: "all_reduce_algorithm \<Rightarrow> collective_algorithm" where
  "trace_algorithm Centralized = CentralizedAlg"
| "trace_algorithm Ring = RingAlg"

definition all_reduce ::
  "('v \<Rightarrow> 'v \<Rightarrow> 'v) \<Rightarrow> native_collectives \<Rightarrow> 'v tensor \<Rightarrow> reduce_op \<Rightarrow> all_reduce_algorithm \<Rightarrow>
     ('v, native_collectives \<times> 'v tensor) prog" where
  "all_reduce add nc t op algorithm =
     pbind (lift_result (begin_call nc AllReduce (trace_algorithm algorithm)
         (if algorithm = Centralized then Some 0 else None) None t)) (\<lambda>(nc, d).
     pbind (case algorithm of
         Centralized \<Rightarrow> centralized_all_reduce add (nc_rank nc) t (d_sequence d)
       | Ring \<Rightarrow> ring_all_reduce add (nc_rank nc) t (d_sequence d)) (\<lambda>(result, sent, received).
       Ret (finish_call nc d (Some result) sent received, result)))"

fun scatter_to ::
  "rank \<Rightarrow> message_tag \<Rightarrow> 'v tensor \<Rightarrow> usize \<Rightarrow> usize \<Rightarrow> usize list \<Rightarrow> u64 \<Rightarrow> ('v, u64) prog" where
  "scatter_to rk tag reduced axis chunk [] sent = Ret sent"
| "scatter_to rk tag reduced axis chunk (destination # destinations) sent =
     pbind (lift_result (map_err TensorError (narrow reduced axis (destination * chunk) chunk))) (\<lambda>shard.
     pbind (nc_send rk destination tag shard) (\<lambda>bytes.
       scatter_to rk tag reduced axis chunk destinations (sent + bytes)))"

definition reduce_scatter ::
  "('v \<Rightarrow> 'v \<Rightarrow> 'v) \<Rightarrow> native_collectives \<Rightarrow> 'v tensor \<Rightarrow> usize \<Rightarrow> reduce_op \<Rightarrow>
     ('v, native_collectives \<times> 'v tensor) prog" where
  "reduce_scatter add nc t axis op =
     pbind (lift_result (begin_call nc ReduceScatter CentralizedAlg (Some 0) (Some axis) t)) (\<lambda>(nc, d).
     let rk = nc_rank nc; world = world_size rk in
     pbind (lift_result (map_err TensorError (tensor_dim t axis))) (\<lambda>extent.
     if extent mod world \<noteq> 0
     then Fail (Collective (''reduce-scatter axis '' @ show_nat axis @ '' length '' @ show_nat extent
                @ '' is not divisible by '' @ show_nat world))
     else
       pbind (lift_result (collective_tag (d_sequence d) (d_kind d) 1 0)) (\<lambda>gather_tag.
       pbind (lift_result (collective_tag (d_sequence d) (d_kind d) 2 0)) (\<lambda>scatter_tag.
       if global_rank rk = 0 then
         pbind (reduce_from add rk (d_kind d) gather_tag t [1..<world] t 0) (\<lambda>(reduced, received).
         pbind (lift_result (map_err TensorError (tensor_dim reduced axis))) (\<lambda>reduced_extent.
         let chunk = reduced_extent div world in
         pbind (lift_result (map_err TensorError (narrow reduced axis 0 chunk))) (\<lambda>local.
         pbind (scatter_to rk scatter_tag reduced axis chunk [1..<world] 0) (\<lambda>sent.
           Ret (finish_call nc d (Some local) sent received, local)))))
       else
         pbind (nc_send rk 0 gather_tag t) (\<lambda>sent.
         pbind (nc_recv rk 0 scatter_tag) (\<lambda>(shard, bytes).
           Ret (finish_call nc d (Some shard) (0 + sent) (0 + bytes), shard)))))))"

fun all_to_all_steps ::
  "rank \<Rightarrow> u64 \<Rightarrow> usize \<Rightarrow> 'v tensor list \<Rightarrow> usize list \<Rightarrow> 'v tensor option list \<Rightarrow> u64 \<Rightarrow> u64 \<Rightarrow>
     ('v, 'v tensor option list \<times> u64 \<times> u64) prog" where
  "all_to_all_steps rk sequence axis shards [] received_shards sent received =
     Ret (received_shards, sent, received)"
| "all_to_all_steps rk sequence axis shards (step # steps) received_shards sent received =
     (let world = world_size rk;
          destination = (global_rank rk + step) mod world;
          source = (global_rank rk + world - step) mod world in
      pbind (lift_result (collective_tag sequence AllToAll 0 (step - 1))) (\<lambda>tag.
      pbind (exchange rk destination source tag tag (shards ! destination))
        (\<lambda>(incoming, sent_bytes, received_bytes).
      pbind (lift_result (require_gather_shape (shards ! destination) incoming axis)) (\<lambda>_.
        all_to_all_steps rk sequence axis shards steps (received_shards[source := Some incoming])
          (sent + sent_bytes) (received + received_bytes)))))"

definition all_to_all ::
  "native_collectives \<Rightarrow> 'v tensor \<Rightarrow> usize \<Rightarrow> ('v, native_collectives \<times> 'v tensor) prog" where
  "all_to_all nc t axis =
     pbind (lift_result (begin_call nc AllToAll PairwiseAlg None (Some axis) t)) (\<lambda>(nc, d).
     let rk = nc_rank nc; world = world_size rk in
     pbind (lift_result (map_err TensorError (tensor_dim t axis))) (\<lambda>extent.
     if extent mod world \<noteq> 0
     then Fail (Collective (''all-to-all axis '' @ show_nat axis @ '' length '' @ show_nat extent
                @ '' is not divisible by '' @ show_nat world))
     else let chunk = extent div world in
       pbind (lift_result (map_err TensorError (collect_results
           (map (\<lambda>destination. narrow t axis (destination * chunk) chunk) [0..<world])))) (\<lambda>shards.
       pbind (all_to_all_steps rk (d_sequence d) axis shards [1..<world]
           ((replicate world None)[global_rank rk := Some (shards ! global_rank rk)]) 0 0)
         (\<lambda>(received_shards, sent, received).
       if None \<in> set received_shards
       then Fail (WorkerPanicked (global_rank rk) ''every source contributes one all-to-all shard'')
       else
         pbind (lift_result (map_err TensorError (tensor_cat (map the received_shards) axis))) (\<lambda>result.
           Ret (finish_call nc d (Some result) sent received, result))))))"

end
