(* ===== verification/CollectiveTags.thy ===== *)
theory CollectiveTags
  imports Collectives
begin

text \<open>
  The tag namespace of the collectives (\<open>collective_tag\<close> in
  \<open>crates/collectives/src/collective.rs\<close>): which calls get a tag, that the tag encodes
  sequence, kind, phase and step without overlap, and the per-call bookkeeping.
\<close>

lemma unat_tag_id: "unat (tag_id kind) \<le> 6" "0 < unat (tag_id kind)"
  by (cases kind; simp)+

lemma tag_id_inj: "unat (tag_id k) = unat (tag_id k') \<longleftrightarrow> k = k'"
  by (cases k; cases k'; simp)

lemma unat_push_kind: "unat (push_bit 12 (tag_id kind)) = unat (tag_id kind) * 4096"
  by (cases kind; simp)

lemma unat_push_phase: "phase \<le> 15 \<Longrightarrow> unat (push_bit 8 (of_nat phase :: u64)) = phase * 256"
  by (simp add: push_bit_eq_mult unat_word_ariths)

lemma unat_stride: "unat TAG_SEQUENCE_STRIDE = 65536"
  by (simp add: TAG_SEQUENCE_STRIDE_def)

lemma unat_tag_base: "unat COLLECTIVE_TAG_BASE = 4611686018427387904"
  by (simp add: COLLECTIVE_TAG_BASE_def)

lemma below_tag_limit: "v < COLLECTIVE_TAG_LIMIT \<longleftrightarrow> unat v < 5764607523034234880"
  by (simp add: COLLECTIVE_TAG_LIMIT_def word_less_nat_alt)

lemmas tag_parts = unat_push_kind unat_push_phase unat_stride unat_tag_base below_tag_limit

lemma ex_u64: "n < 2 ^ 64 \<Longrightarrow> \<exists>v :: u64. unat v = n"
  by (rule exI [of _ "of_nat n"]) simp

definition tag_value :: "nat \<Rightarrow> collective_kind \<Rightarrow> nat \<Rightarrow> nat \<Rightarrow> nat" where
  "tag_value s kind phase step =
     4611686018427387904 + s * 65536 + unat (tag_id kind) * 4096 + phase * 256 + step"

lemma collective_tag_value:
  assumes "collective_tag s kind phase step = Inr tag"
  shows "phase \<le> 15" "step \<le> 255" "unat s < 17592186044416"
    "unat tag = tag_value (unat s) kind phase step"
proof -
  from assms show ps: "phase \<le> 15" "step \<le> 255"
    by (auto simp: collective_tag_def split: if_splits)
  then have step: "unat (of_nat step :: u64) = step" by simp
  from assms ps step have "unat tag = tag_value (unat s) kind phase step \<and> unat tag < 5764607523034234880"
    by (auto simp: collective_tag_def bind_eq_Some_conv checked_simps tag_parts tag_value_def
        split: if_splits)
  then show "unat tag = tag_value (unat s) kind phase step" "unat s < 17592186044416"
    by (simp_all add: tag_value_def)
qed

lemma collective_tag_ok:
  assumes "phase \<le> 15" "step \<le> 255" "unat s < 17592186044416"
  shows "\<exists>tag. collective_tag s kind phase step = Inr tag"
proof -
  note bound = unat_tag_id(1) [of kind]
  have 1: "\<exists>v :: u64. unat v = unat s * 65536" using assms(3) by (intro ex_u64) simp
  then obtain v1 :: u64 where v1: "unat v1 = unat s * 65536" ..
  obtain v2 :: u64 where v2: "unat v2 = unat v1 + unat (tag_id kind) * 4096"
    using ex_u64 [of "unat v1 + unat (tag_id kind) * 4096"] v1 assms(3) bound by auto
  obtain v3 :: u64 where v3: "unat v3 = unat v2 + phase * 256"
    using ex_u64 [of "unat v2 + phase * 256"] v1 v2 assms bound by auto
  obtain v4 :: u64 where v4: "unat v4 = unat v3 + step"
    using ex_u64 [of "unat v3 + step"] v1 v2 v3 assms bound by auto
  obtain v5 :: u64 where v5: "unat v5 = unat v4 + 4611686018427387904"
    using ex_u64 [of "unat v4 + 4611686018427387904"] v1 v2 v3 v4 assms bound by auto
  have step: "unat (of_nat step :: u64) = step" using assms(2) by simp
  have "checked_mul s TAG_SEQUENCE_STRIDE = Some v1" "checked_add v1 (push_bit 12 (tag_id kind)) = Some v2"
    "checked_add v2 (push_bit 8 (of_nat phase)) = Some v3" "checked_add v3 (of_nat step) = Some v4"
    "checked_add v4 COLLECTIVE_TAG_BASE = Some v5"
    using v1 v2 v3 v4 v5 assms step by (simp_all add: checked_simps tag_parts)
  moreover have "v5 < COLLECTIVE_TAG_LIMIT"
    using v1 v2 v3 v4 v5 assms bound by (simp add: below_tag_limit)
  ultimately show ?thesis using assms by (simp add: collective_tag_def)
qed

lemma tag_value_inj:
  assumes eq: "tag_value s k p i = tag_value s' k' p' i'"
    and b: "p \<le> 15" "p' \<le> 15" "i \<le> 255" "i' \<le> 255"
  shows "s = s' \<and> k = k' \<and> p = p' \<and> i = i'"
proof -
  note t = unat_tag_id(1) [of k] unat_tag_id(1) [of k']
  from eq have e: "s * 65536 + unat (tag_id k) * 4096 + p * 256 + i
      = s' * 65536 + unat (tag_id k') * 4096 + p' * 256 + i'"
    by (simp add: tag_value_def)
  from e b t have s: "s = s'" by linarith
  with e b t have k: "unat (tag_id k) = unat (tag_id k')" by simp
  with e s b have p: "p = p'" by simp
  with e s k have "i = i'" by simp
  with s k p show ?thesis by (simp add: tag_id_inj)
qed

text \<open>
  C37. Two calls get the same message tag only if they agree on sequence number, collective
  kind, phase and step, so no message of one call or round can be taken by another.
\<close>

theorem collective_tag_injective:
  assumes "collective_tag s k p i = Inr tag" and "collective_tag s' k' p' i' = Inr tag"
  shows "s = s' \<and> k = k' \<and> p = p' \<and> i = i'"
proof -
  note a = collective_tag_value [OF assms(1)] and b = collective_tag_value [OF assms(2)]
  from tag_value_inj [of "unat s" k p i "unat s'" k' p' i'] a b show ?thesis
    by (simp add: word_unat_eq_iff)
qed

theorem collective_tag_injective_witness:
  "\<exists>tag. collective_tag 7 AllReduce 1 3 = Inr tag \<and>
     (7 :: u64) = 7 \<and> AllReduce = AllReduce \<and> (1 :: nat) = 1 \<and> (3 :: nat) = 3"
proof -
  from collective_tag_ok [of 1 3 7 AllReduce] obtain tag where
    t: "collective_tag 7 AllReduce 1 3 = Inr tag" by auto
  from t collective_tag_injective [OF t t] show ?thesis by blast
qed

text \<open>
  A call is given a tag exactly when its phase fits four bits, its step fits one byte
  and its sequence number is below \<open>2 ^ 44\<close>; the tag then lies in the reserved range.
\<close>

theorem collective_tag_domain:
  "(\<exists>tag. collective_tag s kind phase step = Inr tag \<and> COLLECTIVE_TAG_BASE \<le> tag \<and> tag < COLLECTIVE_TAG_LIMIT)
     \<longleftrightarrow> phase \<le> 15 \<and> step \<le> 255 \<and> unat s < 2 ^ 44"
proof
  assume "phase \<le> 15 \<and> step \<le> 255 \<and> unat s < 2 ^ 44"
  then obtain tag where t: "collective_tag s kind phase step = Inr tag"
    using collective_tag_ok [of phase step s kind] by auto
  then have "tag < COLLECTIVE_TAG_LIMIT"
    by (auto simp: collective_tag_def bind_eq_Some_conv split: if_splits)
  moreover have "COLLECTIVE_TAG_BASE \<le> tag"
    using collective_tag_value(4) [OF t]
    by (simp add: word_le_nat_alt unat_tag_base tag_value_def)
  ultimately show "\<exists>tag. collective_tag s kind phase step = Inr tag \<and> COLLECTIVE_TAG_BASE \<le> tag
      \<and> tag < COLLECTIVE_TAG_LIMIT" using t by blast
qed (use collective_tag_value in fastforce)

section \<open>Bookkeeping\<close>

text \<open>
  The native state after a call that began with tensor \<open>t\<close> and completed: the sequence
  number advanced by one, one trace was appended, and the observer saw the start and the
  completion.
\<close>

definition shape_bytes :: "nat list \<Rightarrow> u64" where
  "shape_bytes ds = of_nat (4 * prod_list ds)"

definition call_descriptor ::
  "native_collectives \<Rightarrow> collective_kind \<Rightarrow> collective_algorithm \<Rightarrow> usize option \<Rightarrow> usize option \<Rightarrow>
     nat list \<Rightarrow> collective_descriptor" where
  "call_descriptor nc kind alg root axis ds =
     \<lparr>d_sequence = next_sequence nc, d_kind = kind, d_algorithm = alg, d_root = root, d_axis = axis,
      d_input_shape = ds, d_input_bytes = shape_bytes ds\<rparr>"

definition begun ::
  "native_collectives \<Rightarrow> collective_kind \<Rightarrow> collective_algorithm \<Rightarrow> usize option \<Rightarrow> usize option \<Rightarrow>
     nat list \<Rightarrow> native_collectives" where
  "begun nc kind alg root axis ds =
     nc\<lparr>next_sequence := next_sequence nc + 1,
        observed := observed nc @ [CollectiveStarted (call_descriptor nc kind alg root axis ds)]\<rparr>"

definition completed ::
  "native_collectives \<Rightarrow> collective_kind \<Rightarrow> collective_algorithm \<Rightarrow> usize option \<Rightarrow> usize option \<Rightarrow>
     nat list \<Rightarrow> 'v tensor option \<Rightarrow> u64 \<Rightarrow> u64 \<Rightarrow> native_collectives" where
  "completed nc kind alg root axis ds out sent received =
     finish_call (begun nc kind alg root axis ds) (call_descriptor nc kind alg root axis ds) out sent received"

text \<open>A shape whose tensors can cross the boundary: its size and its byte count fit 64 bits.\<close>

definition good_shape :: "nat list \<Rightarrow> bool" where
  "good_shape ds \<longleftrightarrow> element_count ds = Inr (prod_list ds) \<and> 4 * prod_list ds < 2 ^ 64"

definition packet_of :: "'v tensor \<Rightarrow> 'v tensor_packet" where
  "packet_of t = \<lparr>p_shape = t_dims t, p_values = t_values t\<rparr>"

named_theorems transfer_simps \<open>boundary operations on well-formed CPU/F32 tensors\<close>

lemma from_tensor_good [transfer_simps]:
  "good_shape ds \<Longrightarrow> length vs = prod_list ds \<Longrightarrow>
     from_tensor (cpu_f32 ds vs) = Inr (packet_of (cpu_f32 ds vs))"
  by (simp add: from_tensor_Inr good_shape_def packet_of_def)

lemma to_tensor_good [transfer_simps]:
  "good_shape ds \<Longrightarrow> length vs = prod_list ds \<Longrightarrow>
     to_tensor (packet_of (cpu_f32 ds vs)) = Inr (cpu_f32 ds vs)"
  by (rule to_tensor_from_tensor) (simp add: from_tensor_good)

lemma tensor_bytes_good [transfer_simps]:
  assumes "good_shape ds"
  shows "tensor_bytes (cpu_f32 ds vs) = Inr (shape_bytes ds)"
proof -
  have "prod_list ds * 4 < 2 ^ 64" using assms by (simp add: good_shape_def)
  moreover from this have "prod_list ds < 2 ^ 64" by simp
  ultimately show ?thesis
    by (simp add: tensor_bytes_def elem_count_def u64_try_from_def checked_mul_def shape_bytes_def)
qed

lemma begin_call_good:
  assumes "good_shape ds" "length vs = prod_list ds" "unat (next_sequence nc) < 2 ^ 44"
    and "\<And>r. root = Some r \<Longrightarrow> r < world_size (nc_rank nc)" and "\<And>a. axis = Some a \<Longrightarrow> a < length ds"
  shows "begin_call nc kind alg root axis (cpu_f32 ds vs) =
     Inr (begun nc kind alg root axis ds, call_descriptor nc kind alg root axis ds)"
proof -
  obtain tag where "collective_tag (next_sequence nc) kind 0 0 = Inr tag"
    using collective_tag_ok [of 0 0 "next_sequence nc" kind] assms(3) by auto
  moreover have "checked_add (next_sequence nc) 1 = Some (next_sequence nc + 1)"
    using assms(3) by (simp add: checked_add_def)
  moreover have "(case root of None \<Rightarrow> Inr () | Some r \<Rightarrow> validate_root (nc_rank nc) r) = Inr ()"
    using assms(4) by (auto simp: validate_root_def not_le split: option.splits)
  moreover have "(case axis of None \<Rightarrow> Inr () | Some a \<Rightarrow> validate_axis (cpu_f32 ds vs) a) = Inr ()"
    using assms(5) by (auto simp: validate_axis_def not_le split: option.splits)
  ultimately show ?thesis
    using assms(1,2)
    by (simp add: begin_call_def ensure_f32_cpu_def transfer_simps begun_def call_descriptor_def Let_def)
qed

end
