(* ===== verification/CentralizedProofs.thy ===== *)
theory CentralizedProofs
  imports CollectiveTags
begin

text \<open>
  Correctness of the root-centred collectives: broadcast, reduce, all-gather, the
  centralized all-reduce and reduce-scatter. Each is a gather onto the root, a scatter
  from it, or both; the two schedules are proved once for abstract loops.
\<close>

section \<open>Programs in loop form\<close>

abbreviation member :: "nat \<Rightarrow> usize \<Rightarrow> rank" where
  "member W r \<equiv> \<lparr>global_rank = r, world_size = W\<rparr>"

abbreviation msg :: "nat list \<Rightarrow> 'v list \<Rightarrow> 'v message_payload" where
  "msg ds vs \<equiv> TensorPayload (packet_of (cpu_f32 ds vs))"

lemma pbind_lift_result:
  "pbind (lift_result m) K = (case m of Inl e \<Rightarrow> Fail e | Inr x \<Rightarrow> K x)"
  by (cases m) auto

lemma case_rbind:
  "(case rbind m f of Inl e \<Rightarrow> Fail e | Inr x \<Rightarrow> K x) =
     (case m of Inl e \<Rightarrow> Fail e | Inr y \<Rightarrow> (case f y of Inl e \<Rightarrow> Fail e | Inr x \<Rightarrow> K x))"
  by (cases m) auto

lemma pbind_case_result:
  "pbind (case m of Inl e \<Rightarrow> Fail e | Inr x \<Rightarrow> K x) F = (case m of Inl e \<Rightarrow> Fail e | Inr x \<Rightarrow> pbind (K x) F)"
  by (cases m) auto

lemma pbind_send_loop: "pbind (send_loop t x ds k) K = send_loop t x ds (pbind k K)"
  by (induction ds) auto

lemma pbind_recv_loop: "pbind (recv_loop q t f ss acc k) K = recv_loop q t f ss acc (\<lambda>a. pbind (k a) K)"
  by (induction ss arbitrary: acc) (auto simp: fun_eq_iff split: sum.splits)

definition decode_tensor :: "'v message_payload \<Rightarrow> ('v tensor \<times> u64) cresult" where
  "decode_tensor payload =
     rbind (case payload of TensorPayload p \<Rightarrow> to_tensor p
            | ControlPayload _ \<Rightarrow> Inl (Protocol ''matched tensor payload''))
       (\<lambda>t. rbind (tensor_bytes t) (\<lambda>b. Inr (t, b)))"

lemma decode_tensor_msg [transfer_simps]:
  "good_shape ds \<Longrightarrow> length vs = prod_list ds \<Longrightarrow>
     decode_tensor (msg ds vs) = Inr (cpu_f32 ds vs, shape_bytes ds)"
  by (simp add: decode_tensor_def transfer_simps)

lemma nc_send_good [transfer_simps]:
  "good_shape ds \<Longrightarrow> length vs = prod_list ds \<Longrightarrow> d < W \<Longrightarrow> d \<noteq> r \<Longrightarrow>
     nc_send (member W r) d tag (cpu_f32 ds vs) = Send d tag (msg ds vs) (Ret (shape_bytes ds))"
  by (simp add: nc_send_def send_tensor_def transfer_simps validate_peer_def)

lemma pbind_nc_recv:
  "s < W \<Longrightarrow> s \<noteq> r \<Longrightarrow>
     pbind (nc_recv (member W r) s tag) K =
       Recv s TensorKind tag (\<lambda>payload. case decode_tensor payload of Inl e \<Rightarrow> Fail e | Inr x \<Rightarrow> K x)"
  by (auto simp: nc_recv_def recv_tensor_def validate_peer_def decode_tensor_def fun_eq_iff
      pbind_lift_result case_rbind pbind_assoc split: sum.splits message_payload.splits)

lemma send_to_all_good:
  assumes "good_shape ds" "length vs = prod_list ds" "\<And>d. d \<in> set dests \<Longrightarrow> d < W \<and> d \<noteq> r"
  shows "send_to_all (member W r) tag (cpu_f32 ds vs) dests sent =
     send_loop tag (\<lambda>_. msg ds vs) dests (Ret (sent + of_nat (length dests) * shape_bytes ds))"
  using assms
  by (induction dests arbitrary: sent) (auto simp: transfer_simps algebra_simps)

definition reduce_one ::
  "('v \<Rightarrow> 'v \<Rightarrow> 'v) \<Rightarrow> collective_kind \<Rightarrow> 'v tensor \<Rightarrow> 'v tensor \<times> u64 \<Rightarrow> 'v message_payload \<Rightarrow>
     ('v tensor \<times> u64) cresult" where
  "reduce_one add kind t acc payload =
     rbind (decode_tensor payload) (\<lambda>(incoming, bytes).
     rbind (require_same_shape t incoming kind) (\<lambda>_.
     rbind (map_err TensorError (tensor_add add (fst acc) incoming)) (\<lambda>reduced.
       Inr (reduced, snd acc + bytes))))"

lemma reduce_from_loop:
  assumes "\<And>s. s \<in> set ss \<Longrightarrow> s < W \<and> s \<noteq> r"
  shows "reduce_from add (member W r) kind tag t ss reduced received =
     recv_loop TensorKind tag (\<lambda>_. reduce_one add kind t) ss (reduced, received) Ret"
  using assms
proof (induction ss arbitrary: reduced received)
  case Nil
  then show ?case by simp
next
  case (Cons s ss)
  then show ?case
    by (simp add: pbind_nc_recv pbind_lift_result reduce_one_def case_rbind fun_eq_iff
        split: prod.splits sum.splits)
qed

definition gather_one ::
  "'v tensor \<Rightarrow> usize \<Rightarrow> 'v tensor list \<times> u64 \<Rightarrow> 'v message_payload \<Rightarrow> ('v tensor list \<times> u64) cresult" where
  "gather_one t axis acc payload =
     rbind (decode_tensor payload) (\<lambda>(incoming, bytes).
     rbind (require_gather_shape t incoming axis) (\<lambda>_.
       Inr (fst acc @ [incoming], snd acc + bytes)))"

lemma gather_from_loop:
  assumes "\<And>s. s \<in> set ss \<Longrightarrow> s < W \<and> s \<noteq> r"
  shows "gather_from (member W r) tag t axis ss shards received =
     recv_loop TensorKind tag (\<lambda>_. gather_one t axis) ss (shards, received) Ret"
  using assms
proof (induction ss arbitrary: shards received)
  case Nil
  then show ?case by simp
next
  case (Cons s ss)
  then show ?case
    by (simp add: pbind_nc_recv pbind_lift_result gather_one_def case_rbind fun_eq_iff
        split: prod.splits sum.splits)
qed

section \<open>Gather and scatter schedules\<close>

definition others :: "nat \<Rightarrow> usize \<Rightarrow> usize list" where
  "others W root = filter (\<lambda>i. i \<noteq> root) [0..<W]"

lemma set_others [simp]: "set (others W root) = {0..<W} - {root}"
  by (auto simp: others_def)

lemma distinct_others [simp]: "distinct (others W root)"
  by (simp add: others_def)

lemma others_0: "others W 0 = [1..<W]"
proof -
  have "filter (\<lambda>i. i \<noteq> 0) [1..<W] = [1..<W]" by (rule filter_True) auto
  then show ?thesis
    by (cases "0 < W") (simp_all add: others_def upt_conv_Cons)
qed

lemma length_others: "root < W \<Longrightarrow> length (others W root) = W - 1"
  using distinct_card [OF distinct_others, of W root] by simp

lemma computes_gather:
  assumes "root < W"
    and "f root = recv_loop TensorKind gt g (others W root) acc (\<lambda>a. Ret (fin a))"
    and "\<And>r. r < W \<Longrightarrow> r \<noteq> root \<Longrightarrow> f r = Send root gt (x r) (Ret (res r)) \<and> kind_of (x r) = TensorKind"
    and "foldr_result (\<lambda>s a. g s a (x s)) acc (others W root) = Inr acc'"
    and "res root = fin acc'"
  shows "computes W f res"
proof -
  let ?ss = "others W root"
  let ?w1 = "(start W f)\<lparr>progs := (\<lambda>r. if r \<in> set ?ss then Ret (res r) else progs (start W f) r),
     mail := (\<lambda>a b. if a \<in> set ?ss \<and> b = root then mail (start W f) a b @ [(gt, x a)] else mail (start W f) a b)\<rparr>"
  have 1: "reach W (start W f) ?w1"
    by (rule par_send) (use assms(3) in \<open>auto simp: start_def\<close>)
  let ?w2 = "?w1\<lparr>progs := (progs ?w1)(root := Ret (fin acc')),
     mail := (\<lambda>a b. if b = root \<and> a \<in> set ?ss then [] else mail ?w1 a b)\<rparr>"
  have 2: "reach W ?w1 ?w2"
    by (rule reach_recv_loop [where p = x]) (use assms in \<open>auto simp: start_def\<close>)
  have 3: "?w2 = start W (\<lambda>r. Ret (res r))"
    using assms(1,5) by (auto simp: start_def fun_eq_iff)
  from rtranclp_trans [OF 1 2] show ?thesis unfolding computes_def 3 .
qed

lemma computes_scatter:
  assumes "root < W"
    and "f root = send_loop bt y (others W root) (Ret (res root))"
    and "\<And>r. r < W \<Longrightarrow> r \<noteq> root \<Longrightarrow> f r = Recv root q bt (k r)"
    and "\<And>r. r < W \<Longrightarrow> r \<noteq> root \<Longrightarrow> k r (y r) = Ret (res r) \<and> kind_of (y r) = q"
  shows "computes W f res"
proof -
  let ?ss = "others W root"
  let ?w1 = "(start W f)\<lparr>progs := (progs (start W f))(root := Ret (res root)),
     mail := (\<lambda>a b. if a = root \<and> b \<in> set ?ss then mail (start W f) a b @ [(bt, y b)] else mail (start W f) a b)\<rparr>"
  have 1: "reach W (start W f) ?w1"
    by (rule reach_send_loop) (use assms in \<open>auto simp: start_def\<close>)
  let ?w2 = "?w1\<lparr>progs := (\<lambda>r. if r \<in> set ?ss then k r (y r) else progs ?w1 r),
     mail := (\<lambda>a b. if b \<in> set ?ss \<and> a = root then [] else mail ?w1 a b)\<rparr>"
  have 2: "reach W ?w1 ?w2"
    by (rule par_recv [where q = "\<lambda>_. q" and t = "\<lambda>_. bt"]) (use assms in \<open>auto simp: start_def\<close>)
  have 3: "?w2 = start W (\<lambda>r. Ret (res r))"
    using assms(1,4) by (auto simp: start_def fun_eq_iff)
  from rtranclp_trans [OF 1 2] show ?thesis unfolding computes_def 3 .
qed

lemma computes_gather_scatter:
  assumes "root < W"
    and "f root = recv_loop TensorKind gt g (others W root) acc K"
    and "\<And>r. r < W \<Longrightarrow> r \<noteq> root \<Longrightarrow>
       f r = Send root gt (x r) (Recv root TensorKind bt (k r)) \<and> kind_of (x r) = TensorKind"
    and "foldr_result (\<lambda>s a. g s a (x s)) acc (others W root) = Inr acc'"
    and "K acc' = send_loop bt y (others W root) (Ret (res root))"
    and "\<And>r. r < W \<Longrightarrow> r \<noteq> root \<Longrightarrow> k r (y r) = Ret (res r) \<and> kind_of (y r) = TensorKind"
  shows "computes W f res"
proof -
  let ?gather = "\<lambda>r. if r = root then recv_loop TensorKind gt g (others W root) acc (\<lambda>a. Ret a)
      else Send root gt (x r) (Ret acc')"
  let ?rest = "\<lambda>r a. if r = root then K a else Recv root TensorKind bt (k r)"
  have "computes W ?gather (\<lambda>_. acc')"
    by (rule computes_gather [where x = x and root = root]) (use assms(1,3,4) in auto)
  moreover have "computes W (\<lambda>r. ?rest r acc') res"
    by (rule computes_scatter [where y = y and k = k and root = root]) (use assms(1,5,6) in auto)
  ultimately have both: "computes W (\<lambda>r. pbind (?gather r) (?rest r)) res"
    by (rule computes_bind)
  have eq: "f r = pbind (?gather r) (?rest r)" if "r < W" for r
    using that assms(2,3) by (auto simp: pbind_recv_loop)
  show ?thesis
    by (rule iffD2 [OF computes_cong [OF eq refl] both])
qed

section \<open>What a reduction computes\<close>

lemma tensor_add_good [transfer_simps]:
  "length a = prod_list ds \<Longrightarrow> length b = prod_list ds \<Longrightarrow>
     tensor_add add (cpu_f32 ds a) (cpu_f32 ds b) = Inr (cpu_f32 ds (map2 add a b))"
  by (auto simp: tensor_add_def elem_count_def cpu_f32_def)

lemma require_same_shape_good [transfer_simps]:
  "require_same_shape (cpu_f32 ds a) (cpu_f32 ds b) kind = Inr ()"
  by (simp add: require_same_shape_def)

definition sum_in_order :: "('v \<Rightarrow> 'v \<Rightarrow> 'v) \<Rightarrow> (usize \<Rightarrow> 'v list) \<Rightarrow> usize list \<Rightarrow> 'v list \<Rightarrow> 'v list" where
  "sum_in_order add v ss w = fold (\<lambda>s acc. map2 add acc (v s)) ss w"

lemma length_sum_in_order:
  "length w = n \<Longrightarrow> (\<And>s. s \<in> set ss \<Longrightarrow> length (v s) = n) \<Longrightarrow> length (sum_in_order add v ss w) = n"
  unfolding sum_in_order_def by (induction ss arbitrary: w) auto

lemma reduce_fold:
  assumes "good_shape ds" "length w = prod_list ds" "\<And>s. s \<in> set ss \<Longrightarrow> length (v s) = prod_list ds"
  shows "foldr_result (\<lambda>s a. reduce_one add kind (cpu_f32 ds u) a (msg ds (v s))) (cpu_f32 ds w, b) ss =
     Inr (cpu_f32 ds (sum_in_order add v ss w), b + of_nat (length ss) * shape_bytes ds)"
  using assms
proof (induction ss arbitrary: w b)
  case Nil
  then show ?case by (simp add: sum_in_order_def)
next
  case (Cons s ss)
  have "length (map2 add w (v s)) = prod_list ds" using Cons.prems by simp
  from Cons.IH [OF Cons.prems(1) this] Cons.prems show ?case
    by (simp add: reduce_one_def transfer_simps sum_in_order_def algebra_simps)
qed

text \<open>All ranks are about to make their \<open>n\<close>-th collective call together.\<close>

definition aligned :: "nat \<Rightarrow> u64 \<Rightarrow> (usize \<Rightarrow> native_collectives) \<Rightarrow> bool" where
  "aligned W n nc \<longleftrightarrow> unat n < 2 ^ 44 \<and> (\<forall>r < W. nc_rank (nc r) = member W r \<and> next_sequence (nc r) = n)"

lemma begun_sel [simp]:
  "nc_rank (begun nc kind alg root axis ds) = nc_rank nc"
  "d_sequence (call_descriptor nc kind alg root axis ds) = next_sequence nc"
  "d_kind (call_descriptor nc kind alg root axis ds) = kind"
  by (simp_all add: begun_def call_descriptor_def)

lemma tag_exists:
  assumes "unat n < 2 ^ 44" "phase \<le> 15" "step \<le> 255"
  obtains tag where "collective_tag n kind phase step = Inr tag"
  using collective_tag_ok [of phase step n kind] assms by auto

section \<open>Broadcast\<close>

lemma broadcast_computes:
  assumes "aligned W n nc" "root < W" "good_shape ds"
    and "\<And>r. r < W \<Longrightarrow> length (v r) = prod_list ds"
  shows "computes W (\<lambda>r. broadcast (nc r) (cpu_f32 ds (v r)) root)
     (\<lambda>r. (completed (nc r) Broadcast DirectAlg (Some root) None ds (Some (cpu_f32 ds (v root)))
            (if r = root then of_nat (W - 1) * shape_bytes ds else 0)
            (if r = root then 0 else shape_bytes ds), cpu_f32 ds (v root)))"
proof -
  from assms(1) have rk: "\<And>r. r < W \<Longrightarrow> nc_rank (nc r) = member W r \<and> next_sequence (nc r) = n"
    and n: "unat n < 2 ^ 44" by (auto simp: aligned_def)
  obtain tag where tag: "collective_tag n Broadcast 0 0 = Inr tag" using tag_exists [OF n] by (metis le0)
  have beg: "begin_call (nc r) Broadcast DirectAlg (Some root) None (cpu_f32 ds (v r)) =
      Inr (begun (nc r) Broadcast DirectAlg (Some root) None ds,
           call_descriptor (nc r) Broadcast DirectAlg (Some root) None ds)" if "r < W" for r
    using that assms rk [OF that] n by (intro begin_call_good) auto
  show ?thesis
  proof (rule computes_scatter [where root = root and bt = tag and y = "\<lambda>_. msg ds (v root)"])
    show "broadcast (nc root) (cpu_f32 ds (v root)) root = send_loop tag (\<lambda>_. msg ds (v root)) (others W root) (Ret
        (completed (nc root) Broadcast DirectAlg (Some root) None ds (Some (cpu_f32 ds (v root)))
            (if root = root then of_nat (W - 1) * shape_bytes ds else 0)
            (if root = root then 0 else shape_bytes ds), cpu_f32 ds (v root)))"
      using assms(2,3,4) rk [OF assms(2)] tag beg [OF assms(2)]
        send_to_all_good [of ds "v root" "others W root" W root tag 0]
      by (simp add: broadcast_def pbind_send_loop length_others completed_def flip: others_def)
  next
    fix r assume r: "r < W" "r \<noteq> root"
    show "broadcast (nc r) (cpu_f32 ds (v r)) root = Recv root TensorKind tag
       (\<lambda>payload. case decode_tensor payload of Inl e \<Rightarrow> Fail e | Inr x \<Rightarrow>
          (case x of (result, bytes) \<Rightarrow> Ret (completed (nc r) Broadcast DirectAlg (Some root) None ds (Some result)
              0 bytes, result)))"
      unfolding completed_def using r assms(2) rk [OF r(1)] tag beg [OF r(1)]
      by (simp add: broadcast_def pbind_nc_recv)
  qed (use assms in \<open>auto simp: transfer_simps\<close>)
qed

end
