(* ===== verification/Shards.thy ===== *)
theory Shards
  imports Packets
begin

text \<open>
  Splitting a tensor into equal shards along one axis (\<open>Tensor::narrow\<close>) and joining
  shards again (\<open>Tensor::cat\<close>), the two Candle operations every sharded collective is
  built on: closed forms for well-formed CPU/F32 tensors, and that joining undoes splitting.
\<close>

section \<open>Blocks of a row-major list\<close>

lemma block_join: "concat (map (\<lambda>i. block (s + i * w) w vs) [0..<n]) = block s (n * w) vs"
proof (induction n)
  case 0
  then show ?case by (simp add: block_def)
next
  case (Suc n)
  have "take (n * w + w) (drop s vs) = take (n * w) (drop s vs) @ take w (drop (n * w) (drop s vs))"
    by (rule take_add)
  with Suc show ?case by (simp add: block_def add.commute)
qed

lemma blocks_all: "length vs = n * w \<Longrightarrow> concat (map (\<lambda>i. block (i * w) w vs) [0..<n]) = vs"
  using block_join [of 0 w vs n] by (simp add: block_def)

lemma length_block [simp]: "s + n \<le> length vs \<Longrightarrow> length (block s n vs) = n"
  by (simp add: block_def)

lemma length_concat_const:
  "(\<And>x. x \<in> set xs \<Longrightarrow> length (f x) = n) \<Longrightarrow> length (concat (map f xs)) = length xs * n"
  by (induction xs) auto

lemma block_of_blocks:
  assumes "\<And>i. i < n \<Longrightarrow> length (f i) = w" and "j < n"
  shows "block (j * w) w (concat (map f [0..<n])) = f j"
proof -
  have len: "length (concat (map f [0..<j])) = j * w"
    using assms by (subst length_concat_const [where n = w]) auto
  have "[0..<n] = [0..<j] @ j # [Suc j..<n]"
    using assms(2) upt_add_eq_append [of 0 j "n - j"] by (simp add: upt_conv_Cons)
  then have "concat (map f [0..<n]) = concat (map f [0..<j]) @ f j @ concat (map f [Suc j..<n])"
    by simp
  with len assms show ?thesis by (simp add: block_def)
qed

section \<open>Sizes\<close>

lemma prod_list_axis:
  assumes "axis < length ds"
  shows "prod_list ds = outer_size ds axis * (ds ! axis * inner_size ds axis)"
proof -
  have "ds = take axis ds @ ds ! axis # drop (Suc axis) ds"
    using assms by (rule id_take_nth_drop)
  then have "prod_list ds = prod_list (take axis ds @ ds ! axis # drop (Suc axis) ds)" by simp
  then show ?thesis by (simp add: outer_size_def inner_size_def)
qed

lemma size_update [simp]:
  "outer_size (ds[axis := x]) axis = outer_size ds axis"
  "inner_size (ds[axis := x]) axis = inner_size ds axis"
  by (simp_all add: outer_size_def inner_size_def)

lemma prod_list_axis_update:
  "axis < length ds \<Longrightarrow> prod_list (ds[axis := x]) = outer_size ds axis * (x * inner_size ds axis)"
  by (simp add: prod_list_axis [of axis])

section \<open>Narrow\<close>

definition narrow_values :: "nat list \<Rightarrow> nat \<Rightarrow> nat \<Rightarrow> nat \<Rightarrow> 'v list \<Rightarrow> 'v list" where
  "narrow_values ds axis start len vs =
     concat (map (\<lambda>o'. block ((o' * ds ! axis + start) * inner_size ds axis) (len * inner_size ds axis) vs)
       [0..<outer_size ds axis])"

lemma narrow_values_all:
  assumes "axis < length ds" "length vs = prod_list ds"
  shows "narrow_values ds axis 0 (ds ! axis) vs = vs"
  using assms blocks_all [of vs "outer_size ds axis" "ds ! axis * inner_size ds axis"]
  by (simp add: narrow_values_def prod_list_axis mult.assoc)

lemma narrow_good:
  assumes "axis < length ds" "start + len \<le> ds ! axis" "length vs = prod_list ds"
  shows "narrow (cpu_f32 ds vs) axis start len =
     Inr (cpu_f32 (ds[axis := len]) (narrow_values ds axis start len vs))"
proof (cases "start = 0 \<and> ds ! axis = len")
  case True
  with assms narrow_values_all [OF assms(1,3)] show ?thesis
    by (auto simp: narrow_def Let_def)
next
  case False
  with assms show ?thesis
    by (auto simp: narrow_def Let_def narrow_values_def cpu_f32_def)
qed

lemma block_in_range:
  assumes "axis < length ds" "start + len \<le> ds ! axis" "o' < outer_size ds axis" "length vs = prod_list ds"
  shows "(o' * ds ! axis + start) * inner_size ds axis + len * inner_size ds axis \<le> length vs"
proof -
  have "o' * ds ! axis + start + len \<le> Suc o' * ds ! axis" using assms(2) by simp
  also have "\<dots> \<le> outer_size ds axis * ds ! axis" using assms(3) by (intro mult_le_mono1) simp
  finally have "(o' * ds ! axis + start + len) * inner_size ds axis
      \<le> outer_size ds axis * ds ! axis * inner_size ds axis" by (rule mult_le_mono1)
  then show ?thesis using assms(1,4) by (simp add: prod_list_axis [of axis ds] algebra_simps)
qed

lemma length_narrow_values:
  assumes "axis < length ds" "start + len \<le> ds ! axis" "length vs = prod_list ds"
  shows "length (narrow_values ds axis start len vs) = prod_list (ds[axis := len])"
proof -
  have "length (narrow_values ds axis start len vs) = length [0..<outer_size ds axis] * (len * inner_size ds axis)"
    unfolding narrow_values_def
  proof (rule length_concat_const)
    fix o' assume "o' \<in> set [0..<outer_size ds axis]"
    then have "o' < outer_size ds axis" by simp
    from block_in_range [OF assms(1,2) this assms(3)]
    show "length (block ((o' * ds ! axis + start) * inner_size ds axis) (len * inner_size ds axis) vs)
        = len * inner_size ds axis" by (rule length_block)
  qed
  with assms(1) show ?thesis by (simp add: prod_list_axis_update)
qed

section \<open>Cat of equal shapes\<close>

definition cat_values :: "nat \<Rightarrow> nat list \<Rightarrow> nat \<Rightarrow> (nat \<Rightarrow> 'v list) \<Rightarrow> 'v list" where
  "cat_values n ds axis v =
     (let w = ds ! axis * inner_size ds axis in
      concat (map (\<lambda>o'. concat (map (\<lambda>i. block (o' * w) w (v i)) [0..<n])) [0..<outer_size ds axis]))"

lemma cat_values_cong: "(\<And>i. i < n \<Longrightarrow> v i = v' i) \<Longrightarrow> cat_values n ds axis v = cat_values n ds axis v'"
  unfolding cat_values_def Let_def by (intro arg_cong [where f = concat] map_cong) simp_all

lemma cat_mismatch_equal:
  assumes "\<And>t. t \<in> set ts \<Longrightarrow> t_dims t = ds"
  shows "cat_mismatch ds axis k ts = None"
  using assms
proof (induction ts arbitrary: k)
  case Nil
  then show ?case by simp
next
  case (Cons t ts)
  have dims: "t_dims t = ds" using Cons.prems by simp
  have "cat_mismatch ds axis (Suc k) ts = None" using Cons.prems by (intro Cons.IH) auto
  moreover have "find (\<lambda>i. i \<noteq> axis \<and> ds ! i \<noteq> ds ! i) [0..<length ds] = None"
    by (simp add: find_None_iff)
  ultimately show ?case by (simp only: cat_mismatch.simps dims) simp
qed

lemma cat_foreign_none:
  assumes "list_all (\<lambda>t. t_dtype t = ty \<and> t_device t = dev) ts" "t_dtype t0 = ty" "t_device t0 = dev"
  shows "cat_foreign t0 ts = None"
  using assms(1) by (induction ts) (simp_all add: assms(2,3))

lemma cat_good:
  assumes "axis < length ds" "0 < n" "\<And>i. i < n \<Longrightarrow> length (v i) = prod_list ds"
  shows "tensor_cat (map (\<lambda>i. cpu_f32 ds (v i)) [0..<n]) axis =
     Inr (cpu_f32 (ds[axis := n * ds ! axis]) (cat_values n ds axis v))"
proof (cases "n = 1")
  case True
  have "cat_values 1 ds axis v = narrow_values ds axis 0 (ds ! axis) (v 0)"
    by (simp add: cat_values_def narrow_values_def Let_def mult.assoc)
  also have "\<dots> = v 0" using assms True by (intro narrow_values_all) auto
  finally show ?thesis using True by (simp add: tensor_cat_def)
next
  case False
  then obtain m where n: "n = Suc (Suc m)" using assms(2) by (metis One_nat_def Suc_pred neq0_conv)
  let ?ts = "map (\<lambda>i. cpu_f32 ds (v i)) [0..<n]"
  have shape: "?ts = cpu_f32 ds (v 0) # cpu_f32 ds (v 1) # map (\<lambda>i. cpu_f32 ds (v i)) [2..<n]"
    unfolding n by (simp add: upt_conv_Cons numeral_2_eq_2 del: upt_Suc)
  have none: "cat_mismatch ds axis 0 ?ts = None"
    by (rule cat_mismatch_equal) auto
  have same: "cat_foreign (cpu_f32 ds (v 0)) ?ts = None" by (rule cat_foreign_none [where ty = F32 and dev = Cpu]) (simp_all add: list_all_iff)
  have deep: "find (\<lambda>t. length (t_dims t) \<le> axis) ?ts = None" using assms(1) by (auto simp: find_None_iff)
  have total: "sum_list (map (\<lambda>t. t_dims t ! axis) ?ts) = n * ds ! axis"
    by (simp add: o_def sum_list_triv)
  have vals: "concat (map (\<lambda>o'. concat (map (\<lambda>t. let w = t_dims t ! axis * inner_size ds axis
                     in block (o' * w) w (t_values t)) ?ts)) [0..<outer_size ds axis]) = cat_values n ds axis v"
    by (simp add: cat_values_def o_def Let_def)
  have "tensor_cat ?ts axis = Inr ((cpu_f32 ds (v 0))\<lparr>t_dims := ds[axis := sum_list (map (\<lambda>t. t_dims t ! axis) ?ts)],
      t_values := concat (map (\<lambda>o'. concat (map (\<lambda>t. let w = t_dims t ! axis * inner_size ds axis
                     in block (o' * w) w (t_values t)) ?ts)) [0..<outer_size ds axis])\<rparr>)"
    using assms(1) none same deep unfolding tensor_cat_def shape by (simp add: not_le)
  then show ?thesis unfolding total vals by (simp add: cpu_f32_def)
qed

lemma length_cat_values:
  assumes "axis < length ds" "\<And>i. i < n \<Longrightarrow> length (v i) = prod_list ds"
  shows "length (cat_values n ds axis v) = prod_list (ds[axis := n * ds ! axis])"
proof -
  let ?w = "ds ! axis * inner_size ds axis"
  have inner: "length (concat (map (\<lambda>i. block (o' * ?w) ?w (v i)) [0..<n])) = n * ?w"
    if "o' < outer_size ds axis" for o'
  proof (subst length_concat_const [where n = ?w])
    fix i assume "i \<in> set [0..<n]"
    moreover have "o' * ?w + ?w \<le> outer_size ds axis * ?w"
      using that by (metis Suc_leI add.commute mult_Suc mult_le_mono1)
    ultimately show "length (block (o' * ?w) ?w (v i)) = ?w"
      using assms by (intro length_block) (simp add: prod_list_axis [of axis ds])
  qed simp
  show ?thesis
    unfolding cat_values_def Let_def using assms(1) inner
    by (subst length_concat_const [where n = "n * ?w"]) (auto simp: prod_list_axis_update)
qed

section \<open>Joining undoes splitting\<close>

lemma cat_of_narrow_values:
  assumes axis: "axis < length ds" and d: "ds ! axis = n * c" and len: "length vs = prod_list ds"
  shows "cat_values n (ds[axis := c]) axis (\<lambda>i. narrow_values ds axis (i * c) c vs) = vs"
proof -
  let ?in = "inner_size ds axis"
  have fits: "i * c + c \<le> ds ! axis" if "i < n" for i
    using that d by (metis Suc_leI add.commute mult_Suc mult_le_mono1)
  have piece: "block (o' * (c * ?in)) (c * ?in) (narrow_values ds axis (i * c) c vs) =
      block (o' * (ds ! axis * ?in) + i * (c * ?in)) (c * ?in) vs"
    if o: "o' < outer_size ds axis" and i: "i < n" for o' i
  proof -
    have "length (block ((p * ds ! axis + i * c) * ?in) (c * ?in) vs) = c * ?in"
      if "p < outer_size ds axis" for p
      using block_in_range [OF axis fits [OF i] that len] by (rule length_block)
    from block_of_blocks [OF this o] show ?thesis
      unfolding narrow_values_def by (simp add: algebra_simps)
  qed
  have row: "concat (map (\<lambda>i. block (o' * (c * ?in)) (c * ?in) (narrow_values ds axis (i * c) c vs)) [0..<n])
      = block (o' * (ds ! axis * ?in)) (ds ! axis * ?in) vs" if "o' < outer_size ds axis" for o'
  proof -
    have "concat (map (\<lambda>i. block (o' * (c * ?in)) (c * ?in) (narrow_values ds axis (i * c) c vs)) [0..<n])
      = concat (map (\<lambda>i. block (o' * (ds ! axis * ?in) + i * (c * ?in)) (c * ?in) vs) [0..<n])"
      using that by (intro arg_cong [where f = concat] map_cong) (auto simp: piece)
    also have "\<dots> = block (o' * (ds ! axis * ?in)) (n * (c * ?in)) vs" by (rule block_join)
    finally show ?thesis by (simp add: d mult.assoc)
  qed
  have "cat_values n (ds[axis := c]) axis (\<lambda>i. narrow_values ds axis (i * c) c vs) =
      concat (map (\<lambda>o'. block (o' * (ds ! axis * ?in)) (ds ! axis * ?in) vs) [0..<outer_size ds axis])"
    unfolding cat_values_def Let_def using axis row
    by (intro arg_cong [where f = concat] map_cong) auto
  also have "\<dots> = vs" using len axis by (intro blocks_all) (simp add: prod_list_axis)
  finally show ?thesis .
qed

lemma block_block: "t + k \<le> m \<Longrightarrow> block t k (block s m vs) = block (s + t) k vs"
  by (simp add: block_def drop_take add.commute min_absorb1)

lemma narrow_of_cat_values:
  assumes axis: "axis < length ds" and r: "r < n" and len: "\<And>i. i < n \<Longrightarrow> length (v i) = prod_list ds"
  shows "narrow_values (ds[axis := n * ds ! axis]) axis (r * ds ! axis) (ds ! axis) (cat_values n ds axis v) = v r"
proof -
  let ?in = "inner_size ds axis" and ?out = "outer_size ds axis"
  let ?w = "ds ! axis * ?in"
  let ?row = "\<lambda>p. concat (map (\<lambda>i. block (p * ?w) ?w (v i)) [0..<n])"
  have piece: "length (block (p * ?w) ?w (v i)) = ?w" if "p < ?out" "i < n" for p i
    using that len [OF that(2)] mult_le_mono1 [of "Suc p" ?out ?w]
    by (intro length_block) (simp add: prod_list_axis [OF axis])
  have row: "length (?row p) = n * ?w" if "p < ?out" for p
    using piece [OF that] by (subst length_concat_const [where n = ?w]) auto
  have cat: "cat_values n ds axis v = concat (map ?row [0..<?out])"
    by (simp add: cat_values_def Let_def)
  have fits: "r * ?w + ?w \<le> n * ?w" using mult_le_mono1 [of "Suc r" n ?w] r by simp
  have inner: "block (p * (n * ?w) + r * ?w) ?w (cat_values n ds axis v) = block (p * ?w) ?w (v r)"
    if "p < ?out" for p
  proof -
    have "block (p * (n * ?w)) (n * ?w) (cat_values n ds axis v) = ?row p"
      unfolding cat by (rule block_of_blocks [OF row that])
    then have "block (p * (n * ?w) + r * ?w) ?w (cat_values n ds axis v) = block (r * ?w) ?w (?row p)"
      by (simp only: block_block [OF fits, symmetric])
    also have "\<dots> = block (p * ?w) ?w (v r)" by (rule block_of_blocks [OF piece [OF that] r])
    finally show ?thesis .
  qed
  have "narrow_values (ds[axis := n * ds ! axis]) axis (r * ds ! axis) (ds ! axis) (cat_values n ds axis v)
      = concat (map (\<lambda>p. block (p * (n * ?w) + r * ?w) ?w (cat_values n ds axis v)) [0..<?out])"
    using axis by (simp add: narrow_values_def algebra_simps)
  also have "\<dots> = concat (map (\<lambda>p. block (p * ?w) ?w (v r)) [0..<?out])"
    by (intro arg_cong [where f = concat] map_cong) (auto simp: inner)
  also have "\<dots> = v r" using len [OF r] by (intro blocks_all) (simp add: prod_list_axis [OF axis])
  finally show ?thesis .
qed

lemma narrow_of_cat:
  assumes axis: "axis < length ds" and r: "r < n" and len: "\<And>i. i < n \<Longrightarrow> length (v i) = prod_list ds"
  shows "narrow (cpu_f32 (ds[axis := n * ds ! axis]) (cat_values n ds axis v)) axis (r * ds ! axis) (ds ! axis) =
     Inr (cpu_f32 ds (v r))"
proof -
  have "r * ds ! axis + ds ! axis \<le> n * ds ! axis" using mult_le_mono1 [of "Suc r" n "ds ! axis"] r by simp
  with axis length_cat_values [of axis ds n v] len show ?thesis
    by (subst narrow_good) (simp_all add: narrow_of_cat_values [OF axis r len])
qed

text \<open>
  Splitting a tensor into \<open>n\<close> equal shards along any axis and concatenating the shards
  in rank order along that axis gives the tensor back, values and shape.
\<close>

theorem cat_of_equal_shards:
  assumes "axis < length ds" "ds ! axis = n * c" "0 < n" "length vs = prod_list ds"
  shows "rbind (collect_results (map (\<lambda>i. narrow (cpu_f32 ds vs) axis (i * c) c) [0..<n]))
      (\<lambda>shards. tensor_cat shards axis) = Inr (cpu_f32 ds vs)"
proof -
  have fits: "i * c + c \<le> ds ! axis" if "i < n" for i
    using that assms(2) by (metis Suc_leI add.commute mult_Suc mult_le_mono1)
  let ?shard = "\<lambda>i. cpu_f32 (ds[axis := c]) (narrow_values ds axis (i * c) c vs)"
  have "map (\<lambda>i. narrow (cpu_f32 ds vs) axis (i * c) c) [0..<n] = map Inr (map ?shard [0..<n])"
    using fits assms(1,4) by (auto simp: narrow_good)
  then have "collect_results (map (\<lambda>i. narrow (cpu_f32 ds vs) axis (i * c) c) [0..<n]) = Inr (map ?shard [0..<n])"
    by (simp only: collect_results_Inr)
  moreover have "tensor_cat (map ?shard [0..<n]) axis = Inr (cpu_f32 ds vs)"
  proof (subst cat_good)
    show "Inr (cpu_f32 (ds[axis := c, axis := n * ds[axis := c] ! axis])
        (cat_values n (ds[axis := c]) axis (\<lambda>i. narrow_values ds axis (i * c) c vs))) = Inr (cpu_f32 ds vs)"
      using assms by (simp add: cat_of_narrow_values flip: assms(2))
  qed (use assms fits in \<open>auto simp: length_narrow_values\<close>)
  ultimately show ?thesis by simp
qed

theorem cat_of_equal_shards_witness:
  "rbind (collect_results (map (\<lambda>i. narrow (cpu_f32 [2, 4] [1, 2, 3, 4, 5, 6, 7, 8 :: int]) 1 (i * 2) 2) [0..<2]))
      (\<lambda>shards. tensor_cat shards 1) = Inr (cpu_f32 [2, 4] [1, 2, 3, 4, 5, 6, 7, 8])"
  by (rule cat_of_equal_shards) simp_all

end
