(* ===== verification/CentralizedCollectives.thy ===== *)
theory CentralizedCollectives
  imports CentralizedProofs Shards
begin

text \<open>
  What the root-based collectives of \<open>crates/collectives/src/collective.rs\<close> compute:
  broadcast, reduce, all-gather, centralized all-reduce and reduce-scatter, for every world
  size, every schedule of the ranks and every element addition.
\<close>

section \<open>Shared steps\<close>

lemma aligned_rank:
  "aligned W n nc \<Longrightarrow> r < W \<Longrightarrow> nc_rank (nc r) = member W r \<and> next_sequence (nc r) = n"
  by (simp add: aligned_def)

lemma aligned_begin:
  assumes "aligned W n nc" "r < W" "good_shape ds" "length vs = prod_list ds"
    and "\<And>x. root = Some x \<Longrightarrow> x < W" and "\<And>a. axis = Some a \<Longrightarrow> a < length ds"
  shows "begin_call (nc r) kind alg root axis (cpu_f32 ds vs) =
     Inr (begun (nc r) kind alg root axis ds, call_descriptor (nc r) kind alg root axis ds)"
  using assms aligned_rank [OF assms(1,2)]
  by (intro begin_call_good) (auto simp: aligned_def)

lemma aligned_tag:
  assumes "aligned W n nc" "phase \<le> 15" "step \<le> 255"
  obtains tag where "collective_tag n kind phase step = Inr tag"
  using assms tag_exists [of n phase step kind] by (auto simp: aligned_def)

lemma fold_others_length:
  "root < W \<Longrightarrow> of_nat (length (others W root)) * (b :: u64) = of_nat (W - 1) * b"
  by (simp add: length_others)

section \<open>Reduce\<close>

lemma reduce_computes:
  fixes add :: "'v \<Rightarrow> 'v \<Rightarrow> 'v"
  assumes al: "aligned W n nc" and root: "root < W" and ds: "good_shape ds"
    and len: "\<And>r. r < W \<Longrightarrow> length (v r) = prod_list ds"
  defines "result \<equiv> cpu_f32 ds (sum_in_order add v (others W root) (v root))"
  shows "computes W (\<lambda>r. reduce add (nc r) (cpu_f32 ds (v r)) root Sum)
     (\<lambda>r. if r = root
          then (completed (nc r) Reduce CentralizedAlg (Some root) None ds (Some result)
                 0 (of_nat (W - 1) * shape_bytes ds), Some result)
          else (completed (nc r) Reduce CentralizedAlg (Some root) None ds (None :: 'v tensor option)
                 (shape_bytes ds) 0, None))"
proof -
  obtain tag where tag: "collective_tag n Reduce 0 0 = Inr tag" using aligned_tag [OF al] by (metis le0)
  note beg = aligned_begin [OF al _ ds len, where root = "Some root" and axis = None]
  let ?done = "\<lambda>r. completed (nc r) Reduce CentralizedAlg (Some root) None ds"
  let ?fin = "\<lambda>a. (?done root (Some (fst a)) 0 (snd a), Some (fst a))"
  show ?thesis
  proof (rule computes_gather [where root = root and x = "\<lambda>r. msg ds (v r)" and fin = ?fin])
    show "reduce add (nc root) (cpu_f32 ds (v root)) root Sum =
       recv_loop TensorKind tag (\<lambda>_. reduce_one add Reduce (cpu_f32 ds (v root))) (others W root)
         (cpu_f32 ds (v root), 0) (\<lambda>a. Ret (?fin a))"
      unfolding completed_def using root aligned_rank [OF al root] tag beg [OF root root]
        reduce_from_loop [of "others W root" W root add Reduce tag]
      by (simp add: reduce_def pbind_recv_loop case_prod_unfold flip: others_def)
  next
    show "foldr_result (\<lambda>s a. reduce_one add Reduce (cpu_f32 ds (v root)) a (msg ds (v s)))
       (cpu_f32 ds (v root), 0) (others W root) = Inr (result, of_nat (W - 1) * shape_bytes ds)"
      unfolding result_def using root ds len by (subst reduce_fold) (auto simp: length_others)
  next
    fix r assume r: "r < W" "r \<noteq> root"
    show "reduce add (nc r) (cpu_f32 ds (v r)) root Sum = Send root tag (msg ds (v r))
       (Ret (if r = root then (?done r (Some result) 0 (of_nat (W - 1) * shape_bytes ds), Some result)
             else (?done r (None :: 'v tensor option) (shape_bytes ds) 0, None))) \<and> kind_of (msg ds (v r)) = TensorKind"
      unfolding completed_def using r root aligned_rank [OF al r(1)] tag beg [OF r(1) r(1)] ds len [OF r(1)]
      by (simp add: reduce_def transfer_simps)
  qed (use root in auto)
qed

section \<open>Centralized all-reduce\<close>

lemma centralized_all_reduce_computes:
  fixes add :: "'v \<Rightarrow> 'v \<Rightarrow> 'v"
  assumes al: "aligned W n nc" and W: "0 < W" and ds: "good_shape ds"
    and len: "\<And>r. r < W \<Longrightarrow> length (v r) = prod_list ds"
  defines "result \<equiv> cpu_f32 ds (sum_in_order add v [1..<W] (v 0))"
  shows "computes W (\<lambda>r. all_reduce add (nc r) (cpu_f32 ds (v r)) Sum Centralized)
     (\<lambda>r. (completed (nc r) AllReduce CentralizedAlg (Some 0) None ds (Some result)
            (if r = 0 then of_nat (W - 1) * shape_bytes ds else shape_bytes ds)
            (if r = 0 then of_nat (W - 1) * shape_bytes ds else shape_bytes ds), result))"
proof -
  obtain gt where gt: "collective_tag n AllReduce 1 0 = Inr gt" using aligned_tag [OF al, of 1 0] by auto
  obtain bt where bt: "collective_tag n AllReduce 2 0 = Inr bt" using aligned_tag [OF al, of 2 0] by auto
  note beg = aligned_begin [OF al _ ds len, where root = "Some 0" and axis = None]
  let ?done = "\<lambda>r. completed (nc r) AllReduce CentralizedAlg (Some 0) None ds"
  let ?sent = "of_nat (W - 1) * shape_bytes ds"
  let ?sum = "sum_in_order add v [1..<W] (v 0)"
  have sumlen: "length ?sum = prod_list ds"
    by (rule length_sum_in_order) (use W len in auto)
  show ?thesis
  proof (rule computes_gather_scatter [where root = 0 and x = "\<lambda>r. msg ds (v r)" and y = "\<lambda>_. msg ds ?sum"
        and gt = gt and bt = bt])
    show "0 < W" by (rule W)
  next
    show "all_reduce add (nc 0) (cpu_f32 ds (v 0)) Sum Centralized =
       recv_loop TensorKind gt (\<lambda>_. reduce_one add AllReduce (cpu_f32 ds (v 0))) (others W 0) (cpu_f32 ds (v 0), 0)
         (\<lambda>a. pbind (send_to_all (member W 0) bt (fst a) [1..<W] 0) (\<lambda>sent. Ret
            (finish_call (begun (nc 0) AllReduce CentralizedAlg (Some 0) None ds)
               (call_descriptor (nc 0) AllReduce CentralizedAlg (Some 0) None ds) (Some (fst a)) sent (snd a), fst a)))"
      using W aligned_rank [OF al W] gt bt beg [OF W W]
        reduce_from_loop [of "[1..<W]" W 0 add AllReduce gt]
      by (simp add: all_reduce_def centralized_all_reduce_def pbind_recv_loop case_prod_unfold pbind_assoc others_0)
  next
    show "foldr_result (\<lambda>s a. reduce_one add AllReduce (cpu_f32 ds (v 0)) a (msg ds (v s)))
       (cpu_f32 ds (v 0), 0) (others W 0) = Inr (result, ?sent)"
      unfolding result_def others_0 using W ds len by (subst reduce_fold) auto
  next
    show "pbind (send_to_all (member W 0) bt (fst (result, ?sent)) [1..<W] 0) (\<lambda>sent. Ret
            (finish_call (begun (nc 0) AllReduce CentralizedAlg (Some 0) None ds)
               (call_descriptor (nc 0) AllReduce CentralizedAlg (Some 0) None ds) (Some (fst (result, ?sent))) sent
               (snd (result, ?sent)), fst (result, ?sent))) =
       send_loop bt (\<lambda>_. msg ds ?sum) (others W 0) (Ret (?done 0 (Some result)
            (if (0::nat) = 0 then ?sent else shape_bytes ds) (if (0::nat) = 0 then ?sent else shape_bytes ds), result))"
      unfolding result_def completed_def
      using W ds sumlen send_to_all_good [of ds ?sum "[1..<W]" W 0 bt 0]
      by (simp add: pbind_send_loop others_0)
  next
    fix r assume r: "r < W" "r \<noteq> 0"
    show "all_reduce add (nc r) (cpu_f32 ds (v r)) Sum Centralized = Send 0 gt (msg ds (v r)) (Recv 0 TensorKind bt
       (\<lambda>payload. case decode_tensor payload of Inl e \<Rightarrow> Fail e | Inr x \<Rightarrow>
          (case require_same_shape (cpu_f32 ds (v r)) (fst x) AllReduce of Inl e \<Rightarrow> Fail e | Inr _ \<Rightarrow>
             Ret (?done r (Some (fst x)) (shape_bytes ds) (snd x), fst x))))
       \<and> kind_of (msg ds (v r)) = TensorKind"
      unfolding completed_def using r W aligned_rank [OF al r(1)] gt bt beg [OF r(1) r(1)] ds len [OF r(1)]
      by (simp add: all_reduce_def centralized_all_reduce_def transfer_simps pbind_nc_recv pbind_assoc
          pbind_lift_result pbind_case_result case_prod_unfold cong: sum.case_cong)
  qed (use W ds sumlen in \<open>auto simp: transfer_simps result_def\<close>)
qed

section \<open>All-gather\<close>

lemma gather_fold:
  assumes "good_shape ds" "\<And>s. s \<in> set ss \<Longrightarrow> length (v s) = prod_list ds"
  shows "foldr_result (\<lambda>s a. gather_one (cpu_f32 ds u) axis a (msg ds (v s))) (ts, b) ss =
     Inr (ts @ map (\<lambda>s. cpu_f32 ds (v s)) ss, b + of_nat (length ss) * shape_bytes ds)"
  using assms
  by (induction ss arbitrary: ts b)
     (auto simp: gather_one_def transfer_simps require_gather_shape_def algebra_simps)

lemma all_gather_computes:
  assumes al: "aligned W n nc" and W: "0 < W" and ds: "good_shape ds" and axis: "axis < length ds"
    and out: "good_shape (ds[axis := W * ds ! axis])"
    and len: "\<And>r. r < W \<Longrightarrow> length (v r) = prod_list ds"
  defines "result \<equiv> cpu_f32 (ds[axis := W * ds ! axis]) (cat_values W ds axis v)"
    and "out_bytes \<equiv> shape_bytes (ds[axis := W * ds ! axis])"
  shows "computes W (\<lambda>r. all_gather (nc r) (cpu_f32 ds (v r)) axis)
     (\<lambda>r. (completed (nc r) AllGather CentralizedAlg (Some 0) (Some axis) ds (Some result)
            (if r = 0 then of_nat (W - 1) * out_bytes else shape_bytes ds)
            (if r = 0 then of_nat (W - 1) * shape_bytes ds else out_bytes), result))"
proof -
  obtain gt where gt: "collective_tag n AllGather 1 0 = Inr gt" using aligned_tag [OF al, of 1 0] by auto
  obtain bt where bt: "collective_tag n AllGather 2 0 = Inr bt" using aligned_tag [OF al, of 2 0] by auto
  note beg = aligned_begin [OF al _ ds len, where root = "Some 0" and axis = "Some axis"]
  let ?ds = "ds[axis := W * ds ! axis]" and ?vs = "cat_values W ds axis v"
  let ?shards = "map (\<lambda>s. cpu_f32 ds (v s)) [0..<W]"
  have catlen: "length ?vs = prod_list ?ds" by (rule length_cat_values) (use axis len in auto)
  have cat: "tensor_cat ?shards axis = Inr result"
    unfolding result_def by (rule cat_good) (use axis W len in auto)
  have first: "[0..<W] = 0 # [1..<W]" using W by (simp add: upt_conv_Cons)
  let ?beg = "begun (nc 0) AllGather CentralizedAlg (Some 0) (Some axis) ds"
  let ?d = "call_descriptor (nc 0) AllGather CentralizedAlg (Some 0) (Some axis) ds"
  let ?K = "\<lambda>a. case map_err TensorError (tensor_cat (fst a) axis) of Inl e \<Rightarrow> Fail e | Inr gathered \<Rightarrow>
       pbind (send_to_all (member W 0) bt gathered [1..<W] 0) (\<lambda>sent.
         Ret (finish_call ?beg ?d (Some gathered) sent (snd a), gathered))"
  show ?thesis
  proof (rule computes_gather_scatter [where root = 0 and x = "\<lambda>r. msg ds (v r)" and y = "\<lambda>_. msg ?ds ?vs"
        and gt = gt and bt = bt and K = ?K])
    show "0 < W" by (rule W)
  next
    show "all_gather (nc 0) (cpu_f32 ds (v 0)) axis =
       recv_loop TensorKind gt (\<lambda>_. gather_one (cpu_f32 ds (v 0)) axis) (others W 0) ([cpu_f32 ds (v 0)], 0) ?K"
      using W axis aligned_rank [OF al W] gt bt beg [OF W W]
        gather_from_loop [of "[1..<W]" W 0 gt "cpu_f32 ds (v 0)" axis]
      by (simp add: all_gather_def pbind_recv_loop case_prod_unfold pbind_lift_result others_0 cong: sum.case_cong)
  next
    show "foldr_result (\<lambda>s a. gather_one (cpu_f32 ds (v 0)) axis a (msg ds (v s)))
       ([cpu_f32 ds (v 0)], 0) (others W 0) = Inr (?shards, of_nat (W - 1) * shape_bytes ds)"
      unfolding others_0 using W ds len by (subst gather_fold) (auto simp: first)
  next
    show "?K (?shards, of_nat (W - 1) * shape_bytes ds) = send_loop bt (\<lambda>_. msg ?ds ?vs) (others W 0)
       (Ret (completed (nc 0) AllGather CentralizedAlg (Some 0) (Some axis) ds (Some result)
            (if (0::nat) = 0 then of_nat (W - 1) * out_bytes else shape_bytes ds)
            (if (0::nat) = 0 then of_nat (W - 1) * shape_bytes ds else out_bytes), result))"
      unfolding completed_def out_bytes_def fst_conv cat
      using W out catlen send_to_all_good [of ?ds ?vs "[1..<W]" W 0 bt 0]
      by (simp add: pbind_send_loop others_0 result_def)
  next
    fix r assume r: "r < W" "r \<noteq> 0"
    show "all_gather (nc r) (cpu_f32 ds (v r)) axis = Send 0 gt (msg ds (v r)) (Recv 0 TensorKind bt
       (\<lambda>payload. case decode_tensor payload of Inl e \<Rightarrow> Fail e | Inr x \<Rightarrow>
          Ret (completed (nc r) AllGather CentralizedAlg (Some 0) (Some axis) ds (Some (fst x))
                 (shape_bytes ds) (snd x), fst x)))
       \<and> kind_of (msg ds (v r)) = TensorKind"
      unfolding completed_def using r W axis aligned_rank [OF al r(1)] gt bt beg [OF r(1) r(1)] ds len [OF r(1)]
      by (simp add: all_gather_def transfer_simps pbind_nc_recv case_prod_unfold)
  qed (use W out catlen in \<open>auto simp: transfer_simps result_def out_bytes_def\<close>)
qed

section \<open>Reduce-scatter\<close>

lemma scatter_to_good:
  assumes "good_shape (ds[axis := c])" "axis < length ds" "length vs = prod_list ds"
    and "\<And>d. d \<in> set dests \<Longrightarrow> d < W \<and> d \<noteq> r \<and> d * c + c \<le> ds ! axis"
  shows "scatter_to (member W r) tag (cpu_f32 ds vs) axis c dests sent =
     send_loop tag (\<lambda>d. msg (ds[axis := c]) (narrow_values ds axis (d * c) c vs)) dests
       (Ret (sent + of_nat (length dests) * shape_bytes (ds[axis := c])))"
  using assms
  by (induction dests arbitrary: sent)
     (auto simp: transfer_simps narrow_good length_narrow_values algebra_simps)

lemma reduce_scatter_computes:
  fixes add :: "'v \<Rightarrow> 'v \<Rightarrow> 'v"
  assumes al: "aligned W n nc" and W: "0 < W" and ds: "good_shape ds" and axis: "axis < length ds"
    and c: "ds ! axis = W * c" and out: "good_shape (ds[axis := c])"
    and len: "\<And>r. r < W \<Longrightarrow> length (v r) = prod_list ds"
  defines "shard \<equiv> \<lambda>r. cpu_f32 (ds[axis := c])
       (narrow_values ds axis (r * c) c (sum_in_order add v [1..<W] (v 0)))"
    and "out_bytes \<equiv> shape_bytes (ds[axis := c])"
  shows "computes W (\<lambda>r. reduce_scatter add (nc r) (cpu_f32 ds (v r)) axis Sum)
     (\<lambda>r. (completed (nc r) ReduceScatter CentralizedAlg (Some 0) (Some axis) ds (Some (shard r))
            (if r = 0 then of_nat (W - 1) * out_bytes else shape_bytes ds)
            (if r = 0 then of_nat (W - 1) * shape_bytes ds else out_bytes), shard r))"
proof -
  obtain gt where gt: "collective_tag n ReduceScatter 1 0 = Inr gt" using aligned_tag [OF al, of 1 0] by auto
  obtain bt where bt: "collective_tag n ReduceScatter 2 0 = Inr bt" using aligned_tag [OF al, of 2 0] by auto
  note beg = aligned_begin [OF al _ ds len, where root = "Some 0" and axis = "Some axis"]
  let ?sum = "sum_in_order add v [1..<W] (v 0)" and ?ds = "ds[axis := c]"
  let ?vs = "\<lambda>d. narrow_values ds axis (d * c) c ?sum"
  have sumlen: "length ?sum = prod_list ds"
    by (rule length_sum_in_order) (use W len in auto)
  have fits: "d * c + c \<le> ds ! axis" if "d < W" for d
    using that c by (metis Suc_leI add.commute mult_Suc mult_le_mono1)
  have vlen: "length (?vs d) = prod_list ?ds" if "d < W" for d
    by (rule length_narrow_values [OF axis fits [OF that] sumlen])
  have dim: "tensor_dim (cpu_f32 ds u) axis = Inr (W * c)" for u :: "'v list"
    using axis c by (simp add: tensor_dim_def)
  let ?beg = "begun (nc 0) ReduceScatter CentralizedAlg (Some 0) (Some axis) ds"
  let ?d = "call_descriptor (nc 0) ReduceScatter CentralizedAlg (Some 0) (Some axis) ds"
  let ?K = "\<lambda>a. case map_err TensorError (tensor_dim (fst a) axis) of Inl e \<Rightarrow> Fail e | Inr extent \<Rightarrow>
      (case map_err TensorError (narrow (fst a) axis 0 (extent div W)) of Inl e \<Rightarrow> Fail e | Inr local \<Rightarrow>
         pbind (scatter_to (member W 0) bt (fst a) axis (extent div W) [1..<W] 0) (\<lambda>sent.
           Ret (finish_call ?beg ?d (Some local) sent (snd a), local)))"
  show ?thesis
  proof (rule computes_gather_scatter [where root = 0 and x = "\<lambda>r. msg ds (v r)" and y = "\<lambda>d. msg ?ds (?vs d)"
        and gt = gt and bt = bt and K = ?K])
    show "0 < W" by (rule W)
  next
    show "reduce_scatter add (nc 0) (cpu_f32 ds (v 0)) axis Sum =
       recv_loop TensorKind gt (\<lambda>_. reduce_one add ReduceScatter (cpu_f32 ds (v 0))) (others W 0)
         (cpu_f32 ds (v 0), 0) ?K"
      using W axis aligned_rank [OF al W] gt bt beg [OF W W]
        reduce_from_loop [of "[1..<W]" W 0 add ReduceScatter gt]
      by (simp add: reduce_scatter_def dim pbind_recv_loop case_prod_unfold pbind_lift_result others_0 Let_def
          cong: sum.case_cong)
  next
    show "foldr_result (\<lambda>s a. reduce_one add ReduceScatter (cpu_f32 ds (v 0)) a (msg ds (v s)))
       (cpu_f32 ds (v 0), 0) (others W 0) = Inr (cpu_f32 ds ?sum, of_nat (W - 1) * shape_bytes ds)"
      unfolding others_0 using W ds len by (subst reduce_fold) auto
  next
    have "narrow (cpu_f32 ds ?sum) axis 0 c = Inr (shard 0)"
      unfolding shard_def using narrow_good [OF axis fits [OF W] sumlen] by simp
    then show "?K (cpu_f32 ds ?sum, of_nat (W - 1) * shape_bytes ds) =
       send_loop bt (\<lambda>d. msg ?ds (?vs d)) (others W 0)
       (Ret (completed (nc 0) ReduceScatter CentralizedAlg (Some 0) (Some axis) ds (Some (shard 0))
            (if (0::nat) = 0 then of_nat (W - 1) * out_bytes else shape_bytes ds)
            (if (0::nat) = 0 then of_nat (W - 1) * shape_bytes ds else out_bytes), shard 0))"
      unfolding completed_def out_bytes_def fst_conv dim
      using W out axis sumlen fits scatter_to_good [of ds axis c ?sum "[1..<W]" W 0 bt 0]
      by (simp add: pbind_send_loop others_0)
  next
    fix r assume r: "r < W" "r \<noteq> 0"
    show "reduce_scatter add (nc r) (cpu_f32 ds (v r)) axis Sum = Send 0 gt (msg ds (v r)) (Recv 0 TensorKind bt
       (\<lambda>payload. case decode_tensor payload of Inl e \<Rightarrow> Fail e | Inr x \<Rightarrow>
          Ret (completed (nc r) ReduceScatter CentralizedAlg (Some 0) (Some axis) ds (Some (fst x))
                 (shape_bytes ds) (snd x), fst x)))
       \<and> kind_of (msg ds (v r)) = TensorKind"
      unfolding completed_def using r W axis aligned_rank [OF al r(1)] gt bt beg [OF r(1) r(1)] ds len [OF r(1)]
      by (simp add: reduce_scatter_def dim transfer_simps pbind_nc_recv case_prod_unfold)
  qed (use W out vlen in \<open>auto simp: transfer_simps shard_def out_bytes_def\<close>)
qed

section \<open>The specifications\<close>

text \<open>The element-wise sum in rank order: what the floating-point reduction evaluates.\<close>

lemma sum_in_order_nth:
  assumes "\<And>s. s \<in> set ss \<Longrightarrow> length (v s) = length w" and "i < length w"
  shows "sum_in_order add v ss w ! i = fold (\<lambda>s acc. add acc (v s ! i)) ss (w ! i)"
  using assms unfolding sum_in_order_def
proof (induction ss arbitrary: w)
  case Nil
  then show ?case by simp
next
  case (Cons s ss)
  then show ?case by (simp add: Cons.IH [of "map2 add w (v s)"])
qed

lemma sum_in_order_map:
  assumes "\<And>s. s \<in> set ss \<Longrightarrow> length (v s) = length w"
  shows "sum_in_order add v ss w = map (\<lambda>i. fold (\<lambda>s acc. add acc (v s ! i)) ss (w ! i)) [0..<length w]"
  by (rule nth_equalityI) (use assms in \<open>auto simp: sum_in_order_nth length_sum_in_order\<close>)

definition rank_sum :: "('v \<Rightarrow> 'v \<Rightarrow> 'v) \<Rightarrow> (usize \<Rightarrow> 'v list) \<Rightarrow> usize list \<Rightarrow> nat \<Rightarrow> 'v" where
  "rank_sum add v rs i = fold (\<lambda>s acc. add acc (v s ! i)) (tl rs) (v (hd rs) ! i)"

lemma sum_in_order_rank_sum:
  assumes "\<And>r. r < W \<Longrightarrow> length (v r) = m" "root < W"
  shows "sum_in_order add v (others W root) (v root) = map (rank_sum add v (root # others W root)) [0..<m]"
  using assms by (subst sum_in_order_map) (auto simp: rank_sum_def)

lemma ascending_rank_sum:
  assumes "\<And>r. r < W \<Longrightarrow> length (v r) = m" "0 < W"
  shows "map (rank_sum add v [0..<W]) [0..<m] = sum_in_order add v [1..<W] (v 0)"
proof -
  have "[0..<W] = 0 # others W 0" using assms(2) by (simp add: others_0 upt_conv_Cons)
  with sum_in_order_rank_sum [of W v m 0 add] assms show ?thesis by (simp add: others_0)
qed

lemma good_shapeI: "0 \<notin> set ds \<Longrightarrow> 4 * prod_list ds < 2 ^ 64 \<Longrightarrow> good_shape ds"
  by (simp add: good_shape_def element_count_ok)

text \<open>
  C26. Broadcast: whatever the schedule, every rank of the world returns the root's tensor,
  the root having sent it once to each other rank and every other rank having received it
  once; each rank's call is recorded as completed with exactly those byte counts.
\<close>

theorem broadcast_correct:
  assumes "aligned W n nc" "root < W" "good_shape ds" "\<And>r. r < W \<Longrightarrow> length (v r) = prod_list ds"
  shows "all_runs_return W (\<lambda>r. broadcast (nc r) (cpu_f32 ds (v r)) root)
     (\<lambda>r. (completed (nc r) Broadcast DirectAlg (Some root) None ds (Some (cpu_f32 ds (v root)))
            (if r = root then of_nat (W - 1) * shape_bytes ds else 0)
            (if r = root then 0 else shape_bytes ds), cpu_f32 ds (v root)))"
  by (rule computes_all_runs, rule broadcast_computes) (use assms in auto)

theorem broadcast_correct_witness:
  "all_runs_return 3 (\<lambda>r. broadcast (native_new (member 3 r)) (cpu_f32 [2] [int r, 7]) 1)
     (\<lambda>r. (completed (native_new (member 3 r)) Broadcast DirectAlg (Some 1) None [2] (Some (cpu_f32 [2] [1, 7 :: int]))
            (if r = 1 then 16 else 0) (if r = 1 then 0 else 8), cpu_f32 [2] [1, 7 :: int]))"
  using broadcast_correct [of 3 0 "\<lambda>r. native_new (member 3 r)" 1 "[2]" "\<lambda>r. [int r, 7]"]
  by (simp add: aligned_def native_new_def good_shapeI shape_bytes_def Let_def cong: if_cong)

text \<open>The order matters: with a commutative addition that is not associative, summing from root 2
  of three ranks and summing in rank order differ.\<close>

lemma reduce_order_root: "root < W \<Longrightarrow> root # others W root = [0..<W] \<longleftrightarrow> root = 0"
  by (auto simp: others_def upt_conv_Cons)

lemma reduce_order_visible:
  "rank_sum (\<lambda>a b. (a + b) div 2) (\<lambda>r. [[0, 2, 8] ! r]) (2 # others 3 2) 0 = (3 :: int)
   \<and> rank_sum (\<lambda>a b. (a + b) div 2) (\<lambda>r. [[0, 2, 8] ! r]) [0..<3] 0 = (4 :: int)"
  by code_simp

text \<open>
  C27. Reduce: whatever the schedule, the root returns the element-wise sum of all ranks'
  tensors, added in the order root first and then the other ranks ascending, so that the
  floating-point result is the same on every run; the other ranks return nothing. This is the
  order of the code; \<open>docs/native-collectives.md\<close> says that the root sums in rank order, which
  is a different order for every root but 0 and, addition being commutative but not
  associative, can be a different result for a root from 2 on (\<open>reduce_order_visible\<close>).
\<close>

theorem reduce_correct:
  fixes add :: "'v \<Rightarrow> 'v \<Rightarrow> 'v"
  assumes "aligned W n nc" "root < W" "good_shape ds" "\<And>r. r < W \<Longrightarrow> length (v r) = prod_list ds"
  shows "let total = cpu_f32 ds (map (rank_sum add v (root # others W root)) [0..<prod_list ds]) in
     all_runs_return W (\<lambda>r. reduce add (nc r) (cpu_f32 ds (v r)) root Sum)
     (\<lambda>r. if r = root
          then (completed (nc r) Reduce CentralizedAlg (Some root) None ds (Some total)
                 0 (of_nat (W - 1) * shape_bytes ds), Some total)
          else (completed (nc r) Reduce CentralizedAlg (Some root) None ds (None :: 'v tensor option)
                 (shape_bytes ds) 0, None))"
proof -
  have sum: "map (rank_sum add v (root # others W root)) [0..<prod_list ds] = sum_in_order add v (others W root) (v root)"
    by (rule sum_in_order_rank_sum [symmetric]) (use assms in auto)
  show ?thesis
    unfolding Let_def sum by (rule computes_all_runs, rule reduce_computes) (use assms in auto)
qed

theorem reduce_correct_witness:
  "all_runs_return 3 (\<lambda>r. reduce (+) (native_new (member 3 r)) (cpu_f32 [2] [int r, 10 * int r]) 1 Sum)
     (\<lambda>r. if r = 1
          then (completed (native_new (member 3 r)) Reduce CentralizedAlg (Some 1) None [2]
                 (Some (cpu_f32 [2] [3, 30 :: int])) 0 16, Some (cpu_f32 [2] [3, 30]))
          else (completed (native_new (member 3 r)) Reduce CentralizedAlg (Some 1) None [2]
                 (None :: int tensor option) 8 0, None))"
proof -
  have sums: "map (rank_sum (+) (\<lambda>r. [int r, 10 * int r]) (1 # others 3 1)) [0..<2] = [3, 30]"
    by code_simp
  show ?thesis
    using reduce_correct [of 3 0 "\<lambda>r. native_new (member 3 r)" 1 "[2]" "\<lambda>r. [int r, 10 * int r]" "(+)"] sums
    by (simp add: aligned_def native_new_def good_shapeI shape_bytes_def Let_def cong: if_cong)
qed

text \<open>
  C22. Centralized all-reduce: whatever the schedule, every rank returns the same tensor, the
  element-wise sum of all ranks' tensors added in ascending rank order, bit for bit.
\<close>

theorem centralized_all_reduce_correct:
  fixes add :: "'v \<Rightarrow> 'v \<Rightarrow> 'v"
  assumes "aligned W n nc" "0 < W" "good_shape ds" "\<And>r. r < W \<Longrightarrow> length (v r) = prod_list ds"
  shows "let total = cpu_f32 ds (map (rank_sum add v [0..<W]) [0..<prod_list ds]) in
     all_runs_return W (\<lambda>r. all_reduce add (nc r) (cpu_f32 ds (v r)) Sum Centralized)
     (\<lambda>r. (completed (nc r) AllReduce CentralizedAlg (Some 0) None ds (Some total)
            (if r = 0 then of_nat (W - 1) * shape_bytes ds else shape_bytes ds)
            (if r = 0 then of_nat (W - 1) * shape_bytes ds else shape_bytes ds), total))"
proof -
  have sum: "map (rank_sum add v [0..<W]) [0..<prod_list ds] = sum_in_order add v [1..<W] (v 0)"
    by (rule ascending_rank_sum) (use assms in auto)
  show ?thesis
    unfolding Let_def sum by (rule computes_all_runs, rule centralized_all_reduce_computes) (use assms in auto)
qed

theorem centralized_all_reduce_correct_witness:
  "all_runs_return 3 (\<lambda>r. all_reduce (+) (native_new (member 3 r)) (cpu_f32 [2] [int r, 10 * int r]) Sum Centralized)
     (\<lambda>r. (completed (native_new (member 3 r)) AllReduce CentralizedAlg (Some 0) None [2]
           (Some (cpu_f32 [2] [3, 30 :: int])) (if r = 0 then 16 else 8) (if r = 0 then 16 else 8), cpu_f32 [2] [3, 30]))"
proof -
  have sums: "map (rank_sum (+) (\<lambda>r. [int r, 10 * int r]) [0..<3]) [0..<2] = [3, 30]"
    by code_simp
  show ?thesis
    using centralized_all_reduce_correct
      [of 3 0 "\<lambda>r. native_new (member 3 r)" "[2]" "\<lambda>r. [int r, 10 * int r]" "(+)"] sums
    by (simp add: aligned_def native_new_def good_shapeI shape_bytes_def Let_def cong: if_cong)
qed

text \<open>
  C23. All-gather: whatever the schedule, every rank returns one and the same tensor; along
  the gather axis it is \<open>W\<close> times as long as the inputs, and its slice number \<open>r\<close> is the
  tensor rank \<open>r\<close> contributed.
\<close>

theorem all_gather_correct:
  assumes "aligned W n nc" "0 < W" "good_shape ds" "axis < length ds" "good_shape (ds[axis := W * ds ! axis])"
    and "\<And>r. r < W \<Longrightarrow> length (v r) = prod_list ds"
  shows "\<exists>out. t_dims out = ds[axis := W * ds ! axis]
     \<and> (\<forall>r < W. narrow out axis (r * ds ! axis) (ds ! axis) = Inr (cpu_f32 ds (v r)))
     \<and> all_runs_return W (\<lambda>r. all_gather (nc r) (cpu_f32 ds (v r)) axis)
         (\<lambda>r. (completed (nc r) AllGather CentralizedAlg (Some 0) (Some axis) ds (Some out)
            (if r = 0 then of_nat (W - 1) * shape_bytes (ds[axis := W * ds ! axis]) else shape_bytes ds)
            (if r = 0 then of_nat (W - 1) * shape_bytes ds else shape_bytes (ds[axis := W * ds ! axis])), out))"
proof (intro exI conjI allI impI)
  let ?out = "cpu_f32 (ds[axis := W * ds ! axis]) (cat_values W ds axis v)"
  show "t_dims ?out = ds[axis := W * ds ! axis]" by simp
  show "narrow ?out axis (r * ds ! axis) (ds ! axis) = Inr (cpu_f32 ds (v r))" if "r < W" for r
    using that assms by (intro narrow_of_cat) auto
qed (intro computes_all_runs all_gather_computes, use assms in auto)

theorem all_gather_correct_witness:
  "\<exists>out. t_dims out = [1, 4]
     \<and> (\<forall>r < 2. narrow out 1 (r * 2) 2 = Inr (cpu_f32 [1, 2] [int r, 5]))
     \<and> all_runs_return 2 (\<lambda>r. all_gather (native_new (member 2 r)) (cpu_f32 [1, 2] [int r, 5]) 1)
         (\<lambda>r. (completed (native_new (member 2 r)) AllGather CentralizedAlg (Some 0) (Some 1) [1, 2] (Some out)
            (if r = 0 then 16 else 8) (if r = 0 then 8 else 16), out))"
  using all_gather_correct [of 2 0 "\<lambda>r. native_new (member 2 r)" "[1, 2]" 1 "\<lambda>r. [int r, 5]"]
  by (simp add: aligned_def native_new_def good_shapeI shape_bytes_def Let_def cong: if_cong)

text \<open>
  C24. Reduce-scatter: whatever the schedule, rank \<open>r\<close> returns the \<open>r\<close>-th of \<open>W\<close> equal slices,
  along the scatter axis, of the element-wise sum of all ranks' tensors.
\<close>

theorem reduce_scatter_correct:
  fixes add :: "'v \<Rightarrow> 'v \<Rightarrow> 'v"
  assumes "aligned W n nc" "0 < W" "good_shape ds" "axis < length ds" "ds ! axis = W * c"
    and "good_shape (ds[axis := c])" "\<And>r. r < W \<Longrightarrow> length (v r) = prod_list ds"
  shows "\<exists>shard. (\<forall>r < W. narrow (cpu_f32 ds (map (rank_sum add v [0..<W]) [0..<prod_list ds])) axis (r * c) c
         = Inr (shard r))
     \<and> all_runs_return W (\<lambda>r. reduce_scatter add (nc r) (cpu_f32 ds (v r)) axis Sum)
         (\<lambda>r. (completed (nc r) ReduceScatter CentralizedAlg (Some 0) (Some axis) ds (Some (shard r))
            (if r = 0 then of_nat (W - 1) * shape_bytes (ds[axis := c]) else shape_bytes ds)
            (if r = 0 then of_nat (W - 1) * shape_bytes ds else shape_bytes (ds[axis := c])), shard r))"
proof -
  have sum: "map (rank_sum add v [0..<W]) [0..<prod_list ds] = sum_in_order add v [1..<W] (v 0)"
    by (rule ascending_rank_sum) (use assms in auto)
  have "r * c + c \<le> ds ! axis" if "r < W" for r
    using mult_le_mono1 [of "Suc r" W c] that assms(5) by simp
  then have shard: "narrow (cpu_f32 ds (sum_in_order add v [1..<W] (v 0))) axis (r * c) c = Inr (cpu_f32 (ds[axis := c])
      (narrow_values ds axis (r * c) c (sum_in_order add v [1..<W] (v 0))))" if "r < W" for r
    using that assms by (intro narrow_good) (auto intro: length_sum_in_order)
  show ?thesis
    unfolding sum
    by (intro exI conjI allI impI, erule shard, rule computes_all_runs, rule reduce_scatter_computes)
       (use assms in auto)
qed

theorem reduce_scatter_correct_witness:
  "\<exists>shard. (\<forall>r < 2. narrow (cpu_f32 [4] [1, 3, 5, 7 :: int]) 0 (r * 2) 2 = Inr (shard r))
     \<and> all_runs_return 2 (\<lambda>r. reduce_scatter (+) (native_new (member 2 r))
           (cpu_f32 [4] [int r, 1 + int r, 2 + int r, 3 + int r]) 0 Sum)
         (\<lambda>r. (completed (native_new (member 2 r)) ReduceScatter CentralizedAlg (Some 0) (Some 0) [4] (Some (shard r))
            (if r = 0 then 8 else 16) (if r = 0 then 16 else 8), shard r))"
proof -
  have sums: "map (rank_sum (+) (\<lambda>r. [int r, 1 + int r, 2 + int r, 3 + int r]) [0..<2]) [0..<4] = [1, 3, 5, 7]"
    by code_simp
  show ?thesis
    using reduce_scatter_correct
      [of 2 0 "\<lambda>r. native_new (member 2 r)" "[4]" 0 2 "\<lambda>r. [int r, 1 + int r, 2 + int r, 3 + int r]" "(+)"] sums
    by (simp add: aligned_def native_new_def good_shapeI shape_bytes_def Let_def cong: if_cong)
qed

end
