(* ===== verification/RingProofs.thy ===== *)
theory RingProofs
  imports CentralizedCollectives
begin

text \<open>
  The ring all-reduce (\<open>ring_all_reduce\<close> in \<open>crates/collectives/src/collective.rs\<close>):
  \<open>W - 1\<close> rounds that pass partial sums around the ring and \<open>W - 1\<close> rounds that pass the
  finished chunks around. The invariant says which chunk holds which partial sum after
  every round.
\<close>

section \<open>One exchange round\<close>

definition exchange_map :: "nat \<Rightarrow> (usize \<Rightarrow> usize) \<Rightarrow> (usize \<Rightarrow> usize) \<Rightarrow> bool" where
  "exchange_map W d s \<longleftrightarrow> (\<forall>r < W. d r < W \<and> s r < W \<and> s (d r) = r \<and> d (s r) = r \<and> d r \<noteq> r \<and> s r \<noteq> r)"

lemma computes_round:
  assumes ex: "exchange_map W d s"
    and f: "\<And>r. r < W \<Longrightarrow> f r = Send (d r) tag (x r) (Recv (s r) TensorKind tag (k r))"
    and kind: "\<And>r. r < W \<Longrightarrow> kind_of (x r) = TensorKind"
    and rest: "computes W (\<lambda>r. k r (x (s r))) res"
  shows "computes W f res"
proof -
  let ?w0 = "start W f"
  let ?w1 = "?w0\<lparr>progs := (\<lambda>r. if r \<in> set [0..<W] then Recv (s r) TensorKind tag (k r) else progs ?w0 r),
     mail := (\<lambda>a b. if a \<in> set [0..<W] \<and> b = d a then mail ?w0 a b @ [(tag, x a)] else mail ?w0 a b)\<rparr>"
  have 1: "reach W ?w0 ?w1"
    by (rule par_send) (use f in \<open>auto simp: start_def\<close>)
  let ?w2 = "?w1\<lparr>progs := (\<lambda>r. if r \<in> set [0..<W] then k r (x (s r)) else progs ?w1 r),
     mail := (\<lambda>a b. if b \<in> set [0..<W] \<and> a = s b then [] else mail ?w1 a b)\<rparr>"
  have 2: "reach W ?w1 ?w2"
    by (rule par_recv [where q = "\<lambda>_. TensorKind" and t = "\<lambda>_. tag"])
       (use ex kind in \<open>auto simp: start_def exchange_map_def\<close>)
  have 3: "?w2 = start W (\<lambda>r. k r (x (s r)))"
    using ex by (auto simp: start_def fun_eq_iff exchange_map_def)
  from rtranclp_trans [OF 1 2] have "reach W ?w0 (start W (\<lambda>r. k r (x (s r))))" unfolding 3 .
  from rtranclp_trans [OF this] rest show ?thesis unfolding computes_def by blast
qed

lemma pbind_exchange:
  assumes "good_shape ds" "length vs = prod_list ds" "d < W" "d \<noteq> r" "s < W" "s \<noteq> r"
  shows "pbind (exchange (member W r) d s tag tag (cpu_f32 ds vs)) K =
     Send d tag (msg ds vs) (Recv s TensorKind tag (\<lambda>payload. case decode_tensor payload of
        Inl e \<Rightarrow> Fail e | Inr x \<Rightarrow> K (fst x, shape_bytes ds, snd x)))"
  using assms
  by (auto simp: exchange_def send_tensor_def recv_tensor_def validate_peer_def transfer_simps decode_tensor_def
      fun_eq_iff pbind_lift_result case_rbind pbind_assoc split: sum.splits message_payload.splits)

section \<open>Positions on the ring\<close>

definition hops :: "nat \<Rightarrow> usize \<Rightarrow> usize \<Rightarrow> nat" where
  "hops W i j = (i + W - j) mod W"

lemma hops_if: "i < W \<Longrightarrow> j < W \<Longrightarrow> hops W i j = (if j \<le> i then i - j else i + W - j)"
  by (auto simp: hops_def mod_if)

lemma hops_less: "0 < W \<Longrightarrow> hops W i j < W"
  by (simp add: hops_def)

definition succ_of :: "nat \<Rightarrow> usize \<Rightarrow> usize" where
  "succ_of W i = (i + 1) mod W"

definition pred_of :: "nat \<Rightarrow> usize \<Rightarrow> usize" where
  "pred_of W i = (i + W - 1) mod W"

lemma pred_of_if: "i < W \<Longrightarrow> pred_of W i = (if i = 0 then W - 1 else i - 1)"
  by (auto simp: pred_of_def mod_if)

lemma succ_of_if: "i < W \<Longrightarrow> succ_of W i = (if Suc i = W then 0 else Suc i)"
  by (auto simp: succ_of_def mod_if)

lemma ring_exchange_map: "1 < W \<Longrightarrow> exchange_map W (succ_of W) (pred_of W)"
  unfolding exchange_map_def
proof (intro allI impI)
  fix r assume "1 < W" "r < W"
  then show "succ_of W r < W \<and> pred_of W r < W \<and> pred_of W (succ_of W r) = r \<and> succ_of W (pred_of W r) = r
      \<and> succ_of W r \<noteq> r \<and> pred_of W r \<noteq> r"
    by (cases "Suc r = W"; cases "r = 0") (auto simp: pred_of_if succ_of_if)
qed

lemma hops_pred:
  assumes "i < W" "j < W" "hops W i j = Suc k" shows "hops W (pred_of W i) j = k"
  using assms by (auto simp: hops_if pred_of_if split: if_splits)

lemma hops_position:
  assumes "i < W" "j < W" "k < W" shows "hops W i j = k \<longleftrightarrow> j = hops W i k"
  using assms by (auto simp: hops_if split: if_splits)

lemma hops_back: "i < W \<Longrightarrow> j < W \<Longrightarrow> (j + hops W i j) mod W = i"
  by (auto simp: hops_if mod_if)

section \<open>The reduce-scatter phase\<close>

text \<open>\<open>own i j\<close> is chunk \<open>j\<close> of rank \<open>i\<close>'s input; \<open>partial j m\<close> the sum of chunk \<open>j\<close> over the
  ranks \<open>j, j + 1, \<dots>, j + m\<close> of the ring.\<close>

fun partial_sum ::
  "('v \<Rightarrow> 'v \<Rightarrow> 'v) \<Rightarrow> nat \<Rightarrow> (usize \<Rightarrow> usize \<Rightarrow> 'v list) \<Rightarrow> usize \<Rightarrow> nat \<Rightarrow> 'v list" where
  "partial_sum add W own j 0 = own j j"
| "partial_sum add W own j (Suc m) = map2 add (own ((j + Suc m) mod W) j) (partial_sum add W own j m)"

definition reduce_chunk ::
  "('v \<Rightarrow> 'v \<Rightarrow> 'v) \<Rightarrow> nat \<Rightarrow> (usize \<Rightarrow> usize \<Rightarrow> 'v list) \<Rightarrow> nat \<Rightarrow> usize \<Rightarrow> usize \<Rightarrow> 'v list" where
  "reduce_chunk add W own k i j =
     (if hops W i j \<le> k then partial_sum add W own j (hops W i j) else own i j)"

definition tensors :: "nat \<Rightarrow> nat \<Rightarrow> (usize \<Rightarrow> 'v list) \<Rightarrow> 'v tensor list" where
  "tensors W c chunk = map (\<lambda>j. cpu_f32 [c] (chunk j)) [0..<W]"

lemma nth_tensors [simp]: "j < W \<Longrightarrow> tensors W c chunk ! j = cpu_f32 [c] (chunk j)"
  by (simp add: tensors_def)

lemma tensors_update:
  assumes "j < W" "\<And>i. i < W \<Longrightarrow> chunk' i = (if i = j then x else chunk i)"
  shows "(tensors W c chunk)[j := cpu_f32 [c] x] = tensors W c chunk'"
  by (rule nth_equalityI) (use assms in \<open>auto simp: tensors_def nth_list_update\<close>)

lemma length_partial_sum:
  assumes "\<And>i. i < W \<Longrightarrow> length (own i j) = c" "j < W"
  shows "length (partial_sum add W own j m) = c"
  using assms by (induction m) auto

lemma reduce_chunk_0: "i < W \<Longrightarrow> j < W \<Longrightarrow> reduce_chunk add W own 0 i j = own i j"
  by (auto simp: reduce_chunk_def hops_if split: if_splits)

lemma reduce_chunk_Suc:
  assumes "i < W" "j < W" "Suc k < W"
  shows "reduce_chunk add W own (Suc k) i j =
     (if j = hops W i (Suc k)
      then map2 add (reduce_chunk add W own k i j) (reduce_chunk add W own k (pred_of W i) j)
      else reduce_chunk add W own k i j)"
proof (cases "hops W i j = Suc k")
  case True
  then have "hops W (pred_of W i) j = k" using hops_pred assms by blast
  moreover have "(j + Suc k) mod W = i" using hops_back [OF assms(1,2)] True by simp
  moreover have "j = hops W i (Suc k)" using hops_position [OF assms] True by simp
  ultimately show ?thesis using True by (simp add: reduce_chunk_def)
next
  case False
  then have "j \<noteq> hops W i (Suc k)" using hops_position [OF assms] by simp
  with False show ?thesis by (auto simp: reduce_chunk_def)
qed

lemma ring_next_member [simp]: "ring_next (member W r) = succ_of W r" "ring_previous (member W r) = pred_of W r"
  by (simp_all add: ring_next_def ring_previous_def succ_of_def pred_of_def)

lemma ring_reduce_computes:
  assumes W: "1 < W" "W \<le> 256" and n: "unat n < 2 ^ 44" and c: "good_shape [c]"
    and own: "\<And>i j. i < W \<Longrightarrow> j < W \<Longrightarrow> length (own i j) = c" and k: "k \<le> W - 1"
  shows "computes W (\<lambda>r. ring_reduce_steps add (member W r) n [k..<W - 1]
       (tensors W c (reduce_chunk add W own k r)) (of_nat k * shape_bytes [c]) (of_nat k * shape_bytes [c]))
     (\<lambda>r. (tensors W c (reduce_chunk add W own (W - 1) r),
           of_nat (W - 1) * shape_bytes [c], of_nat (W - 1) * shape_bytes [c]))"
  using k
proof (induction rule: inc_induct)
  case base
  show ?case using computes_Ret by simp
next
  case (step k)
  obtain tag where tag: "collective_tag n AllReduce 1 k = Inr tag"
    by (rule tag_exists [OF n, of 1 k AllReduce]) (use W step(2) in auto)
  have ri: "hops W r (Suc k) < W" for r using W by (simp add: hops_less)
  have si: "hops W r k < W" for r using W by (simp add: hops_less)
  have up: "[k..<W - 1] = k # [Suc k..<W - 1]" using step(2) by (simp add: upt_conv_Cons)
  have chunk: "length (reduce_chunk add W own m r j) = c" if "r < W" "j < W" for m r j
    using that own length_partial_sum [of W own j c add] by (auto simp: reduce_chunk_def)
  let ?C = "\<lambda>r. reduce_chunk add W own k r"
  let ?b = "shape_bytes [c]"
  let ?k = "\<lambda>r payload. case decode_tensor payload of Inl e \<Rightarrow> Fail e | Inr x \<Rightarrow>
     (case require_same_shape (cpu_f32 [c] (?C r (hops W r (Suc k)))) (fst x) AllReduce of Inl e \<Rightarrow> Fail e
     | Inr _ \<Rightarrow> (case map_err TensorError (tensor_add add (cpu_f32 [c] (?C r (hops W r (Suc k)))) (fst x)) of
        Inl e \<Rightarrow> Fail e
      | Inr t \<Rightarrow> ring_reduce_steps add (member W r) n [Suc k..<W - 1]
          ((tensors W c (?C r))[hops W r (Suc k) := t]) (of_nat k * ?b + ?b) (of_nat k * ?b + snd x)))"
  show ?case
  proof (rule computes_round [OF ring_exchange_map [OF W(1)],
      where x = "\<lambda>r. msg [c] (?C r (hops W r k))" and tag = tag and k = ?k])
    fix r assume r: "r < W"
    then have "succ_of W r < W" "succ_of W r \<noteq> r" "pred_of W r < W" "pred_of W r \<noteq> r"
      using ring_exchange_map [OF W(1)] by (auto simp: exchange_map_def)
    then show "ring_reduce_steps add (member W r) n [k..<W - 1] (tensors W c (?C r)) (of_nat k * ?b) (of_nat k * ?b) =
       Send (succ_of W r) tag (msg [c] (?C r (hops W r k))) (Recv (pred_of W r) TensorKind tag (?k r))"
      unfolding up using ri [of r] si [of r] chunk [OF r si] c tag r
      by (simp add: Let_def pbind_exchange pbind_lift_result flip: hops_def cong: sum.case_cong)
  next
    have next_chunk: "(tensors W c (?C r))[hops W r (Suc k) := cpu_f32 [c] (map2 add (?C r (hops W r (Suc k)))
          (?C (pred_of W r) (hops W r (Suc k))))] = tensors W c (reduce_chunk add W own (Suc k) r)"
      if "r < W" for r
      by (rule tensors_update) (use that ri step(2) in \<open>auto simp: reduce_chunk_Suc\<close>)
    have sent: "hops W (pred_of W r) k = hops W r (Suc k)" if "r < W" for r
      using that step(2) by (auto simp: hops_if pred_of_if)
    show "computes W (\<lambda>r. ?k r (msg [c] (?C (pred_of W r) (hops W (pred_of W r) k))))
       (\<lambda>r. (tensors W c (reduce_chunk add W own (W - 1) r), of_nat (W - 1) * ?b, of_nat (W - 1) * ?b))"
    proof (rule iffD2 [OF computes_cong [OF _ refl] step(3)])
      fix r assume r: "r < W"
      then have "pred_of W r < W" by (auto simp: pred_of_if)
      with r ri [of r] show "?k r (msg [c] (?C (pred_of W r) (hops W (pred_of W r) k)))
         = ring_reduce_steps add (member W r) n [Suc k..<W - 1] (tensors W c (reduce_chunk add W own (Suc k) r))
            (of_nat (Suc k) * ?b) (of_nat (Suc k) * ?b)"
        by (simp add: sent transfer_simps c chunk next_chunk algebra_simps)
    qed
  qed simp
qed

section \<open>The all-gather phase\<close>

definition full_sum :: "('v \<Rightarrow> 'v \<Rightarrow> 'v) \<Rightarrow> nat \<Rightarrow> (usize \<Rightarrow> usize \<Rightarrow> 'v list) \<Rightarrow> usize \<Rightarrow> 'v list" where
  "full_sum add W own j = partial_sum add W own j (W - 1)"

definition gather_chunk ::
  "('v \<Rightarrow> 'v \<Rightarrow> 'v) \<Rightarrow> nat \<Rightarrow> (usize \<Rightarrow> usize \<Rightarrow> 'v list) \<Rightarrow> nat \<Rightarrow> usize \<Rightarrow> usize \<Rightarrow> 'v list" where
  "gather_chunk add W own k i j =
     (if hops W (succ_of W i) j \<le> k then full_sum add W own j else reduce_chunk add W own (W - 1) i j)"

lemma ring_neighbours:
  assumes "1 < W" "r < W"
  shows "succ_of W r < W" "succ_of W r \<noteq> r" "pred_of W r < W" "pred_of W r \<noteq> r"
    "succ_of W (pred_of W r) = r"
  using ring_exchange_map [OF assms(1)] assms(2) by (auto simp: exchange_map_def)

lemma gather_chunk_0:
  assumes "1 < W" "i < W" "j < W"
  shows "gather_chunk add W own 0 i j = reduce_chunk add W own (W - 1) i j"
proof (cases "j = succ_of W i")
  case True
  then have "hops W i j = W - 1" using assms by (auto simp: hops_if succ_of_if)
  then show ?thesis by (simp add: gather_chunk_def reduce_chunk_def full_sum_def)
next
  case False
  then have "hops W (succ_of W i) j \<noteq> 0"
    using assms hops_position [of "succ_of W i" W j 0] ring_neighbours [OF assms(1,2)] by (auto simp: hops_if)
  then show ?thesis by (simp add: gather_chunk_def)
qed

lemma gather_chunk_Suc:
  assumes "1 < W" "i < W" "j < W" "Suc k < W"
  shows "gather_chunk add W own (Suc k) i j =
     (if j = hops W i k then gather_chunk add W own k (pred_of W i) j else gather_chunk add W own k i j)"
proof -
  have pos: "hops W (succ_of W i) j = Suc k \<longleftrightarrow> j = hops W i k"
    using assms by (auto simp: hops_if succ_of_if split: if_splits)
  have "hops W (succ_of W (pred_of W i)) j = k" if "j = hops W i k"
    using that assms hops_position [of i W j k] ring_neighbours [OF assms(1,2)] by simp
  with pos show ?thesis by (auto simp: gather_chunk_def)
qed

lemma gather_send_index:
  "1 < W \<Longrightarrow> r < W \<Longrightarrow> k < W \<Longrightarrow> (r + 1 + W - k) mod W = hops W (succ_of W r) k"
  by (cases "Suc r = W"; cases "k = 0") (auto simp: hops_if succ_of_if mod_if)

lemma ring_gather_computes:
  assumes W: "1 < W" "W \<le> 256" and n: "unat n < 2 ^ 44" and c: "good_shape [c]"
    and own: "\<And>i j. i < W \<Longrightarrow> j < W \<Longrightarrow> length (own i j) = c" and k: "k \<le> W - 1"
  shows "computes W (\<lambda>r. ring_gather_steps (member W r) n [k..<W - 1]
       (tensors W c (gather_chunk add W own k r)) (b + of_nat k * shape_bytes [c]) (b + of_nat k * shape_bytes [c]))
     (\<lambda>r. (tensors W c (full_sum add W own),
           b + of_nat (W - 1) * shape_bytes [c], b + of_nat (W - 1) * shape_bytes [c]))"
  using k
proof (induction rule: inc_induct)
  case base
  have "tensors W c (gather_chunk add W own (W - 1) r) = tensors W c (full_sum add W own)" if "r < W" for r
  proof -
    have "hops W (succ_of W r) j \<le> W - 1" for j using hops_less [of W "succ_of W r" j] W by simp
    then show ?thesis by (simp add: tensors_def gather_chunk_def)
  qed
  then show ?case
    by (simp add: iffD2 [OF computes_cong [OF _ refl] computes_Ret])
next
  case (step k)
  obtain tag where tag: "collective_tag n AllReduce 2 k = Inr tag"
    by (rule tag_exists [OF n, of 2 k AllReduce]) (use W step(2) in auto)
  have ri: "hops W r k < W" for r using W by (simp add: hops_less)
  have up: "[k..<W - 1] = k # [Suc k..<W - 1]" using step(2) by (simp add: upt_conv_Cons)
  have chunk: "length (gather_chunk add W own m r j) = c" if "r < W" "j < W" for m r j
    using that own length_partial_sum [of W own j c add]
    by (auto simp: gather_chunk_def reduce_chunk_def full_sum_def)
  let ?C = "\<lambda>r. gather_chunk add W own k r"
  let ?b = "shape_bytes [c]"
  let ?k = "\<lambda>r payload. case decode_tensor payload of Inl e \<Rightarrow> Fail e | Inr x \<Rightarrow>
     (case require_same_shape (cpu_f32 [c] (?C r (hops W r k))) (fst x) AllReduce of Inl e \<Rightarrow> Fail e
     | Inr _ \<Rightarrow> ring_gather_steps (member W r) n [Suc k..<W - 1]
          ((tensors W c (?C r))[hops W r k := fst x]) (b + of_nat k * ?b + ?b) (b + of_nat k * ?b + snd x))"
  show ?case
  proof (rule computes_round [OF ring_exchange_map [OF W(1)],
      where x = "\<lambda>r. msg [c] (?C r (hops W (succ_of W r) k))" and tag = tag and k = ?k])
    fix r assume r: "r < W"
    have si: "hops W (succ_of W r) k < W" using W by (simp add: hops_less)
    have idx: "(r + 1 + W - k) mod W = hops W (succ_of W r) k" "(r + W - k) mod W = hops W r k"
      using gather_send_index [OF W(1) r, of k] step(2) by (auto simp: hops_def)
    show "ring_gather_steps (member W r) n [k..<W - 1] (tensors W c (?C r)) (b + of_nat k * ?b) (b + of_nat k * ?b) =
       Send (succ_of W r) tag (msg [c] (?C r (hops W (succ_of W r) k))) (Recv (pred_of W r) TensorKind tag (?k r))"
      unfolding up ring_gather_steps.simps rank.simps Let_def idx
      using ring_neighbours [OF W(1) r] ri [of r] si chunk [OF r si] c tag r
      by (simp add: pbind_exchange pbind_lift_result cong: sum.case_cong)
  next
    have next_chunk: "(tensors W c (?C r))[hops W r k := cpu_f32 [c] (?C (pred_of W r) (hops W r k))]
        = tensors W c (gather_chunk add W own (Suc k) r)" if "r < W" for r
      by (rule tensors_update) (use that ri step(2) W(1) in \<open>auto simp: gather_chunk_Suc\<close>)
    show "computes W (\<lambda>r. ?k r (msg [c] (?C (pred_of W r) (hops W (succ_of W (pred_of W r)) k))))
       (\<lambda>r. (tensors W c (full_sum add W own), b + of_nat (W - 1) * ?b, b + of_nat (W - 1) * ?b))"
    proof (rule iffD2 [OF computes_cong [OF _ refl] step(3)])
      fix r assume r: "r < W"
      with ri [of r] ring_neighbours [OF W(1) r]
      show "?k r (msg [c] (?C (pred_of W r) (hops W (succ_of W (pred_of W r)) k)))
         = ring_gather_steps (member W r) n [Suc k..<W - 1] (tensors W c (gather_chunk add W own (Suc k) r))
            (b + of_nat (Suc k) * ?b) (b + of_nat (Suc k) * ?b)"
        by (simp add: transfer_simps c chunk next_chunk algebra_simps)
    qed
  qed simp
qed

end
