(* ===== verification/AllToAllProofs.thy ===== *)
theory AllToAllProofs
  imports RingProofs
begin

text \<open>
  The pairwise all-to-all (\<open>all_to_all\<close> in \<open>crates/collectives/src/collective.rs\<close>):
  \<open>W - 1\<close> exchange rounds, in round \<open>k\<close> with the ranks \<open>k\<close> positions away; it transposes the
  matrix of shards.
\<close>

lemma step_exchange_map:
  assumes "0 < k" "k < W" shows "exchange_map W (\<lambda>r. (r + k) mod W) (\<lambda>r. hops W r k)"
  unfolding exchange_map_def
proof (intro allI impI)
  fix r assume r: "r < W"
  have d: "(r + k) mod W = (if r + k < W then r + k else r + k - W)" using r assms by (auto simp: mod_if)
  have "hops W ((r + k) mod W) k = r" using r assms unfolding d by (auto simp: hops_if)
  moreover have "(hops W r k + k) mod W = r"
    using hops_back [of r W k] r assms by (auto simp: hops_if mod_if)
  ultimately show "(r + k) mod W < W \<and> hops W r k < W \<and> hops W ((r + k) mod W) k = r
      \<and> (hops W r k + k) mod W = r \<and> (r + k) mod W \<noteq> r \<and> hops W r k \<noteq> r"
    using r assms unfolding d by (auto simp: hops_if)
qed

definition arrived :: "nat \<Rightarrow> (usize \<Rightarrow> usize \<Rightarrow> 'v tensor) \<Rightarrow> nat \<Rightarrow> usize \<Rightarrow> 'v tensor option list" where
  "arrived W shard k r = map (\<lambda>s. if hops W r s < k then Some (shard s r) else None) [0..<W]"

lemma arrived_Suc:
  assumes "r < W" "0 < k" "k < W"
  shows "(arrived W shard k r)[hops W r k := Some (shard (hops W r k) r)] = arrived W shard (Suc k) r"
proof (rule nth_equalityI)
  fix s assume "s < length ((arrived W shard k r)[hops W r k := Some (shard (hops W r k) r)])"
  then have s: "s < W" by (simp add: arrived_def)
  have "hops W r s = k \<longleftrightarrow> s = hops W r k" by (rule hops_position) (use assms s in auto)
  with s show "(arrived W shard k r)[hops W r k := Some (shard (hops W r k) r)] ! s = arrived W shard (Suc k) r ! s"
    by (auto simp: arrived_def nth_list_update less_Suc_eq)
qed (simp add: arrived_def)

lemma arrived_start:
  assumes "r < W"
  shows "(replicate W None)[r := Some (shard r r)] = arrived W shard 1 r"
proof (rule nth_equalityI)
  fix s assume "s < length ((replicate W None)[r := Some (shard r r)])"
  then show "(replicate W None)[r := Some (shard r r)] ! s = arrived W shard 1 r ! s"
    using assms by (auto simp: arrived_def nth_list_update hops_if)
qed (simp add: arrived_def)

lemma arrived_all: "0 < W \<Longrightarrow> arrived W shard W r = map (\<lambda>s. Some (shard s r)) [0..<W]"
  by (simp add: arrived_def hops_less)

lemma all_to_all_steps_computes:
  assumes W: "0 < W" "W \<le> 257" and n: "unat n < 2 ^ 44" and ds: "good_shape ds"
    and len: "\<And>s d. s < W \<Longrightarrow> d < W \<Longrightarrow> length (x s d) = prod_list ds" and k: "1 \<le> k" "k \<le> W"
  defines "shard \<equiv> \<lambda>s d. cpu_f32 ds (x s d)"
  shows "computes W (\<lambda>r. all_to_all_steps (member W r) n axis (map (shard r) [0..<W]) [k..<W]
       (arrived W shard k r) (of_nat (k - 1) * shape_bytes ds) (of_nat (k - 1) * shape_bytes ds))
     (\<lambda>r. (map (\<lambda>s. Some (shard s r)) [0..<W],
           of_nat (W - 1) * shape_bytes ds, of_nat (W - 1) * shape_bytes ds))"
  using k(2,1)
proof (induction rule: inc_induct)
  case base
  show ?case using computes_Ret W by (simp add: arrived_all)
next
  case (step k)
  obtain tag where tag: "collective_tag n AllToAll 0 (k - 1) = Inr tag"
    by (rule tag_exists [OF n, of 0 "k - 1" AllToAll]) (use W step(2) in auto)
  have up: "[k..<W] = k # [Suc k..<W]" using step(2) by (simp add: upt_conv_Cons)
  have "0 < k" using step(4) by simp
  note ex = step_exchange_map [OF this step(2)]
  let ?b = "shape_bytes ds" and ?d = "\<lambda>r. (r + k) mod W"
  let ?k = "\<lambda>r payload. case decode_tensor payload of Inl e \<Rightarrow> Fail e | Inr y \<Rightarrow>
     (case require_gather_shape (shard r (?d r)) (fst y) axis of Inl e \<Rightarrow> Fail e
     | Inr _ \<Rightarrow> all_to_all_steps (member W r) n axis (map (shard r) [0..<W]) [Suc k..<W]
          ((arrived W shard k r)[hops W r k := Some (fst y)]) (of_nat (k - 1) * ?b + ?b) (of_nat (k - 1) * ?b + snd y))"
  show ?case
  proof (rule computes_round [OF ex, where x = "\<lambda>r. msg ds (x r (?d r))" and tag = tag and k = ?k])
    fix r assume r: "r < W"
    with ex have "?d r < W" "?d r \<noteq> r" "hops W r k < W" "hops W r k \<noteq> r" by (auto simp: exchange_map_def)
    then show "all_to_all_steps (member W r) n axis (map (shard r) [0..<W]) [k..<W] (arrived W shard k r)
         (of_nat (k - 1) * ?b) (of_nat (k - 1) * ?b) =
       Send (?d r) tag (msg ds (x r (?d r))) (Recv (hops W r k) TensorKind tag (?k r))"
      unfolding up shard_def using tag ds r len [OF r]
      by (simp add: Let_def pbind_exchange pbind_lift_result flip: hops_def cong: sum.case_cong)
  next
    have b: "of_nat (k - 1) * ?b + ?b = of_nat (Suc k - 1) * ?b"
      using step(4) by (cases k) (simp_all add: algebra_simps)
    show "computes W (\<lambda>r. ?k r (msg ds (x (hops W r k) (?d (hops W r k)))))
       (\<lambda>r. (map (\<lambda>s. Some (shard s r)) [0..<W], of_nat (W - 1) * ?b, of_nat (W - 1) * ?b))"
    proof (rule iffD2 [OF computes_cong [OF _ refl] step(3)])
      fix r assume r: "r < W"
      with ex have h: "hops W r k < W" "?d (hops W r k) = r" by (auto simp: exchange_map_def)
      have "(arrived W shard k r)[hops W r k := Some (cpu_f32 ds (x (hops W r k) r))] = arrived W shard (Suc k) r"
        using arrived_Suc [OF r, of k shard] step(2,4) by (simp add: shard_def)
      then show "?k r (msg ds (x (hops W r k) (?d (hops W r k)))) =
         all_to_all_steps (member W r) n axis (map (shard r) [0..<W]) [Suc k..<W] (arrived W shard (Suc k) r)
           (of_nat (Suc k - 1) * ?b) (of_nat (Suc k - 1) * ?b)"
        unfolding h(2) using ds len [OF h(1) r] b
        by (simp add: transfer_simps require_gather_shape_def shard_def del: diff_Suc_1)
    qed simp
  qed simp
qed

lemma all_to_all_computes:
  assumes al: "aligned W n nc" and W: "0 < W" "W \<le> 257" and ds: "good_shape ds" and axis: "axis < length ds"
    and c: "ds ! axis = W * c" and out: "good_shape (ds[axis := c])"
    and len: "\<And>r. r < W \<Longrightarrow> length (v r) = prod_list ds"
  defines "x \<equiv> \<lambda>s d. narrow_values ds axis (d * c) c (v s)"
  defines "result \<equiv> \<lambda>r. cpu_f32 ds (cat_values W (ds[axis := c]) axis (\<lambda>s. x s r))"
    and "bytes \<equiv> of_nat (W - 1) * shape_bytes (ds[axis := c])"
  shows "computes W (\<lambda>r. all_to_all (nc r) (cpu_f32 ds (v r)) axis)
     (\<lambda>r. (completed (nc r) AllToAll PairwiseAlg None (Some axis) ds (Some (result r)) bytes bytes, result r))"
proof -
  let ?ds = "ds[axis := c]" and ?shard = "\<lambda>s d. cpu_f32 (ds[axis := c]) (x s d)"
  have n: "unat n < 2 ^ 44" using al by (simp add: aligned_def)
  have fits: "d * c + c \<le> ds ! axis" if "d < W" for d using mult_le_mono1 [of "Suc d" W c] that c by simp
  have xlen: "length (x s d) = prod_list ?ds" if "s < W" "d < W" for s d
    unfolding x_def using that axis fits len by (intro length_narrow_values) auto
  let ?finish = "\<lambda>r y. case y of (received_shards, sent, received) \<Rightarrow>
     if None \<in> set received_shards
     then Fail (WorkerPanicked r ''every source contributes one all-to-all shard'')
     else pbind (lift_result (map_err TensorError (tensor_cat (map the received_shards) axis))) (\<lambda>result.
       Ret (completed (nc r) AllToAll PairwiseAlg None (Some axis) ds (Some result) sent received, result))"
  have prog: "all_to_all (nc r) (cpu_f32 ds (v r)) axis =
      pbind (all_to_all_steps (member W r) n axis (map (?shard r) [0..<W]) [1..<W]
        (arrived W ?shard 1 r) (of_nat (1 - 1) * shape_bytes ?ds) (of_nat (1 - 1) * shape_bytes ?ds)) (?finish r)"
    if r: "r < W" for r
  proof -
    have "map (\<lambda>d. narrow (cpu_f32 ds (v r)) axis (d * c) c) [0..<W] = map Inr (map (?shard r) [0..<W])"
      using axis fits len [OF r] by (auto simp: narrow_good x_def)
    then have split: "collect_results (map (\<lambda>d. narrow (cpu_f32 ds (v r)) axis (d * c) c) [0..<W])
        = Inr (map (?shard r) [0..<W])" by (simp only: collect_results_Inr)
    have dim: "tensor_dim (cpu_f32 ds (v r)) axis = Inr (W * c)" using axis c by (simp add: tensor_dim_def)
    show ?thesis
      using r W axis aligned_rank [OF al r] aligned_begin [OF al r ds len [OF r], of None "Some axis"] dim split
        arrived_start [OF r, of ?shard]
      unfolding completed_def by (simp add: all_to_all_def Let_def case_prod_unfold cong: if_cong)
  qed
  have run: "computes W (\<lambda>r. all_to_all_steps (member W r) n axis (map (?shard r) [0..<W]) [1..<W]
        (arrived W ?shard 1 r) (of_nat (1 - 1) * shape_bytes ?ds) (of_nat (1 - 1) * shape_bytes ?ds))
     (\<lambda>r. (map (\<lambda>s. Some (?shard s r)) [0..<W], bytes, bytes))"
    unfolding bytes_def by (rule all_to_all_steps_computes) (use W n out xlen in auto)
  have each: "?finish r (map (\<lambda>s. Some (?shard s r)) [0..<W], bytes, bytes) =
     Ret (completed (nc r) AllToAll PairwiseAlg None (Some axis) ds (Some (result r)) bytes bytes, result r)"
    if "r < W" for r
  proof -
    have "tensor_cat (map (\<lambda>s. ?shard s r) [0..<W]) axis = Inr (result r)"
      using cat_good [of axis ?ds W "\<lambda>s. x s r"] axis W xlen that
      by (simp add: result_def flip: c)
    then show ?thesis by (auto simp: o_def)
  qed
  have finish: "computes W (\<lambda>r. ?finish r (map (\<lambda>s. Some (?shard s r)) [0..<W], bytes, bytes))
     (\<lambda>r. (completed (nc r) AllToAll PairwiseAlg None (Some axis) ds (Some (result r)) bytes bytes, result r))"
    by (rule iffD2 [OF computes_cong [OF each refl] computes_Ret])
  show ?thesis
    by (rule iffD2 [OF computes_cong [OF prog refl]], assumption, rule computes_bind [OF run], rule finish)
qed

text \<open>
  C25. All-to-all: in every schedule rank \<open>r\<close> returns a tensor of the input shape whose slice
  number \<open>s\<close> along the axis is slice number \<open>r\<close> of rank \<open>s\<close>'s input, that is, the shards are
  transposed; every rank sends and receives \<open>W - 1\<close> shards.
\<close>

theorem all_to_all_correct:
  assumes "aligned W n nc" "0 < W" "W \<le> 257" "good_shape ds" "axis < length ds" "ds ! axis = W * c"
    and "good_shape (ds[axis := c])" "\<And>r. r < W \<Longrightarrow> length (v r) = prod_list ds"
  shows "\<exists>out. (\<forall>r < W. t_dims (out r) = ds \<and>
       (\<forall>s < W. narrow (out r) axis (s * c) c = narrow (cpu_f32 ds (v s)) axis (r * c) c))
     \<and> all_runs_return W (\<lambda>r. all_to_all (nc r) (cpu_f32 ds (v r)) axis)
         (\<lambda>r. (completed (nc r) AllToAll PairwiseAlg None (Some axis) ds (Some (out r))
                (of_nat (W - 1) * shape_bytes (ds[axis := c])) (of_nat (W - 1) * shape_bytes (ds[axis := c])), out r))"
proof -
  let ?x = "\<lambda>s d. narrow_values ds axis (d * c) c (v s)"
  let ?out = "\<lambda>r. cpu_f32 ds (cat_values W (ds[axis := c]) axis (\<lambda>s. ?x s r))"
  have fits: "d * c + c \<le> ds ! axis" if "d < W" for d
    using mult_le_mono1 [of "Suc d" W c] that assms(6) by simp
  have xlen: "length (?x s d) = prod_list (ds[axis := c])" if "s < W" "d < W" for s d
    using that assms fits by (intro length_narrow_values) auto
  have "narrow (?out r) axis (s * c) c = narrow (cpu_f32 ds (v s)) axis (r * c) c" if "r < W" "s < W" for r s
  proof -
    have "narrow (cpu_f32 (ds[axis := c, axis := W * (ds[axis := c]) ! axis])
        (cat_values W (ds[axis := c]) axis (\<lambda>s. ?x s r))) axis (s * (ds[axis := c]) ! axis) ((ds[axis := c]) ! axis)
        = Inr (cpu_f32 (ds[axis := c]) (?x s r))"
      by (rule narrow_of_cat) (use that assms xlen in auto)
    moreover have "ds[axis := W * c] = ds" by (simp flip: assms(6))
    ultimately have "narrow (?out r) axis (s * c) c = Inr (cpu_f32 (ds[axis := c]) (?x s r))"
      using assms(5) by simp
    also have "\<dots> = narrow (cpu_f32 ds (v s)) axis (r * c) c"
      using that assms fits by (subst narrow_good) auto
    finally show ?thesis .
  qed
  then show ?thesis
    by (intro exI [of _ ?out] conjI allI impI computes_all_runs all_to_all_computes) (use assms in auto)
qed

theorem all_to_all_correct_witness:
  "\<exists>out. (\<forall>r < 2. t_dims (out r) = [2] \<and>
       (\<forall>s < 2. narrow (out r) 0 (s * 1) 1 = narrow (cpu_f32 [2] [int s, 10 * int s]) 0 (r * 1) 1))
     \<and> all_runs_return 2 (\<lambda>r. all_to_all (native_new (member 2 r)) (cpu_f32 [2] [int r, 10 * int r]) 0)
         (\<lambda>r. (completed (native_new (member 2 r)) AllToAll PairwiseAlg None (Some 0) [2] (Some (out r)) 4 4, out r))"
  using all_to_all_correct [of 2 0 "\<lambda>r. native_new (member 2 r)" "[2]" 0 1 "\<lambda>r. [int r, 10 * int r]"]
  by (simp add: aligned_def native_new_def good_shapeI shape_bytes_def)

end
