(* ===== verification/Registry.thy ===== *)
theory Registry
  imports Ranks
begin

text \<open>
  The closed model registry (\<open>crates/runtime/src/registry.rs\<close>) and the error type of the
  runtime crate (\<open>crates/runtime/src/error.rs\<close>). An \<open>f64\<close> is its bit pattern. The payloads of
  \<open>candle\<close>, \<open>std::io\<close> and \<open>serde_json\<close> errors are kept as the models of those libraries
  here have them (the tensor error) or as their message.
\<close>

section \<open>Identifiers and element types\<close>

type_synonym f64 = "64 word"

datatype supported_model_id = SmolLm2_135MInstruct | TinyLlama1_1BChat

fun model_id_as_str :: "supported_model_id \<Rightarrow> string" where
  "model_id_as_str SmolLm2_135MInstruct = ''smollm2-135m-instruct''"
| "model_id_as_str TinyLlama1_1BChat = ''tinyllama-1.1b-chat''"

datatype plan_dtype = PlanF16 | PlanBf16 | PlanF32

fun plan_dtype_bytes :: "plan_dtype \<Rightarrow> u64" where
  "plan_dtype_bytes PlanF16 = 2"
| "plan_dtype_bytes PlanBf16 = 2"
| "plan_dtype_bytes PlanF32 = 4"

fun show_plan_dtype :: "plan_dtype \<Rightarrow> string" where
  "show_plan_dtype PlanF16 = ''f16''"
| "show_plan_dtype PlanBf16 = ''bf16''"
| "show_plan_dtype PlanF32 = ''f32''"

datatype dlir_error =
    UnsupportedModel string
  | UnsupportedExecution supported_model_id plan_dtype
  | InvalidMemorySize string string
  | InvalidConfig string
  | CheckpointMismatch string
  | EmptyPrompt
  | PromptTooLong usize usize
  | CacheCapacityExceeded usize usize
  | RuntimePlacementFailed u64 u64
  | Artifact string
  | PromptTemplateError string
  | Tokenizer string
  | RuntimeTensor candle_error
  | RuntimeIo string
  | RuntimeJson string
  | RuntimeCollective collectives_error

type_synonym 'a dresult = "dlir_error + 'a"

definition plan_dtype_from_str :: "string \<Rightarrow> plan_dtype dresult" where
  "plan_dtype_from_str v =
     (let s = to_ascii_lowercase v in
      if s = ''f16'' then Inr PlanF16
      else if s = ''bf16'' then Inr PlanBf16
      else if s = ''f32'' then Inr PlanF32
      else Inl (InvalidConfig (''unsupported dtype '' @ [CHR 0x27] @ v @ [CHR 0x27]
                               @ ''; expected f16, bf16, or f32'')))"

datatype execution_support = Validated | Unsupported

datatype tensor_layout = HuggingFaceLlama

datatype checkpoint_dtype = CheckpointF16 | CheckpointBf16

datatype prompt_template = SmolChatMl | TinyLlamaChat

text \<open>The two fixed templates, with the newline written as character 10.\<close>

definition SMOL_CHAT_TEMPLATE :: string where
  "SMOL_CHAT_TEMPLATE =
     ''<|im_start|>system'' @ [CHR 10]
     @ ''You are a helpful AI assistant named SmolLM, trained by Hugging Face<|im_end|>'' @ [CHR 10]
     @ ''<|im_start|>user'' @ [CHR 10]
     @ ''{prompt}<|im_end|>'' @ [CHR 10]
     @ ''<|im_start|>assistant'' @ [CHR 10]"

definition TINY_LLAMA_CHAT_TEMPLATE :: string where
  "TINY_LLAMA_CHAT_TEMPLATE =
     ''<|user|>'' @ [CHR 10] @ ''{prompt}</s>'' @ [CHR 10] @ ''<|assistant|>'' @ [CHR 10]"

fun template_source :: "prompt_template \<Rightarrow> string" where
  "template_source SmolChatMl = SMOL_CHAT_TEMPLATE"
| "template_source TinyLlamaChat = TINY_LLAMA_CHAT_TEMPLATE"

fun template_name :: "prompt_template \<Rightarrow> string" where
  "template_name SmolChatMl = ''smollm2-chatml''"
| "template_name TinyLlamaChat = ''tinyllama-chat''"

section \<open>Architecture and specification\<close>

record model_config =
  vocab_size :: usize
  hidden_size :: usize
  intermediate_size :: usize
  num_hidden_layers :: usize
  num_attention_heads :: usize
  num_key_value_heads :: usize
  rms_norm_eps :: f64
  rope_theta :: f64
  max_position_embeddings :: usize
  bos_token_id :: u32
  eos_token_id :: u32
  tie_word_embeddings :: bool

definition head_dim :: "model_config \<Rightarrow> usize dresult" where
  "head_dim c =
     (if num_attention_heads c = 0 \<or> hidden_size c mod num_attention_heads c \<noteq> 0
      then Inl (InvalidConfig (''hidden size '' @ show_nat (hidden_size c) @ '' is not divisible by ''
                               @ show_nat (num_attention_heads c) @ '' attention heads''))
      else if num_key_value_heads c = 0 \<or> num_attention_heads c mod num_key_value_heads c \<noteq> 0
      then Inl (InvalidConfig (show_nat (num_attention_heads c) @ '' attention heads are not divisible by ''
                               @ show_nat (num_key_value_heads c) @ '' KV heads''))
      else Inr (hidden_size c div num_attention_heads c))"

record model_spec =
  ms_id :: supported_model_id
  repository :: string
  revision :: string
  weight_file :: string
  expected_parameters :: u64
  expected_checkpoint_bytes :: u64
  ms_checkpoint_dtype :: checkpoint_dtype
  ms_tensor_layout :: tensor_layout
  config :: model_config
  ms_prompt_template :: prompt_template
  cpu_support :: execution_support
  cuda_support :: execution_support

definition validate_cpu_dtype :: "model_spec \<Rightarrow> plan_dtype \<Rightarrow> unit dresult" where
  "validate_cpu_dtype s d =
     (if cpu_support s \<noteq> Validated \<or> d \<noteq> PlanF32 then Inl (UnsupportedExecution (ms_id s) d)
      else Inr ())"

definition SUPPORTED_MODELS :: "model_spec list" where
  "SUPPORTED_MODELS =
    [\<lparr>ms_id = SmolLm2_135MInstruct,
      repository = ''HuggingFaceTB/SmolLM2-135M-Instruct'',
      revision = ''12fd25f77366fa6b3b4b768ec3050bf629380bac'',
      weight_file = ''model.safetensors'',
      expected_parameters = 134515008,
      expected_checkpoint_bytes = 269060552,
      ms_checkpoint_dtype = CheckpointBf16,
      ms_tensor_layout = HuggingFaceLlama,
      config = \<lparr>vocab_size = 49152, hidden_size = 576, intermediate_size = 1536,
        num_hidden_layers = 30, num_attention_heads = 9, num_key_value_heads = 3,
        rms_norm_eps = 0x3EE4F8B588E368F1, rope_theta = 0x40F86A0000000000,
        max_position_embeddings = 8192, bos_token_id = 1, eos_token_id = 2,
        tie_word_embeddings = True\<rparr>,
      ms_prompt_template = SmolChatMl, cpu_support = Validated, cuda_support = Unsupported\<rparr>,
     \<lparr>ms_id = TinyLlama1_1BChat,
      repository = ''TinyLlama/TinyLlama-1.1B-Chat-v1.0'',
      revision = ''5243d158d6f4b356f1142ea8fd6a99cb5ac2c0e1'',
      weight_file = ''model.safetensors'',
      expected_parameters = 1100048384,
      expected_checkpoint_bytes = 2200119864,
      ms_checkpoint_dtype = CheckpointBf16,
      ms_tensor_layout = HuggingFaceLlama,
      config = \<lparr>vocab_size = 32000, hidden_size = 2048, intermediate_size = 5632,
        num_hidden_layers = 22, num_attention_heads = 32, num_key_value_heads = 4,
        rms_norm_eps = 0x3EE4F8B588E368F1, rope_theta = 0x40C3880000000000,
        max_position_embeddings = 2048, bos_token_id = 1, eos_token_id = 2,
        tie_word_embeddings = False\<rparr>,
      ms_prompt_template = TinyLlamaChat, cpu_support = Validated, cuda_support = Unsupported\<rparr>]"

text \<open>
  \<open>spec\<close> panics when no entry has the identifier; \<open>spec_in_registry\<close> below shows that
  this never happens.
\<close>

definition spec :: "supported_model_id \<Rightarrow> model_spec" where
  "spec m = the (find (\<lambda>s. ms_id s = m) SUPPORTED_MODELS)"

definition model_id_from_str :: "string \<Rightarrow> supported_model_id dresult" where
  "model_id_from_str v =
     ok_or (UnsupportedModel v)
       (map_option ms_id (find (\<lambda>s. model_id_as_str (ms_id s) = v) SUPPORTED_MODELS))"

section \<open>Facts about the registry\<close>

lemma find_spec: "find (\<lambda>s. ms_id s = m) SUPPORTED_MODELS = Some (spec m)"
  by (cases m) (simp_all add: spec_def SUPPORTED_MODELS_def)

lemma spec_in_registry: "spec m \<in> set SUPPORTED_MODELS" "ms_id (spec m) = m"
  using find_spec [of m] by (auto simp: find_Some_iff)

lemmas spec_simps = spec_def SUPPORTED_MODELS_def

lemma head_dim_Inr:
  "head_dim c = Inr d \<longleftrightarrow>
     num_attention_heads c \<noteq> 0 \<and> num_attention_heads c dvd hidden_size c \<and>
     num_key_value_heads c \<noteq> 0 \<and> num_key_value_heads c dvd num_attention_heads c \<and>
     d = hidden_size c div num_attention_heads c"
  by (auto simp: head_dim_def dvd_eq_mod_eq_0)

lemma head_dim_times_heads:
  "head_dim c = Inr d \<Longrightarrow> num_attention_heads c * d = hidden_size c"
  by (auto simp: head_dim_Inr)

lemma spec_head_dim [simp]: "head_dim (config (spec m)) = Inr 64"
  by (cases m) (simp_all add: spec_simps head_dim_def)

text \<open>
  Model names: printing an identifier and parsing it again gives it back, and nothing
  but the exact names of the registry parses, every other string being reported as it was
  given.
\<close>

lemma model_id_round_trip:
  "model_id_from_str (model_id_as_str m) = Inr m \<and>
   (model_id_from_str v = Inr m \<longleftrightarrow> v = model_id_as_str m) \<and>
   (v \<notin> range model_id_as_str \<longrightarrow> model_id_from_str v = Inl (UnsupportedModel v))"
proof (intro conjI impI)
  have f: "model_id_from_str v =
      (if v = ''smollm2-135m-instruct'' then Inr SmolLm2_135MInstruct
       else if v = ''tinyllama-1.1b-chat'' then Inr TinyLlama1_1BChat
       else Inl (UnsupportedModel v))" for v
    by (auto simp: model_id_from_str_def SUPPORTED_MODELS_def)
  show "model_id_from_str (model_id_as_str m) = Inr m" by (cases m) (simp_all add: f)
  show "model_id_from_str v = Inr m \<longleftrightarrow> v = model_id_as_str m" by (cases m) (auto simp: f)
  assume "v \<notin> range model_id_as_str"
  then have "v \<noteq> model_id_as_str m" for m by blast
  from this [of SmolLm2_135MInstruct] this [of TinyLlama1_1BChat]
  show "model_id_from_str v = Inl (UnsupportedModel v)" by (simp add: f)
qed

end
