(* ===== verification/MemoryPlan.thy ===== *)
theory MemoryPlan
  imports Registry
begin

text \<open>
  Memory planning of one rank and the byte-size parser (\<open>crates/runtime/src/memory.rs\<close>). The
  byte counts are \<open>u64\<close> words: the chains of \<open>checked_mul\<close> and \<open>checked_add\<close> end in an error on
  overflow, while the parameter counts of \<open>parameter_breakdown\<close> use plain arithmetic, which
  wraps in the release profile.
\<close>

section \<open>Checked products\<close>

fun checked_product :: "'a::len word \<Rightarrow> 'a word list \<Rightarrow> 'a word option" where
  "checked_product v [] = Some v"
| "checked_product v (x # xs) = Option.bind (checked_mul v x) (\<lambda>w. checked_product w xs)"

lemma checked_product_Some:
  "checked_product v xs = Some w \<Longrightarrow> unat w = unat v * prod_list (map unat xs)"
proof (induction xs arbitrary: v)
  case Nil
  then show ?case by simp
next
  case (Cons x xs)
  then obtain u where u: "checked_mul v x = Some u" "checked_product u xs = Some w"
    by (auto split: Option.bind_splits)
  then show ?case using Cons.IH [OF u(2)] by (simp add: checked_simps algebra_simps)
qed

lemma checked_mul_fits:
  "unat a * unat b < 2 ^ LENGTH('a) \<Longrightarrow>
     checked_mul a b = Some (a * b) \<and> unat (a * b) = unat a * unat b" for a b :: "'a::len word"
  by (simp add: checked_mul_def unat_word_ariths)

lemma checked_add_fits:
  "unat a + unat b < 2 ^ LENGTH('a) \<Longrightarrow>
     checked_add a b = Some (a + b) \<and> unat (a + b) = unat a + unat b" for a b :: "'a::len word"
  by (simp add: checked_add_def unat_word_ariths)

text \<open>With factors that are not zero every partial product is at most the whole product.\<close>

lemma checked_product_fits:
  fixes v :: "'a::len word"
  assumes "unat v * prod_list (map unat xs) < 2 ^ LENGTH('a)" "0 \<notin> set xs"
  shows "\<exists>w. checked_product v xs = Some w \<and> unat w = unat v * prod_list (map unat xs)"
  using assms
proof (induction xs arbitrary: v)
  case Nil
  then show ?case by simp
next
  case (Cons x xs)
  have nz: "prod_list (map unat xs) \<ge> 1"
    using Cons.prems(2) by (induction xs) (auto simp: Suc_le_eq unat_gt_0)
  have "unat v * unat x * 1 \<le> unat v * unat x * prod_list (map unat xs)"
    using nz by (intro mult_le_mono) auto
  also have "\<dots> < 2 ^ LENGTH('a)" using Cons.prems(1) by (simp add: mult.assoc)
  finally have "unat v * unat x < 2 ^ LENGTH('a)" by simp
  from checked_mul_fits [OF this] Cons.IH [of "v * x"] Cons.prems show ?case
    by (simp add: mult.assoc)
qed

section \<open>Budgets and plans\<close>

datatype memory_domain = Host

datatype budget_source = UserDeclared

record memory_budget =
  mb_bytes :: u64
  mb_domain :: memory_domain
  mb_source :: budget_source
  mb_os_enforced :: bool

definition user_declared :: "u64 \<Rightarrow> memory_budget" where
  "user_declared b = \<lparr>mb_bytes = b, mb_domain = Host, mb_source = UserDeclared, mb_os_enforced = False\<rparr>"

datatype placement_verdict = FitsPersistentEstimate | DoesNotFit | NotEvaluated

record memory_component_breakdown =
  token_embedding_parameters :: u64
  attention_parameters :: u64
  mlp_parameters :: u64
  layer_norm_parameters :: u64
  final_norm_parameters :: u64
  lm_head_parameters :: u64

definition breakdown_total :: "memory_component_breakdown \<Rightarrow> u64" where
  "breakdown_total b =
     token_embedding_parameters b + attention_parameters b + mlp_parameters b
     + layer_norm_parameters b + final_norm_parameters b + lm_head_parameters b"

definition parameter_breakdown :: "model_spec \<Rightarrow> memory_component_breakdown dresult" where
  "parameter_breakdown s =
     (let cfg = config s;
          h = of_nat (hidden_size cfg) :: u64;
          i = of_nat (intermediate_size cfg);
          l = of_nat (num_hidden_layers cfg);
          v = of_nat (vocab_size cfg) in
      rbind (head_dim cfg) (\<lambda>d.
        let kv = of_nat (num_key_value_heads cfg * d) in
        Inr \<lparr>token_embedding_parameters = v * h,
             attention_parameters = l * (2 * h * h + 2 * h * kv),
             mlp_parameters = l * 3 * h * i,
             layer_norm_parameters = l * 2 * h,
             final_norm_parameters = h,
             lm_head_parameters = (if tie_word_embeddings cfg then 0 else v * h)\<rparr>))"

record rank_memory_plan =
  rmp_rank :: usize
  rmp_parameter_count :: u64
  rmp_dtype :: plan_dtype
  rmp_context_length :: usize
  rmp_weight_bytes :: u64
  rmp_kv_cache_capacity_bytes :: u64
  rmp_persistent_bytes :: u64
  rmp_breakdown :: memory_component_breakdown
  rmp_budget :: "memory_budget option"
  rmp_placement :: placement_verdict

definition rank_memory_plan_for_model ::
  "model_spec \<Rightarrow> plan_dtype \<Rightarrow> usize \<Rightarrow> memory_budget option \<Rightarrow> rank_memory_plan dresult" where
  "rank_memory_plan_for_model s dtype context_length budget =
     (if context_length = 0 \<or> context_length > max_position_embeddings (config s)
      then Inl (InvalidConfig (''context length must be between 1 and ''
             @ show_nat (max_position_embeddings (config s)) @ '' for '' @ model_id_as_str (ms_id s)))
      else rbind (parameter_breakdown s) (\<lambda>breakdown.
        if breakdown_total breakdown \<noteq> expected_parameters s
        then Inl (InvalidConfig (''registry parameter formula produced ''
               @ show_nat (unat (breakdown_total breakdown)) @ '' for '' @ model_id_as_str (ms_id s)
               @ '' but expected '' @ show_nat (unat (expected_parameters s))))
        else rbind (ok_or (InvalidConfig ''weight byte count overflow'')
               (checked_mul (expected_parameters s) (plan_dtype_bytes dtype))) (\<lambda>weight_bytes.
          rbind (head_dim (config s)) (\<lambda>hd.
            rbind (ok_or (InvalidConfig ''KV-cache byte count overflow'')
               (checked_product 2 [of_nat (num_hidden_layers (config s)), of_nat context_length,
                  of_nat (num_key_value_heads (config s)), of_nat hd, plan_dtype_bytes dtype])) (\<lambda>kv_bytes.
              rbind (ok_or (InvalidConfig ''persistent byte count overflow'')
                 (checked_add weight_bytes kv_bytes)) (\<lambda>persistent_bytes.
                Inr \<lparr>rmp_rank = 0, rmp_parameter_count = expected_parameters s, rmp_dtype = dtype,
                     rmp_context_length = context_length, rmp_weight_bytes = weight_bytes,
                     rmp_kv_cache_capacity_bytes = kv_bytes, rmp_persistent_bytes = persistent_bytes,
                     rmp_breakdown = breakdown, rmp_budget = budget,
                     rmp_placement =
                       (case budget of
                          None \<Rightarrow> NotEvaluated
                        | Some b \<Rightarrow> if persistent_bytes \<le> mb_bytes b then FitsPersistentEstimate
                                     else DoesNotFit)\<rparr>))))))"

section \<open>Byte sizes\<close>

definition invalid_size :: "string \<Rightarrow> string \<Rightarrow> dlir_error" where
  "invalid_size v reason = InvalidMemorySize v reason"

definition size_multiplier :: "string \<Rightarrow> u64 option" where
  "size_multiplier suffix =
     (let s = to_ascii_lowercase suffix in
      if s = '''' \<or> s = ''b'' then Some 1
      else if s = ''kib'' then Some (push_bit 10 1)
      else if s = ''mib'' then Some (push_bit 20 1)
      else if s = ''gib'' then Some (push_bit 30 1)
      else None)"

definition parse_byte_size :: "string \<Rightarrow> u64 dresult" where
  "parse_byte_size raw =
     (let v = trim raw in
      if v = [] then Inl (invalid_size v ''value is empty'')
      else
        let digits = takeWhile is_ascii_digit v; suffix = dropWhile is_ascii_digit v in
        if digits = [] then Inl (invalid_size v ''expected an integer byte count'')
        else rbind (ok_or (invalid_size v ''integer is out of range'') (parse_u64 digits)) (\<lambda>amount.
          rbind (ok_or (invalid_size v
              ''expected B, KiB, MiB, or GiB; decimal and ambiguous suffixes are rejected'')
              (size_multiplier suffix)) (\<lambda>multiplier.
            ok_or (invalid_size v ''byte count overflow'') (checked_mul amount multiplier))))"

definition memory_budget_from_str :: "string \<Rightarrow> memory_budget dresult" where
  "memory_budget_from_str v = rbind (parse_byte_size v) (\<lambda>b. Inr (user_declared b))"

section \<open>The byte-size parser\<close>

definition size_suffixes :: "(string \<times> nat) set" where
  "size_suffixes = {('''', 1), (''b'', 1), (''kib'', 1024), (''mib'', 1048576), (''gib'', 1073741824)}"

lemma size_multiplier_iff:
  "(\<exists>w. size_multiplier suffix = Some w \<and> unat w = k) \<longleftrightarrow> (to_ascii_lowercase suffix, k) \<in> size_suffixes"
  by (auto simp: size_multiplier_def size_suffixes_def Let_def push_bit_eq_mult)

lemma size_suffix_head:
  assumes "(to_ascii_lowercase suffix, k) \<in> size_suffixes"
  shows "takeWhile is_ascii_digit suffix = []"
proof (cases suffix)
  case (Cons c cs)
  have "to_ascii_lowercase (c # cs) = c # to_ascii_lowercase cs" if "is_ascii_digit c"
    using that by (auto simp: to_ascii_lowercase_def is_ascii_digit_def Let_def)
  then have "\<not> is_ascii_digit c"
    using assms Cons by (auto simp: size_suffixes_def is_ascii_digit_def)
  with Cons show ?thesis by simp
qed simp

lemma takeWhile_dropWhile_split:
  "\<forall>x \<in> set xs. P x \<Longrightarrow> takeWhile P ys = [] \<Longrightarrow>
     takeWhile P (xs @ ys) = xs \<and> dropWhile P (xs @ ys) = ys"
  by (cases ys) (auto split: if_splits)

lemma parse_u64_digits:
  assumes "ds \<noteq> []" "\<forall>c \<in> set ds. is_ascii_digit c"
  shows "parse_u64 ds = u64_try_from (digits_value ds)"
proof -
  have "hd ds \<noteq> CHR ''+''" using assms by (cases ds) (auto simp: is_ascii_digit_def)
  then have "parse_nat ds = Some (digits_value ds)"
    using assms by (cases ds) (auto simp: parse_nat_def list_all_iff)
  then show ?thesis by (simp add: parse_u64_def)
qed

text \<open>
  C40. The byte-size parser accepts exactly a decimal integer followed by nothing, B, KiB,
  MiB or GiB in any case, surrounded by white space, whose byte count fits in 64 bits, and
  returns that byte count; in particular it never returns a wrapped value.
\<close>

theorem parse_byte_size_exact:
  "parse_byte_size raw = Inr b \<longleftrightarrow>
     (\<exists>ds suffix k. trim raw = ds @ suffix \<and> ds \<noteq> [] \<and> list_all is_ascii_digit ds \<and>
        (to_ascii_lowercase suffix, k) \<in> size_suffixes \<and> unat b = digits_value ds * k)"
proof
  assume l: "parse_byte_size raw = Inr b"
  define ds where "ds = takeWhile is_ascii_digit (trim raw)"
  define suffix where "suffix = dropWhile is_ascii_digit (trim raw)"
  have digits: "\<forall>c \<in> set ds. is_ascii_digit c" by (auto simp: ds_def dest: set_takeWhileD)
  from l obtain a w where ne: "ds \<noteq> []" and a: "parse_u64 ds = Some a"
    and w: "size_multiplier suffix = Some w" and b: "checked_mul a w = Some b"
    by (auto simp: parse_byte_size_def Let_def ds_def suffix_def split: if_splits)
  have "unat a = digits_value ds"
    using a ne digits by (auto simp: parse_u64_digits u64_try_from_def split: if_splits)
  moreover have "(to_ascii_lowercase suffix, unat w) \<in> size_suffixes"
    using w size_multiplier_iff by blast
  moreover have "trim raw = ds @ suffix" by (simp add: ds_def suffix_def)
  ultimately show "\<exists>ds suffix k. trim raw = ds @ suffix \<and> ds \<noteq> [] \<and> list_all is_ascii_digit ds \<and>
        (to_ascii_lowercase suffix, k) \<in> size_suffixes \<and> unat b = digits_value ds * k"
    using ne digits b by (auto simp: list_all_iff checked_simps)
next
  assume "\<exists>ds suffix k. trim raw = ds @ suffix \<and> ds \<noteq> [] \<and> list_all is_ascii_digit ds \<and>
        (to_ascii_lowercase suffix, k) \<in> size_suffixes \<and> unat b = digits_value ds * k"
  then obtain ds suffix k where t: "trim raw = ds @ suffix" "ds \<noteq> []" "\<forall>c \<in> set ds. is_ascii_digit c"
    and k: "(to_ascii_lowercase suffix, k) \<in> size_suffixes" and b: "unat b = digits_value ds * k"
    by (auto simp: list_all_iff)
  have split: "takeWhile is_ascii_digit (trim raw) = ds" "dropWhile is_ascii_digit (trim raw) = suffix"
    using takeWhile_dropWhile_split [OF t(3) size_suffix_head [OF k]] t(1) by simp_all
  obtain w where w: "size_multiplier suffix = Some w" "unat w = k" using k size_multiplier_iff by blast
  have "digits_value ds * 1 \<le> unat b" using k unfolding b by (intro mult_le_mono) (auto simp: size_suffixes_def)
  then have fits: "digits_value ds < 2 ^ 64" using unat_u64_bound [of b] by simp
  then have a: "parse_u64 ds = Some (of_nat (digits_value ds))"
    using parse_u64_digits [OF t(2,3)] by (simp add: u64_try_from_def)
  have "checked_mul (of_nat (digits_value ds)) w = Some b"
    unfolding checked_mul_Some using b w(2) fits by simp
  with a w split t(1,2) show "parse_byte_size raw = Inr b"
    by (simp add: parse_byte_size_def Let_def)
qed

section \<open>Plans of the registered models\<close>

text \<open>The number of weights of a Llama model, counted tensor by tensor.\<close>

definition llama_parameters :: "model_config \<Rightarrow> nat" where
  "llama_parameters c =
     (let h = hidden_size c; i = intermediate_size c; v = vocab_size c;
          kv = num_key_value_heads c * (h div num_attention_heads c) in
      v * h
      + num_hidden_layers c * (h * h + kv * h + kv * h + h * h + i * h + i * h + h * i + h + h)
      + h + (if tie_word_embeddings c then 0 else v * h))"

lemma spec_parameters: "unat (expected_parameters (spec m)) = llama_parameters (config (spec m))"
  by (cases m) (simp_all add: spec_simps llama_parameters_def)

lemma spec_breakdown:
  "\<exists>b. parameter_breakdown (spec m) = Inr b \<and> breakdown_total b = expected_parameters (spec m)"
  by (cases m) (simp_all add: spec_simps parameter_breakdown_def head_dim_def breakdown_total_def)

lemma unat_plan_dtype_bytes [simp]: "unat (plan_dtype_bytes d) = (if d = PlanF32 then 4 else 2)"
  by (cases d) simp_all

lemma spec_bounds:
  "0 < num_hidden_layers (config (spec m))" "num_hidden_layers (config (spec m)) \<le> 30"
  "0 < num_key_value_heads (config (spec m))" "num_key_value_heads (config (spec m)) \<le> 4"
  "max_position_embeddings (config (spec m)) \<le> 8192"
  "unat (expected_parameters (spec m)) \<le> 1100048384"
  by (cases m; simp add: spec_simps)+

lemma of_nat_u64_eq_0: "k < 2 ^ 64 \<Longrightarrow> (of_nat k :: u64) = 0 \<longleftrightarrow> k = 0"
  using unat_of_nat_u64 [of k] by (auto simp flip: unat_eq_0)

text \<open>The cache-size product never overflows in the range the planners use it.\<close>

lemma kv_product:
  assumes "0 < l" "l \<le> 64" "0 < c" "c \<le> 8192" "0 < k" "k \<le> 64"
  shows "\<exists>w. checked_product 2 [of_nat l, of_nat c, of_nat k, of_nat 64, plan_dtype_bytes d] = Some w \<and>
             unat w = 2 * l * c * (k * 64) * unat (plan_dtype_bytes d) \<and> unat w \<le> 2 ^ 34"
proof -
  let ?fs = "[of_nat l, of_nat c, of_nat k, of_nat 64, plan_dtype_bytes d]"
  let ?kv = "2 * l * c * (k * 64) * unat (plan_dtype_bytes d)"
  have "?kv \<le> 2 * 64 * 8192 * (64 * 64) * 4" using assms by (intro mult_le_mono) auto
  then have small: "?kv \<le> 2 ^ 34" by simp
  have prod: "unat (2 :: u64) * prod_list (map unat ?fs) = ?kv"
    using assms by (simp del: unat_plan_dtype_bytes)
  have "0 \<notin> set ?fs" using assms by (cases d) (auto simp: of_nat_u64_eq_0 dest: sym)
  moreover have "unat (2 :: u64) * prod_list (map unat ?fs) < 2 ^ LENGTH(64)"
    unfolding prod by (rule le_less_trans [OF small]) simp
  ultimately obtain w where "checked_product 2 ?fs = Some w" "unat w = ?kv"
    using checked_product_fits [of 2 ?fs] unfolding prod by blast
  with small show ?thesis by auto
qed

text \<open>
  C39. For a registered model the memory plan exists exactly for context lengths from 1 to
  the model's maximum, whatever the budget; then the weight bytes are the number of
  parameters of the model (counted tensor by tensor) times the element size, the cache
  bytes are those of a key and a value vector of every cache head, layer and position,
  nothing has wrapped, and the verdict is "does not fit" exactly when a budget is given
  and the sum exceeds it.
\<close>

theorem memory_plan_registered:
  fixes m dtype budget ctx
  defines "cfg \<equiv> config (spec m)" and "n \<equiv> unat (plan_dtype_bytes dtype)"
  shows "(\<exists>p. rank_memory_plan_for_model (spec m) dtype ctx budget = Inr p \<and>
           unat (rmp_weight_bytes p) = llama_parameters cfg * n \<and>
           unat (rmp_kv_cache_capacity_bytes p) =
             2 * num_hidden_layers cfg * ctx * (num_key_value_heads cfg * 64) * n \<and>
           unat (rmp_persistent_bytes p) =
             unat (rmp_weight_bytes p) + unat (rmp_kv_cache_capacity_bytes p) \<and>
           (rmp_placement p = DoesNotFit \<longleftrightarrow>
              (\<exists>b. budget = Some b \<and> unat (mb_bytes b) < unat (rmp_persistent_bytes p))) \<and>
           (rmp_placement p = NotEvaluated \<longleftrightarrow> budget = None))
         \<longleftrightarrow> 1 \<le> ctx \<and> ctx \<le> max_position_embeddings cfg"
proof
  assume ctx: "1 \<le> ctx \<and> ctx \<le> max_position_embeddings cfg"
  let ?P = "expected_parameters (spec m)"
  let ?w = "?P * plan_dtype_bytes dtype"
  obtain b where b: "parameter_breakdown (spec m) = Inr b" "breakdown_total b = ?P"
    using spec_breakdown by blast
  obtain kv where kv: "checked_product 2 [of_nat (num_hidden_layers cfg), of_nat ctx,
        of_nat (num_key_value_heads cfg), of_nat 64, plan_dtype_bytes dtype] = Some kv"
      "unat kv = 2 * num_hidden_layers cfg * ctx * (num_key_value_heads cfg * 64) * n"
      "unat kv \<le> 2 ^ 34"
    using kv_product [of "num_hidden_layers cfg" ctx "num_key_value_heads cfg" dtype] ctx spec_bounds [of m]
    unfolding cfg_def n_def by auto
  have "unat ?P * n \<le> 1100048384 * 4" using spec_bounds(6) [of m] by (intro mult_le_mono) (auto simp: n_def)
  then have w: "checked_mul ?P (plan_dtype_bytes dtype) = Some ?w" "unat ?w = unat ?P * n" "unat ?w \<le> 2 ^ 34"
    using checked_mul_fits [of ?P "plan_dtype_bytes dtype"] by (simp_all add: n_def)
  have "unat ?w + unat kv \<le> 2 ^ 34 + 2 ^ 34" using w(3) kv(3) by (rule add_mono)
  then have s: "checked_add ?w kv = Some (?w + kv)" "unat (?w + kv) = unat ?w + unat kv"
    using checked_add_fits [of ?w kv] by simp_all
  let ?p = "\<lparr>rmp_rank = 0, rmp_parameter_count = ?P, rmp_dtype = dtype,
       rmp_context_length = ctx, rmp_weight_bytes = ?w, rmp_kv_cache_capacity_bytes = kv,
       rmp_persistent_bytes = ?w + kv, rmp_breakdown = b, rmp_budget = budget,
       rmp_placement = (case budget of None \<Rightarrow> NotEvaluated
          | Some b \<Rightarrow> if ?w + kv \<le> mb_bytes b then FitsPersistentEstimate else DoesNotFit)\<rparr>"
  have "rank_memory_plan_for_model (spec m) dtype ctx budget = Inr ?p"
    using ctx b w(1) kv(1) s(1) by (simp add: rank_memory_plan_for_model_def cfg_def)
  moreover have "unat ?w = llama_parameters cfg * n" using w(2) by (simp add: spec_parameters cfg_def)
  moreover have "rmp_placement ?p = DoesNotFit \<longleftrightarrow>
      (\<exists>b. budget = Some b \<and> unat (mb_bytes b) < unat (rmp_persistent_bytes ?p))"
    by (cases budget) (auto simp: word_le_nat_alt not_le)
  moreover have "rmp_placement ?p = NotEvaluated \<longleftrightarrow> budget = None" by (cases budget) auto
  ultimately show "\<exists>p. rank_memory_plan_for_model (spec m) dtype ctx budget = Inr p \<and>
           unat (rmp_weight_bytes p) = llama_parameters cfg * n \<and>
           unat (rmp_kv_cache_capacity_bytes p) =
             2 * num_hidden_layers cfg * ctx * (num_key_value_heads cfg * 64) * n \<and>
           unat (rmp_persistent_bytes p) =
             unat (rmp_weight_bytes p) + unat (rmp_kv_cache_capacity_bytes p) \<and>
           (rmp_placement p = DoesNotFit \<longleftrightarrow>
              (\<exists>b. budget = Some b \<and> unat (mb_bytes b) < unat (rmp_persistent_bytes p))) \<and>
           (rmp_placement p = NotEvaluated \<longleftrightarrow> budget = None)"
    using kv(2) s(2) by (intro exI [of _ ?p]) simp
qed (auto simp: rank_memory_plan_for_model_def cfg_def split: if_splits)

end
