(* ===== verification/TensorPlan.thy ===== *)
theory TensorPlan
  imports MemoryPlan
begin

text \<open>
  Equal tensor shards: the shard assignment of one rank
  (\<open>crates/runtime/src/parallel.rs\<close>, the planning part) and the partition with its memory
  plans (\<open>crates/tensor/src/plan.rs\<close>), with the error type of the tensor-parallel crate
  (\<open>crates/tensor/src/error.rs\<close>).
\<close>

section \<open>Coordinates and ranges\<close>

record parallel_context =
  tp_rank :: usize
  tp_size :: usize
  pp_rank :: usize
  pp_size :: usize
  ep_rank :: usize
  ep_size :: usize

fun validate_groups :: "(string \<times> usize \<times> usize) list \<Rightarrow> unit dresult" where
  "validate_groups [] = Inr ()"
| "validate_groups ((name, r, n) # gs) =
     (if n = 0 \<or> r \<ge> n
      then Inl (InvalidConfig (name @ '' rank '' @ show_nat r @ '' is outside group size '' @ show_nat n))
      else validate_groups gs)"

definition context_validate :: "parallel_context \<Rightarrow> unit dresult" where
  "context_validate c =
     validate_groups [(''tensor'', tp_rank c, tp_size c), (''pipeline'', pp_rank c, pp_size c),
                      (''expert'', ep_rank c, ep_size c)]"

definition tensor_parallel :: "usize \<Rightarrow> usize \<Rightarrow> parallel_context dresult" where
  "tensor_parallel r n =
     (let c = \<lparr>tp_rank = r, tp_size = n, pp_rank = 0, pp_size = 1, ep_rank = 0, ep_size = 1\<rparr> in
      rbind (context_validate c) (\<lambda>_. Inr c))"

record shard_range =
  sr_start :: usize
  sr_end :: usize

definition range_len :: "shard_range \<Rightarrow> usize" where
  "range_len r = sr_end r - sr_start r"

definition range_is_empty :: "shard_range \<Rightarrow> bool" where
  "range_is_empty r \<longleftrightarrow> sr_start r = sr_end r"

record tensor_shard_plan =
  tsp_parallel :: parallel_context
  tsp_vocabulary :: shard_range
  tsp_query_heads :: shard_range
  tsp_kv_heads :: shard_range
  tsp_intermediate :: shard_range
  tsp_architectural_parameters :: u64
  tsp_local_parameters :: u64
  tsp_replicated_parameters :: u64
  tsp_aggregate_materialized_parameters :: u64

fun require_divisible :: "usize \<Rightarrow> (string \<times> usize) list \<Rightarrow> unit dresult" where
  "require_divisible tp [] = Inr ()"
| "require_divisible tp ((name, v) # rest) =
     (if v mod tp \<noteq> 0
      then Inl (InvalidConfig (name @ '' '' @ show_nat v @ '' is not divisible by TP='' @ show_nat tp))
      else require_divisible tp rest)"

definition shard_range_of :: "parallel_context \<Rightarrow> usize \<Rightarrow> shard_range" where
  "shard_range_of p len =
     (let local = len div tp_size p in
      \<lparr>sr_start = tp_rank p * local, sr_end = (tp_rank p + 1) * local\<rparr>)"

definition plan_tensor_shard :: "model_config \<Rightarrow> parallel_context \<Rightarrow> tensor_shard_plan dresult" where
  "plan_tensor_shard cfg p =
     rbind (context_validate p) (\<lambda>_.
       if pp_size p \<noteq> 1 \<or> ep_size p \<noteq> 1 then Inl (InvalidConfig ''v0.5 requires PP=1 and EP=1'')
       else let tp = tp_size p in
         rbind (require_divisible tp
             [(''vocabulary size'', vocab_size cfg), (''hidden width'', hidden_size cfg),
              (''intermediate width'', intermediate_size cfg), (''query heads'', num_attention_heads cfg),
              (''KV heads'', num_key_value_heads cfg)]) (\<lambda>_.
         rbind (head_dim cfg) (\<lambda>head_dim.
         let h = of_nat (hidden_size cfg) :: u64; i = of_nat (intermediate_size cfg);
             v = of_nat (vocab_size cfg); k = of_nat (num_key_value_heads cfg);
             d = of_nat head_dim; l = of_nat (num_hidden_layers cfg);
             embeddings = v * h;
             attention = h * h + 2 * k * d * h + h * h;
             mlp = 3 * h * i;
             replicated = 2 * l * h + h;
             lm_head = (if tie_word_embeddings cfg then 0 else v * h);
             architectural = embeddings + l * (attention + mlp + 2 * h) + h + lm_head;
             sharded = architectural - replicated;
             local = sharded div of_nat tp + replicated;
             aggregate = local * of_nat tp in
         Inr \<lparr>tsp_parallel = p,
              tsp_vocabulary = shard_range_of p (vocab_size cfg),
              tsp_query_heads = shard_range_of p (num_attention_heads cfg),
              tsp_kv_heads = shard_range_of p (num_key_value_heads cfg),
              tsp_intermediate = shard_range_of p (intermediate_size cfg),
              tsp_architectural_parameters = architectural, tsp_local_parameters = local,
              tsp_replicated_parameters = replicated,
              tsp_aggregate_materialized_parameters = aggregate\<rparr>)))"

section \<open>The partition\<close>

datatype tensor_parallel_error =
    InvalidRequest string
  | TpPlacementFailed usize u64 u64
  | TpRuntime dlir_error
  | TpCollectives collectives_error
  | TpTensor candle_error
  | TpJson string
  | TpTokenizer string

type_synonym 'a tresult = "tensor_parallel_error + 'a"

record tensor_parallel_memory_plan =
  tmp_rank :: usize
  tmp_shard :: tensor_shard_plan
  tmp_dtype :: plan_dtype
  tmp_context_capacity :: usize
  tmp_local_weight_bytes :: u64
  tmp_kv_cache_capacity_bytes :: u64
  tmp_persistent_bytes :: u64
  tmp_budget_bytes :: "u64 option"
  tmp_placement :: placement_verdict

record tensor_parallel_partition =
  tpp_model :: supported_model_id
  tpp_tensor_parallel :: usize
  tpp_ranks :: "tensor_parallel_memory_plan list"
  tpp_architectural_parameters :: u64
  tpp_aggregate_materialized_parameters :: u64
  tpp_duplicated_parameters :: u64

definition plan_rank ::
  "model_config \<Rightarrow> usize \<Rightarrow> usize \<Rightarrow> u64 option \<Rightarrow> usize \<Rightarrow> usize \<Rightarrow> tensor_parallel_memory_plan tresult" where
  "plan_rank cfg tp context_capacity budget hd_dim rank =
     rbind (map_err TpRuntime (tensor_parallel rank tp)) (\<lambda>ctx.
     rbind (map_err TpRuntime (plan_tensor_shard cfg ctx)) (\<lambda>shard.
     rbind (ok_or (InvalidRequest ''local weight byte overflow'')
        (checked_mul (tsp_local_parameters shard) 4)) (\<lambda>weight_bytes.
     rbind (ok_or (InvalidRequest ''KV byte overflow'')
        (checked_product 2 [of_nat (num_hidden_layers cfg), of_nat context_capacity,
           of_nat (num_key_value_heads cfg div tp), of_nat hd_dim, 4])) (\<lambda>kv_bytes.
     rbind (ok_or (InvalidRequest ''persistent byte overflow'')
        (checked_add weight_bytes kv_bytes)) (\<lambda>persistent_bytes.
     Inr \<lparr>tmp_rank = rank, tmp_shard = shard, tmp_dtype = PlanF32,
          tmp_context_capacity = context_capacity, tmp_local_weight_bytes = weight_bytes,
          tmp_kv_cache_capacity_bytes = kv_bytes, tmp_persistent_bytes = persistent_bytes,
          tmp_budget_bytes = budget,
          tmp_placement =
            (case budget of
               Some b \<Rightarrow> if persistent_bytes \<le> b then FitsPersistentEstimate else DoesNotFit
             | None \<Rightarrow> NotEvaluated)\<rparr>)))))"

definition tensor_parallel_plan ::
  "supported_model_id \<Rightarrow> usize \<Rightarrow> usize \<Rightarrow> u64 option \<Rightarrow> tensor_parallel_partition tresult" where
  "tensor_parallel_plan model tp context_capacity per_rank_budget =
     (if \<not> (2 \<le> tp \<and> tp \<le> 64)
      then Inl (InvalidRequest (''TP must be in 2..=64, got '' @ show_nat tp))
      else let s = spec model in
        if context_capacity = 0 \<or> context_capacity > max_position_embeddings (config s)
        then Inl (InvalidRequest (''context capacity '' @ show_nat context_capacity @ '' is outside 1..=''
                                  @ show_nat (max_position_embeddings (config s))))
        else rbind (map_err TpRuntime (head_dim (config s))) (\<lambda>head_dim.
          rbind (collect_results
              (map (plan_rank (config s) tp context_capacity per_rank_budget head_dim) [0..<tp])) (\<lambda>ranks.
            let architectural = tsp_architectural_parameters (tmp_shard (hd ranks));
                aggregate = sum_list (map (\<lambda>r. tsp_local_parameters (tmp_shard r)) ranks) in
            Inr \<lparr>tpp_model = model, tpp_tensor_parallel = tp, tpp_ranks = ranks,
                 tpp_architectural_parameters = architectural,
                 tpp_aggregate_materialized_parameters = aggregate,
                 tpp_duplicated_parameters = aggregate - architectural\<rparr>)))"

text \<open>
  \<open>require_placement\<close> reads the budget of the failing rank with \<open>expect\<close>; only a rank with a
  budget can have the verdict \<open>DoesNotFit\<close>.
\<close>

definition require_placement :: "tensor_parallel_partition \<Rightarrow> unit tresult" where
  "require_placement p =
     (case find (\<lambda>r. tmp_placement r = DoesNotFit) (tpp_ranks p) of
        Some r \<Rightarrow> Inl (TpPlacementFailed (tmp_rank r) (tmp_persistent_bytes r) (the (tmp_budget_bytes r)))
      | None \<Rightarrow> Inr ())"

section \<open>Equal shards cover each dimension\<close>

definition range_indices :: "shard_range \<Rightarrow> usize list" where
  "range_indices r = [sr_start r..<sr_end r]"

lemma concat_blocks: "concat (map (\<lambda>r. [r * k..<Suc r * k]) [0..<n]) = [0..<n * k]"
proof (induction n)
  case 0
  then show ?case by simp
next
  case (Suc n)
  have "[0..<Suc n * k] = [0..<n * k] @ [n * k..<Suc n * k]"
    by (metis add.commute le_add2 mult_Suc upt_add_eq_append le0)
  with Suc show ?case by (simp del: mult_Suc)
qed

lemma tensor_parallel_Inr:
  "tensor_parallel r n = Inr c \<longleftrightarrow>
     r < n \<and> c = \<lparr>tp_rank = r, tp_size = n, pp_rank = 0, pp_size = 1, ep_rank = 0, ep_size = 1\<rparr>"
  by (auto simp: tensor_parallel_def context_validate_def Let_def)

text \<open>The shards of a dimension that the rank count divides are disjoint, in rank order, and cover it.\<close>

lemma shard_ranges_cover:
  assumes "0 < n" "n dvd len"
  shows "concat (map (\<lambda>r. range_indices (shard_range_of
           \<lparr>tp_rank = r, tp_size = n, pp_rank = 0, pp_size = 1, ep_rank = 0, ep_size = 1\<rparr> len)) [0..<n]) = [0..<len]"
  using concat_blocks [of "len div n" n] assms
  by (simp add: range_indices_def shard_range_of_def Let_def add.commute)

section \<open>Plans of the registered models\<close>

definition norm_weights :: "model_config \<Rightarrow> nat" where
  "norm_weights c = (2 * num_hidden_layers c + 1) * hidden_size c"

definition local_weights :: "model_config \<Rightarrow> usize \<Rightarrow> nat" where
  "local_weights c tp = (llama_parameters c - norm_weights c) div tp + norm_weights c"

abbreviation tp_context :: "usize \<Rightarrow> usize \<Rightarrow> parallel_context" where
  "tp_context r n \<equiv> \<lparr>tp_rank = r, tp_size = n, pp_rank = 0, pp_size = 1, ep_rank = 0, ep_size = 1\<rparr>"

lemma admissible_tp:
  assumes "2 \<le> tp" "tp dvd num_key_value_heads (config (spec m))"
  shows "(m = SmolLm2_135MInstruct \<and> tp = 3) \<or> (m = TinyLlama1_1BChat \<and> (tp = 2 \<or> tp = 4))"
proof -
  have "tp \<le> 4" using assms(2) by (cases m) (auto simp: spec_simps dest: dvd_imp_le)
  then have "tp = 2 \<or> tp = 3 \<or> tp = 4" using assms(1) by linarith
  then show ?thesis using assms(2) by (cases m) (auto simp: spec_simps)
qed

lemma shard_registered:
  assumes "2 \<le> tp" "tp dvd num_key_value_heads (config (spec m))" "r < tp"
  shows "plan_tensor_shard (config (spec m)) (tp_context r tp) = Inr
    (let c = config (spec m); p = tp_context r tp in
     \<lparr>tsp_parallel = p, tsp_vocabulary = shard_range_of p (vocab_size c),
      tsp_query_heads = shard_range_of p (num_attention_heads c),
      tsp_kv_heads = shard_range_of p (num_key_value_heads c),
      tsp_intermediate = shard_range_of p (intermediate_size c),
      tsp_architectural_parameters = of_nat (llama_parameters c),
      tsp_local_parameters = of_nat (local_weights c tp),
      tsp_replicated_parameters = of_nat (norm_weights c),
      tsp_aggregate_materialized_parameters = of_nat (local_weights c tp * tp)\<rparr>)"
  using admissible_tp [OF assms(1,2)] assms(3)
  by (elim disjE conjE)
     (simp_all add: plan_tensor_shard_def context_validate_def spec_simps head_dim_def
        llama_parameters_def norm_weights_def local_weights_def Let_def)

lemma local_weights_registered:
  assumes "2 \<le> tp" "tp dvd num_key_value_heads (config (spec m))"
  shows "local_weights (config (spec m)) tp * tp =
           llama_parameters (config (spec m)) + (tp - 1) * norm_weights (config (spec m))"
    "local_weights (config (spec m)) tp * 4 \<le> 2 ^ 34" "tp \<le> 64"
    "tp dvd vocab_size (config (spec m))" "tp dvd num_attention_heads (config (spec m))"
    "tp dvd intermediate_size (config (spec m))"
  using admissible_tp [OF assms]
  by (elim disjE conjE; simp add: spec_simps llama_parameters_def norm_weights_def local_weights_def)+

lemma unat_numeral_4: "unat (4 :: u64) = 4"
  by simp

definition rank_plan_ok ::
  "model_config \<Rightarrow> usize \<Rightarrow> usize \<Rightarrow> u64 option \<Rightarrow> usize \<Rightarrow> tensor_parallel_memory_plan \<Rightarrow> bool" where
  "rank_plan_ok c tp ctx budget r p \<longleftrightarrow>
     tmp_rank p = r \<and> tmp_budget_bytes p = budget \<and>
     tsp_vocabulary (tmp_shard p) = shard_range_of (tp_context r tp) (vocab_size c) \<and>
     tsp_query_heads (tmp_shard p) = shard_range_of (tp_context r tp) (num_attention_heads c) \<and>
     tsp_kv_heads (tmp_shard p) = shard_range_of (tp_context r tp) (num_key_value_heads c) \<and>
     tsp_intermediate (tmp_shard p) = shard_range_of (tp_context r tp) (intermediate_size c) \<and>
     tsp_architectural_parameters (tmp_shard p) = of_nat (llama_parameters c) \<and>
     tsp_local_parameters (tmp_shard p) = of_nat (local_weights c tp) \<and>
     unat (tmp_kv_cache_capacity_bytes p) = 2 * num_hidden_layers c * ctx * (num_key_value_heads c div tp * 64) * 4 \<and>
     unat (tmp_persistent_bytes p) = local_weights c tp * 4 + unat (tmp_kv_cache_capacity_bytes p) \<and>
     (tmp_placement p = DoesNotFit \<longleftrightarrow>
        (\<exists>b. budget = Some b \<and> unat b < unat (tmp_persistent_bytes p)))"

lemma plan_rank_registered:
  fixes m
  defines "c \<equiv> config (spec m)"
  assumes "2 \<le> tp" "tp dvd num_key_value_heads c" "r < tp" "1 \<le> ctx" "ctx \<le> max_position_embeddings c"
  shows "\<exists>p. plan_rank c tp ctx budget 64 r = Inr p \<and> rank_plan_ok c tp ctx budget r p"
proof -
  obtain sh where sh: "plan_tensor_shard c (tp_context r tp) = Inr sh"
    and fields: "tsp_vocabulary sh = shard_range_of (tp_context r tp) (vocab_size c)"
      "tsp_query_heads sh = shard_range_of (tp_context r tp) (num_attention_heads c)"
      "tsp_kv_heads sh = shard_range_of (tp_context r tp) (num_key_value_heads c)"
      "tsp_intermediate sh = shard_range_of (tp_context r tp) (intermediate_size c)"
      "tsp_architectural_parameters sh = of_nat (llama_parameters c)"
      "tsp_local_parameters sh = of_nat (local_weights c tp)"
    using shard_registered [OF assms(2-4) [unfolded c_def]] by (simp add: c_def Let_def)
  have "0 < num_key_value_heads c div tp" "num_key_value_heads c div tp \<le> 64"
    using assms(2,3) spec_bounds(3,4) [of m] div_le_dividend [of "num_key_value_heads c" tp]
    by (auto simp: c_def div_greater_zero_iff dest!: dvd_imp_le simp del: div_le_dividend)
  moreover have "0 < num_hidden_layers c" "num_hidden_layers c \<le> 64" "0 < ctx" "ctx \<le> 8192"
    using assms(5,6) spec_bounds [of m] by (auto simp: c_def)
  ultimately obtain kv :: u64 where kv: "checked_product 2 [of_nat (num_hidden_layers c), of_nat ctx,
        of_nat (num_key_value_heads c div tp), of_nat 64, 4] = Some kv"
      "unat kv = 2 * num_hidden_layers c * ctx * (num_key_value_heads c div tp * 64) * 4"
      "unat kv \<le> 2 ^ 34"
    using kv_product [of "num_hidden_layers c" ctx "num_key_value_heads c div tp" PlanF32]
    unfolding plan_dtype_bytes.simps unat_numeral_4 by blast
  let ?w = "of_nat (local_weights c tp) * 4 :: u64"
  have l: "local_weights c tp * 4 \<le> 2 ^ 34"
    using local_weights_registered(2) [OF assms(2,3) [unfolded c_def]] by (simp add: c_def)
  then have w: "checked_mul (of_nat (local_weights c tp)) 4 = Some ?w" "unat ?w = local_weights c tp * 4"
    using checked_mul_fits [of "of_nat (local_weights c tp)" "4 :: u64"] by simp_all
  have s: "checked_add ?w kv = Some (?w + kv)" "unat (?w + kv) = local_weights c tp * 4 + unat kv"
    using checked_add_fits [of ?w kv] w(2) l kv(3) by simp_all
  let ?p = "\<lparr>tmp_rank = r, tmp_shard = sh, tmp_dtype = PlanF32, tmp_context_capacity = ctx,
      tmp_local_weight_bytes = ?w, tmp_kv_cache_capacity_bytes = kv, tmp_persistent_bytes = ?w + kv,
      tmp_budget_bytes = budget,
      tmp_placement = (case budget of Some b \<Rightarrow> if ?w + kv \<le> b then FitsPersistentEstimate else DoesNotFit
                       | None \<Rightarrow> NotEvaluated)\<rparr>"
  have "tensor_parallel r tp = Inr (tp_context r tp)" using assms(4) by (simp only: tensor_parallel_Inr simp_thms)
  then have "plan_rank c tp ctx budget 64 r = Inr ?p"
    unfolding plan_rank_def using sh kv(1) s(1) w(1) fields(6)
    by (simp del: checked_product.simps of_nat_numeral One_nat_def)
  moreover have "rank_plan_ok c tp ctx budget r ?p"
    using fields kv(2) s(2) by (cases budget) (simp_all add: rank_plan_ok_def word_le_nat_alt not_le)
  ultimately show ?thesis by blast
qed

definition covers :: "usize \<Rightarrow> (tensor_shard_plan \<Rightarrow> shard_range) \<Rightarrow> tensor_parallel_partition \<Rightarrow> bool" where
  "covers len sel p \<longleftrightarrow> concat (map (\<lambda>r. range_indices (sel (tmp_shard r))) (tpp_ranks p)) = [0..<len]"

lemma sum_list_const_u64: "(\<And>x. x \<in> set xs \<Longrightarrow> f x = (v :: u64)) \<Longrightarrow> sum_list (map f xs) = of_nat (length xs) * v"
  by (induction xs) (simp_all add: algebra_simps)

lemma partition_registered:
  fixes m
  defines "c \<equiv> config (spec m)"
  assumes "2 \<le> tp" "tp dvd num_key_value_heads c" "1 \<le> ctx" "ctx \<le> max_position_embeddings c"
  obtains p where "tensor_parallel_plan m tp ctx budget = Inr p" "length (tpp_ranks p) = tp"
    "\<And>r. r < tp \<Longrightarrow> rank_plan_ok c tp ctx budget r (tpp_ranks p ! r)"
    "tpp_architectural_parameters p = of_nat (llama_parameters c)"
    "tpp_aggregate_materialized_parameters p = of_nat (tp * local_weights c tp)"
    "tpp_duplicated_parameters p = tpp_aggregate_materialized_parameters p - tpp_architectural_parameters p"
proof -
  define plan where "plan r = projr (plan_rank c tp ctx budget 64 r)" for r
  have plan: "plan_rank c tp ctx budget 64 r = Inr (plan r)" "rank_plan_ok c tp ctx budget r (plan r)"
    if "r < tp" for r
    using plan_rank_registered [OF assms(2,3) [unfolded c_def] that assms(4,5) [unfolded c_def], of budget]
    unfolding plan_def c_def by force+
  have collect: "collect_results (map (plan_rank c tp ctx budget 64) [0..<tp]) = Inr (map plan [0..<tp])"
    unfolding collect_results_Inr by (simp add: plan(1))
  have hd0: "hd (map plan [0..<tp]) = plan 0" using assms(2) by (simp add: hd_map)
  have ok: "tsp_architectural_parameters (tmp_shard (plan r)) = of_nat (llama_parameters c)"
    "tsp_local_parameters (tmp_shard (plan r)) = of_nat (local_weights c tp)" if "r < tp" for r
    using plan(2) [OF that] by (simp_all add: rank_plan_ok_def)
  have sum: "sum_list (map (\<lambda>r. tsp_local_parameters (tmp_shard r)) (map plan [0..<tp])) =
      of_nat (tp * local_weights c tp)"
    by (subst sum_list_const_u64 [where v = "of_nat (local_weights c tp)"]) (auto simp: ok)
  have "tp \<le> 64" using local_weights_registered(3) [OF assms(2,3) [unfolded c_def]] .
  then have "tensor_parallel_plan m tp ctx budget = Inr
      \<lparr>tpp_model = m, tpp_tensor_parallel = tp, tpp_ranks = map plan [0..<tp],
       tpp_architectural_parameters = of_nat (llama_parameters c),
       tpp_aggregate_materialized_parameters = of_nat (tp * local_weights c tp),
       tpp_duplicated_parameters = of_nat (tp * local_weights c tp) - of_nat (llama_parameters c)\<rparr>"
    unfolding tensor_parallel_plan_def Let_def spec_head_dim map_err.simps rbind.simps
      collect [unfolded c_def] sum [unfolded c_def] hd0
    using assms(2,4,5) ok(1) [of 0] by (simp add: c_def)
  then show thesis by (rule that) (use plan(2) in simp_all)
qed

lemma plan_Inr_divides:
  assumes "tensor_parallel_plan m tp ctx budget = Inr p"
  shows "2 \<le> tp" "tp dvd num_key_value_heads (config (spec m))"
    "1 \<le> ctx" "ctx \<le> max_position_embeddings (config (spec m))"
proof -
  show "2 \<le> tp" "1 \<le> ctx" "ctx \<le> max_position_embeddings (config (spec m))"
    using assms by (auto simp: tensor_parallel_plan_def Let_def split: if_splits)
  obtain ranks where "map (plan_rank (config (spec m)) tp ctx budget 64) [0..<tp] = map Inr ranks"
    using assms unfolding tensor_parallel_plan_def Let_def spec_head_dim map_err.simps rbind.simps
    by (auto simp: collect_results_Inr split: if_splits)
  then have "map (plan_rank (config (spec m)) tp ctx budget 64) [0..<tp] ! 0 = map Inr ranks ! 0"
    and "length ranks = tp" by (simp, metis length_map length_upt diff_zero)
  then have "plan_rank (config (spec m)) tp ctx budget 64 0 = Inr (ranks ! 0)" using \<open>2 \<le> tp\<close> by simp
  then obtain sh where "plan_tensor_shard (config (spec m)) (tp_context 0 tp) = Inr sh"
    by (auto simp: plan_rank_def tensor_parallel_Inr)
  then show "tp dvd num_key_value_heads (config (spec m))"
    by (auto simp: plan_tensor_shard_def Let_def dvd_eq_mod_eq_0 split: if_splits)
qed

lemma covers_registered:
  assumes "0 < tp" "tp dvd len" "length (tpp_ranks p) = tp"
    and "\<And>r. r < tp \<Longrightarrow> sel (tmp_shard (tpp_ranks p ! r)) = shard_range_of (tp_context r tp) len"
  shows "covers len sel p"
proof -
  have "map (\<lambda>r. range_indices (sel (tmp_shard r))) (tpp_ranks p) =
      map (\<lambda>r. range_indices (shard_range_of (tp_context r tp) len)) [0..<tp]"
    by (rule nth_equalityI) (use assms(3,4) in simp_all)
  then show ?thesis unfolding covers_def using shard_ranges_cover [OF assms(1,2)] by simp
qed

lemma require_placement_iff:
  "require_placement p = Inr () \<longleftrightarrow> list_all (\<lambda>r. tmp_placement r \<noteq> DoesNotFit) (tpp_ranks p)"
proof (cases "find (\<lambda>r. tmp_placement r = DoesNotFit) (tpp_ranks p)")
  case None
  then show ?thesis by (simp add: require_placement_def) (auto simp: find_None_iff list_all_iff)
next
  case (Some r)
  then show ?thesis
    by (simp add: require_placement_def) (auto simp: find_Some_iff list_all_length)
qed

text \<open>
  C14. A registered model can be sharded over tp ranks exactly when tp is at least two and
  divides its key/value heads (so over 3 ranks for one model, over 2 or 4 for the other),
  for every admissible context capacity. Then the vocabulary rows, query heads, key/value
  heads and intermediate features of the ranks, in rank order, cover each dimension
  exactly once; the ranks together materialize all parameters of the model plus one more
  copy of the norm weights for every rank after the first, and exactly these are reported
  as duplicates; every rank has a cache for its share of the heads; and the placement is
  accepted exactly when every rank's weights and cache fit the budget.
\<close>

theorem tensor_partition_correct:
  fixes m tp ctx budget
  defines "c \<equiv> config (spec m)"
  shows "(\<exists>p. tensor_parallel_plan m tp ctx budget = Inr p \<and> length (tpp_ranks p) = tp \<and>
           covers (vocab_size c) tsp_vocabulary p \<and> covers (num_attention_heads c) tsp_query_heads p \<and>
           covers (num_key_value_heads c) tsp_kv_heads p \<and> covers (intermediate_size c) tsp_intermediate p \<and>
           unat (tpp_architectural_parameters p) = llama_parameters c \<and>
           unat (tpp_duplicated_parameters p) = (tp - 1) * norm_weights c \<and>
           unat (tpp_aggregate_materialized_parameters p) = llama_parameters c + (tp - 1) * norm_weights c \<and>
           list_all (\<lambda>r. unat (tmp_kv_cache_capacity_bytes r) * tp =
                2 * num_hidden_layers c * ctx * (num_key_value_heads c * 64) * 4) (tpp_ranks p) \<and>
           (require_placement p = Inr () \<longleftrightarrow>
              budget = None \<or> list_all (\<lambda>r. unat (tmp_persistent_bytes r) \<le> unat (the budget)) (tpp_ranks p)))
         \<longleftrightarrow> 2 \<le> tp \<and> tp dvd num_key_value_heads c \<and> 1 \<le> ctx \<and> ctx \<le> max_position_embeddings c"
    (is "?lhs \<longleftrightarrow> ?rhs")
proof
  assume ?lhs
  then show ?rhs using plan_Inr_divides unfolding c_def by blast
next
  assume rhs: ?rhs
  then have tp: "2 \<le> tp" "tp dvd num_key_value_heads c" by auto
  obtain p where p: "tensor_parallel_plan m tp ctx budget = Inr p" "length (tpp_ranks p) = tp"
    and ok: "\<And>r. r < tp \<Longrightarrow> rank_plan_ok c tp ctx budget r (tpp_ranks p ! r)"
    and a: "tpp_architectural_parameters p = of_nat (llama_parameters c)"
    and g: "tpp_aggregate_materialized_parameters p = of_nat (tp * local_weights c tp)"
    and d: "tpp_duplicated_parameters p = tpp_aggregate_materialized_parameters p - tpp_architectural_parameters p"
    using partition_registered [of tp m ctx budget] rhs unfolding c_def by metis
  note lw = local_weights_registered [OF tp [unfolded c_def], folded c_def]
  have fits: "llama_parameters c + (tp - 1) * norm_weights c \<le> 2 ^ 40"
    unfolding lw(1) [symmetric] using mult_le_mono [OF lw(2,3)] by (simp add: mult.commute)
  then have params: "unat (tpp_architectural_parameters p) = llama_parameters c"
    "unat (tpp_aggregate_materialized_parameters p) = llama_parameters c + (tp - 1) * norm_weights c"
    using lw(1) unfolding a g by (simp_all add: mult.commute del: of_nat_add of_nat_mult)
  have dup: "unat (tpp_duplicated_parameters p) = (tp - 1) * norm_weights c"
    unfolding d using params by (subst unat_sub) (simp_all add: word_le_nat_alt)
  have cov: "covers (vocab_size c) tsp_vocabulary p" "covers (num_attention_heads c) tsp_query_heads p"
    "covers (num_key_value_heads c) tsp_kv_heads p" "covers (intermediate_size c) tsp_intermediate p"
    by (rule covers_registered [of tp]; use tp lw p(2) ok in \<open>auto simp: rank_plan_ok_def\<close>)+
  have ranks: "list_all P (tpp_ranks p)" if "\<And>r. r < tp \<Longrightarrow> P (tpp_ranks p ! r)" for P
    using that p(2) by (auto simp: list_all_length)
  have kv: "list_all (\<lambda>r. unat (tmp_kv_cache_capacity_bytes r) * tp =
      2 * num_hidden_layers c * ctx * (num_key_value_heads c * 64) * 4) (tpp_ranks p)"
  proof (rule ranks)
    fix r assume "r < tp"
    moreover obtain k where "num_key_value_heads c = tp * k" using tp(2) by (elim dvdE)
    ultimately show "unat (tmp_kv_cache_capacity_bytes (tpp_ranks p ! r)) * tp =
      2 * num_hidden_layers c * ctx * (num_key_value_heads c * 64) * 4"
      using ok [of r] tp(1) by (simp add: rank_plan_ok_def)
  qed
  have place: "require_placement p = Inr () \<longleftrightarrow>
      budget = None \<or> list_all (\<lambda>r. unat (tmp_persistent_bytes r) \<le> unat (the budget)) (tpp_ranks p)"
    unfolding require_placement_iff list_all_length p(2) using ok
    by (cases budget) (auto simp: rank_plan_ok_def not_less [symmetric])
  show ?lhs using p params dup cov kv place by blast
qed

end
