(* ===== verification/KvCache.thy ===== *)
theory KvCache
  imports Packets Registry
begin

text \<open>
  The preallocated key/value cache (\<open>crates/runtime/src/model/cache.rs\<close>), with the two
  Candle operations it uses beyond those of \<open>Packets\<close>: \<open>zeros\<close> and \<open>slice_set\<close>
  (\<open>vendor/candle-core/src/tensor_cat.rs\<close>). An operation that mutates the cache returns its
  result together with the cache it leaves, also when it fails. The views an append
  returns share storage with the cache; they are consumed within the same forward pass,
  before the next append to that layer, so they are modelled as values.
\<close>

section \<open>Candle operations\<close>

definition zeros :: "'v \<Rightarrow> nat list \<Rightarrow> dtype \<Rightarrow> 'v tensor" where
  "zeros z ds dt = \<lparr>t_device = Cpu, t_dtype = dt, t_dims = ds, t_values = replicate (prod_list ds) z\<rparr>"

fun slice_dims_error :: "nat \<Rightarrow> nat \<Rightarrow> nat \<Rightarrow> nat list \<Rightarrow> nat list \<Rightarrow> candle_error option" where
  "slice_dims_error axis off i (v1 # ds) (v2 # es) =
     (if i = axis \<and> v2 + off > v1
      then Some (CandleMsg (''shape mismatch on target dim, dst: '' @ show_nat v1 @ '', src: ''
                            @ show_nat v2 @ '' + '' @ show_nat off))
      else if i \<noteq> axis \<and> v1 \<noteq> v2
      then Some (CandleMsg (''shape mismatch on dim '' @ show_nat i @ '', '' @ show_nat v1 @ '' <> '' @ show_nat v2))
      else slice_dims_error axis off (Suc i) ds es)"
| "slice_dims_error axis off i _ _ = None"

definition slice_set :: "'v tensor \<Rightarrow> 'v tensor \<Rightarrow> nat \<Rightarrow> nat \<Rightarrow> candle_error + 'v tensor" where
  "slice_set dst src axis off =
     (if axis \<ge> length (t_dims dst) then Inl (DimOutOfRange (t_dims dst) axis)
      else if t_dtype dst \<noteq> t_dtype src then Inl DTypeMismatchBinaryOp
      else if t_device dst \<noteq> t_device src then Inl DeviceMismatchBinaryOp
      else if length (t_dims dst) \<noteq> length (t_dims src)
      then Inl (UnexpectedNumberOfDims (length (t_dims dst)) (length (t_dims src)))
      else case slice_dims_error axis off 0 (t_dims dst) (t_dims src) of
        Some e \<Rightarrow> Inl e
      | None \<Rightarrow>
          (let inner = inner_size (t_dims src) axis;
               d1 = outer_size (t_dims src) axis;
               d2 = inner * t_dims src ! axis;
               dst_s = inner * t_dims dst ! axis in
           Inr (dst\<lparr>t_values := concat (map (\<lambda>o'.
                  let row = block (o' * dst_s) dst_s (t_values dst) in
                  take (off * inner) row @ block (o' * d2) d2 (t_values src) @ drop (off * inner + d2) row)
                [0..<d1])\<rparr>)))"

section \<open>One layer\<close>

record 'v layer_kv_cache =
  l_keys :: "'v tensor"
  l_values :: "'v tensor"
  l_length :: usize
  l_capacity :: usize

definition layer_new :: "'v \<Rightarrow> model_config \<Rightarrow> usize \<Rightarrow> dtype \<Rightarrow> 'v layer_kv_cache dresult" where
  "layer_new z cfg cap dt =
     rbind (head_dim cfg) (\<lambda>d.
       let shape = [1, num_key_value_heads cfg, cap, d] in
       Inr \<lparr>l_keys = zeros z shape dt, l_values = zeros z shape dt, l_length = 0, l_capacity = cap\<rparr>)"

definition dims4 :: "'v tensor \<Rightarrow> (nat \<times> nat \<times> nat \<times> nat) dresult" where
  "dims4 t =
     (case t_dims t of
        [a, b, c, d] \<Rightarrow> Inr (a, b, c, d)
      | ds \<Rightarrow> Inl (RuntimeTensor (UnexpectedNumberOfDims 4 (length ds))))"

definition layer_append ::
  "'v layer_kv_cache \<Rightarrow> 'v tensor \<Rightarrow> 'v tensor \<Rightarrow> ('v tensor \<times> 'v tensor) dresult \<times> 'v layer_kv_cache" where
  "layer_append c keys vals =
     (if t_dims keys \<noteq> t_dims vals
      then (Inl (InvalidConfig ''key and value cache chunks have different shapes''), c)
      else case dims4 keys of
        Inl e \<Rightarrow> (Inl e, c)
      | Inr (_, _, seqn, _) \<Rightarrow>
          (let attempted = l_length c + seqn in
           if attempted > l_capacity c then (Inl (CacheCapacityExceeded attempted (l_capacity c)), c)
           else case slice_set (l_keys c) keys 2 (l_length c) of
             Inl e \<Rightarrow> (Inl (RuntimeTensor e), c)
           | Inr ks \<Rightarrow>
               (let c1 = c\<lparr>l_keys := ks\<rparr> in
                case slice_set (l_values c1) vals 2 (l_length c1) of
                  Inl e \<Rightarrow> (Inl (RuntimeTensor e), c1)
                | Inr vs \<Rightarrow>
                    (let c2 = c1\<lparr>l_values := vs, l_length := attempted\<rparr> in
                     (rbind (map_err RuntimeTensor (narrow (l_keys c2) 2 0 attempted)) (\<lambda>k.
                      rbind (map_err RuntimeTensor (narrow (l_values c2) 2 0 attempted)) (\<lambda>v.
                        Inr (k, v))), c2)))))"

section \<open>All layers\<close>

record 'v kv_cache =
  kv_layers :: "'v layer_kv_cache list"
  kv_capacity :: usize

definition kv_new_for_layers ::
  "'v \<Rightarrow> model_config \<Rightarrow> usize \<Rightarrow> usize \<Rightarrow> dtype \<Rightarrow> 'v kv_cache dresult" where
  "kv_new_for_layers z cfg layers cap dt =
     (if layers = 0 \<or> layers > num_hidden_layers cfg
      then Inl (InvalidConfig (''cache layer count must be between 1 and '' @ show_nat (num_hidden_layers cfg)
                               @ '', got '' @ show_nat layers))
      else if cap = 0 \<or> cap > max_position_embeddings cfg
      then Inl (InvalidConfig (''cache capacity '' @ show_nat cap @ '' is outside model context 1..=''
                               @ show_nat (max_position_embeddings cfg)))
      else rbind (collect_results (map (\<lambda>_. layer_new z cfg cap dt) [0..<layers])) (\<lambda>ls.
        Inr \<lparr>kv_layers = ls, kv_capacity = cap\<rparr>))"

definition kv_new :: "'v \<Rightarrow> model_config \<Rightarrow> usize \<Rightarrow> dtype \<Rightarrow> 'v kv_cache dresult" where
  "kv_new z cfg cap dt =
     (if cap = 0 \<or> cap > max_position_embeddings cfg
      then Inl (InvalidConfig (''cache capacity '' @ show_nat cap @ '' is outside model context 1..=''
                               @ show_nat (max_position_embeddings cfg)))
      else kv_new_for_layers z cfg (num_hidden_layers cfg) cap dt)"

definition kv_new_tensor_parallel ::
  "'v \<Rightarrow> model_config \<Rightarrow> usize \<Rightarrow> usize \<Rightarrow> dtype \<Rightarrow> 'v kv_cache dresult" where
  "kv_new_tensor_parallel z cfg tp cap dt =
     (if tp = 0 \<or> num_key_value_heads cfg mod tp \<noteq> 0
      then Inl (InvalidConfig (show_nat (num_key_value_heads cfg) @ '' KV heads cannot be divided across TP=''
                               @ show_nat tp))
      else kv_new z (cfg\<lparr>hidden_size := hidden_size cfg div tp,
                         num_attention_heads := num_attention_heads cfg div tp,
                         num_key_value_heads := num_key_value_heads cfg div tp\<rparr>) cap dt)"

definition kv_len :: "'v kv_cache \<Rightarrow> usize" where
  "kv_len c = (case kv_layers c of [] \<Rightarrow> 0 | l # _ \<Rightarrow> l_length l)"

definition kv_is_empty :: "'v kv_cache \<Rightarrow> bool" where
  "kv_is_empty c \<longleftrightarrow> kv_len c = 0"

definition kv_layer_count :: "'v kv_cache \<Rightarrow> usize" where
  "kv_layer_count c = length (kv_layers c)"

definition kv_append ::
  "usize \<Rightarrow> 'v tensor \<Rightarrow> 'v tensor \<Rightarrow> 'v kv_cache \<Rightarrow> ('v tensor \<times> 'v tensor) dresult \<times> 'v kv_cache" where
  "kv_append layer keys vals c =
     (if layer < length (kv_layers c)
      then let (r, l) = layer_append (kv_layers c ! layer) keys vals in
           (r, c\<lparr>kv_layers := (kv_layers c)[layer := l]\<rparr>)
      else (Inl (InvalidConfig (''cache has no layer '' @ show_nat layer)), c))"

definition kv_used_bytes :: "'v kv_cache \<Rightarrow> model_config \<Rightarrow> dtype \<Rightarrow> u64 dresult" where
  "kv_used_bytes c cfg dt =
     rbind (head_dim cfg) (\<lambda>d.
       Inr (2 * of_nat (length (kv_layers c)) * of_nat (kv_len c) * of_nat (num_key_value_heads cfg)
            * of_nat d * of_nat (size_in_bytes dt)))"

end
