(* ===== verification/Llama.thy ===== *)
theory Llama
  imports KvCache
begin

text \<open>
  The Llama model and its pipeline stages (\<open>crates/runtime/src/model/llama.rs\<close>). The numeric
  kernels of Candle are the fields of \<open>candle_ops\<close> and the checkpoint is a \<open>var_builder\<close>, the
  function from tensor path and shape to weight that \<open>VarBuilder\<close> is; both are arguments
  of the definitions that use them. Everything the repository itself does with them is
  written out: which weight is loaded where, the order of the operations, the shape checks,
  the cache, the causal mask, the layer loop. A forward pass that fails returns only its
  error, since every caller drops the cache then.
\<close>

section \<open>Candle\<close>

record 'v candle_ops =
  op_add :: "'v \<Rightarrow> 'v \<Rightarrow> 'v"
  op_zero :: "'v"
  op_neg_infinity :: "'v"
  op_linear :: "'v tensor \<Rightarrow> 'v tensor \<Rightarrow> candle_error + 'v tensor"
  op_embedding :: "'v tensor \<Rightarrow> u32 tensor \<Rightarrow> candle_error + 'v tensor"
  op_rms_norm :: "f64 \<Rightarrow> 'v tensor \<Rightarrow> 'v tensor \<Rightarrow> candle_error + 'v tensor"
  op_rope_tables :: "model_config \<Rightarrow> usize \<Rightarrow> candle_error + ('v tensor \<times> 'v tensor)"
  op_rope :: "'v tensor \<Rightarrow> 'v tensor \<Rightarrow> 'v tensor \<Rightarrow> candle_error + 'v tensor"
  op_transpose :: "'v tensor \<Rightarrow> nat \<Rightarrow> nat \<Rightarrow> candle_error + 'v tensor"
  op_t :: "'v tensor \<Rightarrow> candle_error + 'v tensor"
  op_matmul :: "'v tensor \<Rightarrow> 'v tensor \<Rightarrow> candle_error + 'v tensor"
  op_div_sqrt :: "'v tensor \<Rightarrow> nat \<Rightarrow> candle_error + 'v tensor"
  op_softmax_last_dim :: "'v tensor \<Rightarrow> candle_error + 'v tensor"
  op_silu :: "'v tensor \<Rightarrow> candle_error + 'v tensor"
  op_mul :: "'v tensor \<Rightarrow> 'v tensor \<Rightarrow> candle_error + 'v tensor"
  op_to_dtype :: "'v tensor \<Rightarrow> dtype \<Rightarrow> candle_error + 'v tensor"
  op_argmax :: "'v tensor \<Rightarrow> candle_error + u32"

abbreviation lift_tensor :: "candle_error + 'a \<Rightarrow> 'a dresult" where
  "lift_tensor \<equiv> map_err RuntimeTensor"

definition dims2 :: "'v tensor \<Rightarrow> (nat \<times> nat) dresult" where
  "dims2 t = (case t_dims t of [a, b] \<Rightarrow> Inr (a, b)
              | ds \<Rightarrow> Inl (RuntimeTensor (UnexpectedNumberOfDims 2 (length ds))))"

definition dims3 :: "'v tensor \<Rightarrow> (nat \<times> nat \<times> nat) dresult" where
  "dims3 t = (case t_dims t of [a, b, c] \<Rightarrow> Inr (a, b, c)
              | ds \<Rightarrow> Inl (RuntimeTensor (UnexpectedNumberOfDims 3 (length ds))))"

definition squeeze :: "'v tensor \<Rightarrow> nat \<Rightarrow> candle_error + 'v tensor" where
  "squeeze t d =
     (if d \<ge> length (t_dims t) then Inl (DimOutOfRange (t_dims t) d)
      else if t_dims t ! d = 1 then Inr (t\<lparr>t_dims := take d (t_dims t) @ drop (Suc d) (t_dims t)\<rparr>)
      else Inr t)"

text \<open>\<open>hidden.i((.., i, ..))\<close>: one position of the second axis, the axis dropped.\<close>

definition index_mid :: "'v tensor \<Rightarrow> nat \<Rightarrow> candle_error + 'v tensor" where
  "index_mid t i = rbind (narrow t 1 i 1) (\<lambda>s. squeeze s 1)"

type_synonym 'v var_builder = "string \<Rightarrow> nat list \<Rightarrow> candle_error + 'v tensor"

definition pp :: "string \<Rightarrow> 'v var_builder \<Rightarrow> 'v var_builder" where
  "pp prefix vb = (\<lambda>name shape. vb (prefix @ ''.'' @ name) shape)"

definition linear_no_bias :: "nat \<Rightarrow> nat \<Rightarrow> 'v var_builder \<Rightarrow> 'v tensor dresult" where
  "linear_no_bias in_dim out_dim vb = lift_tensor (vb ''weight'' [out_dim, in_dim])"

definition load_embedding :: "nat \<Rightarrow> nat \<Rightarrow> 'v var_builder \<Rightarrow> 'v tensor dresult" where
  "load_embedding in_size out_size vb = lift_tensor (vb ''weight'' [in_size, out_size])"

definition load_rms_norm :: "nat \<Rightarrow> f64 \<Rightarrow> 'v var_builder \<Rightarrow> (f64 \<times> 'v tensor) dresult" where
  "load_rms_norm n eps vb = rbind (lift_tensor (vb ''weight'' [n])) (\<lambda>w. Inr (eps, w))"

section \<open>Rotary embedding and masks\<close>

record 'v rotary_embedding =
  rope_cos :: "'v tensor"
  rope_sin :: "'v tensor"

definition rope_new :: "'v candle_ops \<Rightarrow> model_config \<Rightarrow> usize \<Rightarrow> 'v rotary_embedding dresult" where
  "rope_new ops cfg cap =
     rbind (head_dim cfg) (\<lambda>_. rbind (lift_tensor (op_rope_tables ops cfg cap)) (\<lambda>(c, s).
       Inr \<lparr>rope_cos = c, rope_sin = s\<rparr>))"

definition rope_apply :: "'v candle_ops \<Rightarrow> 'v rotary_embedding \<Rightarrow> 'v tensor \<Rightarrow> usize \<Rightarrow> 'v tensor dresult" where
  "rope_apply ops r t pos =
     rbind (lift_tensor (tensor_dim t 2)) (\<lambda>seqn.
     rbind (lift_tensor (narrow (rope_cos r) 0 pos seqn)) (\<lambda>c.
     rbind (lift_tensor (narrow (rope_sin r) 0 pos seqn)) (\<lambda>s.
     lift_tensor (op_rope ops t c s))))"

definition repeat_kv :: "'v tensor \<Rightarrow> nat \<Rightarrow> 'v tensor dresult" where
  "repeat_kv t repetitions =
     (if repetitions = 1 then Inr t
      else rbind (dims4 t) (\<lambda>(batch, kv_heads, seqn, hd_dim).
        Inr (t\<lparr>t_dims := [batch, kv_heads * repetitions, seqn, hd_dim],
               t_values := concat (map (\<lambda>o'. concat (replicate repetitions
                   (block (o' * (seqn * hd_dim)) (seqn * hd_dim) (t_values t)))) [0..<batch * kv_heads])\<rparr>)))"

text \<open>The mask in row-major order, then the broadcast and the selection by \<open>where_cond\<close>.\<close>

definition causal_mask :: "usize \<Rightarrow> usize \<Rightarrow> u8 list" where
  "causal_mask pos seqn =
     (let key_length = pos + seqn in
      concat (map (\<lambda>query. map (\<lambda>key. if key > pos + query then 1 else 0) [0..<key_length]) [0..<seqn]))"

definition broadcast_where :: "'v \<Rightarrow> nat list \<Rightarrow> u8 list \<Rightarrow> 'v tensor \<Rightarrow> candle_error + 'v tensor" where
  "broadcast_where v mask_dims msk t =
     (let n = length (t_dims t); k = length mask_dims in
      if k \<le> n \<and> drop (n - k) (t_dims t) = mask_dims
      then Inr (t\<lparr>t_values := map (\<lambda>i. if msk ! (i mod length msk) \<noteq> 0 then v else t_values t ! i)
                              [0..<length (t_values t)]\<rparr>)
      else Inl (ShapeMismatchBinaryOp mask_dims (t_dims t)))"

definition apply_causal_mask :: "'v candle_ops \<Rightarrow> 'v tensor \<Rightarrow> usize \<Rightarrow> usize \<Rightarrow> 'v tensor dresult" where
  "apply_causal_mask ops scores pos seqn =
     lift_tensor (broadcast_where (op_neg_infinity ops) [seqn, pos + seqn] (causal_mask pos seqn) scores)"

section \<open>Attention\<close>

record 'v causal_self_attention =
  q_proj :: "'v tensor"
  k_proj :: "'v tensor"
  v_proj :: "'v tensor"
  o_proj :: "'v tensor"
  a_num_attention_heads :: usize
  a_num_key_value_heads :: usize
  a_head_dim :: usize

definition attention_load :: "'v var_builder \<Rightarrow> model_config \<Rightarrow> 'v causal_self_attention dresult" where
  "attention_load vb cfg =
     rbind (head_dim cfg) (\<lambda>d. let kv_size = num_key_value_heads cfg * d in
     rbind (linear_no_bias (hidden_size cfg) (hidden_size cfg) (pp ''q_proj'' vb)) (\<lambda>q.
     rbind (linear_no_bias (hidden_size cfg) kv_size (pp ''k_proj'' vb)) (\<lambda>k.
     rbind (linear_no_bias (hidden_size cfg) kv_size (pp ''v_proj'' vb)) (\<lambda>v.
     rbind (linear_no_bias (hidden_size cfg) (hidden_size cfg) (pp ''o_proj'' vb)) (\<lambda>o'.
     Inr \<lparr>q_proj = q, k_proj = k, v_proj = v, o_proj = o',
          a_num_attention_heads = num_attention_heads cfg,
          a_num_key_value_heads = num_key_value_heads cfg, a_head_dim = d\<rparr>)))))"

definition project_heads ::
  "'v candle_ops \<Rightarrow> 'v tensor \<Rightarrow> 'v tensor \<Rightarrow> nat \<Rightarrow> nat \<Rightarrow> nat \<Rightarrow> nat \<Rightarrow> 'v tensor dresult" where
  "project_heads ops w input batch seqn heads d =
     rbind (lift_tensor (op_linear ops w input)) (\<lambda>x.
     rbind (lift_tensor (reshape x [batch, seqn, heads, d])) (\<lambda>y.
     lift_tensor (op_transpose ops y 1 2)))"

definition attention_forward ::
  "'v candle_ops \<Rightarrow> 'v causal_self_attention \<Rightarrow> 'v tensor \<Rightarrow> usize \<Rightarrow> usize \<Rightarrow> 'v rotary_embedding \<Rightarrow> 'v kv_cache
     \<Rightarrow> ('v tensor \<times> 'v kv_cache) dresult" where
  "attention_forward ops a input pos layer rope cache =
     rbind (dims3 input) (\<lambda>(batch, seqn, hidden).
     rbind (project_heads ops (q_proj a) input batch seqn (a_num_attention_heads a) (a_head_dim a)) (\<lambda>q.
     rbind (project_heads ops (k_proj a) input batch seqn (a_num_key_value_heads a) (a_head_dim a)) (\<lambda>k.
     rbind (project_heads ops (v_proj a) input batch seqn (a_num_key_value_heads a) (a_head_dim a)) (\<lambda>v.
     rbind (rope_apply ops rope q pos) (\<lambda>q.
     rbind (rope_apply ops rope k pos) (\<lambda>k.
     case kv_append layer k v cache of (r, cache') \<Rightarrow>
     rbind r (\<lambda>(k, v).
     rbind (repeat_kv k (a_num_attention_heads a div a_num_key_value_heads a)) (\<lambda>k.
     rbind (repeat_kv v (a_num_attention_heads a div a_num_key_value_heads a)) (\<lambda>v.
     rbind (lift_tensor (op_to_dtype ops q F32)) (\<lambda>q.
     rbind (lift_tensor (op_to_dtype ops k F32)) (\<lambda>k.
     rbind (lift_tensor (op_to_dtype ops v F32)) (\<lambda>v.
     rbind (lift_tensor (op_t ops k)) (\<lambda>kt.
     rbind (lift_tensor (op_matmul ops q kt)) (\<lambda>qk.
     rbind (lift_tensor (op_div_sqrt ops qk (a_head_dim a))) (\<lambda>scores.
     rbind (if seqn > 1 then apply_causal_mask ops scores pos seqn else Inr scores) (\<lambda>scores.
     rbind (lift_tensor (op_softmax_last_dim ops scores)) (\<lambda>probabilities.
     rbind (lift_tensor (op_matmul ops probabilities v)) (\<lambda>x.
     rbind (lift_tensor (op_to_dtype ops x (t_dtype input))) (\<lambda>x.
     rbind (lift_tensor (op_transpose ops x 1 2)) (\<lambda>x.
     rbind (lift_tensor (reshape x [batch, seqn, hidden])) (\<lambda>output.
     rbind (lift_tensor (op_linear ops (o_proj a) output)) (\<lambda>y.
     Inr (y, cache')))))))))))))))))))))))"

section \<open>Blocks\<close>

record 'v mlp =
  gate_proj :: "'v tensor"
  up_proj :: "'v tensor"
  down_proj :: "'v tensor"

definition mlp_load :: "'v var_builder \<Rightarrow> model_config \<Rightarrow> 'v mlp dresult" where
  "mlp_load vb cfg =
     rbind (linear_no_bias (hidden_size cfg) (intermediate_size cfg) (pp ''gate_proj'' vb)) (\<lambda>g.
     rbind (linear_no_bias (hidden_size cfg) (intermediate_size cfg) (pp ''up_proj'' vb)) (\<lambda>u.
     rbind (linear_no_bias (intermediate_size cfg) (hidden_size cfg) (pp ''down_proj'' vb)) (\<lambda>d.
     Inr \<lparr>gate_proj = g, up_proj = u, down_proj = d\<rparr>)))"

definition mlp_forward :: "'v candle_ops \<Rightarrow> 'v mlp \<Rightarrow> 'v tensor \<Rightarrow> 'v tensor dresult" where
  "mlp_forward ops m input =
     rbind (lift_tensor (op_linear ops (gate_proj m) input)) (\<lambda>g.
     rbind (lift_tensor (op_silu ops g)) (\<lambda>gated.
     rbind (lift_tensor (op_linear ops (up_proj m) input)) (\<lambda>up.
     rbind (lift_tensor (op_mul ops gated up)) (\<lambda>x.
     lift_tensor (op_linear ops (down_proj m) x)))))"

record 'v llama_block =
  input_norm :: "f64 \<times> 'v tensor"
  b_attention :: "'v causal_self_attention"
  post_attention_norm :: "f64 \<times> 'v tensor"
  b_mlp :: "'v mlp"

definition block_load :: "'v var_builder \<Rightarrow> model_config \<Rightarrow> 'v llama_block dresult" where
  "block_load vb cfg =
     rbind (load_rms_norm (hidden_size cfg) (rms_norm_eps cfg) (pp ''input_layernorm'' vb)) (\<lambda>n1.
     rbind (attention_load (pp ''self_attn'' vb) cfg) (\<lambda>a.
     rbind (load_rms_norm (hidden_size cfg) (rms_norm_eps cfg) (pp ''post_attention_layernorm'' vb)) (\<lambda>n2.
     rbind (mlp_load (pp ''mlp'' vb) cfg) (\<lambda>m.
     Inr \<lparr>input_norm = n1, b_attention = a, post_attention_norm = n2, b_mlp = m\<rparr>))))"

definition norm_forward :: "'v candle_ops \<Rightarrow> f64 \<times> 'v tensor \<Rightarrow> 'v tensor \<Rightarrow> 'v tensor dresult" where
  "norm_forward ops n x = lift_tensor (op_rms_norm ops (fst n) (snd n) x)"

definition block_forward ::
  "'v candle_ops \<Rightarrow> 'v llama_block \<Rightarrow> 'v tensor \<Rightarrow> usize \<Rightarrow> usize \<Rightarrow> 'v rotary_embedding \<Rightarrow> 'v kv_cache
     \<Rightarrow> ('v tensor \<times> 'v kv_cache) dresult" where
  "block_forward ops b input pos layer rope cache =
     rbind (norm_forward ops (input_norm b) input) (\<lambda>x.
     rbind (attention_forward ops (b_attention b) x pos layer rope cache) (\<lambda>(attention, cache').
     rbind (lift_tensor (tensor_add (op_add ops) input attention)) (\<lambda>hidden.
     rbind (norm_forward ops (post_attention_norm b) hidden) (\<lambda>y.
     rbind (mlp_forward ops (b_mlp b) y) (\<lambda>m.
     rbind (lift_tensor (tensor_add (op_add ops) hidden m)) (\<lambda>out.
     Inr (out, cache')))))))"

text \<open>The layer loop: block number \<open>i\<close> works on cache layer \<open>i\<close>.\<close>

fun forward_blocks ::
  "'v candle_ops \<Rightarrow> 'v rotary_embedding \<Rightarrow> usize \<Rightarrow> usize \<Rightarrow> 'v llama_block list \<Rightarrow> 'v tensor \<Rightarrow> 'v kv_cache
     \<Rightarrow> ('v tensor \<times> 'v kv_cache) dresult" where
  "forward_blocks ops rope pos layer [] hidden cache = Inr (hidden, cache)"
| "forward_blocks ops rope pos layer (b # bs) hidden cache =
     rbind (block_forward ops b hidden pos layer rope cache) (\<lambda>(hidden', cache').
       forward_blocks ops rope pos (Suc layer) bs hidden' cache')"

definition load_blocks :: "'v var_builder \<Rightarrow> model_config \<Rightarrow> usize list \<Rightarrow> 'v llama_block list dresult" where
  "load_blocks vb cfg layers =
     collect_results (map (\<lambda>i. block_load (pp (''model.layers.'' @ show_nat i) vb) cfg) layers)"

section \<open>The whole model\<close>

record 'v llama =
  embeddings :: "'v tensor"
  blocks :: "'v llama_block list"
  final_norm :: "f64 \<times> 'v tensor"
  lm_head :: "'v tensor"
  rope :: "'v rotary_embedding"

definition llama_load :: "'v candle_ops \<Rightarrow> 'v var_builder \<Rightarrow> model_config \<Rightarrow> usize \<Rightarrow> 'v llama dresult" where
  "llama_load ops vb cfg cap =
     rbind (load_embedding (vocab_size cfg) (hidden_size cfg) (pp ''model.embed_tokens'' vb)) (\<lambda>e.
     rbind (if tie_word_embeddings cfg then Inr e
            else linear_no_bias (hidden_size cfg) (vocab_size cfg) (pp ''lm_head'' vb)) (\<lambda>h.
     rbind (load_blocks vb cfg [0..<num_hidden_layers cfg]) (\<lambda>bs.
     rbind (load_rms_norm (hidden_size cfg) (rms_norm_eps cfg) (pp ''model.norm'' vb)) (\<lambda>n.
     rbind (rope_new ops cfg cap) (\<lambda>r.
     Inr \<lparr>embeddings = e, blocks = bs, final_norm = n, lm_head = h, rope = r\<rparr>)))))"

definition position_error :: "usize \<Rightarrow> usize \<Rightarrow> 'v kv_cache \<Rightarrow> dlir_error option" where
  "position_error pos seqn cache =
     (if pos \<noteq> kv_len cache
      then Some (InvalidConfig (''forward position '' @ show_nat pos @ '' does not match cache length ''
                                @ show_nat (kv_len cache)))
      else if pos + seqn > kv_capacity cache
      then Some (CacheCapacityExceeded (pos + seqn) (kv_capacity cache))
      else None)"

definition head_forward ::
  "'v candle_ops \<Rightarrow> f64 \<times> 'v tensor \<Rightarrow> 'v tensor \<Rightarrow> 'v tensor \<Rightarrow> usize \<Rightarrow> 'v tensor dresult" where
  "head_forward ops n h hidden seqn =
     rbind (norm_forward ops n hidden) (\<lambda>x.
     rbind (lift_tensor (index_mid x (seqn - 1))) (\<lambda>last.
     rbind (lift_tensor (op_linear ops h last)) (\<lambda>y.
     lift_tensor (op_to_dtype ops y F32))))"

definition llama_forward ::
  "'v candle_ops \<Rightarrow> 'v llama \<Rightarrow> u32 tensor \<Rightarrow> usize \<Rightarrow> 'v kv_cache \<Rightarrow> ('v tensor \<times> 'v kv_cache) dresult" where
  "llama_forward ops m token_ids pos cache =
     rbind (dims2 token_ids) (\<lambda>(batch, seqn).
     if batch \<noteq> 1
     then Inl (InvalidConfig (''v0.1 requires batch size one, received '' @ show_nat batch))
     else if seqn = 0 then Inl (InvalidConfig ''a model forward pass requires at least one token'')
     else case position_error pos seqn cache of
       Some e \<Rightarrow> Inl e
     | None \<Rightarrow>
         rbind (lift_tensor (op_embedding ops (embeddings m) token_ids)) (\<lambda>hidden.
         rbind (forward_blocks ops (rope m) pos 0 (blocks m) hidden cache) (\<lambda>(hidden, cache').
         rbind (head_forward ops (final_norm m) (lm_head m) hidden seqn) (\<lambda>logits.
         Inr (logits, cache')))))"

section \<open>A pipeline stage\<close>

record 'v llama_stage =
  st_layer_start :: usize
  st_layer_end :: usize
  st_embeddings :: "'v tensor option"
  st_blocks :: "'v llama_block list"
  st_final_norm :: "(f64 \<times> 'v tensor) option"
  st_lm_head :: "'v tensor option"
  st_rope :: "'v rotary_embedding"

definition when_loaded :: "bool \<Rightarrow> 'a dresult \<Rightarrow> 'a option dresult" where
  "when_loaded b r = (if b then rbind r (\<lambda>x. Inr (Some x)) else Inr None)"

definition stage_load ::
  "'v candle_ops \<Rightarrow> 'v var_builder \<Rightarrow> model_config \<Rightarrow> usize \<Rightarrow> usize \<Rightarrow> bool \<Rightarrow> bool \<Rightarrow> usize \<Rightarrow> 'v llama_stage dresult" where
  "stage_load ops vb cfg layer_start layer_end first_stage final_stage cap =
     (if layer_start \<ge> layer_end \<or> layer_end > num_hidden_layers cfg
      then Inl (InvalidConfig (''stage layer range '' @ show_nat layer_start @ ''..'' @ show_nat layer_end
                               @ '' is outside 0..'' @ show_nat (num_hidden_layers cfg)))
      else
        rbind (when_loaded first_stage
                 (load_embedding (vocab_size cfg) (hidden_size cfg) (pp ''model.embed_tokens'' vb))) (\<lambda>e.
        rbind (load_blocks vb cfg [layer_start..<layer_end]) (\<lambda>bs.
        rbind (when_loaded final_stage
                 (load_rms_norm (hidden_size cfg) (rms_norm_eps cfg) (pp ''model.norm'' vb))) (\<lambda>n.
        rbind (when_loaded final_stage
                 (if tie_word_embeddings cfg
                  then load_embedding (vocab_size cfg) (hidden_size cfg) (pp ''model.embed_tokens'' vb)
                  else linear_no_bias (hidden_size cfg) (vocab_size cfg) (pp ''lm_head'' vb))) (\<lambda>h.
        rbind (rope_new ops cfg cap) (\<lambda>r.
        Inr \<lparr>st_layer_start = layer_start, st_layer_end = layer_end, st_embeddings = e, st_blocks = bs,
             st_final_norm = n, st_lm_head = h, st_rope = r\<rparr>))))))"

definition stage_forward_hidden ::
  "'v candle_ops \<Rightarrow> 'v llama_stage \<Rightarrow> 'v tensor \<Rightarrow> usize \<Rightarrow> 'v kv_cache \<Rightarrow> ('v tensor \<times> 'v kv_cache) dresult" where
  "stage_forward_hidden ops s hidden pos cache =
     rbind (dims3 hidden) (\<lambda>(batch, seqn, _).
     if batch \<noteq> 1 \<or> seqn = 0
     then Inl (InvalidConfig (''pipeline activation must have shape [1,S,H] with S>0, got ''
                              @ show_shape (t_dims hidden)))
     else if kv_layer_count cache \<noteq> length (st_blocks s)
     then Inl (InvalidConfig (''stage has '' @ show_nat (length (st_blocks s)) @ '' blocks but cache has ''
                              @ show_nat (kv_layer_count cache) @ '' layers''))
     else case position_error pos seqn cache of
       Some e \<Rightarrow> Inl e
     | None \<Rightarrow> forward_blocks ops (st_rope s) pos 0 (st_blocks s) hidden cache)"

definition stage_forward_tokens ::
  "'v candle_ops \<Rightarrow> 'v llama_stage \<Rightarrow> u32 tensor \<Rightarrow> usize \<Rightarrow> 'v kv_cache \<Rightarrow> ('v tensor \<times> 'v kv_cache) dresult" where
  "stage_forward_tokens ops s token_ids pos cache =
     rbind (ok_or (InvalidConfig ''only the first pipeline stage accepts token IDs'') (st_embeddings s)) (\<lambda>e.
     rbind (dims2 token_ids) (\<lambda>(batch, seqn).
     if batch \<noteq> 1 \<or> seqn = 0
     then Inl (InvalidConfig (''pipeline token input must have shape [1,S] with S>0, got ''
                              @ show_shape (t_dims token_ids)))
     else rbind (lift_tensor (op_embedding ops e token_ids)) (\<lambda>hidden.
       stage_forward_hidden ops s hidden pos cache)))"

text \<open>\<open>finish\<close> reads the output head with \<open>expect\<close>: \<open>load\<close> sets it together with the final norm.\<close>

definition stage_finish :: "'v candle_ops \<Rightarrow> 'v llama_stage \<Rightarrow> 'v tensor \<Rightarrow> 'v tensor dresult" where
  "stage_finish ops s hidden =
     rbind (ok_or (InvalidConfig ''only the final pipeline stage produces logits'') (st_final_norm s)) (\<lambda>n.
     rbind (dims3 hidden) (\<lambda>(_, seqn, _).
     if seqn = 0 then Inl (InvalidConfig ''final pipeline activation has zero sequence length'')
     else head_forward ops n (the (st_lm_head s)) hidden seqn))"

end
