(* ===== verification/TensorParallel.thy ===== *)
theory TensorParallel
  imports TensorPlan Llama Collectives
begin

text \<open>
  The tensor-parallel layers (\<open>crates/runtime/src/parallel.rs\<close>) and the Llama model built from
  them (\<open>crates/runtime/src/model/tensor_parallel.rs\<close>), as rank programs of \<open>World\<close>. A forward pass
  threads the rank's cache, its collectives and its observers; an error of the collectives
  ends the program with \<open>Fail\<close>, every other error is returned. The weight sources read a checkpoint,
  a function from tensor name to stored tensor; the sharded one follows
  \<open>ShardedSafeTensors::get\<close> of \<open>vendor/candle-nn/src/var_builder.rs\<close>.
\<close>

section \<open>Observers and state\<close>

text \<open>
  The layer observer and the observer of the collectives are two views of one emitter in the
  runner, so they share the state \<open>'o\<close>.
\<close>

record 'o tp_observer =
  ob_layer_started :: "usize \<Rightarrow> 'o \<Rightarrow> 'o"
  ob_layer_completed :: "usize \<Rightarrow> 'o \<Rightarrow> 'o"
  ob_collective :: "collective_event \<Rightarrow> 'o \<Rightarrow> 'o"

definition noop_observer :: "'o tp_observer" where
  "noop_observer = \<lparr>ob_layer_started = (\<lambda>_ o'. o'), ob_layer_completed = (\<lambda>_ o'. o'), ob_collective = (\<lambda>_ o'. o')\<rparr>"

record ('v, 'o) tp_state =
  ts_cache :: "'v kv_cache"
  ts_collectives :: native_collectives
  ts_observer :: 'o

text \<open>One collective call: what it reported is passed to the observer, in order.\<close>

definition observe_call ::
  "'o tp_observer \<Rightarrow> (native_collectives \<Rightarrow> ('v, native_collectives \<times> 'v tensor) prog) \<Rightarrow> ('v, 'o) tp_state
     \<Rightarrow> ('v, ('v tensor \<times> ('v, 'o) tp_state) dresult) prog" where
  "observe_call ob call s =
     pbind (call (ts_collectives s)) (\<lambda>(nc, t).
       Ret (Inr (t, s\<lparr>ts_collectives := nc,
         ts_observer := fold (ob_collective ob) (drop (length (observed (ts_collectives s))) (observed nc))
                          (ts_observer s)\<rparr>)))"

section \<open>Parallel layers\<close>

record 'v column_parallel_linear =
  cpl_weight :: "'v tensor"
  cpl_global_output_features :: usize
  cpl_gather_output :: bool

definition column_from_weight ::
  "'v tensor \<Rightarrow> usize \<Rightarrow> bool \<Rightarrow> 'v column_parallel_linear dresult" where
  "column_from_weight w global_output gather =
     rbind (dims2 w) (\<lambda>(local_output, _).
       if local_output = 0 \<or> global_output mod local_output \<noteq> 0
       then Inl (InvalidConfig (''local output width '' @ show_nat local_output
              @ '' does not evenly shard global width '' @ show_nat global_output))
       else Inr \<lparr>cpl_weight = w, cpl_global_output_features = global_output, cpl_gather_output = gather\<rparr>)"

definition column_forward ::
  "'v candle_ops \<Rightarrow> 'o tp_observer \<Rightarrow> 'v column_parallel_linear \<Rightarrow> 'v tensor \<Rightarrow> ('v, 'o) tp_state
     \<Rightarrow> ('v, ('v tensor \<times> ('v, 'o) tp_state) dresult) prog" where
  "column_forward ops ob l input s =
     pr_bind (Ret (lift_tensor (op_linear ops (cpl_weight l) input))) (\<lambda>local.
     if cpl_gather_output l
     then if t_dims local = [] then Ret (Inl (InvalidConfig ''linear output cannot be scalar''))
       else let axis = length (t_dims local) - 1 in
         pr_bind (observe_call ob (\<lambda>nc. all_gather nc local axis) s) (\<lambda>(gathered, s1).
         pr_bind (Ret (lift_tensor (tensor_dim gathered axis))) (\<lambda>width.
         if width \<noteq> cpl_global_output_features l
         then Ret (Inl (InvalidConfig ''column-parallel gather produced the wrong output width''))
         else Ret (Inr (gathered, s1))))
     else Ret (Inr (local, s)))"

definition local_output_features :: "'v column_parallel_linear \<Rightarrow> usize" where
  "local_output_features l = t_dims (cpl_weight l) ! 0"

record 'v row_parallel_linear =
  rpl_weight :: "'v tensor"
  rpl_algorithm :: all_reduce_algorithm

definition row_from_weight :: "'v tensor \<Rightarrow> all_reduce_algorithm \<Rightarrow> 'v row_parallel_linear dresult" where
  "row_from_weight w alg = rbind (dims2 w) (\<lambda>_. Inr \<lparr>rpl_weight = w, rpl_algorithm = alg\<rparr>)"

definition row_forward ::
  "'v candle_ops \<Rightarrow> 'o tp_observer \<Rightarrow> 'v row_parallel_linear \<Rightarrow> 'v tensor \<Rightarrow> ('v, 'o) tp_state
     \<Rightarrow> ('v, ('v tensor \<times> ('v, 'o) tp_state) dresult) prog" where
  "row_forward ops ob l local_input s =
     pr_bind (Ret (lift_tensor (op_linear ops (rpl_weight l) local_input))) (\<lambda>partial.
     observe_call ob (\<lambda>nc. all_reduce (op_add ops) nc partial Sum (rpl_algorithm l)) s)"

section \<open>Vocabulary-parallel embedding and head\<close>

record 'v vocab_parallel_embedding =
  vpe_weight :: "'v tensor"
  vpe_range :: shard_range
  vpe_global_vocabulary :: usize
  vpe_algorithm :: all_reduce_algorithm

definition embedding_from_weight ::
  "'v tensor \<Rightarrow> shard_range \<Rightarrow> usize \<Rightarrow> 'v vocab_parallel_embedding dresult" where
  "embedding_from_weight w rng global_vocabulary =
     rbind (dims2 w) (\<lambda>(rows, _).
       if rows \<noteq> range_len rng \<or> sr_end rng > global_vocabulary
       then Inl (InvalidConfig ''embedding weight and vocabulary shard range disagree'')
       else Inr \<lparr>vpe_weight = w, vpe_range = rng, vpe_global_vocabulary = global_vocabulary,
                 vpe_algorithm = Centralized\<rparr>)"

definition with_all_reduce ::
  "all_reduce_algorithm \<Rightarrow> 'v vocab_parallel_embedding \<Rightarrow> 'v vocab_parallel_embedding" where
  "with_all_reduce alg e = e\<lparr>vpe_algorithm := alg\<rparr>"

text \<open>The loop over the token ids: local ids and ownership, up to the first id outside the vocabulary.\<close>

fun localize_ids :: "shard_range \<Rightarrow> usize \<Rightarrow> u32 list \<Rightarrow> (u32 list \<times> bool list) dresult" where
  "localize_ids rng vocabulary [] = Inr ([], [])"
| "localize_ids rng vocabulary (i # is) =
     (let id = unat i in
      if id \<ge> vocabulary
      then Inl (InvalidConfig (''token ID '' @ show_nat id @ '' is outside vocabulary '' @ show_nat vocabulary))
      else
        let owned = (id \<ge> sr_start rng \<and> id < sr_end rng) in
        rbind (localize_ids rng vocabulary is) (\<lambda>(ids, msk).
          Inr ((if owned then of_nat (id - sr_start rng) else 0) # ids, owned # msk)))"

text \<open>
  \<open>local.broadcast_mul(&mask)\<close> with a mask of shape \<open>[batch, sequence, 1]\<close>: every feature of a
  position is multiplied by the mask of that position.
\<close>

definition broadcast_mul_mask ::
  "('v \<Rightarrow> 'v \<Rightarrow> 'v) \<Rightarrow> 'v tensor \<Rightarrow> nat \<Rightarrow> nat \<Rightarrow> 'v list \<Rightarrow> candle_error + 'v tensor" where
  "broadcast_mul_mask mul t batch seqn msk =
     (case t_dims t of
        [b, s, h] \<Rightarrow>
          if b = batch \<and> s = seqn
          then Inr (t\<lparr>t_values := map (\<lambda>i. mul (t_values t ! i) (msk ! (i div h))) [0..<length (t_values t)]\<rparr>)
          else Inl (ShapeMismatchBinaryOp (t_dims t) [batch, seqn, 1])
      | _ \<Rightarrow> Inl (ShapeMismatchBinaryOp (t_dims t) [batch, seqn, 1]))"

record 'v scalar_ops =
  op_times :: "'v \<Rightarrow> 'v \<Rightarrow> 'v"
  op_one :: 'v

definition embedding_local ::
  "'v candle_ops \<Rightarrow> 'v scalar_ops \<Rightarrow> 'v vocab_parallel_embedding \<Rightarrow> u32 tensor \<Rightarrow> 'v tensor dresult" where
  "embedding_local ops sc e token_ids =
     (if t_dtype token_ids \<noteq> U32 then Inl (InvalidConfig ''token IDs must use u32'')
      else rbind (dims2 token_ids) (\<lambda>(batch, seqn).
        rbind (localize_ids (vpe_range e) (vpe_global_vocabulary e) (t_values token_ids)) (\<lambda>(ids, msk).
        rbind (lift_tensor (op_embedding ops (vpe_weight e)
            \<lparr>t_device = Cpu, t_dtype = U32, t_dims = [batch, seqn], t_values = ids\<rparr>)) (\<lambda>local.
        lift_tensor (broadcast_mul_mask (op_times sc) local batch seqn
            (map (\<lambda>owned. if owned then op_one sc else op_zero ops) msk))))))"

definition embedding_forward ::
  "'v candle_ops \<Rightarrow> 'v scalar_ops \<Rightarrow> 'o tp_observer \<Rightarrow> 'v vocab_parallel_embedding \<Rightarrow> u32 tensor \<Rightarrow> ('v, 'o) tp_state
     \<Rightarrow> ('v, ('v tensor \<times> ('v, 'o) tp_state) dresult) prog" where
  "embedding_forward ops sc ob e token_ids s =
     pr_bind (Ret (embedding_local ops sc e token_ids)) (\<lambda>local.
     observe_call ob (\<lambda>nc. all_reduce (op_add ops) nc local Sum (vpe_algorithm e)) s)"

type_synonym 'v vocab_parallel_lm_head = "'v column_parallel_linear"

definition head_from_weight :: "'v tensor \<Rightarrow> usize \<Rightarrow> 'v vocab_parallel_lm_head dresult" where
  "head_from_weight w global_vocabulary = column_from_weight w global_vocabulary True"

section \<open>Weight sources\<close>

type_synonym 'v checkpoint = "string \<Rightarrow> candle_error + 'v tensor"

type_synonym 'v weight_source = "string \<Rightarrow> nat list \<Rightarrow> nat option \<Rightarrow> parallel_context \<Rightarrow> 'v tensor dresult"

definition checkpoint_get :: "'v checkpoint \<Rightarrow> 'v var_builder" where
  "checkpoint_get ck name shape =
     rbind (ck name) (\<lambda>t.
       if t_dims t \<noteq> shape then Inl (UnexpectedShape (''shape mismatch for '' @ name) shape (t_dims t))
       else Inr t)"

definition full_weights :: "'v var_builder \<Rightarrow> 'v weight_source" where
  "full_weights vb name shape shard_dim p =
     rbind (lift_tensor (vb name shape)) (\<lambda>t.
       case shard_dim of
         None \<Rightarrow> Inr t
       | Some d \<Rightarrow>
           (let len = shape ! d div tp_size p in
            lift_tensor (narrow t d (tp_rank p * len) len)))"

record shard =
  sh_dim :: usize
  sh_rank :: usize
  sh_world_size :: usize

definition shard_default :: shard where
  "shard_default = \<lparr>sh_dim = 0, sh_rank = 0, sh_world_size = 1\<rparr>"

definition sharded_get :: "'v checkpoint \<Rightarrow> nat list \<Rightarrow> string \<Rightarrow> shard \<Rightarrow> candle_error + 'v tensor" where
  "sharded_get ck target_shape path h =
     (if sh_world_size h = 1 then checkpoint_get ck path target_shape
      else rbind (ck path) (\<lambda>view.
        if sh_dim h \<ge> length (t_dims view) then Inl (CandleMsg ''index out of bounds'')
        else if t_dims view ! sh_dim h mod sh_world_size h \<noteq> 0
        then Inl (ShapeMismatchSplit (t_dims view) (sh_dim h) (sh_world_size h))
        else if sh_dim h > 1 then Inl (CandleMsg ''Get sharded on dimensions != 0 or 1'')
        else
          let block_size = t_dims view ! sh_dim h div sh_world_size h;
              first = sh_rank h * block_size; stop = (sh_rank h + 1) * block_size in
          map_err (\<lambda>_. CandleMsg (''Cannot slice tensor '' @ path @ '' ('' @ show_shape (t_dims view) @ '' along dim ''
                     @ show_nat (sh_dim h) @ '' with '' @ show_nat first @ ''..'' @ show_nat stop))
            (narrow view (sh_dim h) first (stop - first))))"

definition mmap_sharded_weights :: "'v checkpoint \<Rightarrow> 'v weight_source" where
  "mmap_sharded_weights ck name shape shard_dim p =
     (let hint = (case shard_dim of None \<Rightarrow> shard_default
                  | Some d \<Rightarrow> \<lparr>sh_dim = d, sh_rank = tp_rank p, sh_world_size = tp_size p\<rparr>) in
      lift_tensor (sharded_get ck shape name hint))"

section \<open>Attention\<close>

record 'v tp_attention =
  tpa_q_proj :: "'v tensor"
  tpa_k_proj :: "'v tensor"
  tpa_v_proj :: "'v tensor"
  tpa_o_proj :: "'v row_parallel_linear"
  tpa_local_query_heads :: usize
  tpa_local_kv_heads :: usize
  tpa_head_dim :: usize

definition tp_attention_load ::
  "'v weight_source \<Rightarrow> string \<Rightarrow> model_config \<Rightarrow> parallel_context \<Rightarrow> all_reduce_algorithm \<Rightarrow> 'v tp_attention dresult" where
  "tp_attention_load source prefix cfg p alg =
     rbind (head_dim cfg) (\<lambda>d. let kv_width = num_key_value_heads cfg * d; h = hidden_size cfg in
     rbind (source (prefix @ ''.q_proj.weight'') [h, h] (Some 0) p) (\<lambda>q.
     rbind (source (prefix @ ''.k_proj.weight'') [kv_width, h] (Some 0) p) (\<lambda>k.
     rbind (source (prefix @ ''.v_proj.weight'') [kv_width, h] (Some 0) p) (\<lambda>v.
     rbind (source (prefix @ ''.o_proj.weight'') [h, h] (Some 1) p) (\<lambda>o'.
     rbind (row_from_weight o' alg) (\<lambda>row.
     Inr \<lparr>tpa_q_proj = q, tpa_k_proj = k, tpa_v_proj = v, tpa_o_proj = row,
          tpa_local_query_heads = num_attention_heads cfg div tp_size p,
          tpa_local_kv_heads = num_key_value_heads cfg div tp_size p, tpa_head_dim = d\<rparr>))))))"

text \<open>Everything before the output projection is local to the rank.\<close>

definition tp_attention_local ::
  "'v candle_ops \<Rightarrow> 'v tp_attention \<Rightarrow> 'v tensor \<Rightarrow> usize \<Rightarrow> usize \<Rightarrow> 'v rotary_embedding \<Rightarrow> 'v kv_cache
     \<Rightarrow> ('v tensor \<times> 'v kv_cache) dresult" where
  "tp_attention_local ops a input pos layer rp cache =
     rbind (dims3 input) (\<lambda>(batch, seqn, _).
     rbind (project_heads ops (tpa_q_proj a) input batch seqn (tpa_local_query_heads a) (tpa_head_dim a)) (\<lambda>q.
     rbind (project_heads ops (tpa_k_proj a) input batch seqn (tpa_local_kv_heads a) (tpa_head_dim a)) (\<lambda>k.
     rbind (project_heads ops (tpa_v_proj a) input batch seqn (tpa_local_kv_heads a) (tpa_head_dim a)) (\<lambda>v.
     rbind (rope_apply ops rp q pos) (\<lambda>q.
     rbind (rope_apply ops rp k pos) (\<lambda>k.
     case kv_append layer k v cache of (r, cache') \<Rightarrow>
     rbind r (\<lambda>(k, v).
     rbind (repeat_kv k (tpa_local_query_heads a div tpa_local_kv_heads a)) (\<lambda>k.
     rbind (repeat_kv v (tpa_local_query_heads a div tpa_local_kv_heads a)) (\<lambda>v.
     rbind (lift_tensor (op_to_dtype ops q F32)) (\<lambda>q.
     rbind (lift_tensor (op_to_dtype ops k F32)) (\<lambda>k.
     rbind (lift_tensor (op_to_dtype ops v F32)) (\<lambda>v.
     rbind (lift_tensor (op_t ops k)) (\<lambda>kt.
     rbind (lift_tensor (op_matmul ops q kt)) (\<lambda>qk.
     rbind (lift_tensor (op_div_sqrt ops qk (tpa_head_dim a))) (\<lambda>scores.
     rbind (if seqn > 1 then apply_causal_mask ops scores pos seqn else Inr scores) (\<lambda>scores.
     rbind (lift_tensor (op_softmax_last_dim ops scores)) (\<lambda>probabilities.
     rbind (lift_tensor (op_matmul ops probabilities v)) (\<lambda>x.
     rbind (lift_tensor (op_to_dtype ops x (t_dtype input))) (\<lambda>x.
     rbind (lift_tensor (op_transpose ops x 1 2)) (\<lambda>x.
     rbind (lift_tensor (reshape x [batch, seqn, tpa_local_query_heads a * tpa_head_dim a])) (\<lambda>local.
     Inr (local, cache'))))))))))))))))))))))"

definition tp_attention_forward ::
  "'v candle_ops \<Rightarrow> 'o tp_observer \<Rightarrow> 'v tp_attention \<Rightarrow> 'v tensor \<Rightarrow> usize \<Rightarrow> usize \<Rightarrow> 'v rotary_embedding
     \<Rightarrow> ('v, 'o) tp_state \<Rightarrow> ('v, ('v tensor \<times> ('v, 'o) tp_state) dresult) prog" where
  "tp_attention_forward ops ob a input pos layer rp s =
     pr_bind (Ret (tp_attention_local ops a input pos layer rp (ts_cache s))) (\<lambda>(local, cache).
     row_forward ops ob (tpa_o_proj a) local (s\<lparr>ts_cache := cache\<rparr>))"

section \<open>MLP and blocks\<close>

record 'v tp_mlp =
  tpm_gate_proj :: "'v tensor"
  tpm_up_proj :: "'v tensor"
  tpm_down_proj :: "'v row_parallel_linear"

definition tp_mlp_load ::
  "'v weight_source \<Rightarrow> string \<Rightarrow> model_config \<Rightarrow> parallel_context \<Rightarrow> all_reduce_algorithm \<Rightarrow> 'v tp_mlp dresult" where
  "tp_mlp_load source prefix cfg p alg =
     rbind (source (prefix @ ''.gate_proj.weight'') [intermediate_size cfg, hidden_size cfg] (Some 0) p) (\<lambda>gate.
     rbind (source (prefix @ ''.up_proj.weight'') [intermediate_size cfg, hidden_size cfg] (Some 0) p) (\<lambda>up.
     rbind (source (prefix @ ''.down_proj.weight'') [hidden_size cfg, intermediate_size cfg] (Some 1) p) (\<lambda>down.
     rbind (row_from_weight down alg) (\<lambda>row.
     Inr \<lparr>tpm_gate_proj = gate, tpm_up_proj = up, tpm_down_proj = row\<rparr>))))"

definition tp_mlp_local :: "'v candle_ops \<Rightarrow> 'v tp_mlp \<Rightarrow> 'v tensor \<Rightarrow> 'v tensor dresult" where
  "tp_mlp_local ops m input =
     rbind (lift_tensor (op_linear ops (tpm_gate_proj m) input)) (\<lambda>g.
     rbind (lift_tensor (op_silu ops g)) (\<lambda>gated.
     rbind (lift_tensor (op_linear ops (tpm_up_proj m) input)) (\<lambda>up.
     lift_tensor (op_mul ops gated up))))"

definition tp_mlp_forward ::
  "'v candle_ops \<Rightarrow> 'o tp_observer \<Rightarrow> 'v tp_mlp \<Rightarrow> 'v tensor \<Rightarrow> ('v, 'o) tp_state
     \<Rightarrow> ('v, ('v tensor \<times> ('v, 'o) tp_state) dresult) prog" where
  "tp_mlp_forward ops ob m input s =
     pr_bind (Ret (tp_mlp_local ops m input)) (\<lambda>local. row_forward ops ob (tpm_down_proj m) local s)"

record 'v tp_block =
  tpb_input_norm :: "f64 \<times> 'v tensor"
  tpb_attention :: "'v tp_attention"
  tpb_post_attention_norm :: "f64 \<times> 'v tensor"
  tpb_mlp :: "'v tp_mlp"

definition tp_block_load ::
  "'v weight_source \<Rightarrow> usize \<Rightarrow> model_config \<Rightarrow> parallel_context \<Rightarrow> all_reduce_algorithm \<Rightarrow> 'v tp_block dresult" where
  "tp_block_load source layer cfg p alg =
     (let prefix = ''model.layers.'' @ show_nat layer in
      rbind (source (prefix @ ''.input_layernorm.weight'') [hidden_size cfg] None p) (\<lambda>n1.
      rbind (source (prefix @ ''.post_attention_layernorm.weight'') [hidden_size cfg] None p) (\<lambda>n2.
      rbind (tp_attention_load source (prefix @ ''.self_attn'') cfg p alg) (\<lambda>a.
      rbind (tp_mlp_load source (prefix @ ''.mlp'') cfg p alg) (\<lambda>m.
      Inr \<lparr>tpb_input_norm = (rms_norm_eps cfg, n1), tpb_attention = a,
           tpb_post_attention_norm = (rms_norm_eps cfg, n2), tpb_mlp = m\<rparr>)))))"

definition tp_block_forward ::
  "'v candle_ops \<Rightarrow> 'o tp_observer \<Rightarrow> 'v tp_block \<Rightarrow> 'v tensor \<Rightarrow> usize \<Rightarrow> usize \<Rightarrow> 'v rotary_embedding
     \<Rightarrow> ('v, 'o) tp_state \<Rightarrow> ('v, ('v tensor \<times> ('v, 'o) tp_state) dresult) prog" where
  "tp_block_forward ops ob b input pos layer rp s =
     pr_bind (Ret (norm_forward ops (tpb_input_norm b) input)) (\<lambda>x.
     pr_bind (tp_attention_forward ops ob (tpb_attention b) x pos layer rp s) (\<lambda>(attention, s1).
     pr_bind (Ret (lift_tensor (tensor_add (op_add ops) input attention))) (\<lambda>hidden.
     pr_bind (Ret (norm_forward ops (tpb_post_attention_norm b) hidden)) (\<lambda>y.
     pr_bind (tp_mlp_forward ops ob (tpb_mlp b) y s1) (\<lambda>(m, s2).
     pr_bind (Ret (lift_tensor (tensor_add (op_add ops) hidden m))) (\<lambda>out.
     Ret (Inr (out, s2))))))))"

section \<open>The whole model\<close>

record 'v tp_llama =
  tpl_parallel :: parallel_context
  tpl_embeddings :: "'v vocab_parallel_embedding"
  tpl_blocks :: "'v tp_block list"
  tpl_final_norm :: "f64 \<times> 'v tensor"
  tpl_lm_head :: "'v vocab_parallel_lm_head"
  tpl_rope :: "'v rotary_embedding"

definition tp_load_from ::
  "'v candle_ops \<Rightarrow> 'v weight_source \<Rightarrow> model_config \<Rightarrow> parallel_context \<Rightarrow> usize \<Rightarrow> all_reduce_algorithm
     \<Rightarrow> 'v tp_llama dresult" where
  "tp_load_from ops source cfg p cap alg =
     rbind (plan_tensor_shard cfg p) (\<lambda>plan.
     rbind (source ''model.embed_tokens.weight'' [vocab_size cfg, hidden_size cfg] (Some 0) p) (\<lambda>embedding_weight.
     rbind (embedding_from_weight embedding_weight (tsp_vocabulary plan) (vocab_size cfg)) (\<lambda>e.
     rbind (collect_results (map (\<lambda>layer. tp_block_load source layer cfg p alg) [0..<num_hidden_layers cfg])) (\<lambda>bs.
     rbind (source ''model.norm.weight'' [hidden_size cfg] None p) (\<lambda>n.
     rbind (if tie_word_embeddings cfg then Inr embedding_weight
            else source ''lm_head.weight'' [vocab_size cfg, hidden_size cfg] (Some 0) p) (\<lambda>head_weight.
     rbind (head_from_weight head_weight (vocab_size cfg)) (\<lambda>h.
     rbind (rope_new ops cfg cap) (\<lambda>r.
     Inr \<lparr>tpl_parallel = p, tpl_embeddings = with_all_reduce alg e, tpl_blocks = bs,
          tpl_final_norm = (rms_norm_eps cfg, n), tpl_lm_head = h, tpl_rope = r\<rparr>))))))))"

definition tp_load ::
  "'v candle_ops \<Rightarrow> 'v var_builder \<Rightarrow> model_config \<Rightarrow> parallel_context \<Rightarrow> usize \<Rightarrow> all_reduce_algorithm
     \<Rightarrow> 'v tp_llama dresult" where
  "tp_load ops vb = tp_load_from ops (full_weights vb)"

definition tp_load_sharded ::
  "'v candle_ops \<Rightarrow> 'v checkpoint \<Rightarrow> model_config \<Rightarrow> parallel_context \<Rightarrow> usize \<Rightarrow> all_reduce_algorithm
     \<Rightarrow> 'v tp_llama dresult" where
  "tp_load_sharded ops ck = tp_load_from ops (mmap_sharded_weights ck)"

fun tp_forward_blocks ::
  "'v candle_ops \<Rightarrow> 'o tp_observer \<Rightarrow> 'v rotary_embedding \<Rightarrow> usize \<Rightarrow> usize \<Rightarrow> 'v tp_block list \<Rightarrow> 'v tensor
     \<Rightarrow> ('v, 'o) tp_state \<Rightarrow> ('v, ('v tensor \<times> ('v, 'o) tp_state) dresult) prog" where
  "tp_forward_blocks ops ob rp pos layer [] hidden s = Ret (Inr (hidden, s))"
| "tp_forward_blocks ops ob rp pos layer (b # bs) hidden s =
     pr_bind (tp_block_forward ops ob b hidden pos layer rp
                (s\<lparr>ts_observer := ob_layer_started ob layer (ts_observer s)\<rparr>)) (\<lambda>(hidden', s1).
     tp_forward_blocks ops ob rp pos (Suc layer) bs hidden'
       (s1\<lparr>ts_observer := ob_layer_completed ob layer (ts_observer s1)\<rparr>))"

definition tp_forward_checks ::
  "'v tp_llama \<Rightarrow> rank \<Rightarrow> u32 tensor \<Rightarrow> usize \<Rightarrow> 'v kv_cache \<Rightarrow> usize dresult" where
  "tp_forward_checks m rk token_ids pos cache =
     (if global_rank rk \<noteq> tp_rank (tpl_parallel m) \<or> world_size rk \<noteq> tp_size (tpl_parallel m)
      then Inl (InvalidConfig ''collective world and ParallelContext disagree'')
      else rbind (dims2 token_ids) (\<lambda>(batch, seqn).
        if batch \<noteq> 1 \<or> seqn = 0
        then Inl (InvalidConfig (''TP token input must have shape [1,S] with S>0, got '' @ show_shape (t_dims token_ids)))
        else if pos \<noteq> kv_len cache \<or> kv_layer_count cache \<noteq> length (tpl_blocks m)
        then Inl (InvalidConfig ''TP cache position or layer count mismatch'')
        else if pos + seqn > kv_capacity cache
        then Inl (CacheCapacityExceeded (pos + seqn) (kv_capacity cache))
        else Inr seqn))"

definition tp_forward_observed ::
  "'v candle_ops \<Rightarrow> 'v scalar_ops \<Rightarrow> 'o tp_observer \<Rightarrow> 'v tp_llama \<Rightarrow> u32 tensor \<Rightarrow> usize \<Rightarrow> ('v, 'o) tp_state
     \<Rightarrow> ('v, ('v tensor \<times> ('v, 'o) tp_state) dresult) prog" where
  "tp_forward_observed ops sc ob m token_ids pos s =
     pr_bind (Ret (tp_forward_checks m (nc_rank (ts_collectives s)) token_ids pos (ts_cache s))) (\<lambda>seqn.
     pr_bind (embedding_forward ops sc ob (tpl_embeddings m) token_ids s) (\<lambda>(hidden, s1).
     pr_bind (tp_forward_blocks ops ob (tpl_rope m) pos 0 (tpl_blocks m) hidden s1) (\<lambda>(hidden, s2).
     pr_bind (Ret (norm_forward ops (tpl_final_norm m) hidden)) (\<lambda>hidden.
     pr_bind (Ret (lift_tensor (index_mid hidden (seqn - 1)))) (\<lambda>last.
     pr_bind (column_forward ops ob (tpl_lm_head m) last s2) (\<lambda>(logits, s3).
     pr_bind (Ret (lift_tensor (op_to_dtype ops logits F32))) (\<lambda>logits.
     Ret (Inr (logits, s3)))))))))"

definition tp_forward ::
  "'v candle_ops \<Rightarrow> 'v scalar_ops \<Rightarrow> 'v tp_llama \<Rightarrow> u32 tensor \<Rightarrow> usize \<Rightarrow> ('v, 'o) tp_state
     \<Rightarrow> ('v, ('v tensor \<times> ('v, 'o) tp_state) dresult) prog" where
  "tp_forward ops sc = tp_forward_observed ops sc noop_observer"

end
