(* ===== verification/Partition.thy ===== *)
theory Partition
  imports MemoryPlan
begin

text \<open>
  The contiguous layer partition of a pipeline and the memory plan of one stage
  (\<open>crates/pipeline/src/partition.rs\<close>), with the error type of the pipeline crate
  (\<open>crates/pipeline/src/error.rs\<close>). The closure of \<open>balanced\<close> that carries \<open>next\<close> from rank to
  rank is the recursion of \<open>balanced_from\<close>.
\<close>

section \<open>Errors\<close>

datatype pipeline_error =
    InvalidTopology string
  | PipelineProtocol string
  | PipelinePlacementFailed usize u64 u64
  | PipelineRuntime dlir_error
  | PipelineCollectives collectives_error
  | PipelineTensor candle_error
  | PipelineJson string
  | PipelineTokenizer string

type_synonym 'a presult = "pipeline_error + 'a"

section \<open>Stage assignment\<close>

record stage_assignment =
  sa_rank :: usize
  sa_world_size :: usize
  layer_start :: usize
  layer_end :: usize
  owns_embeddings :: bool
  owns_lm_head :: bool
  duplicates_tied_embeddings :: bool

definition layer_count :: "stage_assignment \<Rightarrow> usize" where
  "layer_count a = layer_end a - layer_start a"

record pipeline_partition =
  total_layers :: usize
  stages :: "stage_assignment list"

fun balanced_from :: "bool \<Rightarrow> usize \<Rightarrow> usize \<Rightarrow> usize \<Rightarrow> usize \<Rightarrow> usize list \<Rightarrow> stage_assignment list" where
  "balanced_from tied world base remainder nxt [] = []"
| "balanced_from tied world base remainder nxt (r # rs) =
     (let count = base + (if r < remainder then 1 else 0); stop = nxt + count in
      \<lparr>sa_rank = r, sa_world_size = world, layer_start = nxt, layer_end = stop,
       owns_embeddings = (r = 0), owns_lm_head = (r + 1 = world),
       duplicates_tied_embeddings = (r + 1 = world \<and> tied)\<rparr>
      # balanced_from tied world base remainder stop rs)"

definition balanced :: "model_spec \<Rightarrow> usize \<Rightarrow> pipeline_partition presult" where
  "balanced s world =
     (if \<not> (2 \<le> world \<and> world \<le> 64)
      then Inl (InvalidTopology (''world size must be between 2 and 64, got '' @ show_nat world))
      else let layers = num_hidden_layers (config s) in
        if world > layers
        then Inl (InvalidTopology (''world size '' @ show_nat world @ '' exceeds '' @ show_nat layers
                                   @ '' transformer layers''))
        else Inr \<lparr>total_layers = layers,
                  stages = balanced_from (tie_word_embeddings (config s)) world (layers div world)
                             (layers mod world) 0 [0..<world]\<rparr>)"

definition partition_stage :: "pipeline_partition \<Rightarrow> usize \<Rightarrow> stage_assignment presult" where
  "partition_stage p r =
     (if r < length (stages p) then Inr (stages p ! r)
      else Inl (InvalidTopology (''partition has no rank '' @ show_nat r)))"

section \<open>Stage memory\<close>

record stage_memory_plan =
  smp_rank :: usize
  smp_layer_start :: usize
  smp_layer_end :: usize
  smp_block_parameters :: u64
  smp_embedding_parameters :: u64
  smp_final_norm_parameters :: u64
  smp_lm_head_parameters :: u64
  smp_materialized_parameters :: u64
  smp_weight_bytes :: u64
  smp_kv_cache_capacity_bytes :: u64
  smp_persistent_bytes :: u64
  smp_budget_bytes :: u64
  smp_placement :: placement_verdict
  smp_duplicates_tied_embeddings :: bool

definition stage_memory_plan_for_stage ::
  "model_spec \<Rightarrow> stage_assignment \<Rightarrow> plan_dtype \<Rightarrow> usize \<Rightarrow> u64 \<Rightarrow> stage_memory_plan presult" where
  "stage_memory_plan_for_stage s a dtype context_length budget_bytes =
     (if context_length = 0 \<or> context_length > max_position_embeddings (config s)
      then Inl (InvalidTopology (''context length '' @ show_nat context_length
             @ '' is outside model maximum '' @ show_nat (max_position_embeddings (config s))))
      else
        let cfg = config s; h = of_nat (hidden_size cfg) :: u64; i = of_nat (intermediate_size cfg) in
        rbind (map_err PipelineRuntime (head_dim cfg)) (\<lambda>d.
          let kv = of_nat (num_key_value_heads cfg * d);
              per_block = 2 * h * h + 2 * h * kv + 3 * h * i + 2 * h in
          rbind (ok_or (InvalidTopology ''stage parameter overflow'')
             (checked_mul per_block (of_nat (layer_count a)))) (\<lambda>block_parameters.
          let embedding = (if owns_embeddings a then of_nat (vocab_size cfg) * h else 0);
              final_norm = (if owns_lm_head a then 1 else 0) * h;
              lm_head = (if owns_lm_head a then of_nat (vocab_size cfg) * h else 0) in
          rbind (ok_or (InvalidTopology ''stage parameter overflow'')
             (Option.bind (checked_add block_parameters embedding) (\<lambda>v.
              Option.bind (checked_add v final_norm) (\<lambda>v. checked_add v lm_head)))) (\<lambda>materialized.
          rbind (ok_or (InvalidTopology ''stage weight overflow'')
             (checked_mul materialized (plan_dtype_bytes dtype))) (\<lambda>weight_bytes.
          rbind (ok_or (InvalidTopology ''stage KV byte overflow'')
             (Option.bind (checked_product 2 [of_nat (layer_count a), of_nat context_length,
                 of_nat (num_key_value_heads cfg)]) (\<lambda>v.
              Option.bind (case head_dim cfg of Inl _ \<Rightarrow> None | Inr d \<Rightarrow> Some d) (\<lambda>d.
                checked_product v [of_nat d, plan_dtype_bytes dtype])))) (\<lambda>kv_bytes.
          rbind (ok_or (InvalidTopology ''stage memory overflow'')
             (checked_add weight_bytes kv_bytes)) (\<lambda>persistent_bytes.
          Inr \<lparr>smp_rank = sa_rank a, smp_layer_start = layer_start a, smp_layer_end = layer_end a,
               smp_block_parameters = block_parameters, smp_embedding_parameters = embedding,
               smp_final_norm_parameters = final_norm, smp_lm_head_parameters = lm_head,
               smp_materialized_parameters = materialized, smp_weight_bytes = weight_bytes,
               smp_kv_cache_capacity_bytes = kv_bytes, smp_persistent_bytes = persistent_bytes,
               smp_budget_bytes = budget_bytes,
               smp_placement = (if persistent_bytes \<le> budget_bytes then FitsPersistentEstimate
                                else DoesNotFit),
               smp_duplicates_tied_embeddings = duplicates_tied_embeddings a\<rparr>)))))))"

section \<open>The partition covers every layer once\<close>

text \<open>The specification of a partition: its stages' layers, in rank order, are all layers.\<close>

definition stage_layers :: "stage_assignment \<Rightarrow> usize list" where
  "stage_layers a = [layer_start a..<layer_end a]"

lemma length_balanced_from [simp]: "length (balanced_from tied w b m n rs) = length rs"
  by (induction rs arbitrary: n) (simp_all add: Let_def)

lemma balanced_from_nth:
  assumes "i < k"
  shows "balanced_from tied w b m (r * b + min r m) [r..<r + k] ! i =
     \<lparr>sa_rank = r + i, sa_world_size = w,
      layer_start = (r + i) * b + min (r + i) m, layer_end = (r + i + 1) * b + min (r + i + 1) m,
      owns_embeddings = (r + i = 0), owns_lm_head = (r + i + 1 = w),
      duplicates_tied_embeddings = (r + i + 1 = w \<and> tied)\<rparr>"
  using assms
proof (induction k arbitrary: r i)
  case 0
  then show ?case by simp
next
  case (Suc k)
  have upt: "[r..<r + Suc k] = r # [Suc r..<Suc r + k]" by (simp add: upt_conv_Cons del: upt_Suc)
  have stop: "r * b + min r m + (b + (if r < m then 1 else 0)) = Suc r * b + min (Suc r) m" by simp
  show ?case
  proof (cases i)
    case 0
    then show ?thesis unfolding upt by (simp add: Let_def)
  next
    case (Suc j)
    then have j: "j < k" using Suc.prems by simp
    show ?thesis
      unfolding upt Suc balanced_from.simps Let_def stop nth_Cons_Suc Suc.IH [OF j, of "Suc r"]
      by simp
  qed
qed

lemma concat_upt:
  assumes "\<And>i. i < k \<Longrightarrow> f i \<le> f (Suc i)" "f 0 = (0 :: nat)"
  shows "concat (map (\<lambda>i. [f i..<f (Suc i)]) [0..<k]) = [0..<f k]"
  using assms
proof (induction k)
  case 0
  then show ?case by simp
next
  case (Suc k)
  have "0 \<le> f k" "f k \<le> f (Suc k)" using Suc.prems by auto
  then have "[0..<f (Suc k)] = [0..<f k] @ [f k..<f (Suc k)]"
    by (metis le_add_diff_inverse upt_add_eq_append)
  with Suc show ?case by simp
qed

lemma balanced_Inr:
  "balanced s w = Inr p \<longleftrightarrow>
     2 \<le> w \<and> w \<le> 64 \<and> w \<le> num_hidden_layers (config s) \<and>
     p = \<lparr>total_layers = num_hidden_layers (config s),
          stages = balanced_from (tie_word_embeddings (config s)) w (num_hidden_layers (config s) div w)
                     (num_hidden_layers (config s) mod w) 0 [0..<w]\<rparr>"
  by (auto simp: balanced_def Let_def)

lemma balanced_stage:
  assumes "balanced s w = Inr p" "i < w"
  shows "stages p ! i =
    (let b = num_hidden_layers (config s) div w; m = num_hidden_layers (config s) mod w in
     \<lparr>sa_rank = i, sa_world_size = w,
      layer_start = i * b + min i m, layer_end = (i + 1) * b + min (i + 1) m,
      owns_embeddings = (i = 0), owns_lm_head = (i + 1 = w),
      duplicates_tied_embeddings = (i + 1 = w \<and> tie_word_embeddings (config s))\<rparr>)"
  using assms balanced_from_nth [OF assms(2), of _ w _ _ 0] by (auto simp: balanced_Inr Let_def)

lemma balanced_stage_sel:
  assumes "balanced s w = Inr p" "i < w"
  shows "sa_rank (stages p ! i) = i" "sa_world_size (stages p ! i) = w"
    "owns_embeddings (stages p ! i) \<longleftrightarrow> i = 0" "owns_lm_head (stages p ! i) \<longleftrightarrow> i + 1 = w"
  using balanced_stage [OF assms] by (simp_all add: Let_def)

lemma balanced_layer_count:
  assumes "balanced s w = Inr p" "i < w"
  shows "layer_count (stages p ! i) =
     num_hidden_layers (config s) div w + (if i < num_hidden_layers (config s) mod w then 1 else 0)"
  using balanced_stage [OF assms] by (auto simp: layer_count_def Let_def min_def)

lemma balanced_layers:
  assumes "balanced s w = Inr p"
  shows "concat (map stage_layers (stages p)) = [0..<num_hidden_layers (config s)]"
proof -
  let ?L = "num_hidden_layers (config s)"
  define f where "f i = i * (?L div w) + min i (?L mod w)" for i
  have w: "0 < w" and len: "length (stages p) = w" using assms by (auto simp: balanced_Inr)
  have "map stage_layers (stages p) = map (\<lambda>i. [f i..<f (Suc i)]) [0..<w]"
    by (rule nth_equalityI)
       (auto simp: len stage_layers_def balanced_stage [OF assms] f_def Let_def)
  moreover have "concat (map (\<lambda>i. [f i..<f (Suc i)]) [0..<w]) = [0..<f w]"
    by (rule concat_upt) (auto simp: f_def min_def)
  moreover have "f w = ?L"
    using mod_less_divisor [OF w, of ?L] by (simp add: f_def min.absorb2 less_imp_le)
  ultimately show ?thesis by simp
qed

text \<open>
  C18. A pipeline partition exists exactly for 2 to 64 stages and at most one stage per
  layer. Then stage r is that of rank r, the layer ranges of the stages in rank order are
  contiguous and cover every layer of the model exactly once, no stage is empty, stage
  sizes differ by at most one with the larger stages first, only the first stage holds
  the embedding and only the last one the output head.
\<close>

theorem balanced_partition_correct:
  fixes s w
  defines "L \<equiv> num_hidden_layers (config s)"
  shows "(\<exists>p. balanced s w = Inr p \<and> length (stages p) = w \<and>
           concat (map stage_layers (stages p)) = [0..<L] \<and>
           list_all (\<lambda>i. let a = stages p ! i in
             partition_stage p i = Inr a \<and> sa_rank a = i \<and> sa_world_size a = w \<and>
             0 < layer_count a \<and> layer_count a \<in> {L div w, L div w + 1} \<and>
             (Suc i < w \<longleftrightarrow> layer_end a < L) \<and>
             list_all (\<lambda>j. layer_count (stages p ! j) \<le> layer_count a) [i..<w] \<and>
             (owns_embeddings a \<longleftrightarrow> i = 0) \<and> (owns_lm_head a \<longleftrightarrow> layer_end a = L)) [0..<w])
         \<longleftrightarrow> 2 \<le> w \<and> w \<le> 64 \<and> w \<le> L"
proof
  assume w: "2 \<le> w \<and> w \<le> 64 \<and> w \<le> L"
  then obtain p where p: "balanced s w = Inr p" by (auto simp: balanced_Inr L_def)
  have len: "length (stages p) = w" using p by (auto simp: balanced_Inr)
  have pos: "0 < L div w" using w by (simp add: div_greater_zero_iff)
  have stop: "layer_end (stages p ! i) = L \<longleftrightarrow> i + 1 = w" "layer_end (stages p ! i) < L \<longleftrightarrow> Suc i < w"
    if i: "i < w" for i
  proof -
    have e: "layer_end (stages p ! i) = (i + 1) * (L div w) + min (i + 1) (L mod w)"
      using balanced_stage [OF p i] by (simp add: Let_def L_def)
    have L: "L = w * (L div w) + min w (L mod w)"
      using mod_less_divisor [of w L] w by (simp add: min.absorb2 less_imp_le)
    have less: "(i + 1) * (L div w) + min (i + 1) (L mod w) < w * (L div w) + min w (L mod w)" if "i + 1 < w"
    proof -
      have "(i + 1) * (L div w) < w * (L div w)" using that pos by (simp only: mult_less_mono1)
      moreover have "min (i + 1) (L mod w) \<le> min w (L mod w)" using that by (intro min.mono) simp_all
      ultimately show ?thesis by linarith
    qed
    show "layer_end (stages p ! i) = L \<longleftrightarrow> i + 1 = w" "layer_end (stages p ! i) < L \<longleftrightarrow> Suc i < w"
      using less i e L by (cases "i + 1 = w"; force)+
  qed
  show "\<exists>p. balanced s w = Inr p \<and> length (stages p) = w \<and>
           concat (map stage_layers (stages p)) = [0..<L] \<and>
           list_all (\<lambda>i. let a = stages p ! i in
             partition_stage p i = Inr a \<and> sa_rank a = i \<and> sa_world_size a = w \<and>
             0 < layer_count a \<and> layer_count a \<in> {L div w, L div w + 1} \<and>
             (Suc i < w \<longleftrightarrow> layer_end a < L) \<and>
             list_all (\<lambda>j. layer_count (stages p ! j) \<le> layer_count a) [i..<w] \<and>
             (owns_embeddings a \<longleftrightarrow> i = 0) \<and> (owns_lm_head a \<longleftrightarrow> layer_end a = L)) [0..<w]"
    using pos balanced_layers [OF p]
    by (intro exI [of _ p])
       (auto simp: p len list_all_iff Let_def partition_stage_def stop balanced_layer_count [OF p]
          balanced_stage_sel [OF p] simp flip: L_def)
qed (auto simp: balanced_Inr L_def)

section \<open>The stages hold every parameter\<close>

lemma checked_product_append:
  "checked_product v (xs @ ys) = Option.bind (checked_product v xs) (\<lambda>w. checked_product w ys)"
proof (induction xs arbitrary: v)
  case Nil
  then show ?case by simp
next
  case (Cons x xs)
  then show ?case by (cases "checked_mul v x") simp_all
qed

definition block_weights :: "model_config \<Rightarrow> nat" where
  "block_weights c =
     (let h = hidden_size c; i = intermediate_size c;
          kv = num_key_value_heads c * (h div num_attention_heads c) in
      2 * h * h + 2 * h * kv + 3 * h * i + 2 * h)"

text \<open>The weights a stage holds: its blocks, the embedding, the final norm and the output head.\<close>

definition stage_blocks :: "model_config \<Rightarrow> stage_assignment \<Rightarrow> nat" where
  "stage_blocks c a = layer_count a * block_weights c"

definition stage_embedding :: "model_config \<Rightarrow> stage_assignment \<Rightarrow> nat" where
  "stage_embedding c a = (if owns_embeddings a then vocab_size c * hidden_size c else 0)"

definition stage_norm :: "model_config \<Rightarrow> stage_assignment \<Rightarrow> nat" where
  "stage_norm c a = (if owns_lm_head a then 1 else 0) * hidden_size c"

definition stage_head :: "model_config \<Rightarrow> stage_assignment \<Rightarrow> nat" where
  "stage_head c a = (if owns_lm_head a then vocab_size c * hidden_size c else 0)"

definition stage_weights :: "model_config \<Rightarrow> stage_assignment \<Rightarrow> nat" where
  "stage_weights c a = stage_blocks c a + stage_embedding c a + stage_norm c a + stage_head c a"

lemmas stage_weight_defs = stage_blocks_def stage_embedding_def stage_norm_def stage_head_def

lemma spec_weight_bounds:
  "block_weights (config (spec m)) \<le> 44044288" "vocab_size (config (spec m)) \<le> 49152"
  "hidden_size (config (spec m)) \<le> 2048" "hidden_size (config (spec m)) div num_attention_heads (config (spec m)) = 64"
  by (cases m; simp add: spec_simps block_weights_def)+

lemma checked_of_nat:
  fixes a b :: nat
  shows "a * b \<le> 2 ^ 40 \<Longrightarrow> a \<le> 2 ^ 40 \<Longrightarrow> b \<le> 2 ^ 40 \<Longrightarrow>
           checked_mul (of_nat a :: u64) (of_nat b) = Some (of_nat (a * b))"
    and "a + b \<le> 2 ^ 40 \<Longrightarrow> checked_add (of_nat a :: u64) (of_nat b) = Some (of_nat (a + b))"
  by (simp_all add: checked_mul_def checked_add_def)

lemma stage_words:
  fixes m a
  defines "c \<equiv> config (spec m)"
  defines "h \<equiv> of_nat (hidden_size c) :: u64"
  shows "2 * h * h + 2 * h * of_nat (num_key_value_heads c * 64)
        + 3 * h * of_nat (intermediate_size c) + 2 * h = of_nat (block_weights c)"
    "(if owns_embeddings a then of_nat (vocab_size c) * h else 0) = of_nat (stage_embedding c a)"
    "(if owns_lm_head a then 1 else 0) * h = of_nat (stage_norm c a)"
    "(if owns_lm_head a then of_nat (vocab_size c) * h else 0) = of_nat (stage_head c a)"
  using spec_weight_bounds(4) [of m]
  by (simp_all add: block_weights_def Let_def stage_weight_defs h_def flip: c_def)

lemma stage_weights_fit:
  fixes m a
  defines "c \<equiv> config (spec m)"
  assumes "layer_count a \<le> 30"
  shows "checked_mul (of_nat (block_weights c) :: u64) (of_nat (layer_count a)) = Some (of_nat (stage_blocks c a))"
    "checked_add (of_nat (stage_blocks c a) :: u64) (of_nat (stage_embedding c a)) =
       Some (of_nat (stage_blocks c a + stage_embedding c a))"
    "checked_add (of_nat (stage_blocks c a + stage_embedding c a) :: u64) (of_nat (stage_norm c a)) =
       Some (of_nat (stage_blocks c a + stage_embedding c a + stage_norm c a))"
    "checked_add (of_nat (stage_blocks c a + stage_embedding c a + stage_norm c a) :: u64) (of_nat (stage_head c a)) =
       Some (of_nat (stage_weights c a))"
    "stage_weights c a \<le> 2 ^ 32"
proof -
  note b = spec_weight_bounds [of m, folded c_def]
  have "stage_blocks c a \<le> 30 * 44044288" unfolding stage_blocks_def using assms b by (intro mult_le_mono) auto
  moreover have "vocab_size c * hidden_size c \<le> 49152 * 2048" using b by (intro mult_le_mono) auto
  ultimately have bound: "stage_blocks c a \<le> 2 ^ 31" "stage_embedding c a \<le> 2 ^ 27"
    "stage_head c a \<le> 2 ^ 27" "stage_norm c a \<le> 2048"
    using b by (auto simp: stage_weight_defs)
  then show "checked_mul (of_nat (block_weights c) :: u64) (of_nat (layer_count a)) = Some (of_nat (stage_blocks c a))"
    using checked_of_nat(1) [of "block_weights c" "layer_count a"] b assms
    by (simp add: stage_blocks_def mult.commute)
  show "checked_add (of_nat (stage_blocks c a) :: u64) (of_nat (stage_embedding c a)) =
       Some (of_nat (stage_blocks c a + stage_embedding c a))"
    "checked_add (of_nat (stage_blocks c a + stage_embedding c a) :: u64) (of_nat (stage_norm c a)) =
       Some (of_nat (stage_blocks c a + stage_embedding c a + stage_norm c a))"
    "checked_add (of_nat (stage_blocks c a + stage_embedding c a + stage_norm c a) :: u64) (of_nat (stage_head c a)) =
       Some (of_nat (stage_weights c a))"
    unfolding stage_weights_def by (rule checked_of_nat(2); use bound in simp)+
  show "stage_weights c a \<le> 2 ^ 32" using bound by (simp add: stage_weights_def)
qed

lemma stage_memory_plan_registered:
  fixes m a dtype budget
  defines "c \<equiv> config (spec m)" and "n \<equiv> unat (plan_dtype_bytes dtype)"
  assumes "1 \<le> ctx" "ctx \<le> max_position_embeddings c"
    and "0 < layer_count a" "layer_count a \<le> 30"
  shows "\<exists>p. stage_memory_plan_for_stage (spec m) a dtype ctx budget = Inr p \<and>
     unat (smp_materialized_parameters p) = stage_weights c a \<and>
     unat (smp_weight_bytes p) = stage_weights c a * n \<and>
     unat (smp_kv_cache_capacity_bytes p) = 2 * layer_count a * ctx * (num_key_value_heads c * 64) * n \<and>
     unat (smp_persistent_bytes p) = unat (smp_weight_bytes p) + unat (smp_kv_cache_capacity_bytes p) \<and>
     (smp_placement p = FitsPersistentEstimate \<longleftrightarrow> unat (smp_persistent_bytes p) \<le> unat budget)"
proof -
  note words = stage_words(1) [of m, folded c_def]
    stage_words(2-4) [where m = m and a = a, folded c_def]
  note fit = stage_weights_fit [OF assms(6), of m, folded c_def]
  define M where "M = stage_weights c a"
  have "n \<le> 4" by (simp add: n_def)
  then have Mn: "M \<le> 2 ^ 32" "M * n \<le> 2 ^ 34" using fit(5) mult_le_mono [of M "2 ^ 32" n 4] by (simp_all add: M_def)
  have wt: "checked_mul (of_nat M :: u64) (plan_dtype_bytes dtype) = Some (of_nat (M * n))"
    using checked_of_nat(1) [of M n] Mn \<open>n \<le> 4\<close> by (simp add: n_def del: unat_plan_dtype_bytes)
  obtain kv where kv: "checked_product 2 [of_nat (layer_count a), of_nat ctx,
        of_nat (num_key_value_heads c), of_nat 64, plan_dtype_bytes dtype] = Some kv"
      "unat kv = 2 * layer_count a * ctx * (num_key_value_heads c * 64) * n" "unat kv \<le> 2 ^ 34"
    using kv_product [of "layer_count a" ctx "num_key_value_heads c" dtype] assms spec_bounds [of m]
    by (auto simp: c_def n_def)
  have kvs: "Option.bind (checked_product 2 [of_nat (layer_count a), of_nat ctx,
        of_nat (num_key_value_heads c)]) (\<lambda>v. checked_product v [of_nat 64, plan_dtype_bytes dtype]) = Some kv"
    using kv(1) checked_product_append [of 2 "[of_nat (layer_count a), of_nat ctx,
        of_nat (num_key_value_heads c)]" "[of_nat 64, plan_dtype_bytes dtype]"] by simp
  have w: "unat (of_nat (M * n) :: u64) = M * n" using Mn by (simp del: of_nat_mult)
  then have sum: "checked_add (of_nat (M * n)) kv = Some (of_nat (M * n) + kv)"
    "unat (of_nat (M * n) + kv) = M * n + unat kv"
    using checked_add_fits [of "of_nat (M * n)" kv] Mn kv(3) by (simp_all del: of_nat_mult)
  have "stage_memory_plan_for_stage (spec m) a dtype ctx budget = Inr
     \<lparr>smp_rank = sa_rank a, smp_layer_start = layer_start a, smp_layer_end = layer_end a,
      smp_block_parameters = of_nat (stage_blocks c a), smp_embedding_parameters = of_nat (stage_embedding c a),
      smp_final_norm_parameters = of_nat (stage_norm c a), smp_lm_head_parameters = of_nat (stage_head c a),
      smp_materialized_parameters = of_nat M, smp_weight_bytes = of_nat (M * n),
      smp_kv_cache_capacity_bytes = kv, smp_persistent_bytes = of_nat (M * n) + kv,
      smp_budget_bytes = budget,
      smp_placement = (if of_nat (M * n) + kv \<le> budget then FitsPersistentEstimate else DoesNotFit),
      smp_duplicates_tied_embeddings = duplicates_tied_embeddings a\<rparr>"
    using assms(3,4)
    unfolding stage_memory_plan_for_stage_def Let_def spec_head_dim map_err.simps rbind.simps
      words [unfolded c_def] fit(1)
    by (simp add: words [unfolded c_def] fit(1-4) [unfolded c_def] wt [unfolded M_def c_def]
         kvs [unfolded c_def] sum(1) [unfolded M_def c_def] M_def c_def
         del: of_nat_add of_nat_mult of_nat_numeral checked_product.simps)
  then show ?thesis
    using w sum(2) kv(2) Mn by (simp add: M_def word_le_nat_alt del: of_nat_mult)
qed

lemma sum_layer_counts:
  assumes "balanced s w = Inr p"
  shows "sum_list (map layer_count (stages p)) = num_hidden_layers (config s)"
proof -
  have "sum_list (map layer_count (stages p)) = length (concat (map stage_layers (stages p)))"
    by (simp add: length_concat stage_layers_def layer_count_def [abs_def] comp_def)
  then show ?thesis by (simp add: balanced_layers [OF assms])
qed

lemma sum_stage_weights:
  assumes "balanced s w = Inr p"
  shows "sum_list (map (stage_weights (config s)) (stages p)) =
     num_hidden_layers (config s) * block_weights (config s) + hidden_size (config s)
     + 2 * (vocab_size (config s) * hidden_size (config s))"
proof -
  let ?c = "config s"
  have w: "2 \<le> w" and len: "length (stages p) = w" using assms by (auto simp: balanced_Inr)
  have first: "sum_list (map (\<lambda>i. if i = 0 then v else 0) [0..<w]) = v" for v :: nat
    using w by (simp add: interv_sum_list_conv_sum_set_nat)
  have lst: "sum_list (map (\<lambda>i. if i + 1 = w then v else 0) [0..<w]) = v" for v :: nat
  proof -
    have "map (\<lambda>i. if i + 1 = w then v else 0) [0..<w] = map (\<lambda>i. if i = w - 1 then v else 0) [0..<w]"
      using w by auto
    then show ?thesis using w by (simp add: interv_sum_list_conv_sum_set_nat del: map_eq_conv)
  qed
  have st: "map f (stages p) = map (\<lambda>i. f (stages p ! i)) [0..<w]" for f :: "stage_assignment \<Rightarrow> nat"
    by (rule nth_equalityI) (simp_all add: len)
  have ifs: "sum_list (map (stage_embedding ?c) (stages p)) = vocab_size ?c * hidden_size ?c"
    "sum_list (map (stage_norm ?c) (stages p)) = hidden_size ?c"
    "sum_list (map (stage_head ?c) (stages p)) = vocab_size ?c * hidden_size ?c"
  proof -
    have "map (stage_embedding ?c) (stages p) =
        map (\<lambda>i. if i = 0 then vocab_size ?c * hidden_size ?c else 0) [0..<w]"
      "map (stage_norm ?c) (stages p) = map (\<lambda>i. if i + 1 = w then hidden_size ?c else 0) [0..<w]"
      "map (stage_head ?c) (stages p) =
        map (\<lambda>i. if i + 1 = w then vocab_size ?c * hidden_size ?c else 0) [0..<w]"
      unfolding st by (auto simp: stage_weight_defs balanced_stage_sel [OF assms])
    then show "sum_list (map (stage_embedding ?c) (stages p)) = vocab_size ?c * hidden_size ?c"
      "sum_list (map (stage_norm ?c) (stages p)) = hidden_size ?c"
      "sum_list (map (stage_head ?c) (stages p)) = vocab_size ?c * hidden_size ?c"
      by (simp_all only: first lst)
  qed
  show ?thesis
    by (simp add: stage_weights_def [abs_def] sum_list_addf ifs stage_blocks_def [abs_def]
          sum_list_mult_const sum_layer_counts [OF assms])
qed

text \<open>
  C19. For a registered model and every partition of it, each stage gets a memory plan (no
  overflow) for every admissible context length; the stages together materialize every
  parameter of the model exactly once, except that the embedding of a model with tied
  weights is held twice, by the first and by the last stage; the cache of all stages
  together is the cache of the model on one rank; and a stage is placed exactly when its
  weights and cache fit its limit.
\<close>

theorem pipeline_memory_exact:
  fixes m w dtype ctx budget
  defines "c \<equiv> config (spec m)" and "n \<equiv> unat (plan_dtype_bytes dtype)"
  assumes "balanced (spec m) w = Inr part" "1 \<le> ctx" "ctx \<le> max_position_embeddings c"
  shows "\<exists>plans. map (\<lambda>a. stage_memory_plan_for_stage (spec m) a dtype ctx budget) (stages part) = map Inr plans \<and>
     sum_list (map (unat \<circ> smp_materialized_parameters) plans) =
       llama_parameters c + (if tie_word_embeddings c then vocab_size c * hidden_size c else 0) \<and>
     sum_list (map (unat \<circ> smp_kv_cache_capacity_bytes) plans) =
       2 * num_hidden_layers c * ctx * (num_key_value_heads c * 64) * n \<and>
     list_all (\<lambda>p. unat (smp_persistent_bytes p) = unat (smp_materialized_parameters p) * n
                      + unat (smp_kv_cache_capacity_bytes p) \<and>
        (smp_placement p = FitsPersistentEstimate \<longleftrightarrow> unat (smp_persistent_bytes p) \<le> unat budget)) plans"
proof -
  define plan where "plan a = projr (stage_memory_plan_for_stage (spec m) a dtype ctx budget)" for a
  have len: "length (stages part) = w" using assms(3) by (auto simp: balanced_Inr)
  have L: "num_hidden_layers c \<le> 30" using spec_bounds [of m] by (simp add: c_def)
  have count: "0 < layer_count a \<and> layer_count a \<le> 30" if a: "a \<in> set (stages part)" for a
  proof -
    obtain i where i: "i < w" "a = stages part ! i" using a len by (auto simp: in_set_conv_nth)
    have w: "2 \<le> w" "w \<le> num_hidden_layers c" using assms(3) by (auto simp: balanced_Inr c_def)
    have "num_hidden_layers c div w + 1 \<le> num_hidden_layers c"
      using w div_less_dividend [of w "num_hidden_layers c"] by linarith
    then show ?thesis
      using balanced_layer_count [OF assms(3) i(1)] i(2) w L by (simp add: c_def div_greater_zero_iff)
  qed
  have plan: "stage_memory_plan_for_stage (spec m) a dtype ctx budget = Inr (plan a) \<and>
     unat (smp_materialized_parameters (plan a)) = stage_weights c a \<and>
     unat (smp_weight_bytes (plan a)) = stage_weights c a * n \<and>
     unat (smp_kv_cache_capacity_bytes (plan a)) = 2 * layer_count a * ctx * (num_key_value_heads c * 64) * n \<and>
     unat (smp_persistent_bytes (plan a)) =
       unat (smp_weight_bytes (plan a)) + unat (smp_kv_cache_capacity_bytes (plan a)) \<and>
     (smp_placement (plan a) = FitsPersistentEstimate \<longleftrightarrow> unat (smp_persistent_bytes (plan a)) \<le> unat budget)"
    if "a \<in> set (stages part)" for a
    using stage_memory_plan_registered [of ctx m a dtype budget] count [OF that] assms(4,5)
    unfolding plan_def c_def n_def by force
  let ?plans = "map plan (stages part)"
  have "sum_list (map (unat \<circ> smp_materialized_parameters) ?plans) =
      sum_list (map (stage_weights c) (stages part))"
    using plan by (simp add: comp_def cong: map_cong)
  also have "\<dots> = llama_parameters c + (if tie_word_embeddings c then vocab_size c * hidden_size c else 0)"
    unfolding c_def sum_stage_weights [OF assms(3)]
    by (simp add: llama_parameters_def block_weights_def Let_def algebra_simps)
  finally have params: "sum_list (map (unat \<circ> smp_materialized_parameters) ?plans) =
      llama_parameters c + (if tie_word_embeddings c then vocab_size c * hidden_size c else 0)" .
  have "sum_list (map (unat \<circ> smp_kv_cache_capacity_bytes) ?plans) =
      sum_list (map (\<lambda>a. layer_count a * (2 * ctx * (num_key_value_heads c * 64) * n)) (stages part))"
    using plan by (simp add: comp_def mult_ac cong: map_cong)
  then have kv: "sum_list (map (unat \<circ> smp_kv_cache_capacity_bytes) ?plans) =
      2 * num_hidden_layers c * ctx * (num_key_value_heads c * 64) * n"
    by (simp add: sum_list_mult_const sum_layer_counts [OF assms(3)] c_def)
  show ?thesis
    using plan params kv by (intro exI [of _ ?plans]) (simp add: list_all_iff)
qed

theorem pipeline_memory_exact_witness:
  "\<exists>part plans. balanced (spec SmolLm2_135MInstruct) 4 = Inr part \<and>
     map (\<lambda>a. stage_memory_plan_for_stage (spec SmolLm2_135MInstruct) a PlanF32 64 1000000000) (stages part)
       = map Inr plans \<and>
     sum_list (map (unat \<circ> smp_materialized_parameters) plans) = 134515008 + 49152 * 576 \<and>
     sum_list (map (unat \<circ> smp_kv_cache_capacity_bytes) plans) = 2 * 30 * 64 * 192 * 4"
proof -
  obtain part where part: "balanced (spec SmolLm2_135MInstruct) 4 = Inr part"
    by (simp add: balanced_def spec_simps Let_def)
  have c: "max_position_embeddings (config (spec SmolLm2_135MInstruct)) = 8192"
    "llama_parameters (config (spec SmolLm2_135MInstruct)) = 134515008"
    "tie_word_embeddings (config (spec SmolLm2_135MInstruct))"
    "vocab_size (config (spec SmolLm2_135MInstruct)) = 49152"
    "hidden_size (config (spec SmolLm2_135MInstruct)) = 576"
    "num_hidden_layers (config (spec SmolLm2_135MInstruct)) = 30"
    "num_key_value_heads (config (spec SmolLm2_135MInstruct)) = 3"
    by (simp_all add: spec_simps llama_parameters_def)
  show ?thesis using pipeline_memory_exact [OF part, of 64 PlanF32 1000000000] part by (auto simp: c)
qed

end
