(* ===== verification/Events.thy ===== *)
theory Events
  imports Registry
begin

text \<open>
  The event vocabulary of a run (\<open>crates/runtime/src/report.rs\<close>) and the recorders that number
  the events of one rank (\<open>EventRecorder\<close> of \<open>crates/runtime/src/generation.rs\<close> and of
  \<open>crates/pipeline/src/event.rs\<close>). Clock readings (\<open>elapsed_ns\<close>, \<open>duration_ns\<close>) are left out: they
  are measured and no code path depends on them. An observer or sink only receives each event;
  what it has received is the list of events recorded so far.
\<close>

section \<open>Vocabulary\<close>

datatype stop_reason = Eos | MaxNewTokens | ContextLimit

datatype execution_phase = Prefill | Decode

datatype tensor_purpose = Activation | TensorParallelShard

datatype control_purpose = TokenFeedback | DecisionPurpose | TensorDecision

datatype event_collective = EvBarrier | EvBroadcast | EvReduce | EvAllGather | EvAllReduce
  | EvReduceScatter | EvAllToAll

datatype run_event_kind =
    ArtifactResolutionStarted
  | ArtifactResolutionFinished
  | ModelLoadStarted
  | ModelLoadFinished
  | LayerStarted usize execution_phase usize
  | LayerCompleted usize execution_phase usize
  | CollectiveStarted event_collective u64
  | CollectiveCompleted event_collective u64
  | TensorCollectiveStarted string string u64 "usize list"
  | TensorCollectiveCompleted string u64 u64 u64
  | TensorSent usize tensor_purpose execution_phase usize "usize list" u64
  | TensorReceived usize tensor_purpose execution_phase usize "usize list" u64
  | ControlSent usize control_purpose execution_phase usize u64
  | ControlReceived usize control_purpose execution_phase usize u64
  | MemorySample "u64 option" "u64 option"
  | PrefillStarted usize
  | PrefillFinished
  | DecodeStepStarted usize
  | DecodeStepFinished usize
  | TokenGenerated u32 string
  | GenerationFinished stop_reason

record run_event =
  ev_sequence :: u64
  ev_rank :: usize
  ev_event :: run_event_kind

record topology_report =
  tr_world_size :: usize
  tr_rank :: usize
  tr_tensor_parallel :: usize
  tr_pipeline_parallel :: usize
  tr_expert_parallel :: usize

definition topology_default :: topology_report where
  "topology_default =
     \<lparr>tr_world_size = 1, tr_rank = 0, tr_tensor_parallel = 1, tr_pipeline_parallel = 1, tr_expert_parallel = 1\<rparr>"

section \<open>Recorders\<close>

record event_recorder =
  er_rank :: usize
  er_sequence :: u64
  er_events :: "run_event list"

definition recorder_new :: "usize \<Rightarrow> event_recorder" where
  "recorder_new r = \<lparr>er_rank = r, er_sequence = 0, er_events = []\<rparr>"

definition emit :: "run_event_kind \<Rightarrow> event_recorder \<Rightarrow> event_recorder" where
  "emit kind rec =
     rec\<lparr>er_sequence := er_sequence rec + 1,
         er_events := er_events rec @ [\<lparr>ev_sequence = er_sequence rec, ev_rank = er_rank rec, ev_event = kind\<rparr>]\<rparr>"

text \<open>Each event carries its position in the stream and the rank of its recorder.\<close>

definition recorder_ok :: "event_recorder \<Rightarrow> bool" where
  "recorder_ok rec \<longleftrightarrow>
     er_sequence rec = of_nat (length (er_events rec)) \<and>
     (\<forall>i < length (er_events rec). ev_sequence (er_events rec ! i) = of_nat i \<and> ev_rank (er_events rec ! i) = er_rank rec)"

lemma recorder_new_ok: "recorder_ok (recorder_new r)"
  by (simp add: recorder_ok_def recorder_new_def)

lemma emit_ok: "recorder_ok rec \<Longrightarrow> recorder_ok (emit k rec)"
  by (auto simp: recorder_ok_def emit_def nth_append less_Suc_eq)

lemma emit_sel [simp]:
  "er_rank (emit k rec) = er_rank rec" "map ev_event (er_events (emit k rec)) = map ev_event (er_events rec) @ [k]"
  by (simp_all add: emit_def)

end
