(* ===== verification/PipelineProtocol.thy ===== *)
theory PipelineProtocol
  imports Partition CollectiveTags Events
begin

text \<open>
  Control messages and message tags of the pipeline (\<open>crates/pipeline/src/protocol.rs\<close>). The
  JSON encoding of a control message is serde's and stays a parameter of the programs that
  use it. The tag of a step lies in a range of its own for activations, tokens and
  decisions; the ranges are disjoint from each other and from the tags of the collectives.
\<close>

section \<open>Messages\<close>

datatype pipeline_decision = Continue | Stop stop_reason

datatype pipeline_control = Token usize u32 | Decision usize pipeline_decision

section \<open>Tags\<close>

definition ACTIVATION_BASE :: u64 where "ACTIVATION_BASE = 0x1000000000000000"
definition TOKEN_BASE :: u64 where "TOKEN_BASE = 0x2000000000000000"
definition DECISION_BASE :: u64 where "DECISION_BASE = 0x3000000000000000"

definition step_tag :: "u64 \<Rightarrow> usize \<Rightarrow> message_tag presult" where
  "step_tag base step =
     rbind (ok_or (PipelineProtocol ''pipeline step does not fit u64'') (u64_try_from step)) (\<lambda>s.
       ok_or (PipelineProtocol ''pipeline message-tag overflow'')
         (Option.bind (checked_add base s) (\<lambda>tag. if tag < base + push_bit 60 1 then Some tag else None)))"

definition activation_tag :: "usize \<Rightarrow> message_tag presult" where
  "activation_tag step = step_tag ACTIVATION_BASE step"

definition token_tag :: "usize \<Rightarrow> message_tag presult" where
  "token_tag step = step_tag TOKEN_BASE step"

definition decision_tag :: "usize \<Rightarrow> message_tag presult" where
  "decision_tag step = step_tag DECISION_BASE step"

lemma step_tag_Inr:
  assumes "base \<in> {ACTIVATION_BASE, TOKEN_BASE, DECISION_BASE}"
  shows "step_tag base step = Inr t \<longleftrightarrow> step < 2 ^ 60 \<and> unat t = unat base + step"
proof -
  have lim: "unat (base + push_bit 60 1) = unat base + 2 ^ 60"
    using assms by (auto simp: ACTIVATION_BASE_def TOKEN_BASE_def DECISION_BASE_def)
  show ?thesis
  proof (cases "step < 2 ^ 64")
    case True
    have "step_tag base step = Inr t \<longleftrightarrow>
        checked_add base (of_nat step) = Some t \<and> unat t < unat base + 2 ^ 60"
      using True lim
      by (auto simp: step_tag_def u64_try_from_def word_less_nat_alt bind_eq_Some_conv split: if_splits)
    with True show ?thesis unfolding checked_add_Some by auto
  next
    case False
    then show ?thesis by (simp add: step_tag_def u64_try_from_def)
  qed
qed

lemma step_tag_ok:
  "base \<in> {ACTIVATION_BASE, TOKEN_BASE, DECISION_BASE} \<Longrightarrow> step < 2 ^ 60 \<Longrightarrow> \<exists>t. step_tag base step = Inr t"
  by (auto simp: step_tag_def u64_try_from_def checked_add_def word_less_nat_alt unat_word_ariths
      ACTIVATION_BASE_def TOKEN_BASE_def DECISION_BASE_def)

text \<open>
  Pipeline tags exist exactly for steps below 2^60, and two messages of a run share a tag
  only when they are of the same role (activation, token, decision) and the same step; no
  pipeline message has the tag of a collective.
\<close>

theorem pipeline_tags_separate:
  assumes "step_tag b1 s1 = Inr t" "b1 \<in> {ACTIVATION_BASE, TOKEN_BASE, DECISION_BASE}"
  shows "s1 < 2 ^ 60 \<and> (\<forall>s < 2 ^ 60. \<exists>t'. step_tag b1 s = Inr t') \<and>
    (b2 \<in> {ACTIVATION_BASE, TOKEN_BASE, DECISION_BASE} \<and> step_tag b2 s2 = Inr t \<longrightarrow> b1 = b2 \<and> s1 = s2) \<and>
    collective_tag n kind phase step \<noteq> Inr t"
proof (intro conjI allI impI notI)
  show lim: "s1 < 2 ^ 60" using assms by (simp add: step_tag_Inr)
  show "\<exists>t'. step_tag b1 s = Inr t'" if "s < 2 ^ 60" for s using step_tag_ok [OF assms(2) that] .
  have t: "unat t = unat b1 + s1" using assms by (simp add: step_tag_Inr)
  { assume b2: "b2 \<in> {ACTIVATION_BASE, TOKEN_BASE, DECISION_BASE} \<and> step_tag b2 s2 = Inr t"
    then have t2: "s2 < 2 ^ 60" "unat t = unat b2 + s2" by (auto simp: step_tag_Inr)
    show "b1 = b2" using t t2 lim assms(2) b2
      by (auto simp: ACTIVATION_BASE_def TOKEN_BASE_def DECISION_BASE_def)
    then show "s1 = s2" using t t2 by simp }
  assume "collective_tag n kind phase step = Inr t"
  then have "4611686018427387904 \<le> unat t" by (simp add: collective_tag_value(4) tag_value_def)
  then show False
    using t lim assms(2) by (auto simp: ACTIVATION_BASE_def TOKEN_BASE_def DECISION_BASE_def)
qed

theorem pipeline_tags_separate_witness:
  "\<exists>t. token_tag 5 = Inr t \<and> activation_tag 5 \<noteq> Inr t \<and> decision_tag 4 \<noteq> Inr t \<and>
       collective_tag 5 AllReduce 1 3 \<noteq> Inr t"
proof -
  obtain t where t: "step_tag TOKEN_BASE 5 = Inr t" using step_tag_ok [of TOKEN_BASE 5] by auto
  have "ACTIVATION_BASE \<noteq> TOKEN_BASE" "DECISION_BASE \<noteq> TOKEN_BASE"
    by (simp_all add: ACTIVATION_BASE_def TOKEN_BASE_def DECISION_BASE_def)
  with pipeline_tags_separate [OF t, of ACTIVATION_BASE 5 5 AllReduce 1 3]
    pipeline_tags_separate [OF t, of DECISION_BASE 4 5 AllReduce 1 3] t
  show ?thesis unfolding token_tag_def activation_tag_def decision_tag_def by auto
qed

end
