(* ===== verification/Generation.thy ===== *)
theory Generation
  imports Llama MemoryPlan Events
begin

text \<open>
  Single-rank generation (\<open>crates/runtime/src/generation.rs\<close>, \<open>crates/runtime/src/prompt.rs\<close>).
  Hub access, checkpoint validation and the tokenizer are outside the model: the fields of
  \<open>generation_env\<close> and \<open>tokenizer\<close> stand for them. Timings are left out. The decode loop is a
  recursive function whose termination is proved: every round that goes on adds a token and
  the loop stops at the token limit.
\<close>

section \<open>Outside the model\<close>

record 'd tokenizer =
  tok_encode :: "string \<Rightarrow> string + u32 list"
  tok_decode :: "u32 list \<Rightarrow> string + string"
  tok_stream :: 'd
  tok_step :: "'d \<Rightarrow> u32 \<Rightarrow> string + (string option \<times> 'd)"

record ('v, 'd) generation_env =
  ge_ops :: "'v candle_ops"
  ge_metadata :: "model_spec \<Rightarrow> (string + 'd tokenizer) dresult"
  ge_weights :: "model_spec \<Rightarrow> (candle_error + 'v var_builder) dresult"

section \<open>Prompt\<close>

fun replace_all :: "string \<Rightarrow> string \<Rightarrow> string \<Rightarrow> string" where
  "replace_all pat by [] = []"
| "replace_all pat by (c # cs) =
     (if pat \<noteq> [] \<and> take (length pat) (c # cs) = pat
      then by @ replace_all pat by (drop (length pat - 1) cs)
      else c # replace_all pat by cs)"

definition render_prompt :: "prompt_template \<Rightarrow> string \<Rightarrow> string dresult" where
  "render_prompt template prompt =
     (if trim prompt = [] then Inl EmptyPrompt
      else Inr (replace_all ''{prompt}'' prompt (template_source template)))"

section \<open>Preflight\<close>

record generation_request =
  gr_model :: supported_model_id
  gr_dtype :: plan_dtype
  gr_prompt :: string
  gr_max_new_tokens :: usize
  gr_device_memory_budget :: "memory_budget option"

definition generation_memory_preflight ::
  "model_spec \<Rightarrow> plan_dtype \<Rightarrow> usize \<Rightarrow> usize \<Rightarrow> memory_budget option \<Rightarrow> (usize \<times> rank_memory_plan) dresult" where
  "generation_memory_preflight s dtype prompt_tokens requested_new_tokens budget =
     (if prompt_tokens \<ge> max_position_embeddings (config s)
      then Inl (PromptTooLong prompt_tokens (max_position_embeddings (config s)))
      else
        let available = max_position_embeddings (config s) - prompt_tokens;
            effective = min requested_new_tokens available;
            cap = prompt_tokens + effective in
        rbind (rank_memory_plan_for_model s dtype cap budget) (\<lambda>memory. Inr (effective, memory)))"

definition token_limit_stop_reason :: "usize \<Rightarrow> usize \<Rightarrow> stop_reason" where
  "token_limit_stop_reason requested effective = (if requested > effective then ContextLimit else MaxNewTokens)"

fun plan_dtype_candle :: "plan_dtype \<Rightarrow> dtype" where
  "plan_dtype_candle PlanF16 = F16"
| "plan_dtype_candle PlanBf16 = BF16"
| "plan_dtype_candle PlanF32 = F32"

section \<open>The loop\<close>

record ('v, 'd) gen_state =
  gs_cache :: "'v kv_cache"
  gs_tokens :: "u32 list"
  gs_next :: u32
  gs_stream :: 'd
  gs_decode_forward_count :: usize
  gs_recorder :: event_recorder

definition greedy_token :: "'v candle_ops \<Rightarrow> 'v tensor \<Rightarrow> u32 dresult" where
  "greedy_token ops logits =
     rbind (lift_tensor (squeeze logits 0)) (\<lambda>t. lift_tensor (op_argmax ops t))"

text \<open>\<open>Tensor::new(tokens)?.unsqueeze(0)\<close>.\<close>

definition token_input :: "u32 list \<Rightarrow> u32 tensor" where
  "token_input ids = \<lparr>t_device = Cpu, t_dtype = U32, t_dims = [1, length ids], t_values = ids\<rparr>"

definition emit_token :: "string \<Rightarrow> ('v, 'd) gen_state \<Rightarrow> ('v, 'd) gen_state" where
  "emit_token text s =
     s\<lparr>gs_tokens := gs_tokens s @ [gs_next s], gs_recorder := emit (TokenGenerated (gs_next s) text) (gs_recorder s)\<rparr>"

text \<open>The next token of the decode stream, pushed and announced.\<close>

definition accept_token :: "'d tokenizer \<Rightarrow> ('v, 'd) gen_state \<Rightarrow> ('v, 'd) gen_state dresult" where
  "accept_token tok s =
     rbind (map_err Tokenizer (tok_step tok (gs_stream s) (gs_next s))) (\<lambda>(text, stream).
       Inr (emit_token (case text of None \<Rightarrow> [] | Some t \<Rightarrow> t) (s\<lparr>gs_stream := stream\<rparr>)))"

definition decode_forward ::
  "'v candle_ops \<Rightarrow> 'v llama \<Rightarrow> ('v, 'd) gen_state \<Rightarrow> ('v, 'd) gen_state dresult" where
  "decode_forward ops m s =
     (let step = gs_decode_forward_count s + 1;
          s1 = s\<lparr>gs_recorder := emit (DecodeStepStarted step) (gs_recorder s)\<rparr> in
      rbind (llama_forward ops m (token_input [gs_next s1]) (kv_len (gs_cache s1)) (gs_cache s1)) (\<lambda>(logits, cache).
      let s2 = s1\<lparr>gs_cache := cache, gs_decode_forward_count := step,
                  gs_recorder := emit (DecodeStepFinished step) (gs_recorder s1)\<rparr> in
      rbind (greedy_token ops logits) (\<lambda>tok. Inr (s2\<lparr>gs_next := tok\<rparr>))))"

lemma rbind_cong [fundef_cong]:
  "m = m' \<Longrightarrow> (\<And>x. m' = Inr x \<Longrightarrow> f x = f' x) \<Longrightarrow> rbind m f = rbind m' f'"
  by (cases m') auto

lemma decode_forward_tokens: "decode_forward ops m s = Inr s' \<Longrightarrow> gs_tokens s' = gs_tokens s"
  by (auto simp: decode_forward_def Let_def)

lemma accept_token_tokens: "accept_token tok s = Inr s' \<Longrightarrow> gs_tokens s' = gs_tokens s @ [gs_next s]"
  by (auto simp: accept_token_def emit_token_def)

function (sequential) decode_loop ::
  "'v candle_ops \<Rightarrow> 'v llama \<Rightarrow> 'd tokenizer \<Rightarrow> u32 \<Rightarrow> usize \<Rightarrow> usize \<Rightarrow> ('v, 'd) gen_state
     \<Rightarrow> (stop_reason \<times> ('v, 'd) gen_state) dresult" where
  "decode_loop ops m tok eos requested effective s =
     (if length (gs_tokens s) \<ge> effective then Inr (token_limit_stop_reason requested effective, s)
      else rbind (decode_forward ops m s) (\<lambda>s1.
        if gs_next s1 = eos then Inr (Eos, s1)
        else rbind (accept_token tok s1) (\<lambda>s2. decode_loop ops m tok eos requested effective s2)))"
  by pat_completeness auto

termination
  by (relation "measure (\<lambda>(_, _, _, _, _, effective, s). effective - length (gs_tokens s))")
     (auto dest!: decode_forward_tokens accept_token_tokens)

declare decode_loop.simps [simp del]

text \<open>Prefill, first token, then the loop.\<close>

definition generate_tokens ::
  "'v candle_ops \<Rightarrow> 'v llama \<Rightarrow> 'd tokenizer \<Rightarrow> u32 \<Rightarrow> u32 list \<Rightarrow> usize \<Rightarrow> usize \<Rightarrow> 'v kv_cache \<Rightarrow> event_recorder
     \<Rightarrow> (stop_reason \<times> ('v, 'd) gen_state) dresult" where
  "generate_tokens ops m tok eos prompt_tokens requested effective cache rec =
     (let rec1 = emit (PrefillStarted (length prompt_tokens)) rec in
      rbind (llama_forward ops m (token_input prompt_tokens) 0 cache) (\<lambda>(logits, cache1).
      let rec2 = emit PrefillFinished rec1 in
      rbind (greedy_token ops logits) (\<lambda>nxt.
      let s = \<lparr>gs_cache = cache1, gs_tokens = [], gs_next = nxt, gs_stream = tok_stream tok,
               gs_decode_forward_count = 0, gs_recorder = rec2\<rparr> in
      if nxt = eos then Inr (Eos, s)
      else rbind (accept_token tok s) (\<lambda>s1. decode_loop ops m tok eos requested effective s1))))"

section \<open>A whole request\<close>

record generation_report =
  rep_schema_version :: u32
  rep_model :: supported_model_id
  rep_repository :: string
  rep_revision :: string
  rep_device :: string
  rep_dtype :: plan_dtype
  rep_topology :: topology_report
  rep_memory :: rank_memory_plan
  rep_final_kv_cache_bytes :: u64
  rep_prompt_characters :: usize
  rep_prompt_tokens :: usize
  rep_requested_max_new_tokens :: usize
  rep_generated_tokens :: "u32 list"
  rep_completion :: string
  rep_stop_reason :: stop_reason
  rep_events :: "run_event list"

definition generate :: "('v, 'd) generation_env \<Rightarrow> generation_request \<Rightarrow> generation_report dresult" where
  "generate env req =
     (if gr_max_new_tokens req = 0 then Inl (InvalidConfig ''max_new_tokens must be at least one'')
      else if trim (gr_prompt req) = [] then Inl EmptyPrompt
      else let s = spec (gr_model req); ops = ge_ops env in
        rbind (validate_cpu_dtype s (gr_dtype req)) (\<lambda>_.
        rbind (head_dim (config s)) (\<lambda>_.
        let rec1 = emit ArtifactResolutionStarted (recorder_new 0) in
        rbind (ge_metadata env s) (\<lambda>metadata.
        let rec2 = emit ArtifactResolutionFinished rec1 in
        rbind (map_err Tokenizer metadata) (\<lambda>tok.
        rbind (render_prompt (ms_prompt_template s) (gr_prompt req)) (\<lambda>rendered.
        rbind (map_err Tokenizer (tok_encode tok rendered)) (\<lambda>prompt_tokens.
        if prompt_tokens = [] then Inl EmptyPrompt
        else rbind (generation_memory_preflight s (gr_dtype req) (length prompt_tokens)
                      (gr_max_new_tokens req) (gr_device_memory_budget req)) (\<lambda>(effective, memory).
          let cap = rmp_context_length memory in
          if rmp_placement memory = DoesNotFit
          then Inl (RuntimePlacementFailed (rmp_persistent_bytes memory) (mb_bytes (the (rmp_budget memory))))
          else
            let rec3 = emit ArtifactResolutionStarted rec2 in
            rbind (ge_weights env s) (\<lambda>weights.
            let rec4 = emit ModelLoadStarted (emit ArtifactResolutionFinished rec3) in
            rbind (lift_tensor weights) (\<lambda>vb.
            rbind (llama_load ops vb (config s) cap) (\<lambda>m.
            rbind (kv_new (op_zero ops) (config s) cap (plan_dtype_candle (gr_dtype req))) (\<lambda>cache.
            rbind (generate_tokens ops m tok (eos_token_id (config s)) prompt_tokens (gr_max_new_tokens req)
                     effective cache (emit ModelLoadFinished rec4)) (\<lambda>(stop, g).
            let rec5 = emit (GenerationFinished stop) (gs_recorder g) in
            rbind (if gs_tokens g = [] then Inr [] else map_err Tokenizer (tok_decode tok (gs_tokens g))) (\<lambda>completion.
            rbind (kv_used_bytes (gs_cache g) (config s) (plan_dtype_candle (gr_dtype req))) (\<lambda>used.
            Inr \<lparr>rep_schema_version = 1, rep_model = gr_model req, rep_repository = repository s,
                 rep_revision = revision s, rep_device = ''cpu'', rep_dtype = gr_dtype req,
                 rep_topology = topology_default, rep_memory = memory, rep_final_kv_cache_bytes = used,
                 rep_prompt_characters = length (gr_prompt req), rep_prompt_tokens = length prompt_tokens,
                 rep_requested_max_new_tokens = gr_max_new_tokens req,
                 rep_generated_tokens = gs_tokens g, rep_completion = completion, rep_stop_reason = stop,
                 rep_events = er_events rec5\<rparr>)))))))))))))))"

end
