(* ===== verification/Pipeline.thy ===== *)
theory Pipeline
  imports PipelineProtocol Generation Collectives
begin

text \<open>
  One pipeline rank (\<open>crates/pipeline/src/runner.rs\<close>) as a rank program of \<open>World\<close>, with its
  manifest and counters (\<open>crates/pipeline/src/report.rs\<close>). A communication error ends the
  program with \<open>Fail\<close>; every other error of the pipeline is returned. The loop of the source has
  no bound of its own (a rank other than 0 follows the decisions it receives), so the model
  takes fuel, one unit per round. Clock readings are left out, as in \<open>Events\<close>.

  Outside the model: the checkpoint file, the tokenizer and the JSON codec, as the fields of
  \<open>pipeline_env\<close>.
\<close>

section \<open>Manifest, counters, environment\<close>

record resource_snapshot =
  rsn_cpu_millis :: "u64 option"
  rsn_memory_current_bytes :: "u64 option"
  rsn_memory_limit_bytes :: "u64 option"
  rsn_cpuset_cpus :: "string option"
  rsn_cgroup_version :: "string option"

record pipeline_manifest =
  pm_schema_version :: u32
  pm_run_id :: string
  pm_request_id :: string
  pm_model :: supported_model_id
  pm_dtype :: plan_dtype
  pm_prompt_token_ids :: "u32 list"
  pm_prompt_characters :: usize
  pm_requested_max_new_tokens :: usize
  pm_effective_max_new_tokens :: usize
  pm_context_capacity :: usize
  pm_checkpoint_path :: string
  pm_tokenizer_path :: string
  pm_partition :: pipeline_partition
  pm_memory_plans :: "stage_memory_plan list"
  pm_expected_cpu_millis :: u64
  pm_expected_memory_bytes :: u64

record communication_report =
  tensor_messages_sent :: u64
  tensor_messages_received :: u64
  tensor_bytes_sent :: u64
  tensor_bytes_received :: u64
  control_messages_sent :: u64
  control_messages_received :: u64
  control_bytes_sent :: u64
  control_bytes_received :: u64

definition communication_default :: communication_report where
  "communication_default =
     \<lparr>tensor_messages_sent = 0, tensor_messages_received = 0, tensor_bytes_sent = 0, tensor_bytes_received = 0,
      control_messages_sent = 0, control_messages_received = 0, control_bytes_sent = 0, control_bytes_received = 0\<rparr>"

definition total_bytes :: "communication_report \<Rightarrow> u64" where
  "total_bytes c =
     tensor_bytes_sent c + tensor_bytes_received c + control_bytes_sent c + control_bytes_received c"

record ('v, 'd) pipeline_env =
  pe_ops :: "'v candle_ops"
  pe_checkpoint :: "string \<Rightarrow> plan_dtype \<Rightarrow> candle_error + 'v var_builder"
  pe_tokenizer :: "string \<Rightarrow> string + 'd tokenizer"
  pe_to_json :: "pipeline_control \<Rightarrow> string + u8 list"
  pe_from_json :: "u8 list \<Rightarrow> string + pipeline_control"

text \<open>What stays fixed during the loop of one rank, and what changes.\<close>

record ('v, 'd) rank_context =
  rc_rank :: rank
  rc_assignment :: stage_assignment
  rc_stage :: "'v llama_stage"
  rc_config :: model_config
  rc_manifest :: pipeline_manifest
  rc_resources :: resource_snapshot
  rc_tokenizer :: "'d tokenizer option"

record ('v, 'd) rank_state =
  rs_cache :: "'v kv_cache"
  rs_tokens :: "u32 list"
  rs_stream :: "'d option"
  rs_previous :: "u32 option"
  rs_step :: usize
  rs_decode_forward_count :: usize
  rs_communication :: communication_report
  rs_recorder :: event_recorder

section \<open>Messages\<close>

definition emit_st :: "run_event_kind \<Rightarrow> ('v, 'd) rank_state \<Rightarrow> ('v, 'd) rank_state" where
  "emit_st k s = s\<lparr>rs_recorder := emit k (rs_recorder s)\<rparr>"

definition activation_bytes :: "'v tensor \<Rightarrow> u64 presult" where
  "activation_bytes t =
     rbind (ok_or (PipelineProtocol ''tensor byte count overflow'')
        (checked_product 1 (map of_nat (t_dims t)))) (\<lambda>elements.
     ok_or (PipelineProtocol ''tensor byte count overflow'')
        (checked_mul elements (of_nat (size_in_bytes (t_dtype t)))))"

definition validate_activation :: "'v tensor \<Rightarrow> usize \<Rightarrow> execution_phase \<Rightarrow> unit presult" where
  "validate_activation t hidden phase =
     rbind (map_err (\<lambda>e. case e of RuntimeTensor c \<Rightarrow> PipelineTensor c | e \<Rightarrow> PipelineRuntime e) (dims3 t)) (\<lambda>(batch, seqn, h).
       if batch \<noteq> 1 \<or> h \<noteq> hidden \<or> (phase = Decode \<and> seqn \<noteq> 1)
       then Inl (PipelineProtocol (''invalid '' @ (case phase of Prefill \<Rightarrow> ''Prefill'' | Decode \<Rightarrow> ''Decode'')
              @ '' activation shape '' @ show_shape (t_dims t) @ ''; expected [1,S,'' @ show_nat hidden @ '']''))
       else Inr ())"

definition send_activation ::
  "rank \<Rightarrow> usize \<Rightarrow> 'v tensor \<Rightarrow> execution_phase \<Rightarrow> usize \<Rightarrow> ('v, 'd) rank_state
     \<Rightarrow> ('v, ('v, 'd) rank_state presult) prog" where
  "send_activation rk destination t phase step s =
     pr_bind (Ret (activation_bytes t)) (\<lambda>bytes.
     pr_bind (Ret (activation_tag step)) (\<lambda>tag.
     pbind (send_tensor rk destination tag t) (\<lambda>_.
     let c = rs_communication s in
     Ret (Inr (emit_st (TensorSent destination Activation phase step (t_dims t) bytes)
       (s\<lparr>rs_communication := c\<lparr>tensor_messages_sent := tensor_messages_sent c + 1,
                               tensor_bytes_sent := tensor_bytes_sent c + bytes\<rparr>\<rparr>))))))"

definition recv_activation ::
  "rank \<Rightarrow> usize \<Rightarrow> execution_phase \<Rightarrow> usize \<Rightarrow> ('v, 'd) rank_state
     \<Rightarrow> ('v, ('v tensor \<times> ('v, 'd) rank_state) presult) prog" where
  "recv_activation rk source phase step s =
     pr_bind (Ret (activation_tag step)) (\<lambda>tag.
     pbind (recv_tensor rk source tag) (\<lambda>t.
     pr_bind (Ret (activation_bytes t)) (\<lambda>bytes.
     let c = rs_communication s in
     Ret (Inr (t, emit_st (TensorReceived source Activation phase step (t_dims t) bytes)
       (s\<lparr>rs_communication := c\<lparr>tensor_messages_received := tensor_messages_received c + 1,
                               tensor_bytes_received := tensor_bytes_received c + bytes\<rparr>\<rparr>))))))"

definition send_pipeline_control ::
  "('v, 'd) pipeline_env \<Rightarrow> rank \<Rightarrow> usize \<Rightarrow> message_tag \<Rightarrow> pipeline_control \<Rightarrow> control_purpose \<Rightarrow> execution_phase \<Rightarrow>
     usize \<Rightarrow> ('v, 'd) rank_state \<Rightarrow> ('v, ('v, 'd) rank_state presult) prog" where
  "send_pipeline_control env rk destination tag control purpose phase step s =
     pr_bind (Ret (map_err PipelineJson (pe_to_json env control))) (\<lambda>bytes.
     pbind (send_control rk destination tag bytes) (\<lambda>_.
     let c = rs_communication s; n = of_nat (length bytes) in
     Ret (Inr (emit_st (ControlSent destination purpose phase step n)
       (s\<lparr>rs_communication := c\<lparr>control_messages_sent := control_messages_sent c + 1,
                               control_bytes_sent := control_bytes_sent c + n\<rparr>\<rparr>)))))"

definition recv_pipeline_control ::
  "('v, 'd) pipeline_env \<Rightarrow> rank \<Rightarrow> usize \<Rightarrow> message_tag \<Rightarrow> control_purpose \<Rightarrow> execution_phase \<Rightarrow>
     usize \<Rightarrow> ('v, 'd) rank_state \<Rightarrow> ('v, (pipeline_control \<times> ('v, 'd) rank_state) presult) prog" where
  "recv_pipeline_control env rk source tag purpose phase step s =
     pbind (recv_control rk source tag) (\<lambda>bytes.
     let c = rs_communication s; n = of_nat (length bytes);
         s1 = s\<lparr>rs_communication := c\<lparr>control_messages_received := control_messages_received c + 1,
                                     control_bytes_received := control_bytes_received c + n\<rparr>\<rparr> in
     pr_bind (Ret (map_err PipelineJson (pe_from_json env bytes))) (\<lambda>control.
     Ret (Inr (control, emit_st (ControlReceived source purpose phase step n) s1))))"

definition observed_barrier ::
  "u64 \<Rightarrow> ('v, 'd) rank_state \<Rightarrow> ('v, ('v, 'd) rank_state presult) prog" where
  "observed_barrier generation s =
     (let s1 = emit_st (CollectiveStarted EvBarrier generation) s in
      Barrier (Ret (Inr (emit_st (CollectiveCompleted EvBarrier generation) s1))))"

section \<open>One round\<close>

definition phase_of :: "usize \<Rightarrow> execution_phase" where
  "phase_of step = (if step = 0 then Prefill else Decode)"

definition begin_phase :: "pipeline_manifest \<Rightarrow> ('v, 'd) rank_state \<Rightarrow> ('v, 'd) rank_state" where
  "begin_phase mf s =
     (case phase_of (rs_step s) of
        Prefill \<Rightarrow> emit_st (PrefillStarted (length (pm_prompt_token_ids mf))) s
      | Decode \<Rightarrow> (emit_st (DecodeStepStarted (rs_step s)) s)
                    \<lparr>rs_decode_forward_count := rs_decode_forward_count s + 1\<rparr>)"

text \<open>The layer observer: two events for each layer the stage ran.\<close>

fun emit_layers :: "execution_phase \<Rightarrow> usize \<Rightarrow> usize list \<Rightarrow> ('v, 'd) rank_state \<Rightarrow> ('v, 'd) rank_state" where
  "emit_layers phase step [] s = s"
| "emit_layers phase step (l # ls) s =
     emit_layers phase step ls (emit_st (LayerCompleted l phase step) (emit_st (LayerStarted l phase step) s))"

definition stage_result ::
  "('v, 'd) rank_context \<Rightarrow> ('v tensor \<times> 'v kv_cache) dresult \<Rightarrow> ('v, 'd) rank_state
     \<Rightarrow> ('v tensor \<times> ('v, 'd) rank_state) presult" where
  "stage_result cx r s =
     rbind (map_err PipelineRuntime r) (\<lambda>(hidden, cache).
       Inr (hidden, emit_layers (phase_of (rs_step s)) (rs_step s)
                      [st_layer_start (rc_stage cx)..<st_layer_end (rc_stage cx)] (s\<lparr>rs_cache := cache\<rparr>)))"

definition compute_stage ::
  "('v, 'd) pipeline_env \<Rightarrow> ('v, 'd) rank_context \<Rightarrow> ('v, 'd) rank_state
     \<Rightarrow> ('v, ('v tensor \<times> ('v, 'd) rank_state) presult) prog" where
  "compute_stage env cx s =
     (let step = rs_step s; pos = kv_len (rs_cache s) in
      if sa_rank (rc_assignment cx) = 0
      then Ret (rbind (if step = 0 then Inr (token_input (pm_prompt_token_ids (rc_manifest cx)))
                       else rbind (ok_or (PipelineProtocol ''decode has no previous token'') (rs_previous s)) (\<lambda>t.
                              Inr (token_input [t]))) (\<lambda>input.
             stage_result cx (stage_forward_tokens (pe_ops env) (rc_stage cx) input pos (rs_cache s)) s))
      else pr_bind (recv_activation (rc_rank cx) (sa_rank (rc_assignment cx) - 1) (phase_of step) step s) (\<lambda>(hidden, s1).
        Ret (rbind (validate_activation hidden (hidden_size (rc_config cx)) (phase_of step)) (\<lambda>_.
             stage_result cx (stage_forward_hidden (pe_ops env) (rc_stage cx) hidden pos (rs_cache s1)) s1))))"

definition forward_result ::
  "('v, 'd) pipeline_env \<Rightarrow> ('v, 'd) rank_context \<Rightarrow> 'v tensor \<Rightarrow> ('v, 'd) rank_state
     \<Rightarrow> ('v, ('v, 'd) rank_state presult) prog" where
  "forward_result env cx hidden s =
     (let a = rc_assignment cx; step = rs_step s; phase = phase_of step in
      if sa_rank a + 1 < sa_world_size a
      then send_activation (rc_rank cx) (sa_rank a + 1) hidden phase step s
      else pr_bind (Ret (map_err PipelineRuntime (stage_finish (pe_ops env) (rc_stage cx) hidden))) (\<lambda>logits.
        pr_bind (Ret (map_err PipelineTensor (rbind (squeeze logits 0) (op_argmax (pe_ops env))))) (\<lambda>token_id.
        pr_bind (Ret (token_tag step)) (\<lambda>tag.
        send_pipeline_control env (rc_rank cx) 0 tag (Token step token_id) TokenFeedback phase step s))))"

definition decide ::
  "('v, 'd) rank_context \<Rightarrow> u32 \<Rightarrow> ('v, 'd) rank_state \<Rightarrow> (pipeline_decision \<times> ('v, 'd) rank_state) presult" where
  "decide cx token_id s =
     (if token_id = eos_token_id (rc_config cx) then Inr (Stop Eos, s)
      else
        let s1 = s\<lparr>rs_tokens := rs_tokens s @ [token_id]\<rparr> in
        rbind (map_err PipelineTokenizer
                 (tok_step (the (rc_tokenizer cx)) (the (rs_stream s1)) token_id)) (\<lambda>(text, stream).
        let s2 = emit_st (TokenGenerated token_id (case text of None \<Rightarrow> [] | Some t \<Rightarrow> t))
                   (s1\<lparr>rs_stream := Some stream\<rparr>);
            s3 = s2\<lparr>rs_previous := Some token_id\<rparr>;
            mf = rc_manifest cx in
        Inr (if length (rs_tokens s3) \<ge> pm_effective_max_new_tokens mf
             then Stop (if pm_requested_max_new_tokens mf > pm_effective_max_new_tokens mf then ContextLimit
                        else MaxNewTokens)
             else Continue, s3)))"

fun send_decisions ::
  "('v, 'd) pipeline_env \<Rightarrow> rank \<Rightarrow> pipeline_control \<Rightarrow> usize \<Rightarrow> usize list \<Rightarrow> ('v, 'd) rank_state
     \<Rightarrow> ('v, ('v, 'd) rank_state presult) prog" where
  "send_decisions env rk control step [] s = Ret (Inr s)"
| "send_decisions env rk control step (d # ds) s =
     pr_bind (Ret (decision_tag step)) (\<lambda>tag.
     pr_bind (send_pipeline_control env rk d tag control DecisionPurpose (phase_of step) step s)
       (send_decisions env rk control step ds))"

definition exchange_decision ::
  "('v, 'd) pipeline_env \<Rightarrow> ('v, 'd) rank_context \<Rightarrow> ('v, 'd) rank_state
     \<Rightarrow> ('v, (pipeline_decision \<times> ('v, 'd) rank_state) presult) prog" where
  "exchange_decision env cx s =
     (let a = rc_assignment cx; step = rs_step s; phase = phase_of step in
      if sa_rank a = 0
      then pr_bind (Ret (token_tag step)) (\<lambda>tag.
        pr_bind (recv_pipeline_control env (rc_rank cx) (sa_world_size a - 1) tag TokenFeedback phase step s) (\<lambda>(control, s1).
        case control of
          Decision _ _ \<Rightarrow> Ret (Inl (PipelineProtocol ''rank 0 expected final-stage token feedback''))
        | Token actual_step token_id \<Rightarrow>
            if actual_step \<noteq> step
            then Ret (Inl (PipelineProtocol (''received token for step '' @ show_nat actual_step @ '', expected ''
                                              @ show_nat step)))
            else pr_bind (Ret (decide cx token_id s1)) (\<lambda>(d, s2).
              pr_bind (send_decisions env (rc_rank cx) (Decision step d) step [1..<sa_world_size a] s2) (\<lambda>s3.
              Ret (Inr (d, s3))))))
      else pr_bind (Ret (decision_tag step)) (\<lambda>tag.
        pr_bind (recv_pipeline_control env (rc_rank cx) 0 tag DecisionPurpose phase step s) (\<lambda>(control, s1).
        case control of
          Token _ _ \<Rightarrow> Ret (Inl (PipelineProtocol ''stage expected rank-0 decision''))
        | Decision actual_step d \<Rightarrow>
            if actual_step \<noteq> step
            then Ret (Inl (PipelineProtocol (''received decision for step '' @ show_nat actual_step @ '', expected ''
                                              @ show_nat step)))
            else Ret (Inr (d, s1)))))"

definition memory_sample :: "resource_snapshot \<Rightarrow> ('v, 'd) rank_state \<Rightarrow> ('v, 'd) rank_state" where
  "memory_sample rs s = emit_st (MemorySample (rsn_memory_current_bytes rs) (rsn_memory_limit_bytes rs)) s"

definition end_phase :: "('v, 'd) rank_context \<Rightarrow> ('v, 'd) rank_state \<Rightarrow> ('v, 'd) rank_state" where
  "end_phase cx s =
     memory_sample (rc_resources cx)
       (case phase_of (rs_step s) of
          Prefill \<Rightarrow> emit_st PrefillFinished s
        | Decode \<Rightarrow> emit_st (DecodeStepFinished (rs_step s)) s)"

definition pipeline_round ::
  "('v, 'd) pipeline_env \<Rightarrow> ('v, 'd) rank_context \<Rightarrow> ('v, 'd) rank_state
     \<Rightarrow> ('v, (pipeline_decision \<times> ('v, 'd) rank_state) presult) prog" where
  "pipeline_round env cx s =
     pr_bind (compute_stage env cx (begin_phase (rc_manifest cx) s)) (\<lambda>(hidden, s1).
     pr_bind (forward_result env cx hidden s1) (\<lambda>s2.
     pr_bind (exchange_decision env cx s2) (\<lambda>(d, s3).
     Ret (Inr (d, end_phase cx s3)))))"

fun pipeline_loop ::
  "nat \<Rightarrow> ('v, 'd) pipeline_env \<Rightarrow> ('v, 'd) rank_context \<Rightarrow> ('v, 'd) rank_state
     \<Rightarrow> ('v, (stop_reason \<times> ('v, 'd) rank_state) presult) prog" where
  "pipeline_loop 0 env cx s = Ret (Inl (PipelineProtocol ''out of fuel''))"
| "pipeline_loop (Suc fuel) env cx s =
     pr_bind (pipeline_round env cx s) (\<lambda>(d, s1).
       case d of
         Continue \<Rightarrow> pipeline_loop fuel env cx (s1\<lparr>rs_step := rs_step s1 + 1\<rparr>)
       | Stop reason \<Rightarrow> Ret (Inr (reason, s1)))"

section \<open>The whole rank\<close>

record pipeline_rank_report =
  prr_schema_version :: u32
  prr_run_id :: string
  prr_request_id :: string
  prr_rank :: usize
  prr_assignment :: stage_assignment
  prr_memory :: stage_memory_plan
  prr_resources :: resource_snapshot
  prr_final_kv_cache_bytes :: u64
  prr_communication :: communication_report
  prr_decode_forward_count :: usize
  prr_generated_tokens :: "u32 list"
  prr_completion :: string
  prr_stop_reason :: stop_reason
  prr_barriers_passed :: bool
  prr_events :: "run_event list"
  prr_success :: bool

definition check_resources :: "pipeline_manifest \<Rightarrow> resource_snapshot \<Rightarrow> bool" where
  "check_resources mf rs \<longleftrightarrow>
     \<not> (pm_expected_cpu_millis mf > 0 \<and> rsn_cpu_millis rs \<noteq> Some (pm_expected_cpu_millis mf)) \<and>
     \<not> (pm_expected_memory_bytes mf > 0 \<and> rsn_memory_limit_bytes rs \<noteq> Some (pm_expected_memory_bytes mf))"

fun show_opt :: "u64 option \<Rightarrow> string" where
  "show_opt None = ''None''"
| "show_opt (Some v) = ''Some('' @ show_nat (unat v) @ '')''"

text \<open>Everything before the first message: topology, placement, resources, dtype, weights, cache.\<close>

definition prepare_rank ::
  "('v, 'd) pipeline_env \<Rightarrow> rank \<Rightarrow> pipeline_manifest \<Rightarrow> resource_snapshot
     \<Rightarrow> (stage_assignment \<times> stage_memory_plan \<times> 'v llama_stage \<times> 'v kv_cache) presult" where
  "prepare_rank env rk mf rs =
     (if world_size rk \<noteq> length (stages (pm_partition mf))
      then Inl (InvalidTopology (''rank world size '' @ show_nat (world_size rk) @ '' differs from manifest stages ''
                                 @ show_nat (length (stages (pm_partition mf)))))
      else
        rbind (partition_stage (pm_partition mf) (global_rank rk)) (\<lambda>a.
        rbind (if global_rank rk < length (pm_memory_plans mf) then Inr (pm_memory_plans mf ! global_rank rk)
               else Inl (InvalidTopology ''missing rank memory plan'')) (\<lambda>memory.
        if smp_placement memory = DoesNotFit
        then Inl (PipelinePlacementFailed (global_rank rk) (smp_persistent_bytes memory) (smp_budget_bytes memory))
        else if \<not> check_resources mf rs
        then Inl (InvalidTopology (''rank '' @ show_nat (global_rank rk) @ '' observed CPU/memory ''
               @ show_opt (rsn_cpu_millis rs) @ ''/'' @ show_opt (rsn_memory_limit_bytes rs) @ '', expected ''
               @ show_nat (unat (pm_expected_cpu_millis mf)) @ ''/'' @ show_nat (unat (pm_expected_memory_bytes mf))))
        else
          let s = spec (pm_model mf); ops = pe_ops env in
          rbind (map_err PipelineRuntime (validate_cpu_dtype s (pm_dtype mf))) (\<lambda>_.
          rbind (map_err PipelineTensor (pe_checkpoint env (pm_checkpoint_path mf) (pm_dtype mf))) (\<lambda>vb.
          rbind (map_err PipelineRuntime (stage_load ops vb (config s) (layer_start a) (layer_end a)
                   (owns_embeddings a) (owns_lm_head a) (pm_context_capacity mf))) (\<lambda>stage.
          rbind (map_err PipelineRuntime (kv_new_for_layers (op_zero ops) (config s) (layer_count a)
                   (pm_context_capacity mf) (plan_dtype_candle (pm_dtype mf)))) (\<lambda>cache.
          Inr (a, memory, stage, cache))))))))"

definition run_pipeline_rank ::
  "nat \<Rightarrow> ('v, 'd) pipeline_env \<Rightarrow> rank \<Rightarrow> pipeline_manifest \<Rightarrow> resource_snapshot
     \<Rightarrow> ('v, pipeline_rank_report presult) prog" where
  "run_pipeline_rank fuel env rk mf rs =
     pr_bind (Ret (prepare_rank env rk mf rs)) (\<lambda>(a, memory, stage, cache).
     let s = spec (pm_model mf);
         st0 = \<lparr>rs_cache = cache, rs_tokens = [], rs_stream = None, rs_previous = None, rs_step = 0,
                rs_decode_forward_count = 0, rs_communication = communication_default,
                rs_recorder = recorder_new (global_rank rk)\<rparr>;
         st1 = memory_sample rs (emit_st ModelLoadFinished (emit_st ModelLoadStarted (memory_sample rs st0))) in
     pr_bind (observed_barrier 0 st1) (\<lambda>st2.
     pr_bind (Ret (if sa_rank a = 0
                   then rbind (map_err PipelineTokenizer (pe_tokenizer env (pm_tokenizer_path mf))) (\<lambda>t. Inr (Some t))
                   else Inr None)) (\<lambda>tok.
     let cx = \<lparr>rc_rank = rk, rc_assignment = a, rc_stage = stage, rc_config = config s, rc_manifest = mf,
               rc_resources = rs, rc_tokenizer = tok\<rparr> in
     pr_bind (pipeline_loop fuel env cx (st2\<lparr>rs_stream := map_option tok_stream tok\<rparr>)) (\<lambda>(reason, st3).
     pr_bind (Ret (if sa_rank a = 0
                   then map_err PipelineTokenizer (tok_decode (the tok) (rs_tokens st3)) else Inr [])) (\<lambda>completion.
     pr_bind (observed_barrier 1 (emit_st (GenerationFinished reason) st3)) (\<lambda>st4.
     pr_bind (Ret (map_err PipelineRuntime
         (kv_used_bytes (rs_cache st4) (config s) (plan_dtype_candle (pm_dtype mf))))) (\<lambda>used.
     Ret (Inr \<lparr>prr_schema_version = 1, prr_run_id = pm_run_id mf, prr_request_id = pm_request_id mf,
               prr_rank = sa_rank a, prr_assignment = a, prr_memory = memory, prr_resources = rs,
               prr_final_kv_cache_bytes = used, prr_communication = rs_communication st4,
               prr_decode_forward_count = rs_decode_forward_count st4,
               prr_generated_tokens = rs_tokens st4, prr_completion = completion, prr_stop_reason = reason,
               prr_barriers_passed = True, prr_events = er_events (rs_recorder st4), prr_success = True\<rparr>))))))))"

end
