(* ===== verification/Wire.thy ===== *)
theory Wire
  imports Transport
begin

text \<open>
  The TCP wire format (\<open>encode_wire\<close>, \<open>decode_wire\<close> and the readers of
  \<open>crates/collectives/src/tcp.rs\<close>): little-endian fields, an \<open>f32\<close> as its bit pattern, the
  checks of both directions with their errors. A cursor is the bytes not yet read.
\<close>

section \<open>Constants and frames\<close>

definition PROTOCOL_VERSION :: u16 where
  "PROTOCOL_VERSION = 2"

definition WIRE_MAGIC :: "u8 list" where
  "WIRE_MAGIC = [0x44, 0x4C, 0x49, 0x52]"

definition TENSOR_KIND :: u8 where
  "TENSOR_KIND = 1"

definition BARRIER_ARRIVE_KIND :: u8 where
  "BARRIER_ARRIVE_KIND = 2"

definition BARRIER_RELEASE_KIND :: u8 where
  "BARRIER_RELEASE_KIND = 3"

definition APPLICATION_CONTROL_KIND :: u8 where
  "APPLICATION_CONTROL_KIND = 4"

lemmas wire_constants = PROTOCOL_VERSION_def TENSOR_KIND_def BARRIER_ARRIVE_KIND_def BARRIER_RELEASE_KIND_def
  APPLICATION_CONTROL_KIND_def

datatype wire_frame =
    TensorFrame usize usize message_tag "f32 tensor_packet"
  | ControlFrame usize usize message_tag control_packet
  | BarrierArrive usize usize u64
  | BarrierRelease usize usize u64

fun frame_source :: "wire_frame \<Rightarrow> usize" where
  "frame_source (TensorFrame s d t p) = s"
| "frame_source (ControlFrame s d t p) = s"
| "frame_source (BarrierArrive s d g) = s"
| "frame_source (BarrierRelease s d g) = s"

fun frame_destination :: "wire_frame \<Rightarrow> usize" where
  "frame_destination (TensorFrame s d t p) = d"
| "frame_destination (ControlFrame s d t p) = d"
| "frame_destination (BarrierArrive s d g) = d"
| "frame_destination (BarrierRelease s d g) = d"

fun frame_kind :: "wire_frame \<Rightarrow> u8" where
  "frame_kind (TensorFrame s d t p) = TENSOR_KIND"
| "frame_kind (ControlFrame s d t p) = APPLICATION_CONTROL_KIND"
| "frame_kind (BarrierArrive s d g) = BARRIER_ARRIVE_KIND"
| "frame_kind (BarrierRelease s d g) = BARRIER_RELEASE_KIND"

section \<open>Encoding\<close>

definition to_u32 :: "usize \<Rightarrow> string \<Rightarrow> u32 cresult" where
  "to_u32 n name = ok_or (Protocol (name @ '' does not fit u32'')) (u32_try_from n)"

definition u16_bytes :: "u16 \<Rightarrow> u8 list" where
  "u16_bytes w = le_bytes 2 (unat w)"

definition u32_bytes :: "u32 \<Rightarrow> u8 list" where
  "u32_bytes w = le_bytes 4 (unat w)"

definition u64_bytes :: "u64 \<Rightarrow> u8 list" where
  "u64_bytes w = le_bytes 8 (unat w)"

fun encode_payload :: "wire_frame \<Rightarrow> u8 list cresult" where
  "encode_payload (TensorFrame s d tag packet) =
     rbind (to_u32 (length (p_shape packet)) ''dimension count'') (\<lambda>dimensions.
     rbind (ok_or (Protocol ''element count overflow'') (u64_try_from (length (p_values packet)))) (\<lambda>elements.
     rbind (collect_results (map (\<lambda>dimension. ok_or (Protocol ''tensor dimension overflow'') (u64_try_from dimension))
         (p_shape packet))) (\<lambda>shape.
       Inr (u64_bytes tag @ u32_bytes dimensions @ u64_bytes elements
            @ concat (map u64_bytes shape) @ concat (map u32_bytes (p_values packet))))))"
| "encode_payload (ControlFrame s d tag packet) =
     rbind (ok_or (Protocol ''control payload length overflow'') (u32_try_from (length (packet_bytes packet)))) (\<lambda>n.
       Inr (u64_bytes tag @ u32_bytes n @ packet_bytes packet))"
| "encode_payload (BarrierArrive s d generation) = Inr (u64_bytes generation)"
| "encode_payload (BarrierRelease s d generation) = Inr (u64_bytes generation)"

definition encode_wire :: "wire_frame \<Rightarrow> usize \<Rightarrow> u8 list cresult" where
  "encode_wire frame maximum =
     rbind (to_u32 (frame_source frame) ''source rank'') (\<lambda>source.
     rbind (to_u32 (frame_destination frame) ''destination rank'') (\<lambda>destination.
     rbind (encode_payload frame) (\<lambda>payload.
       let body = WIRE_MAGIC @ u16_bytes PROTOCOL_VERSION @ [frame_kind frame, 0]
                  @ u32_bytes source @ u32_bytes destination @ payload
       in if length body > maximum
          then Inl (Protocol (''encoded frame is '' @ show_nat (length body) @ '' bytes, maximum is '' @ show_nat maximum))
          else Inr body)))"

section \<open>Decoding\<close>

definition read_exact :: "string \<Rightarrow> nat \<Rightarrow> u8 list \<Rightarrow> (u8 list \<times> u8 list) cresult" where
  "read_exact context n cursor =
     (if n \<le> length cursor then Inr (take n cursor, drop n cursor) else Inl (Io context UnexpectedEof))"

definition read_u8 :: "u8 list \<Rightarrow> (u8 \<times> u8 list) cresult" where
  "read_u8 cursor = rbind (read_exact ''decode u8'' 1 cursor) (\<lambda>(bytes, rest). Inr (hd bytes, rest))"

definition read_u16 :: "u8 list \<Rightarrow> (u16 \<times> u8 list) cresult" where
  "read_u16 cursor = rbind (read_exact ''decode u16'' 2 cursor) (\<lambda>(bytes, rest). Inr (of_nat (le_value bytes), rest))"

definition read_u32 :: "u8 list \<Rightarrow> (u32 \<times> u8 list) cresult" where
  "read_u32 cursor = rbind (read_exact ''decode u32'' 4 cursor) (\<lambda>(bytes, rest). Inr (of_nat (le_value bytes), rest))"

definition read_u64 :: "u8 list \<Rightarrow> (u64 \<times> u8 list) cresult" where
  "read_u64 cursor = rbind (read_exact ''decode u64'' 8 cursor) (\<lambda>(bytes, rest). Inr (of_nat (le_value bytes), rest))"

text \<open>\<open>for _ in 0..n { values.push(read(cursor)?) }\<close>\<close>

fun read_many :: "(u8 list \<Rightarrow> ('a \<times> u8 list) cresult) \<Rightarrow> nat \<Rightarrow> u8 list \<Rightarrow> ('a list \<times> u8 list) cresult" where
  "read_many read 0 cursor = Inr ([], cursor)"
| "read_many read (Suc n) cursor =
     rbind (read cursor) (\<lambda>(x, cursor). rbind (read_many read n cursor) (\<lambda>(xs, cursor). Inr (x # xs, cursor)))"

definition decode_tensor_frame :: "usize \<Rightarrow> usize \<Rightarrow> u8 list \<Rightarrow> (wire_frame \<times> u8 list) cresult" where
  "decode_tensor_frame source destination cursor =
     rbind (read_u64 cursor) (\<lambda>(tag, cursor).
     rbind (read_u32 cursor) (\<lambda>(dims, cursor).
     let dimensions = unat dims in
     if dimensions > 64
     then Inl (Protocol (''tensor has '' @ show_nat dimensions @ '' dimensions; maximum is 64''))
     else
       rbind (read_u64 cursor) (\<lambda>(elems, cursor).
       let elements = unat elems in
       rbind (read_many read_u64 dimensions cursor) (\<lambda>(shape, cursor).
       let remaining = length cursor in
       rbind (ok_or (Protocol ''tensor payload byte count overflow'') (usize_checked_mul elements 4)) (\<lambda>expected_bytes.
       if remaining \<noteq> expected_bytes
       then Inl (Protocol (''tensor declares '' @ show_nat elements @ '' values but carries ''
                 @ show_nat remaining @ '' payload bytes''))
       else
         rbind (read_many read_u32 elements cursor) (\<lambda>(vs, cursor).
         rbind (packet_new (map unat shape) vs) (\<lambda>packet.
           Inr (TensorFrame source destination tag packet, cursor))))))))"

definition decode_control_frame :: "usize \<Rightarrow> usize \<Rightarrow> u8 list \<Rightarrow> (wire_frame \<times> u8 list) cresult" where
  "decode_control_frame source destination cursor =
     rbind (read_u64 cursor) (\<lambda>(tag, cursor).
     rbind (read_u32 cursor) (\<lambda>(len, cursor).
     let remaining = length cursor in
     if remaining \<noteq> unat len
     then Inl (Protocol (''control frame declares '' @ show_nat (unat len) @ '' bytes but carries '' @ show_nat remaining))
     else
       rbind (read_exact ''decode control payload'' (unat len) cursor) (\<lambda>(bytes, cursor).
       rbind (control_packet_new bytes) (\<lambda>packet.
         Inr (ControlFrame source destination tag packet, cursor)))))"

definition decode_barrier_frame ::
  "(u64 \<Rightarrow> wire_frame) \<Rightarrow> u8 list \<Rightarrow> (wire_frame \<times> u8 list) cresult" where
  "decode_barrier_frame frame cursor =
     rbind (read_u64 cursor) (\<lambda>(generation, cursor). Inr (frame generation, cursor))"

definition decode_wire :: "u8 list \<Rightarrow> wire_frame cresult" where
  "decode_wire body =
     rbind (read_exact ''read frame magic'' 4 body) (\<lambda>(magic, cursor).
     if magic \<noteq> WIRE_MAGIC then Inl (Protocol ''invalid frame magic'')
     else
     rbind (read_u16 cursor) (\<lambda>(version, cursor).
     if version \<noteq> PROTOCOL_VERSION
     then Inl (Protocol (''frame protocol '' @ show_nat (unat version) @ '', expected ''
               @ show_nat (unat PROTOCOL_VERSION)))
     else
     rbind (read_u8 cursor) (\<lambda>(kind, cursor).
     rbind (read_u8 cursor) (\<lambda>(reserved, cursor).
     rbind (read_u32 cursor) (\<lambda>(src, cursor).
     rbind (read_u32 cursor) (\<lambda>(dst, cursor).
     let source = unat src; destination = unat dst in
     rbind (if kind = TENSOR_KIND then decode_tensor_frame source destination cursor
            else if kind = APPLICATION_CONTROL_KIND then decode_control_frame source destination cursor
            else if kind = BARRIER_ARRIVE_KIND then decode_barrier_frame (BarrierArrive source destination) cursor
            else if kind = BARRIER_RELEASE_KIND then decode_barrier_frame (BarrierRelease source destination) cursor
            else Inl (Protocol (''unknown frame kind '' @ show_nat (unat kind)))) (\<lambda>(frame, cursor).
     if cursor \<noteq> [] then Inl (Protocol ''frame contains trailing bytes'')
     else Inr frame)))))))"

section \<open>Reading back what was written\<close>

named_theorems wire_simps \<open>readers on encoded fields\<close>

lemma read_exact_append [wire_simps]: "length bs = n \<Longrightarrow> read_exact ctx n (bs @ rest) = Inr (bs, rest)"
  by (simp add: read_exact_def)

lemma length_bytes [simp]:
  "length (u16_bytes w) = 2" "length (u32_bytes x) = 4" "length (u64_bytes y) = 8"
  by (simp_all add: u16_bytes_def u32_bytes_def u64_bytes_def)

lemma read_u8_append [wire_simps]: "read_u8 (b # rest) = Inr (b, rest)"
  using read_exact_append [of "[b]" 1] by (simp add: read_u8_def)

lemma read_u16_append [wire_simps]: "read_u16 (u16_bytes w @ rest) = Inr (w, rest)"
  using unat_u16_bound [of w] by (simp add: read_u16_def wire_simps) (simp add: u16_bytes_def le_value_bytes)

lemma read_u32_append [wire_simps]: "read_u32 (u32_bytes w @ rest) = Inr (w, rest)"
  using unat_u32_bound [of w] by (simp add: read_u32_def wire_simps) (simp add: u32_bytes_def le_value_bytes)

lemma read_u64_append [wire_simps]: "read_u64 (u64_bytes w @ rest) = Inr (w, rest)"
  using unat_u64_bound [of w] by (simp add: read_u64_def wire_simps) (simp add: u64_bytes_def le_value_bytes)

lemma read_many_append:
  assumes "\<And>w rest. read (enc w @ rest) = Inr (w, rest)" "n = length ws"
  shows "read_many read n (concat (map enc ws) @ rest) = Inr (ws, rest)"
  using assms(2) by (induction ws arbitrary: n) (auto simp: assms(1))

lemma length_concat_u32 [simp]: "length (concat (map u32_bytes vs)) = 4 * length vs"
  by (induction vs) auto

section \<open>Round trip\<close>

text \<open>
  What every constructor path of the transport guarantees of a frame: packets come from
  \<open>TensorPacket::new\<close> and \<open>ControlPacket::new\<close>. The decoder also wants at most 64 dimensions.
\<close>

fun wire_ok :: "wire_frame \<Rightarrow> bool" where
  "wire_ok (TensorFrame s d t p) = (wf_packet p \<and> length (p_shape p) \<le> 64)"
| "wire_ok (ControlFrame s d t p) = (length (packet_bytes p) \<le> MAX_CONTROL_BYTES)"
| "wire_ok (BarrierArrive s d g) = True"
| "wire_ok (BarrierRelease s d g) = True"

fun frame_constructed :: "wire_frame \<Rightarrow> bool" where
  "frame_constructed (TensorFrame s d t p) = wf_packet p"
| "frame_constructed (ControlFrame s d t p) = (length (packet_bytes p) \<le> MAX_CONTROL_BYTES)"
| "frame_constructed (BarrierArrive s d g) = True"
| "frame_constructed (BarrierRelease s d g) = True"

fun frame_dimensions :: "wire_frame \<Rightarrow> nat" where
  "frame_dimensions (TensorFrame s d t p) = length (p_shape p)"
| "frame_dimensions _ = 0"

lemma wire_ok_iff: "wire_ok f \<longleftrightarrow> frame_constructed f \<and> frame_dimensions f \<le> 64"
  by (cases f) auto

lemma to_u32_Inr: "to_u32 n name = Inr w \<longleftrightarrow> n < 2 ^ 32 \<and> w = of_nat n"
  by (auto simp: to_u32_def u32_try_from_def)

lemma shape_words:
  assumes "collect_results (map (\<lambda>x. ok_or e (u64_try_from x)) ns) = Inr ws"
  shows "map unat ws = ns \<and> length ws = length ns"
  using assms
proof (induction ns arbitrary: ws)
  case Nil
  then show ?case by simp
next
  case (Cons n ns)
  then show ?case by (cases "u64_try_from n") (auto simp: u64_try_from_def split: if_splits)
qed

lemma decode_tensor_payload:
  assumes "encode_payload (TensorFrame s d tag p) = Inr payload" "wire_ok (TensorFrame s d tag p)"
    and "length payload < 2 ^ 64"
  shows "decode_tensor_frame s d payload = Inr (TensorFrame s d tag p, [])"
proof -
  from assms(1) obtain dims elems shape where
    dims: "to_u32 (length (p_shape p)) ''dimension count'' = Inr dims" and
    elems: "u64_try_from (length (p_values p)) = Some elems" and
    shape: "collect_results (map (\<lambda>x. ok_or (Protocol ''tensor dimension overflow'') (u64_try_from x)) (p_shape p))
      = Inr shape" and
    payload: "payload = u64_bytes tag @ u32_bytes dims @ u64_bytes elems
            @ concat (map u64_bytes shape) @ concat (map u32_bytes (p_values p))"
    by auto
  have d: "unat dims = length (p_shape p)" "unat dims \<le> 64" and e: "unat elems = length (p_values p)"
    using dims elems assms(2) by (auto simp: to_u32_Inr u64_try_from_def split: if_splits)
  have sh: "map unat shape = p_shape p" "length shape = length (p_shape p)" using shape_words [OF shape] by auto
  have "length (p_values p) * 4 < 2 ^ 64" using assms(3) by (simp add: payload)
  then have mul: "usize_checked_mul (length (p_values p)) 4 = Some (4 * length (p_values p))"
    by (simp add: usize_checked_mul_def)
  have vals: "read_many read_u32 (length (p_values p)) (concat (map u32_bytes (p_values p))) = Inr (p_values p, [])"
    using read_many_append [of read_u32 u32_bytes "length (p_values p)" "p_values p" "[]"] by (simp add: wire_simps)
  have "packet_new (p_shape p) (p_values p) = Inr p"
    using assms(2) by (simp add: packet_new_Inr wf_packet_def)
  then show ?thesis
    using d sh mul vals
    by (simp add: decode_tensor_frame_def payload wire_simps e Let_def
        read_many_append [where read = read_u64 and enc = u64_bytes])
qed

lemma decode_control_payload:
  assumes "encode_payload (ControlFrame s d tag p) = Inr payload" "wire_ok (ControlFrame s d tag p)"
  shows "decode_control_frame s d payload = Inr (ControlFrame s d tag p, [])"
proof -
  obtain bs where p: "p = ControlPacket bs" by (cases p)
  from assms obtain n where n: "u32_try_from (length bs) = Some n"
    and payload: "payload = u64_bytes tag @ u32_bytes n @ bs" by (auto simp: p)
  have "unat n = length bs" using n by (auto simp: u32_try_from_def split: if_splits)
  moreover have "read_exact ''decode control payload'' (length bs) bs = Inr (bs, [])"
    by (simp add: read_exact_def)
  ultimately show ?thesis
    using assms(2) by (simp add: decode_control_frame_def payload wire_simps p control_packet_new_def)
qed

lemma decode_encode:
  assumes "encode_wire f maximum = Inr body" "wire_ok f" "maximum < 2 ^ 64"
  shows "decode_wire body = Inr f"
proof -
  from assms(1) obtain src dst payload where
    src: "to_u32 (frame_source f) ''source rank'' = Inr src" and
    dst: "to_u32 (frame_destination f) ''destination rank'' = Inr dst" and
    payload: "encode_payload f = Inr payload" and
    body: "body = WIRE_MAGIC @ u16_bytes PROTOCOL_VERSION @ frame_kind f # 0 # u32_bytes src @ u32_bytes dst @ payload"
    and small: "length body \<le> maximum"
    by (auto simp: encode_wire_def Let_def split: if_splits)
  have r: "unat src = frame_source f" "unat dst = frame_destination f" using src dst by (auto simp: to_u32_Inr)
  have len: "length payload < 2 ^ 64" using small assms(3) by (simp add: body)
  have magic: "length WIRE_MAGIC = 4" by (simp add: WIRE_MAGIC_def)
  note head = body wire_simps magic r Let_def
  show ?thesis
  proof (cases f)
    case (TensorFrame s d t p)
    from decode_tensor_payload [of s d t p payload] payload len assms(2) TensorFrame show ?thesis
      by (simp add: decode_wire_def head)
  next
    case (ControlFrame s d t p)
    from decode_control_payload [of s d t p payload] payload assms(2) ControlFrame show ?thesis
      by (simp add: decode_wire_def head) (simp add: wire_constants)
  next
    case (BarrierArrive s d g)
    then show ?thesis using payload read_u64_append [of g "[]"]
      by (simp add: decode_wire_def head decode_barrier_frame_def) (simp add: wire_constants)
  next
    case (BarrierRelease s d g)
    then show ?thesis using payload read_u64_append [of g "[]"]
      by (simp add: decode_wire_def head decode_barrier_frame_def) (simp add: wire_constants)
  qed
qed

text \<open>
  The encoder has no limit on the number of dimensions but the decoder refuses more than
  64, so such a tensor frame can be sent and never be received.
\<close>

lemma wire_dimension_asymmetry:
  assumes "encode_wire (TensorFrame s d t p) maximum = Inr body" "64 < length (p_shape p)"
  shows "decode_wire body =
     Inl (Protocol (''tensor has '' @ show_nat (length (p_shape p)) @ '' dimensions; maximum is 64''))"
proof -
  from assms(1) obtain src dst payload where
    payload: "encode_payload (TensorFrame s d t p) = Inr payload" and
    body: "body = WIRE_MAGIC @ u16_bytes PROTOCOL_VERSION @ TENSOR_KIND # 0 # u32_bytes src @ u32_bytes dst @ payload"
    by (auto simp: encode_wire_def Let_def split: if_splits)
  from payload obtain dims rest where dims: "to_u32 (length (p_shape p)) ''dimension count'' = Inr dims" and
    rest: "payload = u64_bytes t @ u32_bytes dims @ rest" by auto
  have "unat dims = length (p_shape p)" using dims by (auto simp: to_u32_Inr)
  moreover have "length WIRE_MAGIC = 4" by (simp add: WIRE_MAGIC_def)
  ultimately show ?thesis
    using assms(2) by (simp add: decode_wire_def body rest decode_tensor_frame_def wire_simps Let_def)
qed

text \<open>
  C29. Wire round trip: take any frame the encoder accepts under a frame maximum below
  \<open>2 ^ 64\<close>, its packet made by one of the packet constructors. Decoding the bytes gives exactly
  the frame back, for tensor, control and both barrier kinds and with \<open>f32\<close> values preserved
  bit for bit, provided a tensor has at most 64 dimensions; a tensor of more dimensions is
  encoded as well, and decoding it always fails with the error that names its dimensions.
\<close>

theorem wire_round_trip:
  assumes "encode_wire f maximum = Inr body" "frame_constructed f" "maximum < 2 ^ 64"
  shows "decode_wire body =
     (if frame_dimensions f \<le> 64 then Inr f
      else Inl (Protocol (''tensor has '' @ show_nat (frame_dimensions f) @ '' dimensions; maximum is 64'')))"
proof (cases "frame_dimensions f \<le> 64")
  case True
  then show ?thesis using decode_encode [OF assms(1) _ assms(3)] assms(2) by (simp add: wire_ok_iff)
next
  case False
  then obtain s d t p where "f = TensorFrame s d t p" by (cases f) auto
  with False show ?thesis using wire_dimension_asymmetry [of s d t p maximum body] assms(1) by simp
qed

theorem wire_round_trip_witness:
  "\<exists>body wide. encode_wire (TensorFrame 1 0 9 \<lparr>p_shape = [2], p_values = [0x7FC00001, 5]\<rparr>) 64 = Inr body
     \<and> decode_wire body = Inr (TensorFrame 1 0 9 \<lparr>p_shape = [2], p_values = [0x7FC00001, 5]\<rparr>)
     \<and> encode_wire (TensorFrame 1 0 9 \<lparr>p_shape = replicate 65 1, p_values = [5]\<rparr>) 1000 = Inr wide
     \<and> decode_wire wide = Inl (Protocol (''tensor has '' @ show_nat 65 @ '' dimensions; maximum is 64''))"
proof -
  let ?f = "TensorFrame 1 0 9 \<lparr>p_shape = [2], p_values = [0x7FC00001, 5]\<rparr>"
  let ?g = "TensorFrame 1 0 9 \<lparr>p_shape = replicate 65 1, p_values = [5]\<rparr>"
  have ok: "frame_constructed ?f"
    by (simp add: wf_packet_def element_count_def usize_checked_mul_def)
  obtain body where b: "encode_wire ?f 64 = Inr body"
    by (simp add: encode_wire_def to_u32_def u32_try_from_def u64_try_from_def WIRE_MAGIC_def Let_def)
  have "element_count_from shape 1 (replicate n 1) = Inr 1" for shape n
    by (induction n) (simp_all add: usize_checked_mul_def)
  then have ok': "frame_constructed ?g" by (simp add: wf_packet_def element_count_def)
  have "length (concat (map u64_bytes (replicate 65 1))) = 520"
    by (simp add: length_concat sum_list_replicate)
  moreover have "collect_results (map (\<lambda>x. ok_or (Protocol ''tensor dimension overflow'') (u64_try_from x))
      (replicate 65 1)) = Inr (replicate 65 1)"
    by (simp add: collect_results_Inr u64_try_from_def)
  ultimately have "encode_payload ?g = Inr (u64_bytes 9 @ u32_bytes 65 @ u64_bytes 1
      @ concat (map u64_bytes (replicate 65 1)) @ concat (map u32_bytes [5]))"
    "length (concat (map u64_bytes (replicate 65 1))) = 520"
    by (simp_all add: to_u32_def u32_try_from_def u64_try_from_def)
  then have "\<exists>wide. encode_wire ?g 1000 = Inr wide"
    by (simp add: encode_wire_def to_u32_def u32_try_from_def WIRE_MAGIC_def Let_def del: encode_payload.simps)
  then obtain wide where w: "encode_wire ?g 1000 = Inr wide" ..
  from wire_round_trip [OF b ok] wire_round_trip [OF w ok'] b w show ?thesis by simp
qed

end
