(* ===== verification/TcpTransport.thy ===== *)
theory TcpTransport
  imports Wire
begin

text \<open>
  The TCP endpoint (\<open>TcpTransport\<close> in \<open>crates/collectives/src/tcp.rs\<close>): framed writes,
  framed reads, the per-peer queues of frames put aside, tensor and control receives and the
  centralized barrier.

  A peer's stream is the bytes that arrive before the operation's deadline; \<open>ending\<close> is the
  error kind of a read that runs out of them (\<open>WouldBlock\<close>/\<open>TimedOut\<close>: the socket timeout,
  \<open>UnexpectedEof\<close>: the peer closed). A \<open>read_exact\<close> that fails has consumed what was there.
  \<open>late i\<close> says whether the deadline check before the length and the one before the body of
  the \<open>i\<close>-th frame of a call fail. How the socket takes a write is a \<open>socket_write\<close>, a
  parameter of every operation that writes; the bytes of a send that succeeds are all
  written, and of a write that fails nothing is claimed to have arrived. Lock poisoning is
  not modelled.
\<close>

section \<open>Framing\<close>

text \<open>The write to a socket: \<open>set_write_deadline\<close> finds the deadline in the past or cannot set
  the timeout, or one of the writes after it fails, or all of it is written.\<close>

datatype socket_write = Written | PastDeadline | TimeoutRefused io_kind | WriteFailed io_kind

fun write_socket :: "string \<Rightarrow> socket_write \<Rightarrow> unit cresult" where
  "write_socket context Written = Inr ()"
| "write_socket context PastDeadline = Inl (Protocol ''TCP write deadline expired'')"
| "write_socket context (TimeoutRefused kind) = Inl (Io ''set TCP write timeout'' kind)"
| "write_socket context (WriteFailed kind) = Inl (Io context kind)"

lemma write_socket_Inr [simp]: "write_socket context sock = Inr () \<longleftrightarrow> sock = Written"
  by (cases sock) auto

definition write_wire :: "socket_write \<Rightarrow> wire_frame \<Rightarrow> usize \<Rightarrow> u8 list cresult" where
  "write_wire sock frame maximum =
     rbind (encode_wire frame maximum) (\<lambda>body.
     rbind (write_socket ''write TCP frame'' sock) (\<lambda>_.
       Inr (u64_bytes (of_nat (length body)) @ body)))"

definition read_wire :: "bool \<times> bool \<Rightarrow> io_kind \<Rightarrow> usize \<Rightarrow> u8 list \<Rightarrow> wire_frame cresult \<times> u8 list" where
  "read_wire late ending maximum stream =
     (if fst late then (Inl (Protocol ''TCP read deadline expired''), stream)
      else if length stream < 8 then (Inl (Io ''read TCP frame length'' ending), [])
      else let len = le_value (take 8 stream); stream = drop 8 stream in
        if len > maximum
        then (Inl (Protocol (''incoming frame is '' @ show_nat len @ '' bytes, maximum is '' @ show_nat maximum)), stream)
        else if snd late then (Inl (Protocol ''TCP read deadline expired''), stream)
        else if length stream < len then (Inl (Io ''read TCP frame body'' ending), [])
        else (decode_wire (take len stream), drop len stream))"

lemma read_wire_shorter:
  "read_wire late ending maximum stream = (Inr f, rest) \<Longrightarrow> length rest < length stream"
  by (auto simp: read_wire_def Let_def split: if_splits)

section \<open>Error classes\<close>

fun str_contains :: "string \<Rightarrow> string \<Rightarrow> bool" where
  "str_contains pat [] = (pat = [])"
| "str_contains pat (c # cs) = (take (length pat) (c # cs) = pat \<or> str_contains pat cs)"

fun is_timeout_error :: "collectives_error \<Rightarrow> bool" where
  "is_timeout_error (Io context kind) = (kind = TimedOut \<or> kind = WouldBlock)"
| "is_timeout_error (Protocol message) = str_contains ''deadline expired'' message"
| "is_timeout_error _ = False"

fun is_disconnect_error :: "collectives_error \<Rightarrow> bool" where
  "is_disconnect_error (Io context kind) =
     (kind = UnexpectedEof \<or> kind = ConnectionReset \<or> kind = BrokenPipe \<or> kind = NotConnected)"
| "is_disconnect_error _ = False"

section \<open>Endpoints\<close>

record peer_info =
  pi_rank :: usize
  pi_address :: string

record tcp_transport =
  tcp_rank :: rank
  tcp_peers :: "peer_info list"
  tcp_readers :: "u8 list option list"
  tcp_pending :: "wire_frame list list"
  tcp_operation_timeout :: duration
  tcp_max_tensor_bytes :: usize
  tcp_barrier_generation :: u64

definition tcp_send_frame :: "socket_write \<Rightarrow> tcp_transport \<Rightarrow> usize \<Rightarrow> wire_frame \<Rightarrow> u8 list cresult" where
  "tcp_send_frame sock ep destination frame =
     rbind (validate_peer (tcp_rank ep) destination) (\<lambda>_.
       write_wire sock frame (tcp_max_tensor_bytes ep))"

fun tcp_frame :: "usize \<Rightarrow> usize \<Rightarrow> message_tag \<Rightarrow> f32 message_payload \<Rightarrow> wire_frame" where
  "tcp_frame source destination tag (TensorPayload packet) = TensorFrame source destination tag packet"
| "tcp_frame source destination tag (ControlPayload packet) = ControlFrame source destination tag packet"

definition tcp_send :: "socket_write \<Rightarrow> tcp_transport \<Rightarrow> usize \<Rightarrow> message_tag \<Rightarrow> f32 message_payload \<Rightarrow> u8 list cresult" where
  "tcp_send sock ep destination tag payload =
     tcp_send_frame sock ep destination (tcp_frame (global_rank (tcp_rank ep)) destination tag payload)"

definition tcp_read_from ::
  "bool \<times> bool \<Rightarrow> io_kind \<Rightarrow> usize \<Rightarrow> tcp_transport \<Rightarrow> wire_frame cresult \<times> tcp_transport" where
  "tcp_read_from late ending source ep =
     (case validate_peer (tcp_rank ep) source of
        Inl e \<Rightarrow> (Inl e, ep)
      | Inr _ \<Rightarrow>
          (case tcp_readers ep ! source of
             None \<Rightarrow> (Inl (WorkerPanicked (global_rank (tcp_rank ep)) ''connected distinct peer has reader''), ep)
           | Some stream \<Rightarrow>
               (case read_wire late ending (tcp_max_tensor_bytes ep) stream of
                  (Inl e, rest) \<Rightarrow> (Inl e, ep\<lparr>tcp_readers := (tcp_readers ep)[source := Some rest]\<rparr>)
                | (Inr frame, rest) \<Rightarrow>
                    (let ep = ep\<lparr>tcp_readers := (tcp_readers ep)[source := Some rest]\<rparr> in
                     if frame_source frame \<noteq> source \<or> frame_destination frame \<noteq> global_rank (tcp_rank ep)
                     then (Inl (Protocol (''rank '' @ show_nat (global_rank (tcp_rank ep)) @ '' received frame claiming ''
                             @ show_nat (frame_source frame) @ '' -> '' @ show_nat (frame_destination frame)
                             @ '' on peer '' @ show_nat source)), ep)
                     else (Inr frame, ep)))))"

fun unread :: "usize \<Rightarrow> tcp_transport \<Rightarrow> nat" where
  "unread source ep =
     (if source < length (tcp_readers ep)
      then (case tcp_readers ep ! source of None \<Rightarrow> 0 | Some stream \<Rightarrow> length stream) else 0)"

definition tcp_push_pending :: "usize \<Rightarrow> wire_frame \<Rightarrow> tcp_transport \<Rightarrow> tcp_transport" where
  "tcp_push_pending source frame ep =
     ep\<lparr>tcp_pending := (tcp_pending ep)[source := (tcp_pending ep ! source) @ [frame]]\<rparr>"

fun frame_payload :: "wire_frame \<Rightarrow> (message_tag \<times> f32 message_payload) option" where
  "frame_payload (TensorFrame s d tag packet) = Some (tag, TensorPayload packet)"
| "frame_payload (ControlFrame s d tag packet) = Some (tag, ControlPayload packet)"
| "frame_payload _ = None"

definition wire_matches :: "payload_kind \<Rightarrow> message_tag \<Rightarrow> wire_frame \<Rightarrow> bool" where
  "wire_matches q tag f \<longleftrightarrow> (case frame_payload f of None \<Rightarrow> False | Some m \<Rightarrow> mail_matches q tag m)"

definition wire_payload :: "wire_frame \<Rightarrow> f32 message_payload" where
  "wire_payload f = snd (the (frame_payload f))"

definition tcp_take_pending ::
  "payload_kind \<Rightarrow> usize \<Rightarrow> message_tag \<Rightarrow> tcp_transport \<Rightarrow> f32 message_payload option \<times> tcp_transport" where
  "tcp_take_pending q source tag ep =
     (case position (wire_matches q tag) (tcp_pending ep ! source) of
        None \<Rightarrow> (None, ep)
      | Some index \<Rightarrow>
          (case remove_at index (tcp_pending ep ! source) of
             None \<Rightarrow> (None, ep)
           | Some (f, rest) \<Rightarrow>
               (Some (wire_payload f), ep\<lparr>tcp_pending := (tcp_pending ep)[source := rest]\<rparr>)))"

definition recv_error :: "tcp_transport \<Rightarrow> usize \<Rightarrow> message_tag \<Rightarrow> collectives_error \<Rightarrow> collectives_error" where
  "recv_error ep source tag e =
     (if is_timeout_error e then ReceiveTimeout (global_rank (tcp_rank ep)) source tag (tcp_operation_timeout ep)
      else if is_disconnect_error e then ReceiveDisconnected (global_rank (tcp_rank ep)) source tag
      else e)"

lemma unread_push [simp]: "unread source (tcp_push_pending s f ep) = unread source ep"
  by (simp add: tcp_push_pending_def)

lemma tcp_read_from_shorter:
  "tcp_read_from late ending source ep = (Inr f, ep') \<Longrightarrow> source < length (tcp_readers ep) \<Longrightarrow>
     unread source ep' < unread source ep \<and> length (tcp_readers ep') = length (tcp_readers ep)"
  by (auto simp: tcp_read_from_def Let_def dest!: read_wire_shorter
      split: sum.splits option.splits prod.splits if_splits)

text \<open>The loop reads until a frame matches; every other frame is put aside. Out of range
  (where the code would panic before the loop) it stops at once.\<close>

function tcp_recv_loop ::
  "payload_kind \<Rightarrow> (nat \<Rightarrow> bool \<times> bool) \<Rightarrow> io_kind \<Rightarrow> usize \<Rightarrow> message_tag \<Rightarrow> nat \<Rightarrow> tcp_transport \<Rightarrow>
     f32 message_payload cresult \<times> tcp_transport" where
  "tcp_recv_loop q late ending source tag i ep =
     (if length (tcp_readers ep) \<le> source
      then (Inl (WorkerPanicked (global_rank (tcp_rank ep)) ''index out of bounds''), ep)
      else case tcp_read_from (late i) ending source ep of
        (Inl e, ep') \<Rightarrow> (Inl (recv_error ep source tag e), ep')
      | (Inr frame, ep') \<Rightarrow>
          if wire_matches q tag frame then (Inr (wire_payload frame), ep')
          else tcp_recv_loop q late ending source tag (Suc i) (tcp_push_pending source frame ep'))"
  by pat_completeness auto
termination
  by (relation "measure (\<lambda>(q, late, ending, source, tag, i, ep). unread source ep)")
     (auto simp del: unread.simps dest!: tcp_read_from_shorter [OF sym])

declare tcp_recv_loop.simps [simp del]

definition tcp_recv ::
  "payload_kind \<Rightarrow> (nat \<Rightarrow> bool \<times> bool) \<Rightarrow> io_kind \<Rightarrow> usize \<Rightarrow> message_tag \<Rightarrow> tcp_transport \<Rightarrow>
     f32 message_payload cresult \<times> tcp_transport" where
  "tcp_recv q late ending source tag ep =
     (case validate_peer (tcp_rank ep) source of
        Inl e \<Rightarrow> (Inl e, ep)
      | Inr _ \<Rightarrow>
          (case tcp_take_pending q source tag ep of
             (Some payload, ep') \<Rightarrow> (Inr payload, ep')
           | (None, ep') \<Rightarrow> tcp_recv_loop q late ending source tag 0 ep'))"

section \<open>Barrier\<close>

fun is_barrier_frame :: "wire_frame \<Rightarrow> bool" where
  "is_barrier_frame (BarrierArrive s d g) = True"
| "is_barrier_frame (BarrierRelease s d g) = True"
| "is_barrier_frame _ = False"

fun is_tensor_frame :: "wire_frame \<Rightarrow> bool" where
  "is_tensor_frame (TensorFrame s d t p) = True"
| "is_tensor_frame _ = False"

fun expected_barrier :: "bool \<Rightarrow> u64 \<Rightarrow> wire_frame \<Rightarrow> bool" where
  "expected_barrier expected_arrive gen (BarrierArrive s d actual) = (expected_arrive \<and> actual = gen)"
| "expected_barrier expected_arrive gen (BarrierRelease s d actual) = (\<not> expected_arrive \<and> actual = gen)"
| "expected_barrier expected_arrive gen _ = False"

text \<open>\<open>show_frame\<close> stands for the derived \<open>Debug\<close> text of a frame in the error message.\<close>

definition barrier_frame_error :: "(wire_frame \<Rightarrow> string) \<Rightarrow> u64 \<Rightarrow> wire_frame \<Rightarrow> collectives_error" where
  "barrier_frame_error show_frame gen f =
     Protocol (''unexpected barrier frame '' @ show_frame f @ '', expected generation '' @ show_nat (unat gen))"

definition barrier_read_error :: "tcp_transport \<Rightarrow> u64 \<Rightarrow> collectives_error \<Rightarrow> collectives_error" where
  "barrier_read_error ep gen e =
     (if is_timeout_error e then BarrierTimeout (global_rank (tcp_rank ep)) gen (tcp_operation_timeout ep) else e)"

text \<open>
  Each turn first looks for a queued barrier frame, which decides the call at once; only a
  tensor frame read from the stream makes the loop go on.
\<close>

function recv_barrier ::
  "(wire_frame \<Rightarrow> string) \<Rightarrow> (nat \<Rightarrow> bool \<times> bool) \<Rightarrow> io_kind \<Rightarrow> usize \<Rightarrow> bool \<Rightarrow> u64 \<Rightarrow> nat \<Rightarrow> tcp_transport \<Rightarrow>
     unit cresult \<times> tcp_transport" where
  "recv_barrier show_frame late ending source expected_arrive gen i ep =
     (if length (tcp_readers ep) \<le> source
      then (Inl (WorkerPanicked (global_rank (tcp_rank ep)) ''index out of bounds''), ep)
      else case extract_first is_barrier_frame (tcp_pending ep ! source) of
        Some (f, rest) \<Rightarrow>
          (let ep = ep\<lparr>tcp_pending := (tcp_pending ep)[source := rest]\<rparr> in
           if expected_barrier expected_arrive gen f then (Inr (), ep)
           else (Inl (barrier_frame_error show_frame gen f), ep))
      | None \<Rightarrow>
          (case tcp_read_from (late i) ending source ep of
             (Inl e, ep') \<Rightarrow> (Inl (barrier_read_error ep gen e), ep')
           | (Inr f, ep') \<Rightarrow>
               if is_tensor_frame f
               then recv_barrier show_frame late ending source expected_arrive gen (Suc i) (tcp_push_pending source f ep')
               else if expected_barrier expected_arrive gen f then (Inr (), ep')
               else (Inl (barrier_frame_error show_frame gen f), ep')))"
  by pat_completeness auto
termination
  by (relation "measure (\<lambda>(sf, late, ending, source, ea, g, i, ep). unread source ep)")
     (auto simp del: unread.simps extract_first_None dest!: tcp_read_from_shorter [OF sym])

declare recv_barrier.simps [simp del]

text \<open>\<open>for source in 1..world { recv_barrier }\<close>, then \<open>for destination in 1..world { send }\<close>: the
  bytes written to each destination, in order.\<close>

fun barrier_collect ::
  "(wire_frame \<Rightarrow> string) \<Rightarrow> (usize \<Rightarrow> nat \<Rightarrow> bool \<times> bool) \<Rightarrow> (usize \<Rightarrow> io_kind) \<Rightarrow> u64 \<Rightarrow> usize list \<Rightarrow> tcp_transport \<Rightarrow>
     unit cresult \<times> tcp_transport" where
  "barrier_collect show_frame late ending gen [] ep = (Inr (), ep)"
| "barrier_collect show_frame late ending gen (source # sources) ep =
     (case recv_barrier show_frame (late source) (ending source) source True gen 0 ep of
        (Inl e, ep') \<Rightarrow> (Inl e, ep')
      | (Inr _, ep') \<Rightarrow> barrier_collect show_frame late ending gen sources ep')"

definition tcp_barrier ::
  "(wire_frame \<Rightarrow> string) \<Rightarrow> (usize \<Rightarrow> nat \<Rightarrow> bool \<times> bool) \<Rightarrow> (usize \<Rightarrow> io_kind) \<Rightarrow> (usize \<Rightarrow> socket_write) \<Rightarrow> tcp_transport \<Rightarrow>
     unit cresult \<times> (usize \<times> u8 list) list \<times> tcp_transport" where
  "tcp_barrier show_frame late ending sock ep =
     (let current = tcp_barrier_generation ep; rank = global_rank (tcp_rank ep);
          advance = (\<lambda>out ep. case checked_add current 1 of
              None \<Rightarrow> (Inl (Protocol ''barrier generation overflow''), out, ep)
            | Some g \<Rightarrow> (Inr (), out, ep\<lparr>tcp_barrier_generation := g\<rparr>)) in
      if rank = 0 then
        (case barrier_collect show_frame late ending current [1..<world_size (tcp_rank ep)] ep of
           (Inl e, ep') \<Rightarrow> (Inl e, [], ep')
         | (Inr _, ep') \<Rightarrow>
             (case collect_results (map (\<lambda>destination. map_err (\<lambda>e. (destination, e))
                 (rbind (tcp_send_frame (sock destination) ep' destination
                     (BarrierRelease 0 destination current)) (\<lambda>bytes. Inr (destination, bytes))))
                 [1..<world_size (tcp_rank ep)]) of
                Inl (destination, e) \<Rightarrow>
                  (Inl e, map (\<lambda>d. (d, projr (tcp_send_frame (sock d) ep' d (BarrierRelease 0 d current))))
                     [1..<destination], ep')
              | Inr out \<Rightarrow> advance out ep'))
      else
        (case tcp_send_frame (sock 0) ep 0 (BarrierArrive rank 0 current) of
           Inl e \<Rightarrow> (Inl e, [], ep)
         | Inr bytes \<Rightarrow>
             (case recv_barrier show_frame (late 0) (ending 0) 0 False current 0 ep of
                (Inl e, ep') \<Rightarrow> (Inl e, [(0, bytes)], ep')
              | (Inr _, ep') \<Rightarrow> advance [(0, bytes)] ep')))"

end
