(* ===== verification/TensorRunner.thy ===== *)
theory TensorRunner
  imports TensorParallel Pipeline TcpTransport
begin

text \<open>
  One tensor-parallel rank (\<open>crates/tensor/src/runner.rs\<close>) as a rank program of \<open>World\<close>, with its
  manifest and report (\<open>crates/tensor/src/report.rs\<close>). All ranks run the whole model on their
  shards; rank 0 picks each token and tells the others. A communication error ends the
  program with \<open>Fail\<close>, every other error is returned. Clock readings and the constant part of the
  event envelope (schema version, run and request id) are left out.

  Outside the model: the checkpoint file, the tokenizer and the JSON codec, as the fields of
  \<open>tensor_env\<close>.
\<close>

section \<open>Manifest, decision, report\<close>

record tensor_parallel_manifest =
  tman_schema_version :: u32
  tman_run_id :: string
  tman_request_id :: string
  tman_model :: supported_model_id
  tman_dtype :: plan_dtype
  tman_tensor_parallel :: usize
  tman_all_reduce :: all_reduce_algorithm
  tman_prompt_token_ids :: "u32 list"
  tman_requested_max_new_tokens :: usize
  tman_effective_max_new_tokens :: usize
  tman_context_capacity :: usize
  tman_checkpoint_path :: string
  tman_tokenizer_path :: string
  tman_partition :: tensor_parallel_partition
  tman_expected_cpu_millis :: u64
  tman_expected_memory_bytes :: u64

definition DECISION_TAG_BASE :: u64 where
  "DECISION_TAG_BASE = 0x3000000000000000"

record token_decision =
  td_step :: usize
  td_token :: u32
  td_emit :: bool
  td_continue_generation :: bool
  td_stop_reason :: "stop_reason option"

record tensor_parallel_rank_report =
  tprr_schema_version :: u32
  tprr_run_id :: string
  tprr_request_id :: string
  tprr_rank :: usize
  tprr_peers :: "peer_info list"
  tprr_memory :: tensor_parallel_memory_plan
  tprr_resources :: resource_snapshot
  tprr_final_kv_cache_bytes :: u64
  tprr_collectives :: "collective_trace list"
  tprr_sent_bytes :: u64
  tprr_received_bytes :: u64
  tprr_generated_tokens :: "u32 list"
  tprr_completion :: string
  tprr_stop_reason :: stop_reason
  tprr_decode_forward_count :: usize
  tprr_events :: "run_event list"
  tprr_barriers_passed :: bool
  tprr_success :: bool

record ('v, 'd) tensor_env =
  te_ops :: "'v candle_ops"
  te_scalars :: "'v scalar_ops"
  te_checkpoint :: "string \<Rightarrow> candle_error + 'v checkpoint"
  te_tokenizer :: "string \<Rightarrow> string + 'd tokenizer"
  te_to_json :: "token_decision \<Rightarrow> string + u8 list"
  te_from_json :: "u8 list \<Rightarrow> string + token_decision"

section \<open>Events\<close>

fun show_algorithm :: "collective_algorithm \<Rightarrow> string" where
  "show_algorithm DirectAlg = ''Direct''"
| "show_algorithm CentralizedAlg = ''Centralized''"
| "show_algorithm PairwiseAlg = ''Pairwise''"
| "show_algorithm RingAlg = ''Ring''"

fun emit_collective :: "collective_event \<Rightarrow> event_recorder \<Rightarrow> event_recorder" where
  "emit_collective (collective_event.CollectiveStarted d) =
     emit (TensorCollectiveStarted (to_ascii_lowercase (show_kind (d_kind d)))
       (to_ascii_lowercase (show_algorithm (d_algorithm d))) (d_sequence d) (d_input_shape d))"
| "emit_collective (collective_event.CollectiveCompleted t) =
     emit (TensorCollectiveCompleted (to_ascii_lowercase (show_kind (d_kind (tr_descriptor t))))
       (d_sequence (tr_descriptor t)) (tr_sent_bytes t) (tr_received_bytes t))"

definition event_observer :: "execution_phase \<Rightarrow> usize \<Rightarrow> event_recorder tp_observer" where
  "event_observer phase step =
     \<lparr>ob_layer_started = (\<lambda>l. emit (LayerStarted l phase step)),
      ob_layer_completed = (\<lambda>l. emit (LayerCompleted l phase step)),
      ob_collective = emit_collective\<rparr>"

text \<open>What the generation loop changes.\<close>

record 'v tensor_run =
  tru_tp :: "('v, event_recorder) tp_state"
  tru_input :: "u32 tensor"
  tru_position :: usize
  tru_tokens :: "u32 list"
  tru_decode_forward_count :: usize

definition emit_run :: "run_event_kind \<Rightarrow> 'v tensor_run \<Rightarrow> 'v tensor_run" where
  "emit_run k rs = rs\<lparr>tru_tp := (tru_tp rs)\<lparr>ts_observer := emit k (ts_observer (tru_tp rs))\<rparr>\<rparr>"

definition tensor_barrier :: "u64 \<Rightarrow> 'v tensor_run \<Rightarrow> ('v, 'v tensor_run tresult) prog" where
  "tensor_barrier generation rs =
     (let rs1 = emit_run (run_event_kind.CollectiveStarted EvBarrier generation) rs in
      Barrier (Ret (Inr (emit_run (run_event_kind.CollectiveCompleted EvBarrier generation) rs1))))"

section \<open>One step\<close>

text \<open>What stays fixed during the loop of one rank.\<close>

record ('v, 'd) tensor_context =
  tc_rank :: rank
  tc_model :: "'v tp_llama"
  tc_config :: model_config
  tc_manifest :: tensor_parallel_manifest
  tc_env :: "('v, 'd) tensor_env"

definition lift_runtime :: "('v, 'a dresult) prog \<Rightarrow> ('v, 'a tresult) prog" where
  "lift_runtime p = pbind p (\<lambda>r. Ret (map_err TpRuntime r))"

definition start_step :: "('v, 'd) tensor_context \<Rightarrow> usize \<Rightarrow> 'v tensor_run \<Rightarrow> 'v tensor_run" where
  "start_step cx step rs =
     (if step = 0 then emit_run (PrefillStarted (length (tman_prompt_token_ids (tc_manifest cx)))) rs
      else emit_run (DecodeStepStarted step) rs)"

definition forward_step ::
  "('v, 'd) tensor_context \<Rightarrow> usize \<Rightarrow> 'v tensor_run \<Rightarrow> ('v, ('v tensor \<times> 'v tensor_run) tresult) prog" where
  "forward_step cx step rs =
     pr_bind (lift_runtime (tp_forward_observed (te_ops (tc_env cx)) (te_scalars (tc_env cx))
         (event_observer (phase_of step) step) (tc_model cx) (tru_input rs) (tru_position rs) (tru_tp rs))) (\<lambda>(logits, s).
     Ret (Inr (logits, rs\<lparr>tru_tp := s, tru_decode_forward_count :=
         (if step = 0 then tru_decode_forward_count rs else tru_decode_forward_count rs + 1)\<rparr>)))"

text \<open>Greedy choice over the logits, whose shape is \<open>[1, V]\<close>, and the decision rank 0 takes.\<close>

definition choose_token :: "('v, 'd) tensor_context \<Rightarrow> usize \<Rightarrow> 'v tensor \<Rightarrow> token_decision tresult" where
  "choose_token cx step logits =
     rbind (map_err TpTensor (rbind (squeeze logits 0) (op_argmax (te_ops (tc_env cx))))) (\<lambda>token.
     let mf = tc_manifest cx;
         emits = (token \<noteq> eos_token_id (tc_config cx));
         at_limit = (step + 1 = tman_effective_max_new_tokens mf);
         reason = (if \<not> emits then Some Eos
           else if at_limit \<and> tman_effective_max_new_tokens mf < tman_requested_max_new_tokens mf then Some ContextLimit
           else if at_limit then Some MaxNewTokens
           else None) in
     Inr \<lparr>td_step = step, td_token = token, td_emit = emits, td_continue_generation = (reason = None),
          td_stop_reason = reason\<rparr>)"

fun send_token_decisions ::
  "rank \<Rightarrow> message_tag \<Rightarrow> u8 list \<Rightarrow> usize \<Rightarrow> usize list \<Rightarrow> 'v tensor_run \<Rightarrow> ('v, 'v tensor_run tresult) prog" where
  "send_token_decisions rk tag bytes step [] rs = Ret (Inr rs)"
| "send_token_decisions rk tag bytes step (peer # peers) rs =
     pbind (send_control rk peer tag bytes) (\<lambda>_.
     send_token_decisions rk tag bytes step peers
       (emit_run (ControlSent peer TensorDecision (phase_of step) step (of_nat (length bytes))) rs))"

definition exchange_token ::
  "('v, 'd) tensor_context \<Rightarrow> usize \<Rightarrow> 'v tensor \<Rightarrow> 'v tensor_run \<Rightarrow> ('v, (token_decision \<times> 'v tensor_run) tresult) prog" where
  "exchange_token cx step logits rs =
     (let rk = tc_rank cx; tag = DECISION_TAG_BASE + of_nat step in
      if global_rank rk = 0
      then pr_bind (Ret (choose_token cx step logits)) (\<lambda>d.
        pr_bind (Ret (map_err TpJson (te_to_json (tc_env cx) d))) (\<lambda>bytes.
        pr_bind (send_token_decisions rk tag bytes step [1..<tman_tensor_parallel (tc_manifest cx)] rs) (\<lambda>rs1.
        Ret (Inr (d, rs1)))))
      else pbind (recv_control rk 0 tag) (\<lambda>bytes.
        let rs1 = emit_run (ControlReceived 0 TensorDecision (phase_of step) step (of_nat (length bytes))) rs in
        pr_bind (Ret (map_err TpJson (te_from_json (tc_env cx) bytes))) (\<lambda>d. Ret (Inr (d, rs1)))))"

definition accept_decision ::
  "('v, 'd) tensor_context \<Rightarrow> usize \<Rightarrow> token_decision \<Rightarrow> 'v tensor_run \<Rightarrow> 'v tensor_run tresult" where
  "accept_decision cx step d rs =
     (if td_step d \<noteq> step then Inl (InvalidRequest ''stale token decision step'')
      else
        let rs1 = (if td_emit d
              then let rs0 = rs\<lparr>tru_tokens := tru_tokens rs @ [td_token d]\<rparr> in
                   if global_rank (tc_rank cx) = 0 then emit_run (TokenGenerated (td_token d) []) rs0 else rs0
              else rs) in
        Inr (if step = 0 then emit_run PrefillFinished rs1 else emit_run (DecodeStepFinished step) rs1))"

definition tensor_step ::
  "('v, 'd) tensor_context \<Rightarrow> usize \<Rightarrow> 'v tensor_run \<Rightarrow> ('v, (token_decision \<times> 'v tensor_run) tresult) prog" where
  "tensor_step cx step rs =
     pr_bind (forward_step cx step (start_step cx step rs)) (\<lambda>(logits, rs1).
     pr_bind (exchange_token cx step logits rs1) (\<lambda>(d, rs2).
     pr_bind (Ret (accept_decision cx step d rs2)) (\<lambda>rs3. Ret (Inr (d, rs3)))))"

text \<open>\<open>for step in 0..effective_max_new_tokens\<close>, with \<open>break\<close> at the first decision that ends the run.\<close>

fun tensor_loop ::
  "('v, 'd) tensor_context \<Rightarrow> usize list \<Rightarrow> 'v tensor_run \<Rightarrow> ('v, (stop_reason option \<times> 'v tensor_run) tresult) prog" where
  "tensor_loop cx [] rs = Ret (Inr (None, rs))"
| "tensor_loop cx (step # steps) rs =
     pr_bind (tensor_step cx step rs) (\<lambda>(d, rs1).
     if \<not> td_continue_generation d
     then Ret (rbind (ok_or (InvalidRequest ''terminal decision omitted stop reason'') (td_stop_reason d)) (\<lambda>reason.
            Inr (Some reason, rs1)))
     else pr_bind (Ret (map_err TpTensor (tensor_dim (tru_input rs1) 1))) (\<lambda>n.
       tensor_loop cx steps (rs1\<lparr>tru_position := tru_position rs1 + n, tru_input := token_input [td_token d]\<rparr>)))"

section \<open>The whole rank\<close>

definition prepare_tensor_rank ::
  "('v, 'd) tensor_env \<Rightarrow> rank \<Rightarrow> tensor_parallel_manifest
     \<Rightarrow> (tensor_parallel_memory_plan \<times> 'v tp_llama \<times> 'v kv_cache) tresult" where
  "prepare_tensor_rank env rk mf =
     (if tman_schema_version mf \<noteq> 1 \<or> tman_dtype mf \<noteq> PlanF32
      then Inl (InvalidRequest ''unsupported manifest schema or dtype'')
      else if world_size rk \<noteq> tman_tensor_parallel mf \<or> tpp_tensor_parallel (tman_partition mf) \<noteq> tman_tensor_parallel mf
      then Inl (InvalidRequest ''manifest and transport topology disagree'')
      else
        rbind (if global_rank rk < length (tpp_ranks (tman_partition mf))
               then Inr (tpp_ranks (tman_partition mf) ! global_rank rk)
               else Inl (InvalidRequest (''manifest has no rank '' @ show_nat (global_rank rk) @ '' plan''))) (\<lambda>memory.
        let s = spec (tman_model mf); ops = te_ops env in
        rbind (map_err TpTensor (te_checkpoint env (tman_checkpoint_path mf))) (\<lambda>ck.
        rbind (map_err TpRuntime (tensor_parallel (global_rank rk) (tman_tensor_parallel mf))) (\<lambda>p.
        rbind (map_err TpRuntime (tp_load_sharded ops ck (config s) p (tman_context_capacity mf) (tman_all_reduce mf))) (\<lambda>m.
        rbind (map_err TpRuntime (kv_new_tensor_parallel (op_zero ops) (config s) (tman_tensor_parallel mf)
                 (tman_context_capacity mf) F32)) (\<lambda>cache.
        Inr (memory, m, cache)))))))"

definition local_config :: "model_config \<Rightarrow> usize \<Rightarrow> model_config" where
  "local_config cfg tp =
     cfg\<lparr>hidden_size := hidden_size cfg div tp, num_attention_heads := num_attention_heads cfg div tp,
         num_key_value_heads := num_key_value_heads cfg div tp\<rparr>"

definition run_tensor_parallel_rank ::
  "('v, 'd) tensor_env \<Rightarrow> rank \<Rightarrow> tensor_parallel_manifest \<Rightarrow> peer_info list \<Rightarrow> resource_snapshot
     \<Rightarrow> ('v, tensor_parallel_rank_report tresult) prog" where
  "run_tensor_parallel_rank env rk mf peers rsn =
     pr_bind (Ret (prepare_tensor_rank env rk mf)) (\<lambda>(memory, m, cache).
     let s = spec (tman_model mf);
         rec0 = emit ModelLoadFinished (emit ModelLoadStarted
                  (emit (MemorySample (rsn_memory_current_bytes rsn) (rsn_memory_limit_bytes rsn))
                     (recorder_new (global_rank rk))));
         rs0 = \<lparr>tru_tp = \<lparr>ts_cache = cache, ts_collectives = native_new rk, ts_observer = rec0\<rparr>,
                tru_input = token_input (tman_prompt_token_ids mf), tru_position = 0, tru_tokens = [],
                tru_decode_forward_count = 0\<rparr> in
     pr_bind (tensor_barrier 0 rs0) (\<lambda>rs1.
     pr_bind (Ret (if global_rank rk = 0
                   then rbind (map_err TpTokenizer (te_tokenizer env (tman_tokenizer_path mf))) (\<lambda>t. Inr (Some t))
                   else Inr None)) (\<lambda>tok.
     let cx = \<lparr>tc_rank = rk, tc_model = m, tc_config = config s, tc_manifest = mf, tc_env = env\<rparr> in
     pr_bind (tensor_loop cx [0..<tman_effective_max_new_tokens mf] rs1) (\<lambda>(stop, rs2).
     pr_bind (Ret (ok_or (InvalidRequest ''generation ended without a stop reason'') stop)) (\<lambda>reason.
     pr_bind (tensor_barrier 1 (emit_run (GenerationFinished reason) rs2)) (\<lambda>rs3.
     let trs = fst (take_traces (ts_collectives (tru_tp rs3))) in
     pr_bind (Ret (case tok of Some t \<Rightarrow> map_err TpTokenizer (tok_decode t (tru_tokens rs3)) | None \<Rightarrow> Inr [])) (\<lambda>completion.
     pr_bind (Ret (map_err TpRuntime (kv_used_bytes (ts_cache (tru_tp rs3))
                (local_config (config s) (tman_tensor_parallel mf)) F32))) (\<lambda>used.
     Ret (Inr \<lparr>tprr_schema_version = 1, tprr_run_id = tman_run_id mf, tprr_request_id = tman_request_id mf,
               tprr_rank = global_rank rk, tprr_peers = peers, tprr_memory = memory, tprr_resources = rsn,
               tprr_final_kv_cache_bytes = used, tprr_collectives = trs,
               tprr_sent_bytes = sum_list (map tr_sent_bytes trs),
               tprr_received_bytes = sum_list (map tr_received_bytes trs),
               tprr_generated_tokens = tru_tokens rs3, tprr_completion = completion, tprr_stop_reason = reason,
               tprr_decode_forward_count = tru_decode_forward_count rs3,
               tprr_events = er_events (ts_observer (tru_tp rs3)), tprr_barriers_passed = True,
               tprr_success = True\<rparr>)))))))))"

end
