(* ===== verification/RingAllReduce.thy ===== *)
theory RingAllReduce
  imports RingProofs "HOL-Library.Multiset"
begin

text \<open>
  The ring all-reduce as a whole: every rank ends with the same tensor, which element is
  summed in which order, what every rank sends and receives, and that the ring agrees with
  the centralized algorithm where addition is associative and commutative.
\<close>

section \<open>Splitting and joining the flattened tensor\<close>

abbreviation own_chunk :: "nat \<Rightarrow> (usize \<Rightarrow> 'v list) \<Rightarrow> usize \<Rightarrow> usize \<Rightarrow> 'v list" where
  "own_chunk c v i j \<equiv> block (j * c) c (v i)"

definition ring_result :: "('v \<Rightarrow> 'v \<Rightarrow> 'v) \<Rightarrow> nat \<Rightarrow> nat \<Rightarrow> (usize \<Rightarrow> 'v list) \<Rightarrow> 'v list" where
  "ring_result add W c v = concat (map (full_sum add W (own_chunk c v)) [0..<W])"

lemma length_own_chunk:
  "length (v i) = W * c \<Longrightarrow> j < W \<Longrightarrow> length (own_chunk c v i j) = c"
  using mult_le_mono1 [of "Suc j" W c] by (intro length_block) simp

lemma cpu_f32_flat [simp]:
  "flatten_all (cpu_f32 ds vs) = cpu_f32 [prod_list ds] vs" "elem_count (cpu_f32 ds vs) = prod_list ds"
  by (simp_all add: flatten_all_def elem_count_def cpu_f32_def)

lemma reshape_good: "prod_list ds = prod_list es \<Longrightarrow> reshape (cpu_f32 es vs) ds = Inr (cpu_f32 ds vs)"
  by (simp add: reshape_def cpu_f32_def elem_count_def)

lemma length_full_sum:
  assumes "\<And>r. r < W \<Longrightarrow> length (v r) = W * c" "j < W"
  shows "length (full_sum add W (own_chunk c v) j) = c"
  unfolding full_sum_def using assms
  by (intro length_partial_sum) (auto intro: length_own_chunk [of v _ W c j])

lemma split_chunks:
  assumes "length vs = W * c"
  shows "collect_results (map (\<lambda>j. narrow (cpu_f32 [W * c] vs) 0 (j * c) c) [0..<W]) =
     Inr (tensors W c (\<lambda>j. block (j * c) c vs))"
proof -
  have "narrow (cpu_f32 [W * c] vs) 0 (j * c) c = Inr (cpu_f32 [c] (block (j * c) c vs))" if "j < W" for j
    using that assms mult_le_mono1 [of "Suc j" W c]
    by (subst narrow_good) (simp_all add: narrow_values_def outer_size_def inner_size_def)
  then show ?thesis by (simp add: collect_results_Inr tensors_def)
qed

lemma join_chunks:
  assumes "\<And>r. r < W \<Longrightarrow> length (v r) = W * c" "0 < W"
  shows "tensor_cat (tensors W c (full_sum add W (own_chunk c v))) 0 = Inr (cpu_f32 [W * c] (ring_result add W c v))"
proof -
  have "cat_values W [c] 0 (full_sum add W (own_chunk c v)) = ring_result add W c v"
    using length_full_sum [OF assms(1)]
    by (auto simp: cat_values_def ring_result_def outer_size_def inner_size_def block_def
        intro!: arg_cong [where f = concat] map_cong)
  with cat_good [of 0 "[c]" W "full_sum add W (own_chunk c v)"] length_full_sum [OF assms(1)] assms(2)
  show ?thesis unfolding tensors_def by simp
qed

lemma length_ring_result:
  assumes "\<And>r. r < W \<Longrightarrow> length (v r) = W * c"
  shows "length (ring_result add W c v) = W * c"
  unfolding ring_result_def using length_full_sum [OF assms]
  by (subst length_concat_const [where n = c]) auto

lemma good_shape_flat: "4 * c < 2 ^ 64 \<Longrightarrow> good_shape [c]"
  by (simp add: good_shape_def element_count_def usize_checked_mul_def)

lemma good_shape_chunk:
  assumes "good_shape ds" "prod_list ds = W * c" "0 < W"
  shows "good_shape [c]"
proof (rule good_shape_flat)
  have "4 * c \<le> 4 * (W * c)" using assms(3) by simp
  also have "\<dots> < 2 ^ 64" using assms(1,2) by (simp add: good_shape_def)
  finally show "4 * c < 2 ^ 64" .
qed

section \<open>The whole operation\<close>

lemma ring_all_reduce_computes:
  assumes W: "1 < W" "W \<le> 256" and n: "unat n < 2 ^ 44" and ds: "good_shape ds" "prod_list ds = W * c"
    and len: "\<And>r. r < W \<Longrightarrow> length (v r) = W * c"
  shows "computes W (\<lambda>r. ring_all_reduce add (member W r) (cpu_f32 ds (v r)) n)
     (\<lambda>r. (cpu_f32 ds (ring_result add W c v),
           of_nat (2 * (W - 1)) * shape_bytes [c], of_nat (2 * (W - 1)) * shape_bytes [c]))"
proof -
  have c: "good_shape [c]" using good_shape_chunk [OF ds] W by simp
  have own: "length (own_chunk c v i j) = c" if "i < W" "j < W" for i j
    using that len by (intro length_own_chunk [of v i W c j]) auto
  let ?own = "own_chunk c v" and ?b = "of_nat (W - 1) * shape_bytes [c]"
  let ?join = "\<lambda>r x. case x of (chunks, sent, received) \<Rightarrow>
      pbind (lift_result (map_err TensorError (tensor_cat chunks 0))) (\<lambda>joined.
      pbind (lift_result (map_err TensorError (reshape joined ds))) (\<lambda>result. Ret (result, sent, received)))"
  let ?gather = "\<lambda>r x. case x of (chunks, sent, received) \<Rightarrow>
      pbind (ring_gather_steps (member W r) n [0..<W - 1] chunks sent received) (?join r)"
  have prog: "ring_all_reduce add (member W r) (cpu_f32 ds (v r)) n =
      pbind (ring_reduce_steps add (member W r) n [0..<W - 1] (tensors W c (reduce_chunk add W ?own 0 r)) 0 0)
        (?gather r)" if "r < W" for r
  proof -
    have "tensors W c (reduce_chunk add W ?own 0 r) = tensors W c (?own r)"
      using that by (simp add: tensors_def reduce_chunk_0)
    then show ?thesis
      using that W ds split_chunks [OF len [OF that]]
      by (simp add: ring_all_reduce_def Let_def case_prod_unfold)
  qed
  have reduce: "computes W (\<lambda>r. ring_reduce_steps add (member W r) n [0..<W - 1]
       (tensors W c (reduce_chunk add W ?own 0 r)) 0 0)
     (\<lambda>r. (tensors W c (reduce_chunk add W ?own (W - 1) r), ?b, ?b))"
    using ring_reduce_computes [OF W n c own, where k = 0] W by simp
  have enter: "tensors W c (reduce_chunk add W ?own (W - 1) r) = tensors W c (gather_chunk add W ?own 0 r)"
    if "r < W" for r using that W(1) by (simp add: tensors_def gather_chunk_0)
  have gather: "computes W (\<lambda>r. ring_gather_steps (member W r) n [0..<W - 1]
       (tensors W c (reduce_chunk add W ?own (W - 1) r)) ?b ?b)
     (\<lambda>r. (tensors W c (full_sum add W ?own), ?b + ?b, ?b + ?b))"
    by (rule iffD2 [OF computes_cong [OF _ refl]], subst enter, assumption, rule refl)
       (use ring_gather_computes [OF W n c own, where k = 0 and b = ?b and add = add] W in simp)
  have join: "computes W (\<lambda>r. ?join r (tensors W c (full_sum add W ?own), ?b + ?b, ?b + ?b))
     (\<lambda>r. (cpu_f32 ds (ring_result add W c v), ?b + ?b, ?b + ?b))"
    using computes_Ret [of W "\<lambda>r. (cpu_f32 ds (ring_result add W c v), ?b + ?b, ?b + ?b)"]
      join_chunks [OF len] W ds
    by (simp add: reshape_good)
  have both: "?b + ?b = of_nat (2 * (W - 1)) * shape_bytes [c]"
    by (simp only: mult_2 of_nat_add distrib_right)
  show ?thesis
    unfolding both [symmetric]
    by (rule iffD2 [OF computes_cong [OF prog refl]], assumption, rule computes_bind [OF reduce], unfold prod.case)
       (rule computes_bind [OF gather], use join in simp)
qed

section \<open>Which sum each element is\<close>

text \<open>The ranks in the order in which chunk \<open>j\<close> visits them.\<close>

definition ring_order :: "nat \<Rightarrow> usize \<Rightarrow> usize list" where
  "ring_order W j = map (\<lambda>m. (j + m) mod W) [0..<W]"

lemma nth_block: "s + n \<le> length vs \<Longrightarrow> x < n \<Longrightarrow> block s n vs ! x = vs ! (s + x)"
  by (simp add: block_def add.commute)

lemma partial_sum_nth:
  assumes len: "\<And>r. r < W \<Longrightarrow> length (v r) = W * c" and j: "j < W" and x: "x < c"
  shows "partial_sum add W (own_chunk c v) j m ! x =
     fold (\<lambda>s acc. add (v s ! (j * c + x)) acc) (map (\<lambda>m. (j + m) mod W) [1..<Suc m]) (v j ! (j * c + x))"
proof (induction m)
  case 0
  have "j * c + c \<le> length (v j)" using len [OF j] mult_le_mono1 [of "Suc j" W c] j by simp
  then show ?case using nth_block [of "j * c" c "v j" x] x by simp
next
  case (Suc m)
  let ?s = "(j + Suc m) mod W"
  have s: "?s < W" using j by simp
  have fit: "j * c + c \<le> length (v ?s)" using len [OF s] mult_le_mono1 [of "Suc j" W c] j by simp
  have "length (partial_sum add W (own_chunk c v) j m) = c"
    using len j by (intro length_partial_sum length_own_chunk [of v _ W c j]) auto
  then have "partial_sum add W (own_chunk c v) j (Suc m) ! x
      = add (v ?s ! (j * c + x)) (partial_sum add W (own_chunk c v) j m ! x)"
    using fit x nth_block [OF fit x] by simp
  then show ?case using Suc by simp
qed

lemma ring_result_nth:
  assumes len: "\<And>r. r < W \<Longrightarrow> length (v r) = W * c" and i: "i < W * c"
  shows "ring_result add W c v ! i = rank_sum (\<lambda>acc x. add x acc) v (ring_order W (i div c)) i"
proof -
  let ?j = "i div c" and ?x = "i mod c"
  have c: "0 < c" using i by (cases c) auto
  then have x: "?x < c" and j: "?j < W" using i by (simp_all add: less_mult_imp_div_less)
  have i': "?j * c + ?x = i" by simp
  have "block (?j * c) c (ring_result add W c v) = full_sum add W (own_chunk c v) ?j"
    unfolding ring_result_def by (rule block_of_blocks [OF length_full_sum [OF len] j])
  moreover have "?j * c + c \<le> length (ring_result add W c v)"
    using length_ring_result [OF len] mult_le_mono1 [of "Suc ?j" W c] j by simp
  ultimately have "ring_result add W c v ! i = partial_sum add W (own_chunk c v) ?j (W - 1) ! ?x"
    using nth_block [of "?j * c" c "ring_result add W c v" ?x] x i' by (simp add: full_sum_def)
  moreover have "ring_order W ?j = ?j # map (\<lambda>m. (?j + m) mod W) [1..<Suc (W - 1)]"
    using j by (simp add: ring_order_def upt_conv_Cons)
  ultimately show ?thesis
    using partial_sum_nth [where add = add and m = "W - 1", OF len j x] i' by (simp add: rank_sum_def)
qed

lemma ring_result_map:
  assumes "\<And>r. r < W \<Longrightarrow> length (v r) = W * c"
  shows "ring_result add W c v =
     map (\<lambda>i. rank_sum (\<lambda>acc x. add x acc) v (ring_order W (i div c)) i) [0..<W * c]"
  by (rule nth_equalityI) (use assms in \<open>auto simp: length_ring_result ring_result_nth\<close>)

text \<open>With associative and commutative addition the order of the ranks does not matter.\<close>

lemma sum_reorder:
  assumes assoc: "\<And>a b c. add (add a b) c = add a (add b c)" and comm: "\<And>a b. add a b = add b a"
    and perm: "mset (x # xs) = mset (y # ys)"
  shows "fold (\<lambda>s acc. add acc (g s)) xs (g x) = fold (\<lambda>s acc. add acc (g s)) ys (g y)"
proof -
  let ?f = "\<lambda>s acc. add acc (g s)"
  have swap: "?f s \<circ> ?f t = ?f t \<circ> ?f s" for s t
    by (auto simp: fun_eq_iff assoc comm [of "g s" "g t"])
  have same: "fold ?f us = fold ?f vs" if "mset us = mset vs" for us vs
    by (rule fold_multiset_equiv) (use swap that in auto)
  show ?thesis
  proof (cases "x = y")
    case True
    then show ?thesis using same [of xs ys] perm by simp
  next
    case False
    then have "y \<in># mset xs" using perm by (metis insert_noteq_member mset.simps(2) union_single_eq_member)
    then have 1: "mset xs = mset (y # remove1 y xs)" by simp
    then have "add_mset y (mset ys) = add_mset y (mset (x # remove1 y xs))"
      using perm by (metis add_mset_commute mset.simps(2))
    then have 2: "mset ys = mset (x # remove1 y xs)" by simp
    from same [OF 1] same [OF 2] show ?thesis by (simp add: comm [of "g x" "g y"])
  qed
qed

lemma ring_order_perm:
  assumes "j < W" shows "mset (ring_order W j) = mset [0..<W]"
proof -
  have inj: "inj_on (\<lambda>m. (j + m) mod W) {0..<W}"
    by (rule inj_onI) (use assms in \<open>auto simp: mod_if split: if_splits\<close>)
  then have "(\<lambda>m. (j + m) mod W) ` {0..<W} = {0..<W}"
    by (intro endo_inj_surj) (use assms in auto)
  moreover have "distinct (ring_order W j)" using inj by (simp add: ring_order_def distinct_map)
  ultimately show ?thesis
    by (intro iffD1 [OF set_eq_iff_mset_eq_distinct]) (simp_all add: ring_order_def)
qed

section \<open>The specifications\<close>

lemma all_reduce_ring_computes:
  assumes al: "aligned W n nc" and W: "0 < W" "W \<le> 256" and ds: "good_shape ds" "prod_list ds = W * c"
    and len: "\<And>r. r < W \<Longrightarrow> length (v r) = prod_list ds"
  shows "computes W (\<lambda>r. all_reduce add (nc r) (cpu_f32 ds (v r)) Sum Ring)
     (\<lambda>r. (completed (nc r) AllReduce RingAlg None None ds (Some (cpu_f32 ds (ring_result add W c v)))
            (of_nat (2 * (W - 1)) * shape_bytes [c]) (of_nat (2 * (W - 1)) * shape_bytes [c]),
           cpu_f32 ds (ring_result add W c v)))"
proof -
  let ?out = "cpu_f32 ds (ring_result add W c v)" and ?b = "of_nat (2 * (W - 1)) * shape_bytes [c]"
  let ?finish = "\<lambda>r x. case x of (result, sent, received) \<Rightarrow>
      Ret (completed (nc r) AllReduce RingAlg None None ds (Some result) sent received, result)"
  have prog: "all_reduce add (nc r) (cpu_f32 ds (v r)) Sum Ring =
      pbind (ring_all_reduce add (member W r) (cpu_f32 ds (v r)) n) (?finish r)" if "r < W" for r
    using that aligned_rank [OF al that] aligned_begin [OF al that ds(1) len [OF that], of None None]
    by (simp add: all_reduce_def completed_def)
  have n: "unat n < 2 ^ 44" using al by (simp add: aligned_def)
  have run: "computes W (\<lambda>r. ring_all_reduce add (member W r) (cpu_f32 ds (v r)) n) (\<lambda>r. (?out, ?b, ?b))"
  proof (cases "W = 1")
    case True
    then have "ring_result add W c v = v 0"
      using len [of 0] ds(2) by (simp add: ring_result_def full_sum_def block_def)
    with True show ?thesis
      by (intro iffD2 [OF computes_cong [OF _ refl] computes_Ret]) (simp add: ring_all_reduce_def)
  next
    case False
    with W ds len n show ?thesis by (intro ring_all_reduce_computes) auto
  qed
  show ?thesis
    by (rule iffD2 [OF computes_cong [OF prog refl]], assumption, rule computes_bind [OF run])
       (use computes_Ret in simp)
qed

text \<open>
  C20. Ring all-reduce: in every schedule every rank returns the same tensor, bit for bit, for
  any element addition. Element \<open>i\<close> lies in chunk \<open>i div c\<close> and is the sum of all ranks'
  elements \<open>i\<close>, each exactly once, added in ring order from rank \<open>i div c\<close> on. Every rank sends
  and receives exactly \<open>2 (W - 1)\<close> chunks.
\<close>

theorem ring_all_reduce_correct:
  assumes "aligned W n nc" "0 < W" "W \<le> 256" "good_shape ds" "prod_list ds = W * c"
    and "\<And>r. r < W \<Longrightarrow> length (v r) = prod_list ds"
  shows "let out = cpu_f32 ds (map (\<lambda>i. rank_sum (\<lambda>acc x. add x acc) v (ring_order W (i div c)) i) [0..<prod_list ds]);
             bytes = of_nat (2 * (W - 1)) * shape_bytes [c] in
     all_runs_return W (\<lambda>r. all_reduce add (nc r) (cpu_f32 ds (v r)) Sum Ring)
       (\<lambda>r. (completed (nc r) AllReduce RingAlg None None ds (Some out) bytes bytes, out))
     \<and> (\<forall>j < W. mset (ring_order W j) = mset [0..<W])"
proof -
  have sum: "map (\<lambda>i. rank_sum (\<lambda>acc x. add x acc) v (ring_order W (i div c)) i) [0..<prod_list ds]
      = ring_result add W c v"
    unfolding assms(5) by (rule ring_result_map [symmetric]) (use assms in auto)
  show ?thesis
    unfolding Let_def sum
    by (intro conjI allI impI ring_order_perm computes_all_runs all_reduce_ring_computes) (use assms in auto)
qed

theorem ring_all_reduce_correct_witness:
  "all_runs_return 2 (\<lambda>r. all_reduce (-) (native_new (member 2 r)) (cpu_f32 [2] [int r, 10 * int r]) Sum Ring)
     (\<lambda>r. (completed (native_new (member 2 r)) AllReduce RingAlg None None [2] (Some (cpu_f32 [2] [1, - 10 :: int])) 8 8,
           cpu_f32 [2] [1, - 10]))"
proof -
  have sums: "map (\<lambda>i. rank_sum (\<lambda>acc x. x - acc) (\<lambda>r. [int r, 10 * int r]) (ring_order 2 (i div 1)) i) [0..<2]
      = [1, - 10]" by code_simp
  show ?thesis
    using ring_all_reduce_correct [of 2 0 "\<lambda>r. native_new (member 2 r)" "[2]" 1 "\<lambda>r. [int r, 10 * int r]" "(-)"] sums
    by (simp add: aligned_def native_new_def good_shapeI shape_bytes_def Let_def)
qed

text \<open>
  C21. The two all-reduce algorithms agree: when element addition is associative and
  commutative, the ring and the centralized algorithm return the same tensor on every rank
  and in every schedule.
\<close>

theorem ring_agrees_with_centralized:
  fixes add :: "'v \<Rightarrow> 'v \<Rightarrow> 'v"
  assumes "\<And>a b c. add (add a b) c = add a (add b c)" "\<And>a b. add a b = add b a"
    and "aligned W n nc" "0 < W" "W \<le> 256" "good_shape ds" "prod_list ds = W * c"
    and "\<And>r. r < W \<Longrightarrow> length (v r) = prod_list ds"
  shows "\<exists>out nc_ring nc_central.
     all_runs_return W (\<lambda>r. all_reduce add (nc r) (cpu_f32 ds (v r)) Sum Ring) (\<lambda>r. (nc_ring r, out))
     \<and> all_runs_return W (\<lambda>r. all_reduce add (nc r) (cpu_f32 ds (v r)) Sum Centralized) (\<lambda>r. (nc_central r, out))"
proof -
  have "ring_result add W c v ! i = rank_sum add v [0..<W] i" if "i < W * c" for i
  proof -
    let ?j = "i div c"
    have j: "?j < W" using that by (simp add: less_mult_imp_div_less)
    have "ring_result add W c v ! i = rank_sum (\<lambda>acc x. add x acc) v (ring_order W ?j) i"
      using that assms by (intro ring_result_nth) auto
    also have "\<dots> = rank_sum add v (ring_order W ?j) i"
      unfolding rank_sum_def using assms(2) by (metis (no_types, lifting))
    also have "\<dots> = rank_sum add v [0..<W] i"
      unfolding rank_sum_def
      by (rule sum_reorder) (use assms ring_order_perm [OF j] in \<open>simp_all add: ring_order_def upt_conv_Cons\<close>)
    finally show ?thesis .
  qed
  then have "ring_result add W c v = map (rank_sum add v [0..<W]) [0..<W * c]"
    by (intro nth_equalityI) (use assms in \<open>auto simp: length_ring_result\<close>)
  also have "\<dots> = sum_in_order add v [1..<W] (v 0)"
    by (rule ascending_rank_sum) (use assms in auto)
  finally have same: "ring_result add W c v = sum_in_order add v [1..<W] (v 0)" .
  have ring: "all_runs_return W (\<lambda>r. all_reduce add (nc r) (cpu_f32 ds (v r)) Sum Ring)
     (\<lambda>r. (completed (nc r) AllReduce RingAlg None None ds (Some (cpu_f32 ds (ring_result add W c v)))
            (of_nat (2 * (W - 1)) * shape_bytes [c]) (of_nat (2 * (W - 1)) * shape_bytes [c]),
           cpu_f32 ds (ring_result add W c v)))"
    by (rule computes_all_runs, rule all_reduce_ring_computes) (use assms in auto)
  show ?thesis
    by (intro exI conjI, rule ring, unfold same, rule computes_all_runs, rule centralized_all_reduce_computes)
       (use assms in auto)
qed

theorem ring_agrees_with_centralized_witness:
  "\<exists>out nc_ring nc_central.
     all_runs_return 2 (\<lambda>r. all_reduce (+) (native_new (member 2 r)) (cpu_f32 [2] [int r, 10 * int r]) Sum Ring)
       (\<lambda>r. (nc_ring r, out))
     \<and> all_runs_return 2 (\<lambda>r. all_reduce (+) (native_new (member 2 r)) (cpu_f32 [2] [int r, 10 * int r]) Sum Centralized)
       (\<lambda>r. (nc_central r, out))"
  by (rule ring_agrees_with_centralized [of "(+)" 2 0 "\<lambda>r. native_new (member 2 r)" "[2]" 1 "\<lambda>r. [int r, 10 * int r]"])
     (auto simp: aligned_def native_new_def good_shapeI)

end
