(* ===== verification/AllReduceContract.thy ===== *)
theory AllReduceContract
  imports RingAllReduce
begin

text \<open>
  What a client of \<open>CollectiveCommunicator::all_reduce\<close> may rely on, whichever algorithm it selects:
  the call ends on every rank in every schedule, all ranks get the same tensor, and each of its
  elements is the sum of the ranks' elements, each taken once, in some order. Both algorithms
  provide the contract; the tensor-parallel layers are proved from it.
\<close>

section \<open>The contract\<close>

text \<open>
  All ranks have made the same number \<open>k\<close> of calls: their sequence numbers and the lengths
  of their traces say so.
\<close>

definition in_step :: "nat \<Rightarrow> nat \<Rightarrow> (usize \<Rightarrow> native_collectives) \<Rightarrow> bool" where
  "in_step W k nc \<longleftrightarrow>
     (\<forall>r < W. nc_rank (nc r) = member W r \<and> next_sequence (nc r) = of_nat k \<and> length (traces (nc r)) = k)"

lemma in_step_aligned: "in_step W k nc \<Longrightarrow> k < 2 ^ 44 \<Longrightarrow> aligned W (of_nat k) nc"
  by (simp add: in_step_def aligned_def)

lemma in_step_completed:
  "in_step W k nc \<Longrightarrow> in_step W (Suc k) (\<lambda>r. completed (nc r) kind alg root axis ds out (sent r) (received r))"
  by (simp add: in_step_def completed_def begun_def finish_call_def Let_def)

locale all_reduce_contract =
  fixes alg :: all_reduce_algorithm
    and fits :: "nat \<Rightarrow> nat list \<Rightarrow> bool"
    and result :: "('v \<Rightarrow> 'v \<Rightarrow> 'v) \<Rightarrow> nat \<Rightarrow> nat list \<Rightarrow> (usize \<Rightarrow> 'v list) \<Rightarrow> 'v list"
  assumes runs: "aligned W n nc \<Longrightarrow> 0 < W \<Longrightarrow> W \<le> 256 \<Longrightarrow> good_shape ds \<Longrightarrow> fits W ds \<Longrightarrow>
      (\<And>r. r < W \<Longrightarrow> length (v r) = prod_list ds) \<Longrightarrow>
      \<exists>root sent received. computes W (\<lambda>r. all_reduce add (nc r) (cpu_f32 ds (v r)) Sum alg)
        (\<lambda>r. (completed (nc r) AllReduce (trace_algorithm alg) root None ds
                (Some (cpu_f32 ds (result add W ds v))) (sent r) (received r), cpu_f32 ds (result add W ds v)))"
    and sums: "0 < W \<Longrightarrow> fits W ds \<Longrightarrow> (\<And>r. r < W \<Longrightarrow> length (v r) = prod_list ds) \<Longrightarrow>
      \<exists>ord. (\<forall>i < prod_list ds. mset (ord i) = mset [0..<W]) \<and>
        (result add W ds v = map (\<lambda>i. rank_sum add v (ord i) i) [0..<prod_list ds] \<or>
         result add W ds v = map (\<lambda>i. rank_sum (\<lambda>acc x. add x acc) v (ord i) i) [0..<prod_list ds])"
begin

lemma result_length:
  "0 < W \<Longrightarrow> fits W ds \<Longrightarrow> (\<And>r. r < W \<Longrightarrow> length (v r) = prod_list ds) \<Longrightarrow>
     length (result add W ds v) = prod_list ds"
  using sums [of W ds v add] by fastforce

lemma runs_in_step:
  assumes "in_step W k nc" "k < 2 ^ 44" "0 < W" "W \<le> 256" "good_shape ds" "fits W ds"
    and "\<And>r. r < W \<Longrightarrow> length (v r) = prod_list ds"
  shows "\<exists>nc'. in_step W (Suc k) nc' \<and>
     computes W (\<lambda>r. all_reduce add (nc r) (cpu_f32 ds (v r)) Sum alg) (\<lambda>r. (nc' r, cpu_f32 ds (result add W ds v)))"
proof -
  from runs [of W "of_nat k" nc ds v add, OF in_step_aligned [OF assms(1,2)] assms(3-7)] obtain root sent received where
    "computes W (\<lambda>r. all_reduce add (nc r) (cpu_f32 ds (v r)) Sum alg)
        (\<lambda>r. (completed (nc r) AllReduce (trace_algorithm alg) root None ds
                (Some (cpu_f32 ds (result add W ds v))) (sent r) (received r), cpu_f32 ds (result add W ds v)))" by blast
  with in_step_completed [OF assms(1)] show ?thesis by blast
qed

text \<open>When all ranks but one contribute the neutral element, the result is that one's.\<close>

lemma one_contributor:
  assumes "0 < W" "fits W ds" "\<And>r. r < W \<Longrightarrow> length (v r) = prod_list ds"
    and zero: "\<And>x. add z x = x" "\<And>x. add x z = x"
    and i: "i < prod_list ds" "k < W" "\<And>r. r < W \<Longrightarrow> r \<noteq> k \<Longrightarrow> v r ! i = z"
  shows "result add W ds v ! i = v k ! i"
proof -
  have hot: "rank_sum f v ord i = v k ! i"
    if f: "\<And>x. f z x = x" "\<And>x. f x z = x" and ord: "mset ord = mset [0..<W]" for f ord
  proof -
    have d: "distinct ord" "set ord = {0..<W}"
      using ord by (metis distinct_upt mset_eq_imp_distinct_iff, metis mset_eq_setD set_upt)
    have fold0: "fold (\<lambda>s acc. f acc (v s ! i)) rs a = a" if "set rs \<subseteq> {0..<W} - {k}" for rs a
      using that by (induction rs arbitrary: a) (auto simp: f i(3))
    have "ord \<noteq> []" using d(2) i(2) by auto
    then obtain h rs where rs: "ord = h # rs" by (cases ord) auto
    show ?thesis
    proof (cases "h = k")
      case True
      then have "set rs \<subseteq> {0..<W} - {k}" using d rs by auto
      with True rs fold0 show ?thesis by (simp add: rank_sum_def)
    next
      case False
      then have "k \<in> set rs" using d(2) i(2) rs by auto
      then obtain as bs where ab: "rs = as @ k # bs" by (meson split_list)
      have "set as \<subseteq> {0..<W} - {k}" "set bs \<subseteq> {0..<W} - {k}" "v h ! i = z"
        using d rs ab False i(3) [of h] by (auto simp: set_eq_iff)
      with rs ab fold0 f show ?thesis by (simp add: rank_sum_def)
    qed
  qed
  from sums [of W ds v add, OF assms(1-3)] obtain ord where
    "\<forall>i < prod_list ds. mset (ord i) = mset [0..<W]"
    "result add W ds v = map (\<lambda>i. rank_sum add v (ord i) i) [0..<prod_list ds] \<or>
     result add W ds v = map (\<lambda>i. rank_sum (\<lambda>acc x. add x acc) v (ord i) i) [0..<prod_list ds]" by blast
  then show ?thesis using i(1) hot [of add] hot [of "\<lambda>acc x. add x acc"] zero by auto
qed

text \<open>With associative and commutative addition the ranks may be added in ascending order.\<close>

lemma commutative_sum:
  assumes "0 < W" "fits W ds" "\<And>r. r < W \<Longrightarrow> length (v r) = prod_list ds"
    and assoc: "\<And>a b c. add (add a b) c = add a (add b c)" and comm: "\<And>a b. add a b = add b a"
  shows "result add W ds v = map (rank_sum add v [0..<W]) [0..<prod_list ds]"
proof -
  have asc: "rank_sum add v ord i = rank_sum add v [0..<W] i" if "mset ord = mset [0..<W]" for ord i
  proof -
    have "ord \<noteq> []" "[0..<W] = 0 # [1..<W]" using that assms(1) by (auto simp: upt_conv_Cons)
    then show ?thesis
      using that sum_reorder [OF assoc comm, of "hd ord" "tl ord" 0 "[1..<W]" "\<lambda>r. v r ! i"]
      by (simp add: rank_sum_def)
  qed
  have flip: "(\<lambda>acc x. add x acc) = add" by (intro ext comm)
  from sums [of W ds v add, OF assms(1-3)] obtain ord where ord: "\<forall>i < prod_list ds. mset (ord i) = mset [0..<W]"
    and "result add W ds v = map (\<lambda>i. rank_sum add v (ord i) i) [0..<prod_list ds]"
    unfolding flip by blast
  then show ?thesis by (auto intro!: asc)
qed

end

section \<open>Both algorithms provide it\<close>

definition central_values :: "('v \<Rightarrow> 'v \<Rightarrow> 'v) \<Rightarrow> nat \<Rightarrow> nat list \<Rightarrow> (usize \<Rightarrow> 'v list) \<Rightarrow> 'v list" where
  "central_values add W ds v = sum_in_order add v [1..<W] (v 0)"

definition ring_values :: "('v \<Rightarrow> 'v \<Rightarrow> 'v) \<Rightarrow> nat \<Rightarrow> nat list \<Rightarrow> (usize \<Rightarrow> 'v list) \<Rightarrow> 'v list" where
  "ring_values add W ds v = ring_result add W (prod_list ds div W) v"

interpretation central: all_reduce_contract Centralized "\<lambda>_ _. True" central_values
proof
  fix W n nc ds and v :: "usize \<Rightarrow> 'a list" and add :: "'a \<Rightarrow> 'a \<Rightarrow> 'a"
  assume *: "aligned W n nc" "0 < W" "good_shape ds" "\<And>r. r < W \<Longrightarrow> length (v r) = prod_list ds"
  from centralized_all_reduce_computes [OF *]
  show "\<exists>root sent received. computes W (\<lambda>r. all_reduce add (nc r) (cpu_f32 ds (v r)) Sum Centralized)
        (\<lambda>r. (completed (nc r) AllReduce (trace_algorithm Centralized) root None ds
           (Some (cpu_f32 ds (central_values add W ds v))) (sent r) (received r), cpu_f32 ds (central_values add W ds v)))"
    unfolding central_values_def trace_algorithm.simps by (intro exI)
next
  fix W ds and v :: "usize \<Rightarrow> 'a list" and add :: "'a \<Rightarrow> 'a \<Rightarrow> 'a"
  assume "0 < W" "\<And>r. r < W \<Longrightarrow> length (v r) = prod_list ds"
  then have "central_values add W ds v = map (\<lambda>i. rank_sum add v [0..<W] i) [0..<prod_list ds]"
    using ascending_rank_sum [of W v "prod_list ds" add] by (simp add: central_values_def)
  then show "\<exists>ord. (\<forall>i < prod_list ds. mset (ord i) = mset [0..<W]) \<and>
      (central_values add W ds v = map (\<lambda>i. rank_sum add v (ord i) i) [0..<prod_list ds] \<or>
       central_values add W ds v = map (\<lambda>i. rank_sum (\<lambda>acc x. add x acc) v (ord i) i) [0..<prod_list ds])"
    by (intro exI [of _ "\<lambda>_. [0..<W]"]) simp
qed

interpretation ring: all_reduce_contract Ring "\<lambda>W ds. prod_list ds mod W = 0" ring_values
proof
  fix W n nc ds and v :: "usize \<Rightarrow> 'a list" and add :: "'a \<Rightarrow> 'a \<Rightarrow> 'a"
  assume *: "aligned W n nc" "0 < W" "W \<le> 256" "good_shape ds" "prod_list ds mod W = 0"
    "\<And>r. r < W \<Longrightarrow> length (v r) = prod_list ds"
  from *(5) have "prod_list ds = W * (prod_list ds div W)" by auto
  from all_reduce_ring_computes [OF *(1-4) this *(6)]
  show "\<exists>root sent received. computes W (\<lambda>r. all_reduce add (nc r) (cpu_f32 ds (v r)) Sum Ring)
        (\<lambda>r. (completed (nc r) AllReduce (trace_algorithm Ring) root None ds
           (Some (cpu_f32 ds (ring_values add W ds v))) (sent r) (received r), cpu_f32 ds (ring_values add W ds v)))"
    unfolding ring_values_def trace_algorithm.simps by (intro exI)
next
  fix W ds and v :: "usize \<Rightarrow> 'a list" and add :: "'a \<Rightarrow> 'a \<Rightarrow> 'a"
  assume *: "0 < W" "prod_list ds mod W = 0" "\<And>r. r < W \<Longrightarrow> length (v r) = prod_list ds"
  let ?c = "prod_list ds div W" and ?ord = "\<lambda>i. ring_order W (i div (prod_list ds div W))"
  have size: "prod_list ds = W * ?c" using *(2) by auto
  have "ring_values add W ds v = map (\<lambda>i. rank_sum (\<lambda>acc x. add x acc) v (?ord i) i) [0..<prod_list ds]"
    unfolding ring_values_def by (subst (2) size, rule ring_result_map) (use * size in auto)
  moreover have "mset (?ord i) = mset [0..<W]" if "i < prod_list ds" for i
    using that size *(1) by (intro ring_order_perm) (metis less_mult_imp_div_less)
  ultimately show "\<exists>ord. (\<forall>i < prod_list ds. mset (ord i) = mset [0..<W]) \<and>
      (ring_values add W ds v = map (\<lambda>i. rank_sum add v (ord i) i) [0..<prod_list ds] \<or>
       ring_values add W ds v = map (\<lambda>i. rank_sum (\<lambda>acc x. add x acc) v (ord i) i) [0..<prod_list ds])"
    by (intro exI [of _ ?ord]) simp
qed

end
