(* ===== verification/TensorLockstep.thy ===== *)
theory TensorLockstep
  imports TensorParallel AllReduceContract
begin

text \<open>
  The tensor-parallel forward pass without messages. \<open>lock_forward\<close> computes, in one process and
  from all ranks' shards, what the ranks compute together: local work is done for every rank,
  a collective is the function it specifies. The refinement says that the rank programs of
  \<open>TensorParallel\<close> compute the same logits and caches, whatever the schedule, in \<open>2 L + 2\<close>
  collective calls for \<open>L\<close> layers.
\<close>

section \<open>Collectives as functions\<close>

definition all_ranks :: "nat \<Rightarrow> (usize \<Rightarrow> 'e + 'a) \<Rightarrow> 'e + (usize \<Rightarrow> 'a)" where
  "all_ranks W f = rbind (collect_results (map f [0..<W])) (\<lambda>xs. Inr (\<lambda>r. xs ! r))"

lemma all_ranks_Inr: "all_ranks W f = Inr x \<Longrightarrow> r < W \<Longrightarrow> f r = Inr (x r)"
  by (auto simp: all_ranks_def collect_results_Inr dest: map_eq_imp_length_eq)
     (metis add_0 diff_zero length_map length_upt nth_map nth_upt)

lemma all_ranks_cong: "(\<And>r. r < W \<Longrightarrow> f r = g r) \<Longrightarrow> all_ranks W f = all_ranks W g"
  unfolding all_ranks_def by (metis (mono_tags, lifting) atLeastLessThan_iff map_cong set_upt)

definition cpu_tensors :: "nat \<Rightarrow> (usize \<Rightarrow> 'v tensor) \<Rightarrow> bool" where
  "cpu_tensors W x \<longleftrightarrow> good_shape (t_dims (x 0)) \<and>
     (\<forall>r \<in> set [0..<W]. t_device (x r) = Cpu \<and> t_dtype (x r) = F32 \<and> t_dims (x r) = t_dims (x 0) \<and> wf_tensor (x r))"

fun reduce_values ::
  "all_reduce_algorithm \<Rightarrow> ('v \<Rightarrow> 'v \<Rightarrow> 'v) \<Rightarrow> nat \<Rightarrow> nat list \<Rightarrow> (usize \<Rightarrow> 'v list) \<Rightarrow> 'v list" where
  "reduce_values Centralized = central_values"
| "reduce_values Ring = ring_values"

definition reduce_spec ::
  "('v \<Rightarrow> 'v \<Rightarrow> 'v) \<Rightarrow> all_reduce_algorithm \<Rightarrow> nat \<Rightarrow> (usize \<Rightarrow> 'v tensor) \<Rightarrow> 'v tensor dresult" where
  "reduce_spec add alg W x =
     (let ds = t_dims (x 0) in
      if cpu_tensors W x \<and> (alg = Ring \<longrightarrow> prod_list ds mod W = 0)
      then Inr (cpu_f32 ds (reduce_values alg add W ds (\<lambda>r. t_values (x r))))
      else Inl (InvalidConfig ''tensors cannot be reduced''))"

definition gather_spec :: "nat \<Rightarrow> (usize \<Rightarrow> 'v tensor) \<Rightarrow> usize \<Rightarrow> 'v tensor dresult" where
  "gather_spec W x axis =
     (let ds = t_dims (x 0) in
      if cpu_tensors W x \<and> axis < length ds \<and> good_shape (ds[axis := W * ds ! axis])
      then Inr (cpu_f32 (ds[axis := W * ds ! axis]) (cat_values W ds axis (\<lambda>r. t_values (x r))))
      else Inl (InvalidConfig ''tensors cannot be gathered''))"

lemma cpu_tensors_eq:
  assumes "cpu_tensors W x" "r < W"
  shows "cpu_f32 (t_dims (x 0)) (t_values (x r)) = x r" "length (t_values (x r)) = prod_list (t_dims (x 0))"
proof -
  have "r \<in> set [0..<W]" using assms(2) by simp
  with assms(1) have x: "t_device (x r) = Cpu" "t_dtype (x r) = F32" "t_dims (x r) = t_dims (x 0)" "wf_tensor (x r)"
    unfolding cpu_tensors_def by blast+
  then show "cpu_f32 (t_dims (x 0)) (t_values (x r)) = x r" using cpu_f32_eta [of "x r"] by metis
  show "length (t_values (x r)) = prod_list (t_dims (x 0))" using x by (simp add: wf_tensor_def elem_count_def)
qed

lemma reduce_spec_runs:
  assumes step: "in_step W k nc" "k < 2 ^ 44" and W: "0 < W" "W \<le> 256" and y: "reduce_spec add alg W x = Inr y"
  shows "\<exists>nc'. in_step W (Suc k) nc' \<and> computes W (\<lambda>r. all_reduce add (nc r) (x r) Sum alg) (\<lambda>r. (nc' r, y))"
proof -
  let ?ds = "t_dims (x 0)" and ?v = "\<lambda>r. t_values (x r)"
  from y have x: "cpu_tensors W x" "alg = Ring \<Longrightarrow> prod_list ?ds mod W = 0"
    and y': "y = cpu_f32 ?ds (reduce_values alg add W ?ds ?v)"
    by (auto simp: reduce_spec_def Let_def split: if_splits)
  then have good: "good_shape ?ds" by (simp add: cpu_tensors_def)
  note len = cpu_tensors_eq(2) [OF x(1)]
  have "\<exists>nc'. in_step W (Suc k) nc' \<and> computes W (\<lambda>r. all_reduce add (nc r) (cpu_f32 ?ds (?v r)) Sum alg) (\<lambda>r. (nc' r, y))"
    unfolding y'
    using central.runs_in_step [OF step W good TrueI, of ?v add] ring.runs_in_step [OF step W good, of ?v add] x(2) len
    by (cases alg) auto
  then obtain nc' where "in_step W (Suc k) nc'"
    "computes W (\<lambda>r. all_reduce add (nc r) (cpu_f32 ?ds (?v r)) Sum alg) (\<lambda>r. (nc' r, y))" by blast
  then show ?thesis
    using computes_cong [of W "\<lambda>r. all_reduce add (nc r) (cpu_f32 ?ds (?v r)) Sum alg"
        "\<lambda>r. all_reduce add (nc r) (x r) Sum alg" "\<lambda>r. (nc' r, y)" "\<lambda>r. (nc' r, y)"] cpu_tensors_eq(1) [OF x(1)] by auto
qed

lemma gather_spec_runs:
  assumes step: "in_step W k nc" "k < 2 ^ 44" and W: "0 < W" and y: "gather_spec W x axis = Inr y"
  shows "\<exists>nc'. in_step W (Suc k) nc' \<and> computes W (\<lambda>r. all_gather (nc r) (x r) axis) (\<lambda>r. (nc' r, y))"
proof -
  let ?ds = "t_dims (x 0)" and ?v = "\<lambda>r. t_values (x r)"
  from y have x: "cpu_tensors W x" "axis < length ?ds" "good_shape (?ds[axis := W * ?ds ! axis])"
    and y': "y = cpu_f32 (?ds[axis := W * ?ds ! axis]) (cat_values W ?ds axis ?v)"
    by (auto simp: gather_spec_def Let_def split: if_splits)
  then have good: "good_shape ?ds" by (simp add: cpu_tensors_def)
  note run = all_gather_computes [of W "of_nat k" nc ?ds axis ?v, OF in_step_aligned [OF step] W good x(2,3) cpu_tensors_eq(2) [OF x(1)]]
  have "\<exists>nc'. in_step W (Suc k) nc' \<and>
      computes W (\<lambda>r. all_gather (nc r) (cpu_f32 ?ds (?v r)) axis) (\<lambda>r. (nc' r, y))"
    unfolding y' by (intro exI conjI, rule in_step_completed [OF step(1)], rule run)
  then obtain nc' where "in_step W (Suc k) nc'"
    "computes W (\<lambda>r. all_gather (nc r) (cpu_f32 ?ds (?v r)) axis) (\<lambda>r. (nc' r, y))" by blast
  then show ?thesis
    using computes_cong [of W "\<lambda>r. all_gather (nc r) (cpu_f32 ?ds (?v r)) axis"
        "\<lambda>r. all_gather (nc r) (x r) axis" "\<lambda>r. (nc' r, y)" "\<lambda>r. (nc' r, y)"] cpu_tensors_eq(1) [OF x(1)] by auto
qed

section \<open>Triples\<close>

text \<open>
  \<open>together W f k c k' c' y\<close>: started with caches \<open>c\<close> after \<open>k\<close> collective calls, the programs
  \<open>f r\<close> all return \<open>y\<close>, leaving caches \<open>c'\<close> after \<open>k'\<close> calls.
\<close>

definition caches_are :: "nat \<Rightarrow> nat \<Rightarrow> (usize \<Rightarrow> 'v kv_cache) \<Rightarrow> (usize \<Rightarrow> ('v, 'o) tp_state) \<Rightarrow> bool" where
  "caches_are W k c s \<longleftrightarrow> in_step W k (\<lambda>r. ts_collectives (s r)) \<and> (\<forall>r < W. ts_cache (s r) = c r)"

definition together ::
  "nat \<Rightarrow> (usize \<Rightarrow> ('v, 'o) tp_state \<Rightarrow> ('v, ('a \<times> ('v, 'o) tp_state) dresult) prog) \<Rightarrow> nat \<Rightarrow> (usize \<Rightarrow> 'v kv_cache)
     \<Rightarrow> nat \<Rightarrow> (usize \<Rightarrow> 'v kv_cache) \<Rightarrow> 'a \<Rightarrow> bool" where
  "together W f k c k' c' y \<longleftrightarrow>
     (\<forall>s. caches_are W k c s \<longrightarrow>
        (\<exists>s'. caches_are W k' c' s' \<and> computes W (\<lambda>r. f r (s r)) (\<lambda>r. Inr (y, s' r))))"

lemma together_cong:
  fixes f :: "usize \<Rightarrow> ('v, 'o) tp_state \<Rightarrow> ('v, ('a \<times> ('v, 'o) tp_state) dresult) prog"
  assumes "\<And>r s. r < W \<Longrightarrow> nc_rank (ts_collectives s) = member W r \<Longrightarrow> ts_cache s = c r \<Longrightarrow> f r s = g r s"
    and "together W g k c k' c' y"
  shows "together W f k c k' c' y"
  unfolding together_def
proof (intro allI impI)
  fix s :: "usize \<Rightarrow> ('v, 'o) tp_state" assume s: "caches_are W k c s"
  with assms(2) obtain s' where "caches_are W k' c' s'" "computes W (\<lambda>r. g r (s r)) (\<lambda>r. Inr (y, s' r))"
    unfolding together_def by blast
  moreover have "f r (s r) = g r (s r)" if "r < W" for r
    using s that by (intro assms(1)) (auto simp: caches_are_def in_step_def)
  ultimately show "\<exists>s'. caches_are W k' c' s' \<and> computes W (\<lambda>r. f r (s r)) (\<lambda>r. Inr (y, s' r))"
    using computes_cong [of W "\<lambda>r. f r (s r)" "\<lambda>r. g r (s r)"] by blast
qed

lemma together_ret: "together W (\<lambda>r s. Ret (Inr (y, s))) k c k c y"
  unfolding together_def by (intro allI impI exI conjI) (assumption, rule computes_Ret)

lemma together_bind:
  fixes f :: "usize \<Rightarrow> ('v, 'o) tp_state \<Rightarrow> ('v, ('a \<times> ('v, 'o) tp_state) dresult) prog"
  assumes "together W f k c k1 c1 x" and "together W (\<lambda>r. g r x) k1 c1 k2 c2 y"
  shows "together W (\<lambda>r s. pr_bind (f r s) (\<lambda>(x, s). g r x s)) k c k2 c2 y"
  unfolding together_def
proof (intro allI impI)
  fix s :: "usize \<Rightarrow> ('v, 'o) tp_state" assume "caches_are W k c s"
  with assms(1) obtain s1 where s1: "caches_are W k1 c1 s1" "computes W (\<lambda>r. f r (s r)) (\<lambda>r. Inr (x, s1 r))"
    unfolding together_def by blast
  from assms(2) s1(1) obtain s2 where s2: "caches_are W k2 c2 s2" "computes W (\<lambda>r. g r x (s1 r)) (\<lambda>r. Inr (y, s2 r))"
    unfolding together_def by blast
  from computes_pr_bind [OF s1(2), of "\<lambda>r (x, s). g r x s"] s2
  show "\<exists>s'. caches_are W k2 c2 s' \<and> computes W (\<lambda>r. pr_bind (f r (s r)) (\<lambda>(x, s). g r x s)) (\<lambda>r. Inr (y, s' r))"
    by auto
qed

lemma together_cache:
  fixes f :: "usize \<Rightarrow> ('v, 'o) tp_state \<Rightarrow> ('v, ('a \<times> ('v, 'o) tp_state) dresult) prog"
  assumes "together W f k c1 k' c' y"
  shows "together W (\<lambda>r s. f r (s\<lparr>ts_cache := c1 r\<rparr>)) k c k' c' y"
  unfolding together_def
proof (intro allI impI)
  fix s :: "usize \<Rightarrow> ('v, 'o) tp_state" assume "caches_are W k c s"
  then have "caches_are W k c1 (\<lambda>r. (s r)\<lparr>ts_cache := c1 r\<rparr>)" by (simp add: caches_are_def)
  with assms show "\<exists>s'. caches_are W k' c' s' \<and> computes W (\<lambda>r. f r ((s r)\<lparr>ts_cache := c1 r\<rparr>)) (\<lambda>r. Inr (y, s' r))"
    unfolding together_def by blast
qed

lemma together_observer:
  fixes f :: "usize \<Rightarrow> ('v, 'o) tp_state \<Rightarrow> ('v, ('a \<times> ('v, 'o) tp_state) dresult) prog"
  assumes "together W f k c k' c' y"
  shows "together W (\<lambda>r s. f r (s\<lparr>ts_observer := g r (ts_observer s)\<rparr>)) k c k' c' y"
  unfolding together_def
proof (intro allI impI)
  fix s :: "usize \<Rightarrow> ('v, 'o) tp_state" assume "caches_are W k c s"
  then have "caches_are W k c (\<lambda>r. (s r)\<lparr>ts_observer := g r (ts_observer (s r))\<rparr>)" by (simp add: caches_are_def)
  with assms show "\<exists>s'. caches_are W k' c' s' \<and>
      computes W (\<lambda>r. f r ((s r)\<lparr>ts_observer := g r (ts_observer (s r))\<rparr>)) (\<lambda>r. Inr (y, s' r))"
    unfolding together_def by blast
qed

lemma together_call:
  fixes ob :: "'o tp_observer" and call :: "usize \<Rightarrow> native_collectives \<Rightarrow> ('v, native_collectives \<times> 'v tensor) prog"
  assumes "\<And>nc. in_step W k nc \<Longrightarrow> \<exists>nc'. in_step W (Suc k) nc' \<and> computes W (\<lambda>r. call r (nc r)) (\<lambda>r. (nc' r, y))"
  shows "together W (\<lambda>r. observe_call ob (call r)) k c (Suc k) c y"
  unfolding together_def
proof (intro allI impI)
  fix s :: "usize \<Rightarrow> ('v, 'o) tp_state" assume s: "caches_are W k c s"
  with assms obtain nc' where nc': "in_step W (Suc k) nc'"
    "computes W (\<lambda>r. call r (ts_collectives (s r))) (\<lambda>r. (nc' r, y))" unfolding caches_are_def by blast
  let ?s' = "\<lambda>r. (s r)\<lparr>ts_collectives := nc' r, ts_observer := fold (ob_collective ob)
      (drop (length (observed (ts_collectives (s r)))) (observed (nc' r))) (ts_observer (s r))\<rparr>"
  have "computes W (\<lambda>r. observe_call ob (call r) (s r)) (\<lambda>r. Inr (y, ?s' r))"
    unfolding observe_call_def by (rule computes_bind [OF nc'(2)]) (simp add: computes_Ret)
  moreover have "caches_are W (Suc k) c ?s'" using s nc'(1) by (simp add: caches_are_def)
  ultimately show "\<exists>s'. caches_are W (Suc k) c s' \<and> computes W (\<lambda>r. observe_call ob (call r) (s r)) (\<lambda>r. Inr (y, s' r))"
    by blast
qed

section \<open>The forward pass in lockstep\<close>

definition lock_row ::
  "'v candle_ops \<Rightarrow> all_reduce_algorithm \<Rightarrow> nat \<Rightarrow> (usize \<Rightarrow> 'v tensor) \<Rightarrow> (usize \<Rightarrow> 'v tensor) \<Rightarrow> 'v tensor dresult" where
  "lock_row ops alg W w x =
     rbind (all_ranks W (\<lambda>r. lift_tensor (op_linear ops (w r) (x r)))) (reduce_spec (op_add ops) alg W)"

lemma lock_row_cong:
  "(\<And>r. r < W \<Longrightarrow> w r = w' r) \<Longrightarrow> (\<And>r. r < W \<Longrightarrow> x r = x' r) \<Longrightarrow>
     lock_row ops alg W w x = lock_row ops alg W w' x'"
  unfolding lock_row_def by (rule arg_cong [where f = "\<lambda>p. rbind p _"], rule all_ranks_cong) simp

definition lock_embedding ::
  "'v candle_ops \<Rightarrow> 'v scalar_ops \<Rightarrow> all_reduce_algorithm \<Rightarrow> nat \<Rightarrow> (usize \<Rightarrow> 'v vocab_parallel_embedding) \<Rightarrow> u32 tensor
     \<Rightarrow> 'v tensor dresult" where
  "lock_embedding ops sc alg W e ids =
     rbind (all_ranks W (\<lambda>r. embedding_local ops sc (e r) ids)) (reduce_spec (op_add ops) alg W)"

definition lock_attention ::
  "'v candle_ops \<Rightarrow> all_reduce_algorithm \<Rightarrow> nat \<Rightarrow> (usize \<Rightarrow> 'v tp_attention) \<Rightarrow> (usize \<Rightarrow> 'v tensor) \<Rightarrow> usize \<Rightarrow> usize
     \<Rightarrow> (usize \<Rightarrow> 'v rotary_embedding) \<Rightarrow> (usize \<Rightarrow> 'v kv_cache) \<Rightarrow> ('v tensor \<times> (usize \<Rightarrow> 'v kv_cache)) dresult" where
  "lock_attention ops alg W a x pos layer rp c =
     rbind (all_ranks W (\<lambda>r. tp_attention_local ops (a r) (x r) pos layer (rp r) (c r))) (\<lambda>lc.
     rbind (lock_row ops alg W (\<lambda>r. rpl_weight (tpa_o_proj (a r))) (\<lambda>r. fst (lc r))) (\<lambda>y.
     Inr (y, \<lambda>r. snd (lc r))))"

definition lock_mlp ::
  "'v candle_ops \<Rightarrow> all_reduce_algorithm \<Rightarrow> nat \<Rightarrow> (usize \<Rightarrow> 'v tp_mlp) \<Rightarrow> (usize \<Rightarrow> 'v tensor) \<Rightarrow> 'v tensor dresult" where
  "lock_mlp ops alg W m x =
     rbind (all_ranks W (\<lambda>r. tp_mlp_local ops (m r) (x r))) (\<lambda>l.
     lock_row ops alg W (\<lambda>r. rpl_weight (tpm_down_proj (m r))) l)"

definition lock_block ::
  "'v candle_ops \<Rightarrow> all_reduce_algorithm \<Rightarrow> nat \<Rightarrow> (usize \<Rightarrow> 'v tp_block) \<Rightarrow> 'v tensor \<Rightarrow> usize \<Rightarrow> usize
     \<Rightarrow> (usize \<Rightarrow> 'v rotary_embedding) \<Rightarrow> (usize \<Rightarrow> 'v kv_cache) \<Rightarrow> ('v tensor \<times> (usize \<Rightarrow> 'v kv_cache)) dresult" where
  "lock_block ops alg W b input pos layer rp c =
     rbind (all_ranks W (\<lambda>r. norm_forward ops (tpb_input_norm (b r)) input)) (\<lambda>x.
     rbind (lock_attention ops alg W (\<lambda>r. tpb_attention (b r)) x pos layer rp c) (\<lambda>(attention, c').
     rbind (lift_tensor (tensor_add (op_add ops) input attention)) (\<lambda>hidden.
     rbind (all_ranks W (\<lambda>r. norm_forward ops (tpb_post_attention_norm (b r)) hidden)) (\<lambda>y.
     rbind (lock_mlp ops alg W (\<lambda>r. tpb_mlp (b r)) y) (\<lambda>m.
     rbind (lift_tensor (tensor_add (op_add ops) hidden m)) (\<lambda>out.
     Inr (out, c')))))))"

fun lock_blocks ::
  "'v candle_ops \<Rightarrow> all_reduce_algorithm \<Rightarrow> nat \<Rightarrow> (usize \<Rightarrow> 'v tp_llama) \<Rightarrow> usize \<Rightarrow> usize \<Rightarrow> nat \<Rightarrow> 'v tensor
     \<Rightarrow> (usize \<Rightarrow> 'v kv_cache) \<Rightarrow> ('v tensor \<times> (usize \<Rightarrow> 'v kv_cache)) dresult" where
  "lock_blocks ops alg W m pos layer 0 hidden c = Inr (hidden, c)"
| "lock_blocks ops alg W m pos layer (Suc n) hidden c =
     rbind (lock_block ops alg W (\<lambda>r. tpl_blocks (m r) ! layer) hidden pos layer (\<lambda>r. tpl_rope (m r)) c) (\<lambda>(hidden', c').
     lock_blocks ops alg W m pos (Suc layer) n hidden' c')"

definition lock_head ::
  "'v candle_ops \<Rightarrow> nat \<Rightarrow> (usize \<Rightarrow> 'v vocab_parallel_lm_head) \<Rightarrow> (usize \<Rightarrow> 'v tensor) \<Rightarrow> 'v tensor dresult" where
  "lock_head ops W h x =
     rbind (all_ranks W (\<lambda>r. lift_tensor (op_linear ops (cpl_weight (h r)) (x r)))) (\<lambda>l.
     if t_dims (l 0) = [] then Inl (InvalidConfig ''linear output cannot be scalar'')
     else rbind (gather_spec W l (length (t_dims (l 0)) - 1)) (\<lambda>y.
       if \<exists>r \<in> set [0..<W]. t_dims y ! (length (t_dims (l 0)) - 1) \<noteq> cpl_global_output_features (h r)
       then Inl (InvalidConfig ''column-parallel gather produced the wrong output width'') else Inr y))"

definition lock_forward ::
  "'v candle_ops \<Rightarrow> 'v scalar_ops \<Rightarrow> all_reduce_algorithm \<Rightarrow> nat \<Rightarrow> (usize \<Rightarrow> 'v tp_llama) \<Rightarrow> u32 tensor \<Rightarrow> usize
     \<Rightarrow> (usize \<Rightarrow> 'v kv_cache) \<Rightarrow> ('v tensor \<times> (usize \<Rightarrow> 'v kv_cache)) dresult" where
  "lock_forward ops sc alg W m ids pos c =
     rbind (all_ranks W (\<lambda>r. tp_forward_checks (m r) (member W r) ids pos (c r))) (\<lambda>seqn.
     rbind (lock_embedding ops sc alg W (\<lambda>r. tpl_embeddings (m r)) ids) (\<lambda>hidden.
     rbind (lock_blocks ops alg W m pos 0 (length (tpl_blocks (m 0))) hidden c) (\<lambda>(hidden, c').
     rbind (all_ranks W (\<lambda>r. norm_forward ops (tpl_final_norm (m r)) hidden)) (\<lambda>x.
     rbind (all_ranks W (\<lambda>r. lift_tensor (index_mid (x r) (seqn r - 1)))) (\<lambda>l.
     rbind (lock_head ops W (\<lambda>r. tpl_lm_head (m r)) l) (\<lambda>logits.
     rbind (lift_tensor (op_to_dtype ops logits F32)) (\<lambda>logits.
     Inr (logits, c'))))))))"

text \<open>All ranks run the same model: the same layers and the same all-reduce everywhere.\<close>

definition same_plan :: "nat \<Rightarrow> all_reduce_algorithm \<Rightarrow> (usize \<Rightarrow> 'v tp_llama) \<Rightarrow> bool" where
  "same_plan W alg m \<longleftrightarrow> (\<forall>r < W. length (tpl_blocks (m r)) = length (tpl_blocks (m 0)) \<and>
     vpe_algorithm (tpl_embeddings (m r)) = alg \<and> cpl_gather_output (tpl_lm_head (m r)) \<and>
     (\<forall>b \<in> set (tpl_blocks (m r)). rpl_algorithm (tpa_o_proj (tpb_attention b)) = alg \<and>
        rpl_algorithm (tpm_down_proj (tpb_mlp b)) = alg))"

lemma same_planD:
  assumes "same_plan W alg m" "r < W"
  shows "length (tpl_blocks (m r)) = length (tpl_blocks (m 0))" "vpe_algorithm (tpl_embeddings (m r)) = alg"
    "cpl_gather_output (tpl_lm_head (m r))"
    "b \<in> set (tpl_blocks (m r)) \<Longrightarrow> rpl_algorithm (tpa_o_proj (tpb_attention b)) = alg \<and>
       rpl_algorithm (tpm_down_proj (tpb_mlp b)) = alg"
  using assms unfolding same_plan_def by blast+

section \<open>The programs follow it\<close>

lemma together_row:
  assumes W: "0 < W" "W \<le> 256" "k < 2 ^ 44" and alg: "\<And>r. r < W \<Longrightarrow> rpl_algorithm (l r) = alg"
    and y: "lock_row ops alg W (\<lambda>r. rpl_weight (l r)) x = Inr y"
  shows "together W (\<lambda>r. row_forward ops ob (l r) (x r)) k c (Suc k) c y"
proof -
  from y obtain p where p: "all_ranks W (\<lambda>r. lift_tensor (op_linear ops (rpl_weight (l r)) (x r))) = Inr p"
    and red: "reduce_spec (op_add ops) alg W p = Inr y" by (auto simp: lock_row_def)
  have "together W (\<lambda>r. observe_call ob (\<lambda>nc. all_reduce (op_add ops) nc (p r) Sum alg)) k c (Suc k) c y"
    by (rule together_call) (rule reduce_spec_runs [OF _ W(3,1,2) red])
  then show ?thesis
    by (rule together_cong [rotated]) (use all_ranks_Inr [OF p] alg in \<open>simp add: row_forward_def\<close>)
qed

lemma together_embedding:
  assumes W: "0 < W" "W \<le> 256" "k < 2 ^ 44" and alg: "\<And>r. r < W \<Longrightarrow> vpe_algorithm (e r) = alg"
    and y: "lock_embedding ops sc alg W e ids = Inr y"
  shows "together W (\<lambda>r. embedding_forward ops sc ob (e r) ids) k c (Suc k) c y"
proof -
  from y obtain p where p: "all_ranks W (\<lambda>r. embedding_local ops sc (e r) ids) = Inr p"
    and red: "reduce_spec (op_add ops) alg W p = Inr y" by (auto simp: lock_embedding_def)
  have "together W (\<lambda>r. observe_call ob (\<lambda>nc. all_reduce (op_add ops) nc (p r) Sum alg)) k c (Suc k) c y"
    by (rule together_call) (rule reduce_spec_runs [OF _ W(3,1,2) red])
  then show ?thesis
    by (rule together_cong [rotated]) (use all_ranks_Inr [OF p] alg in \<open>simp add: embedding_forward_def\<close>)
qed

lemma together_head:
  assumes W: "0 < W" "k < 2 ^ 44" and h: "\<And>r. r < W \<Longrightarrow> cpl_gather_output (h r)"
    and y: "lock_head ops W h x = Inr y"
  shows "together W (\<lambda>r. column_forward ops ob (h r) (x r)) k c (Suc k) c y"
proof -
  from y obtain l where l: "all_ranks W (\<lambda>r. lift_tensor (op_linear ops (cpl_weight (h r)) (x r))) = Inr l"
    and d: "t_dims (l 0) \<noteq> []" and g: "gather_spec W l (length (t_dims (l 0)) - 1) = Inr y"
    and out: "\<forall>r \<in> set [0..<W]. t_dims y ! (length (t_dims (l 0)) - 1) = cpl_global_output_features (h r)"
    by (auto simp: lock_head_def split: if_splits)
  let ?axis = "length (t_dims (l 0)) - 1"
  have dims: "t_dims (l r) = t_dims (l 0)" if "r < W" for r
    using g that cpu_tensors_eq(1) [of W l r] by (auto simp: gather_spec_def Let_def split: if_splits) (metis cpu_f32_sel(1))
  have len: "length (t_dims y) = length (t_dims (l 0))"
    using g by (auto simp: gather_spec_def Let_def split: if_splits)
  let ?check = "\<lambda>r z s. pr_bind (Ret (lift_tensor (tensor_dim z ?axis))) (\<lambda>width.
      if width \<noteq> cpl_global_output_features (h r)
      then Ret (Inl (InvalidConfig ''column-parallel gather produced the wrong output width''))
      else Ret (Inr (z, s)))"
  have "together W (\<lambda>r. ?check r y) (Suc k) c (Suc k) c y"
    by (rule together_cong [OF _ together_ret]) (use d out len in \<open>simp add: tensor_dim_def\<close>)
  moreover have "together W (\<lambda>r. observe_call ob (\<lambda>nc. all_gather nc (l r) ?axis)) k c (Suc k) c y"
    by (rule together_call) (rule gather_spec_runs [OF _ W(2,1) g])
  ultimately have "together W (\<lambda>r s. pr_bind (observe_call ob (\<lambda>nc. all_gather nc (l r) ?axis) s) (\<lambda>(z, s). ?check r z s))
      k c (Suc k) c y"
    by (intro together_bind [where g = ?check])
  moreover have "column_forward ops ob (h r) (x r) s =
      pr_bind (observe_call ob (\<lambda>nc. all_gather nc (l r) ?axis) s) (\<lambda>(z, s). ?check r z s)" if "r < W" for r s
    using all_ranks_Inr [OF l that] h [OF that] dims [OF that] d by (simp add: column_forward_def Let_def)
  ultimately show ?thesis by (rule together_cong [rotated])
qed

lemma together_attention:
  assumes W: "0 < W" "W \<le> 256" "k < 2 ^ 44" and alg: "\<And>r. r < W \<Longrightarrow> rpl_algorithm (tpa_o_proj (a r)) = alg"
    and y: "lock_attention ops alg W a x pos layer rp c = Inr (y, c')"
  shows "together W (\<lambda>r. tp_attention_forward ops ob (a r) (x r) pos layer (rp r)) k c (Suc k) c' y"
proof -
  from y obtain lc where lc: "all_ranks W (\<lambda>r. tp_attention_local ops (a r) (x r) pos layer (rp r) (c r)) = Inr lc"
    and row: "lock_row ops alg W (\<lambda>r. rpl_weight (tpa_o_proj (a r))) (\<lambda>r. fst (lc r)) = Inr y"
    and c': "c' = (\<lambda>r. snd (lc r))" by (auto simp: lock_attention_def)
  from together_cache [OF together_row [where l = "\<lambda>r. tpa_o_proj (a r)", OF W alg row]]
  have "together W (\<lambda>r s. row_forward ops ob (tpa_o_proj (a r)) (fst (lc r)) (s\<lparr>ts_cache := c' r\<rparr>)) k c (Suc k) c' y" .
  then show ?thesis
    by (rule together_cong [rotated])
       (use all_ranks_Inr [OF lc] c' in \<open>simp add: tp_attention_forward_def case_prod_unfold\<close>)
qed

lemma together_mlp:
  assumes W: "0 < W" "W \<le> 256" "k < 2 ^ 44" and alg: "\<And>r. r < W \<Longrightarrow> rpl_algorithm (tpm_down_proj (m r)) = alg"
    and y: "lock_mlp ops alg W m x = Inr y"
  shows "together W (\<lambda>r. tp_mlp_forward ops ob (m r) (x r)) k c (Suc k) c y"
proof -
  from y obtain l where l: "all_ranks W (\<lambda>r. tp_mlp_local ops (m r) (x r)) = Inr l"
    and row: "lock_row ops alg W (\<lambda>r. rpl_weight (tpm_down_proj (m r))) l = Inr y" by (auto simp: lock_mlp_def)
  from together_row [where l = "\<lambda>r. tpm_down_proj (m r)", OF W alg row]
  have "together W (\<lambda>r. row_forward ops ob (tpm_down_proj (m r)) (l r)) k c (Suc k) c y" .
  then show ?thesis
    by (rule together_cong [rotated]) (use all_ranks_Inr [OF l] in \<open>simp add: tp_mlp_forward_def\<close>)
qed

lemma together_block:
  assumes W: "0 < W" "W \<le> 256" "k + 2 \<le> 2 ^ 44"
    and alg: "\<And>r. r < W \<Longrightarrow> rpl_algorithm (tpa_o_proj (tpb_attention (b r))) = alg \<and>
       rpl_algorithm (tpm_down_proj (tpb_mlp (b r))) = alg"
    and y: "lock_block ops alg W b input pos layer rp c = Inr (y, c')"
  shows "together W (\<lambda>r. tp_block_forward ops ob (b r) input pos layer (rp r)) k c (k + 2) c' y"
proof -
  from y obtain x at hid z m where x: "all_ranks W (\<lambda>r. norm_forward ops (tpb_input_norm (b r)) input) = Inr x"
    and at: "lock_attention ops alg W (\<lambda>r. tpb_attention (b r)) x pos layer rp c = Inr (at, c')"
    and hid: "tensor_add (op_add ops) input at = Inr hid"
    and z: "all_ranks W (\<lambda>r. norm_forward ops (tpb_post_attention_norm (b r)) hid) = Inr z"
    and m: "lock_mlp ops alg W (\<lambda>r. tpb_mlp (b r)) z = Inr m" and out: "tensor_add (op_add ops) hid m = Inr y"
    by (auto simp: lock_block_def)
  let ?fin = "\<lambda>r m s. pr_bind (Ret (lift_tensor (tensor_add (op_add ops) hid m))) (\<lambda>out. Ret (Inr (out, s)))"
  let ?mlp = "\<lambda>r s. pr_bind (tp_mlp_forward ops ob (tpb_mlp (b r)) (z r) s) (\<lambda>(m, s). ?fin r m s)"
  let ?rest = "\<lambda>r at s. pr_bind (Ret (lift_tensor (tensor_add (op_add ops) input at))) (\<lambda>hidden.
     pr_bind (Ret (norm_forward ops (tpb_post_attention_norm (b r)) hidden)) (\<lambda>y.
     pr_bind (tp_mlp_forward ops ob (tpb_mlp (b r)) y s) (\<lambda>(m, s2).
     pr_bind (Ret (lift_tensor (tensor_add (op_add ops) hidden m))) (\<lambda>out. Ret (Inr (out, s2))))))"
  have "together W (\<lambda>r. ?fin r m) (Suc (Suc k)) c' (Suc (Suc k)) c' y"
    by (rule together_cong [OF _ together_ret]) (simp add: out)
  from together_bind [where g = ?fin, OF together_mlp [where m = "\<lambda>r. tpb_mlp (b r)" and k = "Suc k", OF W(1,2) _ _ m] this]
  have "together W ?mlp (Suc k) c' (Suc (Suc k)) c' y" using W(3) alg by simp
  then have "together W (\<lambda>r. ?rest r at) (Suc k) c' (Suc (Suc k)) c' y"
    by (rule together_cong [rotated]) (use hid all_ranks_Inr [OF z] in simp)
  from together_bind [where g = ?rest, OF together_attention [where a = "\<lambda>r. tpb_attention (b r)" and rp = rp and k = k, OF W(1,2) _ _ at] this]
  have "together W (\<lambda>r s. pr_bind (tp_attention_forward ops ob (tpb_attention (b r)) (x r) pos layer (rp r) s)
      (\<lambda>(at, s). ?rest r at s)) k c (Suc (Suc k)) c' y" using W(3) alg by simp
  then show ?thesis
    unfolding add_2_eq_Suc'
    by (rule together_cong [rotated]) (use all_ranks_Inr [OF x] in \<open>simp add: tp_block_forward_def\<close>)
qed

lemma together_blocks:
  assumes W: "0 < W" "W \<le> 256" and plan: "same_plan W alg m"
    and n: "layer + n = length (tpl_blocks (m 0))" and k: "k + 2 * n \<le> 2 ^ 44"
    and y: "lock_blocks ops alg W m pos layer n input c = Inr (y, c')"
  shows "together W (\<lambda>r. tp_forward_blocks ops ob (tpl_rope (m r)) pos layer (drop layer (tpl_blocks (m r))) input)
     k c (k + 2 * n) c' y"
  using n k y
proof (induction n arbitrary: layer k input c)
  case 0
  have "drop layer (tpl_blocks (m r)) = []" if "r < W" for r
    using same_planD(1) [OF plan that] 0(1) by simp
  moreover have "y = input" "c' = c" using 0(3) by simp_all
  ultimately show ?case
    by (auto intro: together_cong [where g = "\<lambda>r s. Ret (Inr (input, s))", OF _ together_ret])
next
  case (Suc n)
  let ?b = "\<lambda>r. tpl_blocks (m r) ! layer"
  from Suc.prems(3) obtain h c1 where b: "lock_block ops alg W ?b input pos layer (\<lambda>r. tpl_rope (m r)) c = Inr (h, c1)"
    and r: "lock_blocks ops alg W m pos (Suc layer) n h c1 = Inr (y, c')" by auto
  have len: "layer < length (tpl_blocks (m r))" if "r < W" for r
    using same_planD(1) [OF plan that] Suc.prems(1) by simp
  have alg: "rpl_algorithm (tpa_o_proj (tpb_attention (?b r))) = alg \<and> rpl_algorithm (tpm_down_proj (tpb_mlp (?b r))) = alg"
    if "r < W" for r using len [OF that] by (intro same_planD(4) [OF plan that]) simp
  have one: "together W (\<lambda>r. tp_block_forward ops ob (?b r) input pos layer (tpl_rope (m r))) k c (k + 2) c1 h"
    by (rule together_block [OF W _ alg b]) (use Suc.prems(2) in auto)
  have "together W (\<lambda>r. tp_forward_blocks ops ob (tpl_rope (m r)) pos (Suc layer) (drop (Suc layer) (tpl_blocks (m r))) h)
      (k + 2) c1 (k + 2 + 2 * n) c' y" using Suc.prems by (intro Suc.IH [OF _ _ r]) auto
  from together_observer [OF this, of "\<lambda>r. ob_layer_completed ob layer"]
  have "together W (\<lambda>r s. pr_bind (tp_block_forward ops ob (?b r) input pos layer (tpl_rope (m r))
        (s\<lparr>ts_observer := ob_layer_started ob layer (ts_observer s)\<rparr>))
      (\<lambda>(h, s). tp_forward_blocks ops ob (tpl_rope (m r)) pos (Suc layer) (drop (Suc layer) (tpl_blocks (m r))) h
         (s\<lparr>ts_observer := ob_layer_completed ob layer (ts_observer s)\<rparr>))) k c (k + 2 + 2 * n) c' y"
    by (rule together_bind [OF together_observer [OF one, of "\<lambda>r. ob_layer_started ob layer"]])
  then have "together W (\<lambda>r. tp_forward_blocks ops ob (tpl_rope (m r)) pos layer (drop layer (tpl_blocks (m r))) input)
      k c (k + 2 + 2 * n) c' y"
    by (rule together_cong [rotated]) (simp add: Cons_nth_drop_Suc [OF len, symmetric])
  then show ?case by simp
qed

lemma together_forward:
  assumes W: "0 < W" "W \<le> 256" and plan: "same_plan W alg m"
    and k: "k + 2 * length (tpl_blocks (m 0)) + 2 \<le> 2 ^ 44"
    and y: "lock_forward ops sc alg W m ids pos c = Inr (logits, c')"
  shows "together W (\<lambda>r. tp_forward_observed ops sc ob (m r) ids pos) k c
     (k + 2 * length (tpl_blocks (m 0)) + 2) c' logits"
proof -
  let ?L = "length (tpl_blocks (m 0))"
  from y obtain seqn h0 h1 x l lg where
    seqn: "all_ranks W (\<lambda>r. tp_forward_checks (m r) (member W r) ids pos (c r)) = Inr seqn"
    and h0: "lock_embedding ops sc alg W (\<lambda>r. tpl_embeddings (m r)) ids = Inr h0"
    and h1: "lock_blocks ops alg W m pos 0 ?L h0 c = Inr (h1, c')"
    and x: "all_ranks W (\<lambda>r. norm_forward ops (tpl_final_norm (m r)) h1) = Inr x"
    and l: "all_ranks W (\<lambda>r. lift_tensor (index_mid (x r) (seqn r - 1))) = Inr l"
    and lg: "lock_head ops W (\<lambda>r. tpl_lm_head (m r)) l = Inr lg" and out: "op_to_dtype ops lg F32 = Inr logits"
    by (auto simp: lock_forward_def)
  let ?k1 = "Suc k" and ?k2 = "Suc k + 2 * ?L" and ?k3 = "Suc (Suc k + 2 * ?L)"
  let ?fin = "\<lambda>r lg s. pr_bind (Ret (lift_tensor (op_to_dtype ops lg F32))) (\<lambda>logits. Ret (Inr (logits, s)))"
  let ?head = "\<lambda>r h s. pr_bind (Ret (norm_forward ops (tpl_final_norm (m r)) h)) (\<lambda>h.
     pr_bind (Ret (lift_tensor (index_mid h (seqn r - 1)))) (\<lambda>last.
     pr_bind (column_forward ops ob (tpl_lm_head (m r)) last s) (\<lambda>(lg, s). ?fin r lg s)))"
  let ?blocks = "\<lambda>r h s. pr_bind (tp_forward_blocks ops ob (tpl_rope (m r)) pos 0 (tpl_blocks (m r)) h s)
     (\<lambda>(h, s). ?head r h s)"
  have "together W (\<lambda>r. ?fin r lg) ?k3 c' ?k3 c' logits"
    by (rule together_cong [OF _ together_ret]) (simp add: out)
  moreover have "together W (\<lambda>r. column_forward ops ob (tpl_lm_head (m r)) (l r)) ?k2 c' ?k3 c' lg"
    by (rule together_head [OF W(1) _ _ lg]) (use k same_planD(3) [OF plan] in auto)
  ultimately have "together W (\<lambda>r s. pr_bind (column_forward ops ob (tpl_lm_head (m r)) (l r) s) (\<lambda>(lg, s). ?fin r lg s))
      ?k2 c' ?k3 c' logits" by (intro together_bind [where g = ?fin])
  then have "together W (\<lambda>r. ?head r h1) ?k2 c' ?k3 c' logits"
    by (rule together_cong [rotated]) (use all_ranks_Inr [OF x] all_ranks_Inr [OF l] in simp)
  moreover have "together W (\<lambda>r. tp_forward_blocks ops ob (tpl_rope (m r)) pos 0 (tpl_blocks (m r)) h0) ?k1 c ?k2 c' h1"
    using together_blocks [OF W plan, of 0 ?L ?k1] h1 k by simp
  ultimately have "together W (\<lambda>r. ?blocks r h0) ?k1 c ?k3 c' logits" by (intro together_bind [where g = ?head])
  moreover have "together W (\<lambda>r. embedding_forward ops sc ob (tpl_embeddings (m r)) ids) k c ?k1 c h0"
    by (rule together_embedding [OF W _ _ h0]) (use k same_planD(2) [OF plan] in auto)
  ultimately have "together W (\<lambda>r s. pr_bind (embedding_forward ops sc ob (tpl_embeddings (m r)) ids s)
      (\<lambda>(h, s). ?blocks r h s)) k c ?k3 c' logits" by (intro together_bind [where g = ?blocks])
  then have "together W (\<lambda>r. tp_forward_observed ops sc ob (m r) ids pos) k c ?k3 c' logits"
    by (rule together_cong [rotated]) (use all_ranks_Inr [OF seqn] in \<open>simp add: tp_forward_observed_def\<close>)
  then show ?thesis by simp
qed

text \<open>
  C11. The tensor-parallel forward pass refines its sequential specification \<open>lock_forward\<close>, in which a
  collective is a function of all ranks' tensors: on up to 256 ranks that hold shards of one
  model and have made the same number of collective calls, whatever the schedule, all ranks
  return, all with the same logits, those of the specification, with the specified caches,
  after \<open>2 L + 2\<close> further collective calls each for \<open>L\<close> layers (embedding, attention and MLP per
  layer, logits), counted by sequence number and trace. Observers have no influence.
\<close>

theorem tp_forward_refines_lockstep:
  assumes "0 < W" "W \<le> 256" "same_plan W alg m" "k + 2 * length (tpl_blocks (m 0)) + 2 \<le> 2 ^ 44"
    and "lock_forward ops sc alg W m ids pos c = Inr (logits, c')" and "caches_are W k c s"
  shows "\<exists>s'. caches_are W (k + 2 * length (tpl_blocks (m 0)) + 2) c' s' \<and>
     all_runs_return W (\<lambda>r. tp_forward_observed ops sc ob (m r) ids pos (s r)) (\<lambda>r. Inr (logits, s' r))"
  using together_forward [OF assms(1-5), of ob] assms(6) computes_all_runs unfolding together_def by blast

end
