(* ===== verification/PipelineStages.thy ===== *)
theory PipelineStages
  imports Pipeline
begin

text \<open>
  The stages of a pipeline compute together what the whole model computes: a block works on
  its own cache layer only, so a forward pass over all layers is the passes of the stages
  one after the other, each on its slice of the cache.
\<close>

section \<open>Blocks are local to their layer\<close>

lemma rbind_assoc: "rbind (rbind m f) g = rbind m (\<lambda>x. rbind (f x) g)"
  by (cases m) auto

definition attention_on ::
  "'v candle_ops \<Rightarrow> 'v causal_self_attention \<Rightarrow> 'v tensor \<Rightarrow> usize \<Rightarrow> 'v rotary_embedding \<Rightarrow> 'v layer_kv_cache
     \<Rightarrow> ('v tensor \<times> 'v layer_kv_cache) dresult" where
  "attention_on ops a x pos rp l =
     rbind (attention_forward ops a x pos 0 rp \<lparr>kv_layers = [l], kv_capacity = 0\<rparr>) (\<lambda>(y, c). Inr (y, hd (kv_layers c)))"

definition block_on ::
  "'v candle_ops \<Rightarrow> 'v rotary_embedding \<Rightarrow> usize \<Rightarrow> 'v llama_block \<Rightarrow> 'v tensor \<Rightarrow> 'v layer_kv_cache
     \<Rightarrow> ('v tensor \<times> 'v layer_kv_cache) dresult" where
  "block_on ops rp pos b x l =
     rbind (block_forward ops b x pos 0 rp \<lparr>kv_layers = [l], kv_capacity = 0\<rparr>) (\<lambda>(y, c). Inr (y, hd (kv_layers c)))"

definition set_layer :: "usize \<Rightarrow> 'v layer_kv_cache \<Rightarrow> 'v kv_cache \<Rightarrow> 'v kv_cache" where
  "set_layer i l c = c\<lparr>kv_layers := (kv_layers c)[i := l]\<rparr>"

lemma attention_local:
  assumes "layer < length (kv_layers c)"
  shows "attention_forward ops a x pos layer rp c =
     rbind (attention_on ops a x pos rp (kv_layers c ! layer)) (\<lambda>(y, l). Inr (y, set_layer layer l c))"
  using assms
  by (simp add: attention_forward_def attention_on_def kv_append_def set_layer_def rbind_assoc split_def Let_def
        cong: if_cong)

lemma block_local:
  assumes "layer < length (kv_layers c)"
  shows "block_forward ops b x pos layer rp c =
     rbind (block_on ops rp pos b x (kv_layers c ! layer)) (\<lambda>(y, l). Inr (y, set_layer layer l c))"
  using assms attention_local [of 0 "\<lparr>kv_layers = [kv_layers c ! layer], kv_capacity = 0\<rparr>"]
  by (simp add: block_forward_def block_on_def attention_local rbind_assoc split_def set_layer_def)

text \<open>The layer loop as a function on the list of cache layers.\<close>

fun run_blocks ::
  "'v candle_ops \<Rightarrow> 'v rotary_embedding \<Rightarrow> usize \<Rightarrow> 'v llama_block list \<Rightarrow> 'v tensor \<Rightarrow> 'v layer_kv_cache list
     \<Rightarrow> ('v tensor \<times> 'v layer_kv_cache list) dresult" where
  "run_blocks ops rp pos (b # bs) x (l # ls) =
     rbind (block_on ops rp pos b x l) (\<lambda>(y, l'). rbind (run_blocks ops rp pos bs y ls) (\<lambda>(z, ls'). Inr (z, l' # ls')))"
| "run_blocks ops rp pos _ x ls = Inr (x, ls)"

lemma forward_blocks_run:
  assumes "length (kv_layers c) = i + length bs"
  shows "forward_blocks ops rp pos i bs x c =
     rbind (run_blocks ops rp pos bs x (drop i (kv_layers c))) (\<lambda>(y, ls).
       Inr (y, c\<lparr>kv_layers := take i (kv_layers c) @ ls\<rparr>))"
  using assms
proof (induction bs arbitrary: i x c)
  case Nil
  then show ?case by simp
next
  case (Cons b bs)
  then have i: "i < length (kv_layers c)" by simp
  then have drop: "drop i (kv_layers c) = kv_layers c ! i # drop (Suc i) (kv_layers c)"
    by (simp add: Cons_nth_drop_Suc)
  have step: "forward_blocks ops rp pos (Suc i) bs y (set_layer i l c) =
      rbind (run_blocks ops rp pos bs y (drop (Suc i) (kv_layers c))) (\<lambda>(z, ls).
        Inr (z, c\<lparr>kv_layers := take i (kv_layers c) @ l # ls\<rparr>))" for y l
    using Cons.IH [of "set_layer i l c" "Suc i" y] Cons.prems i
    by (simp add: set_layer_def drop_update_cancel take_Suc_conv_app_nth)
  show ?case
    unfolding drop forward_blocks.simps block_local [OF i] run_blocks.simps rbind_assoc split_def
    by (simp add: step [unfolded split_def])
qed

lemma run_blocks_append:
  assumes "length bs1 = length ls1"
  shows "run_blocks ops rp pos (bs1 @ bs2) x (ls1 @ ls2) =
     rbind (run_blocks ops rp pos bs1 x ls1) (\<lambda>(y, ls1').
       rbind (run_blocks ops rp pos bs2 y ls2) (\<lambda>(z, ls2'). Inr (z, ls1' @ ls2')))"
  using assms
proof (induction bs1 ls1 arbitrary: x rule: list_induct2)
  case Nil
  then show ?case by (cases "run_blocks ops rp pos bs2 x ls2") auto
next
  case (Cons b bs l ls)
  then show ?case by (simp add: rbind_assoc split_def)
qed

section \<open>Shapes and cache lengths\<close>

text \<open>
  What is used of Candle's kernels: normalization and rotary embedding keep the shape, a
  transposition exchanges its two axes, a linear layer returns a consistent tensor, and an
  embedding lookup replaces every token by a row of the weight matrix; a tensor fits the
  address space.
\<close>

definition kernels_ok :: "'v candle_ops \<Rightarrow> bool" where
  "kernels_ok ops \<longleftrightarrow>
     (\<forall>eps w x y. op_rms_norm ops eps w x = Inr y \<longrightarrow> t_dims y = t_dims x) \<and>
     (\<forall>x y. op_transpose ops x 1 2 = Inr y \<longrightarrow> t_dims y = (t_dims x)[1 := t_dims x ! 2, 2 := t_dims x ! 1]) \<and>
     (\<forall>x c s y. op_rope ops x c s = Inr y \<longrightarrow> t_dims y = t_dims x) \<and>
     (\<forall>w x y. op_linear ops w x = Inr y \<longrightarrow> wf_tensor y) \<and>
     (\<forall>w v h ids y. t_dims w = [v, h] \<longrightarrow> op_embedding ops w ids = Inr y \<longrightarrow>
        t_dims y = t_dims ids @ [h] \<and> t_device y = t_device w \<and> t_dtype y = t_dtype w \<and> wf_tensor y \<and>
        4 * elem_count y < 2 ^ 64)"

definition embedding_ok :: "usize \<Rightarrow> 'v tensor \<Rightarrow> bool" where
  "embedding_ok hidden w \<longleftrightarrow> t_device w = Cpu \<and> t_dtype w = F32 \<and> length (t_dims w) = 2 \<and> t_dims w ! 1 = hidden"

lemma project_heads_dims:
  assumes "kernels_ok ops" "project_heads ops w x batch seqn heads d = Inr y"
  shows "t_dims y = [batch, heads, seqn, d]"
  using assms by (auto simp: project_heads_def kernels_ok_def reshape_def numeral_2_eq_2 split: if_splits)

lemma rope_apply_dims: "kernels_ok ops \<Longrightarrow> rope_apply ops r x pos = Inr y \<Longrightarrow> t_dims y = t_dims x"
  by (auto simp: rope_apply_def kernels_ok_def)

lemma layer_append_Inr:
  assumes "layer_append l k v = (Inr r, l')" "t_dims k = [a, b, s, d]"
  shows "l_length l' = l_length l + s \<and> l_capacity l' = l_capacity l"
proof -
  have "dims4 k = Inr (a, b, s, d)" using assms(2) by (simp add: dims4_def)
  with assms(1) show ?thesis by (auto simp: layer_append_def Let_def split: if_splits sum.splits)
qed

lemma attention_on_Inr:
  assumes "kernels_ok ops" "attention_on ops a x pos rp l = Inr (y, l')" "t_dims x = [batch, seqn, h]"
  shows "l_length l' = l_length l + seqn \<and> l_capacity l' = l_capacity l \<and> wf_tensor y"
proof -
  from assms(2,3) obtain k0 k v r where k: "project_heads ops (k_proj a) x batch seqn (a_num_key_value_heads a) (a_head_dim a) = Inr k0"
    "rope_apply ops rp k0 pos = Inr k" "layer_append l k v = (Inr r, l')"
    and y: "\<exists>u. op_linear ops (o_proj a) u = Inr y"
    by (auto simp: attention_on_def attention_forward_def dims3_def kv_append_def Let_def split: prod.splits)
       blast
  have "t_dims k = [batch, a_num_key_value_heads a, seqn, a_head_dim a]"
    using rope_apply_dims [OF assms(1) k(2)] project_heads_dims [OF assms(1) k(1)] by simp
  with layer_append_Inr [OF k(3)] y assms(1) show ?thesis by (auto simp: kernels_ok_def)
qed

text \<open>The type of an activation between two blocks.\<close>

definition activation :: "usize \<Rightarrow> usize \<Rightarrow> 'v tensor \<Rightarrow> bool" where
  "activation seqn hidden t \<longleftrightarrow>
     t_dims t = [1, seqn, hidden] \<and> t_device t = Cpu \<and> t_dtype t = F32 \<and> wf_tensor t \<and> 4 * (seqn * hidden) < 2 ^ 64"

lemma tensor_add_activation:
  "tensor_add add x y = Inr z \<Longrightarrow> activation s h x \<Longrightarrow> wf_tensor y \<Longrightarrow> activation s h z"
  by (auto simp: tensor_add_def activation_def wf_tensor_def elem_count_def split: if_splits)

lemma block_on_Inr:
  assumes ops: "kernels_ok ops" and b: "block_on ops rp pos b x l = Inr (y, l')" and x: "activation seqn h x"
  shows "activation seqn h y \<and> l_length l' = l_length l + seqn \<and> l_capacity l' = l_capacity l"
proof -
  let ?c = "\<lparr>kv_layers = [l], kv_capacity = 0\<rparr>"
  from b obtain n a hid m where n: "norm_forward ops (input_norm b) x = Inr n"
    and a: "attention_on ops (b_attention b) n pos rp l = Inr (a, l')"
    and hid: "tensor_add (op_add ops) x a = Inr hid" and m: "\<exists>u. op_linear ops (down_proj (b_mlp b)) u = Inr m"
    and y: "tensor_add (op_add ops) hid m = Inr y"
    by (auto simp: block_on_def block_forward_def attention_local [of 0 ?c] set_layer_def mlp_forward_def)
       blast
  have "t_dims n = [1, seqn, h]" using n x ops by (auto simp: norm_forward_def kernels_ok_def activation_def)
  from attention_on_Inr [OF ops a this] have "l_length l' = l_length l + seqn" "l_capacity l' = l_capacity l" "wf_tensor a"
    by auto
  moreover have "wf_tensor m" using m ops by (auto simp: kernels_ok_def)
  ultimately show ?thesis using tensor_add_activation hid y x by metis
qed

lemma run_blocks_Inr:
  assumes "kernels_ok ops" "run_blocks ops rp pos bs x ls = Inr (y, ls')" "length bs = length ls" "activation seqn h x"
  shows "activation seqn h y \<and> length ls' = length ls \<and>
     map l_length ls' = map (\<lambda>l. l_length l + seqn) ls \<and> map l_capacity ls' = map l_capacity ls"
  using assms(3,2,4)
proof (induction bs ls arbitrary: x ls' rule: list_induct2)
  case Nil
  then show ?case by simp
next
  case (Cons b bs l ls)
  then obtain z l1 ls1 where z: "block_on ops rp pos b x l = Inr (z, l1)"
    and r: "run_blocks ops rp pos bs z ls = Inr (y, ls1)" and ls': "ls' = l1 # ls1"
    by auto
  from block_on_Inr [OF assms(1) z Cons.prems(2)] Cons.IH [OF r] ls' show ?case by auto
qed

section \<open>Stages in a row\<close>

lemma length_concat_upt:
  "(\<And>r. r < W \<Longrightarrow> length (f r) = length (g r)) \<Longrightarrow>
     length (concat (map f [0..<W])) = length (concat (map g [0..<W]))"
  by (induction W) auto

lemma run_blocks_stages:
  assumes "run_blocks ops rp pos (concat (map B [0..<W])) x (concat (map Ls [0..<W])) = Inr (y, ls')"
    and "\<And>r. r < W \<Longrightarrow> length (B r) = length (Ls r)"
  shows "\<exists>X Ls'. X 0 = x \<and> X W = y \<and> ls' = concat (map Ls' [0..<W]) \<and>
     (\<forall>r < W. run_blocks ops rp pos (B r) (X r) (Ls r) = Inr (X (Suc r), Ls' r))"
  using assms
proof (induction W arbitrary: y ls')
  case 0
  then show ?case by (intro exI [of _ "\<lambda>_. x"]) auto
next
  case (Suc W)
  have "length (concat (map B [0..<W])) = length (concat (map Ls [0..<W]))"
    using Suc.prems(2) by (intro length_concat_upt) simp
  then obtain z ls1 ls2 where z: "run_blocks ops rp pos (concat (map B [0..<W])) x (concat (map Ls [0..<W])) = Inr (z, ls1)"
    and y: "run_blocks ops rp pos (B W) z (Ls W) = Inr (y, ls2)" and ls': "ls' = ls1 @ ls2"
    using Suc.prems(1) by (auto simp: run_blocks_append)
  from Suc.IH [OF z] Suc.prems(2) obtain X Ls' where X: "X 0 = x" "X W = z" "ls1 = concat (map Ls' [0..<W])"
    "\<forall>r < W. run_blocks ops rp pos (B r) (X r) (Ls r) = Inr (X (Suc r), Ls' r)" by auto
  have upd: "map (\<lambda>r. if r = W then ls2 else Ls' r) [0..<W] = map Ls' [0..<W]" by simp
  show ?case
    by (rule exI [of _ "X(Suc W := y)"], rule exI [of _ "Ls'(W := ls2)"])
       (use X y ls' upd in \<open>auto simp: less_Suc_eq fun_upd_def simp del: map_eq_conv\<close>)
qed

text \<open>
  \<open>pipeline_view\<close>: the stages hold the model, their caches hold the model's cache, and every
  layer has cached \<open>n\<close> positions.
\<close>

definition pipeline_view ::
  "nat \<Rightarrow> 'v llama \<Rightarrow> (usize \<Rightarrow> 'v llama_stage) \<Rightarrow> 'v kv_cache \<Rightarrow> (usize \<Rightarrow> 'v kv_cache) \<Rightarrow> nat \<Rightarrow> bool" where
  "pipeline_view W m st C c n \<longleftrightarrow>
     0 < W \<and> blocks m = concat (map (\<lambda>r. st_blocks (st r)) [0..<W]) \<and>
     kv_layers C = concat (map (\<lambda>r. kv_layers (c r)) [0..<W]) \<and>
     (\<forall>r < W. st_rope (st r) = rope m \<and> st_blocks (st r) \<noteq> [] \<and>
        length (st_blocks (st r)) = length (kv_layers (c r)) \<and> kv_capacity (c r) = kv_capacity C \<and>
        map l_length (kv_layers (c r)) = replicate (length (kv_layers (c r))) n) \<and>
     st_embeddings (st 0) = Some (embeddings m) \<and>
     st_final_norm (st (W - 1)) = Some (final_norm m) \<and> st_lm_head (st (W - 1)) = Some (lm_head m)"

lemma view_stage:
  assumes "pipeline_view W m st C c n" "r < W"
  shows "kv_len (c r) = n" "kv_layer_count (c r) = length (st_blocks (st r))" "kv_capacity (c r) = kv_capacity C"
    "st_rope (st r) = rope m"
  using assms by (auto simp: pipeline_view_def kv_len_def kv_layer_count_def split: list.splits)

lemma view_len: "pipeline_view W m st C c n \<Longrightarrow> kv_len C = n"
  using view_stage(1) [of W m st C c n 0]
  by (auto simp: pipeline_view_def kv_len_def upt_conv_Cons split: list.splits)

lemma stage_forward_hidden_run:
  assumes "activation seqn h x" "0 < seqn" "kv_layer_count c = length (st_blocks s)" "pos = kv_len c"
    and "pos + seqn \<le> kv_capacity c" "run_blocks ops (st_rope s) pos (st_blocks s) x (kv_layers c) = Inr (y, ls)"
  shows "stage_forward_hidden ops s x pos c = Inr (y, c\<lparr>kv_layers := ls\<rparr>)"
proof -
  have "dims3 x = Inr (1, seqn, h)" using assms(1) by (simp add: activation_def dims3_def)
  moreover have "position_error pos seqn c = None" using assms(4,5) by (simp add: position_error_def)
  moreover have "forward_blocks ops (st_rope s) pos 0 (st_blocks s) x c = Inr (y, c\<lparr>kv_layers := ls\<rparr>)"
    using forward_blocks_run [of c 0 "st_blocks s"] assms(3,6) by (simp add: kv_layer_count_def)
  ultimately show ?thesis using assms(2,3) by (simp add: stage_forward_hidden_def)
qed

lemma view_forward:
  assumes view: "pipeline_view W m st C c n" and ops: "kernels_ok ops" and emb: "embedding_ok H (embeddings m)"
    and ids: "ids \<noteq> []"
    and fw: "llama_forward ops m (token_input ids) n C = Inr (logits, C')"
  shows "\<exists>X c'. stage_forward_tokens ops (st 0) (token_input ids) n (c 0) = Inr (X 1, c' 0) \<and>
     (\<forall>r. 0 < r \<longrightarrow> r < W \<longrightarrow> stage_forward_hidden ops (st r) (X r) n (c r) = Inr (X (Suc r), c' r)) \<and>
     (\<forall>r. 0 < r \<longrightarrow> r \<le> W \<longrightarrow> activation (length ids) H (X r)) \<and>
     stage_finish ops (st (W - 1)) (X W) = Inr logits \<and>
     pipeline_view W m st C' c' (n + length ids) \<and> kv_capacity C' = kv_capacity C"
proof -
  let ?S = "length ids"
  have W: "0 < W" using view by (simp add: pipeline_view_def)
  have d2: "dims2 (token_input ids) = Inr (1, ?S)" by (simp add: dims2_def token_input_def)
  from fw d2 ids obtain x y where pe: "position_error n ?S C = None"
    and x: "op_embedding ops (embeddings m) (token_input ids) = Inr x"
    and y: "forward_blocks ops (rope m) n 0 (blocks m) x C = Inr (y, C')"
    and l: "head_forward ops (final_norm m) (lm_head m) y ?S = Inr logits"
    by (auto simp: llama_forward_def split: option.splits if_splits)
  have fit: "n + ?S \<le> kv_capacity C" using pe by (auto simp: position_error_def split: if_splits)
  have "t_dims x = [1, ?S, H]" "t_device x = Cpu" "t_dtype x = F32" "wf_tensor x" "4 * elem_count x < 2 ^ 64"
    using x ops emb by (auto simp: kernels_ok_def embedding_ok_def token_input_def length_Suc_conv numeral_2_eq_2)
  then have ax: "activation ?S H x" by (simp add: activation_def elem_count_def)
  have len: "length (st_blocks (st r)) = length (kv_layers (c r))" if "r < W" for r
    using view that by (simp add: pipeline_view_def)
  have bs: "blocks m = concat (map (\<lambda>r. st_blocks (st r)) [0..<W])"
    and ls: "kv_layers C = concat (map (\<lambda>r. kv_layers (c r)) [0..<W])" using view by (simp_all add: pipeline_view_def)
  have total: "length (kv_layers C) = 0 + length (blocks m)"
    unfolding bs ls using length_concat_upt [of W "\<lambda>r. st_blocks (st r)" "\<lambda>r. kv_layers (c r)"] len by simp
  from y obtain ls' where run: "run_blocks ops (rope m) n (blocks m) x (kv_layers C) = Inr (y, ls')"
    and C': "C' = C\<lparr>kv_layers := ls'\<rparr>" by (auto simp: forward_blocks_run [OF total])
  from run_blocks_stages [OF run [unfolded bs ls]] len obtain X Ls' where X: "X 0 = x" "X W = y"
    "ls' = concat (map Ls' [0..<W])"
    "\<forall>r < W. run_blocks ops (rope m) n (st_blocks (st r)) (X r) (kv_layers (c r)) = Inr (X (Suc r), Ls' r)" by blast
  have act: "activation ?S H (X r)" if "r \<le> W" for r
    using that
  proof (induction r)
    case 0
    then show ?case using ax X(1) by simp
  next
    case (Suc r)
    then show ?case using run_blocks_Inr [OF ops X(4) [rule_format, of r] len] by simp
  qed
  define c' where "c' r = (c r)\<lparr>kv_layers := Ls' r\<rparr>" for r
  have stage: "stage_forward_hidden ops (st r) (X r) n (c r) = Inr (X (Suc r), c' r)" if r: "r < W" for r
    using stage_forward_hidden_run [of ?S H "X r" "c r" "st r" n ops "X (Suc r)" "Ls' r"] act [of r]
      view_stage [OF view r] X(4) r fit ids by (simp add: c'_def)
  have first: "stage_forward_tokens ops (st 0) (token_input ids) n (c 0) = Inr (X 1, c' 0)"
    using d2 x ids stage [OF W] X(1) view by (simp add: stage_forward_tokens_def pipeline_view_def)
  have "dims3 y = Inr (1, ?S, H)" using act [of W] X(2) by (simp add: activation_def dims3_def)
  then have fin: "stage_finish ops (st (W - 1)) (X W) = Inr logits"
    using l X(2) view ids by (simp add: stage_finish_def pipeline_view_def)
  have "map l_length (Ls' r) = replicate (length (Ls' r)) (n + ?S) \<and> length (Ls' r) = length (kv_layers (c r))"
    if r: "r < W" for r
  proof -
    have "map l_length (Ls' r) = map (\<lambda>l. l_length l + ?S) (kv_layers (c r))" "length (Ls' r) = length (kv_layers (c r))"
      using run_blocks_Inr [OF ops X(4) [rule_format, OF r] len [OF r] act] r by auto
    moreover have "map (\<lambda>l. l_length l + ?S) (kv_layers (c r)) = map (\<lambda>k. k + ?S) (map l_length (kv_layers (c r)))"
      by simp
    ultimately show ?thesis using view r by (simp add: pipeline_view_def del: map_map)
  qed
  then have "pipeline_view W m st C' c' (n + ?S)"
    using view X(3) by (auto simp: pipeline_view_def C' c'_def cong: map_cong)
  then show ?thesis using first stage act fin C' by (intro exI [of _ X] exI [of _ c']) auto
qed

end
