(* ===== verification/PipelineProofs.thy ===== *)
theory PipelineProofs
  imports PipelineStages CentralizedProofs
begin

text \<open>
  The pipeline computes what single-rank generation computes, in every schedule. One round
  of all ranks is a chain of activations followed by the token and the decision; the rounds
  are composed along the decisions.
\<close>

section \<open>A chain of activations, a token, a decision\<close>

text \<open>The world while the activation of rank \<open>j\<close> is under way.\<close>

definition chain_world ::
  "nat \<Rightarrow> (usize \<Rightarrow> ('v, 'r) prog) \<Rightarrow> (usize \<Rightarrow> ('v, 'r) prog) \<Rightarrow> message_tag \<Rightarrow> (usize \<Rightarrow> 'v message_payload) \<Rightarrow> nat
     \<Rightarrow> ('v, 'r) world" where
  "chain_world W f k t x j =
     \<lparr>progs = (\<lambda>r. if r < W then (if r \<le> j then k r else f r) else Fail InvalidWorldSize),
      mail = (\<lambda>a b. if a = j \<and> b = Suc j then [(t, x j)] else [])\<rparr>"

lemma reach_chain:
  assumes W: "2 \<le> W" and f0: "f 0 = Send 1 t (x 0) (k 0)"
    and fr: "\<And>r. 0 < r \<Longrightarrow> r < W \<Longrightarrow> f r = Recv (r - 1) TensorKind t (g r)"
    and gr: "\<And>r. 0 < r \<Longrightarrow> Suc r < W \<Longrightarrow> g r (x (r - 1)) = Send (Suc r) t (x r) (k r)"
    and gl: "g (W - 1) (x (W - 2)) = k (W - 1)"
    and kd: "\<And>r. Suc r < W \<Longrightarrow> kind_of (x r) = TensorKind"
  shows "reach W (start W f) (start W k)"
proof -
  have hop: "reach W (start W f) (chain_world W f k t x j)" if "Suc j < W" for j
    using that
  proof (induction j)
    case 0
    have "progs (start W f) 0 = Send 1 t (x 0) (k 0)" using f0 W by (simp add: start_def)
    note send = reach_send [OF _ this, of W]
    show ?case
      by (rule back_subst [where P = "reach W (start W f)", OF send])
         (use W in \<open>auto simp: start_def chain_world_def fun_eq_iff\<close>)
  next
    case (Suc j)
    let ?w = "chain_world W f k t x j"
    have p: "progs ?w (Suc j) = Recv j TensorKind t (g (Suc j))"
      using Suc.prems fr [of "Suc j"] by (simp add: chain_world_def)
    have m: "take_mail TensorKind t (mail ?w j (Suc j)) = Some (x j, [])"
      using kd [of j] Suc.prems by (simp add: chain_world_def)
    let ?w1 = "?w\<lparr>progs := (progs ?w)(Suc j := g (Suc j) (x j)), mail := put_mail j (Suc j) [] (mail ?w)\<rparr>"
    have 1: "reach W ?w ?w1" using Suc.prems by (intro reach_recv [OF _ p m]) simp
    have p1: "progs ?w1 (Suc j) = Send (Suc (Suc j)) t (x (Suc j)) (k (Suc j))"
      using gr [of "Suc j"] Suc.prems by simp
    have 2: "reach W ?w1 (chain_world W f k t x (Suc j))"
      by (rule back_subst [where P = "reach W ?w1", OF reach_send [OF _ p1]])
         (use Suc.prems in \<open>auto simp: chain_world_def fun_eq_iff\<close>)
    from Suc.IH Suc.prems 1 2 show ?case by (meson Suc_lessD rtranclp_trans)
  qed
  let ?j = "W - 2"
  let ?w = "chain_world W f k t x ?j"
  have p: "progs ?w (W - 1) = Recv ?j TensorKind t (g (W - 1))"
  proof -
    have "\<not> W - 1 \<le> W - 2" "W - 1 - 1 = W - 2" "0 < W - 1" "W - 1 < W" using W by linarith+
    then show ?thesis using fr [of "W - 1"] by (simp add: chain_world_def)
  qed
  have m: "take_mail TensorKind t (mail ?w ?j (W - 1)) = Some (x ?j, [])"
    using kd [of ?j] W by (simp add: chain_world_def Suc_diff_le numeral_2_eq_2)
  have "reach W ?w (start W k)"
    by (rule back_subst [where P = "reach W ?w", OF reach_recv [OF _ p m]])
       (use W gl in \<open>auto simp: chain_world_def start_def fun_eq_iff\<close>)
  moreover have "reach W (start W f) ?w" using W by (intro hop) simp
  ultimately show ?thesis by (rule rtranclp_trans [rotated])
qed

lemma reach_decision:
  assumes W: "2 \<le> W" and kl: "k (W - 1) = Send 0 tt tok (Recv 0 ControlKind dt (h (W - 1)))"
    and k0: "k 0 = Recv (W - 1) ControlKind tt g0" and g0: "g0 tok = send_loop dt (\<lambda>_. dec) [1..<W] (Ret (res 0))"
    and kr: "\<And>r. 0 < r \<Longrightarrow> r < W - 1 \<Longrightarrow> k r = Recv 0 ControlKind dt (h r)"
    and hr: "\<And>r. 0 < r \<Longrightarrow> r < W \<Longrightarrow> h r dec = Ret (res r)"
    and kinds: "kind_of tok = ControlKind" "kind_of dec = ControlKind"
  shows "reach W (start W k) (start W (\<lambda>r. Ret (res r)))"
proof -
  let ?w0 = "start W k"
  have p0: "progs ?w0 (W - 1) = Send 0 tt tok (Recv 0 ControlKind dt (h (W - 1)))" using kl W by (simp add: start_def)
  let ?w1 = "?w0\<lparr>progs := (progs ?w0)(W - 1 := Recv 0 ControlKind dt (h (W - 1))), mail := put_mail (W - 1) 0 [(tt, tok)] (mail ?w0)\<rparr>"
  have 1: "reach W ?w0 ?w1" using reach_send [OF _ p0] W by (simp add: start_def)
  have p1: "progs ?w1 0 = Recv (W - 1) ControlKind tt g0" using k0 W by (auto simp: start_def)
  let ?w2 = "?w1\<lparr>progs := (progs ?w1)(0 := g0 tok), mail := put_mail (W - 1) 0 [] (mail ?w1)\<rparr>"
  have 2: "reach W ?w1 ?w2"
    by (rule reach_recv [OF _ p1]) (use W kinds in \<open>auto simp: take_mail_def mail_matches_def\<close>)
  have p2: "progs ?w2 0 = send_loop dt (\<lambda>_. dec) [1..<W] (Ret (res 0))" using g0 by simp
  let ?w3 = "?w2\<lparr>progs := (progs ?w2)(0 := Ret (res 0)),
     mail := (\<lambda>a b. if a = 0 \<and> b \<in> set [1..<W] then mail ?w2 a b @ [(dt, dec)] else mail ?w2 a b)\<rparr>"
  have 3: "reach W ?w2 ?w3" using W by (intro reach_send_loop p2) auto
  have p3: "progs ?w3 r = Recv 0 ControlKind dt (h r)" if "r \<in> set [1..<W]" for r
    using that W kr [of r] by (cases "r = W - 1") (auto simp: start_def)
  have m3: "take_mail ControlKind dt (mail ?w3 0 r) = Some (dec, [])" if "r \<in> set [1..<W]" for r
    using that W kinds by (auto simp: start_def take_mail_def mail_matches_def)
  have "reach W ?w3 (start W (\<lambda>r. Ret (res r)))"
    by (rule back_subst [where P = "reach W ?w3",
          OF par_recv [where rs = "[1..<W]" and s = "\<lambda>_. 0" and q = "\<lambda>_. ControlKind" and t = "\<lambda>_. dt"
             and k = h and p = "\<lambda>_. dec" and m = "\<lambda>_. []"]])
       (use W p3 m3 hr in \<open>auto simp: start_def fun_eq_iff Suc_le_eq\<close>)
  with 1 2 3 show ?thesis by (meson rtranclp_trans)
qed

section \<open>The programs of one round\<close>

definition same_core :: "('v, 'd) rank_state \<Rightarrow> ('v, 'd) rank_state \<Rightarrow> bool" where
  "same_core s s' \<longleftrightarrow>
     rs_cache s' = rs_cache s \<and> rs_tokens s' = rs_tokens s \<and> rs_stream s' = rs_stream s \<and>
     rs_previous s' = rs_previous s \<and> rs_step s' = rs_step s"

lemma same_core_refl [simp]: "same_core s s"
  by (simp add: same_core_def)

lemma same_core_trans: "same_core a b \<Longrightarrow> same_core b c \<Longrightarrow> same_core a c"
  by (simp add: same_core_def)

lemma same_core_emit [simp]: "same_core s (emit_st k s)"
  by (simp add: same_core_def emit_st_def)

lemma same_core_update [simp]:
  "same_core s (s\<lparr>rs_communication := c\<rparr>)" "same_core s (emit_st k (s\<lparr>rs_communication := c\<rparr>))"
  by (simp_all add: same_core_def emit_st_def)

abbreviation payload_of :: "'v tensor \<Rightarrow> 'v message_payload" where
  "payload_of t \<equiv> TensorPayload \<lparr>p_shape = t_dims t, p_values = t_values t\<rparr>"

lemma activation_facts:
  assumes "activation seqn h t" "0 < seqn" "0 < h"
  shows "from_tensor t = Inr \<lparr>p_shape = t_dims t, p_values = t_values t\<rparr>"
    "to_tensor \<lparr>p_shape = t_dims t, p_values = t_values t\<rparr> = Inr t"
    "\<exists>b. activation_bytes t = Inr b"
proof -
  have dims: "t_dims t = [1, seqn, h]" and len: "length (t_values t) = seqn * h" and small: "4 * (seqn * h) < 2 ^ 64"
    and dev: "t_device t = Cpu" "t_dtype t = F32"
    using assms(1) by (simp_all add: activation_def wf_tensor_def elem_count_def)
  have "element_count (t_dims t) = Inr (length (t_values t))"
    using element_count_ok [of "t_dims t"] assms(2,3) small by (simp add: dims len mult.commute)
  then show ft: "from_tensor t = Inr \<lparr>p_shape = t_dims t, p_values = t_values t\<rparr>"
    using dev by (simp add: from_tensor_Inr)
  show "to_tensor \<lparr>p_shape = t_dims t, p_values = t_values t\<rparr> = Inr t" by (rule to_tensor_from_tensor [OF ft])
  have "seqn \<le> seqn * h" "h \<le> seqn * h" "(2 :: nat) ^ 64 = 4 * 2 ^ 62" using assms(2,3) by simp_all
  with small have sh: "seqn < 2 ^ 62" "h < 2 ^ 62" "seqn * h < 2 ^ 62" by linarith+
  have "unat (1 :: u64) * prod_list (map unat (map of_nat [1, seqn, h] :: u64 list)) = seqn * h"
    using sh by (simp del: of_nat_1)
  moreover have "0 \<notin> set (map of_nat [1, seqn, h] :: u64 list)"
    using sh assms(2,3) by (auto simp: of_nat_u64_eq_0 dest: sym)
  ultimately obtain e :: u64 where e: "checked_product 1 (map of_nat [1, seqn, h]) = Some e" "unat e = seqn * h"
    using checked_product_fits [of "1 :: u64" "map of_nat [1, seqn, h]"] sh by auto
  have "\<exists>b. checked_mul e 4 = Some b" using e(2) small by (simp add: checked_mul_def mult.commute)
  then show "\<exists>b. activation_bytes t = Inr b" using e(1) by (auto simp: activation_bytes_def dims dev)
qed

definition sent_state ::
  "usize \<Rightarrow> execution_phase \<Rightarrow> usize \<Rightarrow> 'v tensor \<Rightarrow> ('v, 'd) rank_state \<Rightarrow> ('v, 'd) rank_state" where
  "sent_state d phase step t s =
     (let c = rs_communication s; b = projr (activation_bytes t) in
      emit_st (TensorSent d Activation phase step (t_dims t) b)
       (s\<lparr>rs_communication := c\<lparr>tensor_messages_sent := tensor_messages_sent c + 1,
                               tensor_bytes_sent := tensor_bytes_sent c + b\<rparr>\<rparr>))"

definition received_state ::
  "usize \<Rightarrow> execution_phase \<Rightarrow> usize \<Rightarrow> 'v tensor \<Rightarrow> ('v, 'd) rank_state \<Rightarrow> ('v, 'd) rank_state" where
  "received_state src phase step t s =
     (let c = rs_communication s; b = projr (activation_bytes t) in
      emit_st (TensorReceived src Activation phase step (t_dims t) b)
       (s\<lparr>rs_communication := c\<lparr>tensor_messages_received := tensor_messages_received c + 1,
                               tensor_bytes_received := tensor_bytes_received c + b\<rparr>\<rparr>))"

definition control_sent_state ::
  "('v, 'd) pipeline_env \<Rightarrow> pipeline_control \<Rightarrow> control_purpose \<Rightarrow> execution_phase \<Rightarrow> usize \<Rightarrow> usize
     \<Rightarrow> ('v, 'd) rank_state \<Rightarrow> ('v, 'd) rank_state" where
  "control_sent_state env c purpose phase step d s =
     (let r = rs_communication s; n = of_nat (length (projr (pe_to_json env c))) in
      emit_st (ControlSent d purpose phase step n)
       (s\<lparr>rs_communication := r\<lparr>control_messages_sent := control_messages_sent r + 1,
                               control_bytes_sent := control_bytes_sent r + n\<rparr>\<rparr>))"

definition control_received_state ::
  "('v, 'd) pipeline_env \<Rightarrow> pipeline_control \<Rightarrow> control_purpose \<Rightarrow> execution_phase \<Rightarrow> usize \<Rightarrow> usize
     \<Rightarrow> ('v, 'd) rank_state \<Rightarrow> ('v, 'd) rank_state" where
  "control_received_state env c purpose phase step src s =
     (let r = rs_communication s; n = of_nat (length (projr (pe_to_json env c))) in
      emit_st (ControlReceived src purpose phase step n)
       (s\<lparr>rs_communication := r\<lparr>control_messages_received := control_messages_received r + 1,
                               control_bytes_received := control_bytes_received r + n\<rparr>\<rparr>))"

lemma same_core_messages [simp]:
  "same_core s (sent_state d phase step t s)" "same_core s (received_state d phase step t s)"
  "same_core s (control_sent_state env c purpose phase step d s)"
  "same_core s (control_received_state env c purpose phase step d s)"
  by (simp_all add: sent_state_def received_state_def control_sent_state_def control_received_state_def Let_def)

lemma send_activation_program:
  assumes "activation seqn h t" "0 < seqn" "0 < h" "activation_tag step = Inr tag" "d < W" "d \<noteq> r"
  shows "pr_bind (send_activation (member W r) d t phase step s) K =
     Send d tag (payload_of t) (K (sent_state d phase step t s))"
proof -
  obtain b where "activation_bytes t = Inr b" using activation_facts(3) [OF assms(1-3)] by blast
  with activation_facts(1) [OF assms(1-3)] assms(4-6) show ?thesis
    by (auto simp: send_activation_def send_tensor_def validate_peer_def pr_bind_pbind sent_state_def Let_def)
qed

lemma recv_activation_program:
  assumes "activation_tag step = Inr tag" "src < W" "src \<noteq> r"
  shows "\<exists>G. pr_bind (recv_activation (member W r) src phase step s) K = Recv src TensorKind tag G \<and>
     (\<forall>seqn h t. activation seqn h t \<longrightarrow> 0 < seqn \<longrightarrow> 0 < h \<longrightarrow>
        G (payload_of t) = K (t, received_state src phase step t s))"
proof -
  let ?rest = "\<lambda>t. pr_bind (Ret (activation_bytes t)) (\<lambda>bytes. let c = rs_communication s in
     Ret (Inr (t, emit_st (TensorReceived src Activation phase step (t_dims t) bytes)
       (s\<lparr>rs_communication := c\<lparr>tensor_messages_received := tensor_messages_received c + 1,
                               tensor_bytes_received := tensor_bytes_received c + bytes\<rparr>\<rparr>))))"
  let ?G = "\<lambda>p. pr_bind (pbind
     (case p of TensorPayload p \<Rightarrow> lift_result (to_tensor p) | ControlPayload _ \<Rightarrow> Fail (Protocol ''matched tensor payload''))
     ?rest) K"
  have "?G (payload_of t) = K (t, received_state src phase step t s)"
    if a: "activation seqn h t" "0 < seqn" "0 < h" for seqn h t
  proof -
    obtain b where b: "activation_bytes t = Inr b" using activation_facts(3) [OF a] by blast
    show ?thesis using activation_facts(2) [OF a] by (simp add: b received_state_def Let_def)
  qed
  moreover have "pr_bind (recv_activation (member W r) src phase step s) K = Recv src TensorKind tag ?G"
    using assms by (simp add: recv_activation_def recv_tensor_def validate_peer_def Let_def)
  ultimately show ?thesis by blast
qed

text \<open>
  What is used of the JSON codec: a control message of a machine-sized step encodes into a
  payload that fits a control packet and decodes to itself.
\<close>

definition control_step :: "pipeline_control \<Rightarrow> usize" where
  "control_step c = (case c of Token n _ \<Rightarrow> n | Decision n _ \<Rightarrow> n)"

definition codec_ok :: "('v, 'd) pipeline_env \<Rightarrow> bool" where
  "codec_ok env \<longleftrightarrow>
     (\<forall>c. control_step c < 2 ^ 64 \<longrightarrow>
        (\<exists>bs. pe_to_json env c = Inr bs \<and> length bs \<le> MAX_CONTROL_BYTES \<and> pe_from_json env bs = Inr c))"

definition control_of :: "('v, 'd) pipeline_env \<Rightarrow> pipeline_control \<Rightarrow> 'v message_payload" where
  "control_of env c = ControlPayload (ControlPacket (projr (pe_to_json env c)))"

lemma kind_of_control [simp]: "kind_of (control_of env c) = ControlKind"
  by (simp add: control_of_def)

lemma send_control_program:
  assumes "codec_ok env" "control_step c < 2 ^ 64" "d < W" "d \<noteq> r"
  shows "pr_bind (send_pipeline_control env (member W r) d tag c purpose phase step s) K =
     Send d tag (control_of env c) (K (control_sent_state env c purpose phase step d s))"
proof -
  obtain bs where "pe_to_json env c = Inr bs" "length bs \<le> MAX_CONTROL_BYTES" using assms(1,2) by (auto simp: codec_ok_def)
  with assms(3,4) show ?thesis
    by (auto simp: send_pipeline_control_def send_control_def validate_peer_def pr_bind_pbind
        control_packet_new_def control_of_def control_sent_state_def Let_def)
qed

lemma recv_control_program:
  assumes "codec_ok env" "src < W" "src \<noteq> r"
  shows "\<exists>G. pr_bind (recv_pipeline_control env (member W r) src tag purpose phase step s) K = Recv src ControlKind tag G \<and>
     (\<forall>c. control_step c < 2 ^ 64 \<longrightarrow>
        G (control_of env c) = K (c, control_received_state env c purpose phase step src s))"
proof -
  let ?rest = "\<lambda>bytes. let c = rs_communication s; n = of_nat (length bytes);
      s1 = s\<lparr>rs_communication := c\<lparr>control_messages_received := control_messages_received c + 1,
                                  control_bytes_received := control_bytes_received c + n\<rparr>\<rparr> in
    pr_bind (Ret (map_err PipelineJson (pe_from_json env bytes))) (\<lambda>control.
      Ret (Inr (control, emit_st (ControlReceived src purpose phase step n) s1)))"
  let ?G = "\<lambda>p. pr_bind (pbind
     (case p of ControlPayload p \<Rightarrow> Ret (packet_bytes p) | TensorPayload _ \<Rightarrow> Fail (Protocol ''matched control payload''))
     ?rest) K"
  have "?G (control_of env c) = K (c, control_received_state env c purpose phase step src s)"
    if "control_step c < 2 ^ 64" for c
  proof -
    from that assms(1) obtain bs where "pe_to_json env c = Inr bs" "pe_from_json env bs = Inr c"
      by (auto simp: codec_ok_def)
    then show ?thesis by (simp add: control_of_def control_received_state_def Let_def)
  qed
  moreover have "pr_bind (recv_pipeline_control env (member W r) src tag purpose phase step s) K = Recv src ControlKind tag ?G"
    using assms(2,3) by (simp add: recv_pipeline_control_def recv_control_def validate_peer_def)
  ultimately show ?thesis by blast
qed

lemma send_decisions_program:
  assumes "codec_ok env" "control_step c < 2 ^ 64" "decision_tag step = Inr tag" "\<And>d. d \<in> set ds \<Longrightarrow> d < W \<and> d \<noteq> r"
  shows "pr_bind (send_decisions env (member W r) c step ds s) K =
     send_loop tag (\<lambda>_. control_of env c) ds
       (K (fold (control_sent_state env c DecisionPurpose (phase_of step) step) ds s))"
  using assms(4)
  by (induction ds arbitrary: s)
     (simp_all add: assms(3) pr_bind_assoc send_control_program [OF assms(1,2)])

lemma same_core_fold: "(\<And>d s. same_core s (f d s)) \<Longrightarrow> same_core s (fold f ds s)"
  by (induction ds arbitrary: s) (auto intro: same_core_trans)

section \<open>One round of all ranks\<close>

text \<open>After the activation: the decision and the end of the phase.\<close>

definition finish_round ::
  "('v, 'd) pipeline_env \<Rightarrow> ('v, 'd) rank_context \<Rightarrow> ('v, 'd) rank_state
     \<Rightarrow> ('v, (pipeline_decision \<times> ('v, 'd) rank_state) presult) prog" where
  "finish_round env cx s =
     pr_bind (exchange_decision env cx s) (\<lambda>(d, s1). Ret (Inr (d, end_phase cx s1)))"

lemma pipeline_round_finish:
  "pipeline_round env cx s =
     pr_bind (compute_stage env cx (begin_phase (rc_manifest cx) s)) (\<lambda>(hidden, s1).
     pr_bind (forward_result env cx hidden s1) (finish_round env cx))"
  by (simp add: pipeline_round_def finish_round_def [abs_def])

definition at_rank :: "nat \<Rightarrow> usize \<Rightarrow> ('v, 'd) rank_context \<Rightarrow> bool" where
  "at_rank W r cx \<longleftrightarrow>
     rc_rank cx = member W r \<and> sa_rank (rc_assignment cx) = r \<and> sa_world_size (rc_assignment cx) = W"

lemma follower_finish:
  assumes "codec_ok env" "at_rank W r cx" "0 < r" "r < W" "decision_tag (rs_step s) = Inr dt" "rs_step s < 2 ^ 64"
  shows "\<exists>h. finish_round env cx s = Recv 0 ControlKind dt h \<and>
     (\<forall>d. h (control_of env (Decision (rs_step s) d)) = Ret (Inr (d, end_phase cx
        (control_received_state env (Decision (rs_step s) d) DecisionPurpose (phase_of (rs_step s)) (rs_step s) 0 s))))"
proof -
  let ?K = "\<lambda>(control, s1). case control of
      Token _ _ \<Rightarrow> Ret (Inl (PipelineProtocol ''stage expected rank-0 decision''))
    | Decision actual_step d \<Rightarrow>
        if actual_step \<noteq> rs_step s
        then Ret (Inl (PipelineProtocol (''received decision for step '' @ show_nat actual_step @ '', expected ''
                                          @ show_nat (rs_step s))))
        else Ret (Inr (d, s1))"
  have "finish_round env cx s = pr_bind (recv_pipeline_control env (member W r) 0 dt DecisionPurpose
      (phase_of (rs_step s)) (rs_step s) s) (\<lambda>x. pr_bind (?K x) (\<lambda>(d, s1). Ret (Inr (d, end_phase cx s1))))"
    using assms(2,3,5) by (simp add: finish_round_def exchange_decision_def at_rank_def pr_bind_assoc Let_def)
  with recv_control_program [OF assms(1), of 0 W r dt DecisionPurpose "phase_of (rs_step s)" "rs_step s" s
      "\<lambda>x. pr_bind (?K x) (\<lambda>(d, s1). Ret (Inr (d, end_phase cx s1)))"] assms(3,4,6)
  show ?thesis by (auto simp: control_step_def)
qed

lemma leader_finish:
  assumes "codec_ok env" "at_rank W 0 cx" "2 \<le> W" "decision_tag (rs_step s) = Inr dt" "token_tag (rs_step s) = Inr tt"
    "rs_step s < 2 ^ 64"
  shows "\<exists>g. finish_round env cx s = Recv (W - 1) ControlKind tt g \<and>
     (\<forall>t d s2. decide cx t (control_received_state env (Token (rs_step s) t) TokenFeedback (phase_of (rs_step s)) (rs_step s)
          (W - 1) s) = Inr (d, s2) \<longrightarrow>
        g (control_of env (Token (rs_step s) t)) =
          send_loop dt (\<lambda>_. control_of env (Decision (rs_step s) d)) [1..<W]
            (Ret (Inr (d, end_phase cx (fold (control_sent_state env (Decision (rs_step s) d) DecisionPurpose
               (phase_of (rs_step s)) (rs_step s)) [1..<W] s2)))))"
proof -
  have at: "rc_rank cx = member W 0" "sa_rank (rc_assignment cx) = 0" "sa_world_size (rc_assignment cx) = W"
    using assms(2) by (simp_all add: at_rank_def)
  let ?S = "rs_step s"
  let ?K = "\<lambda>(control, s1). case control of
      Decision _ _ \<Rightarrow> Ret (Inl (PipelineProtocol ''rank 0 expected final-stage token feedback''))
    | Token actual_step token_id \<Rightarrow>
        if actual_step \<noteq> ?S
        then Ret (Inl (PipelineProtocol (''received token for step '' @ show_nat actual_step @ '', expected ''
                                          @ show_nat ?S)))
        else pr_bind (Ret (decide cx token_id s1)) (\<lambda>(d, s2).
          pr_bind (send_decisions env (member W 0) (Decision ?S d) ?S [1..<W] s2) (\<lambda>s3. Ret (Inr (d, s3))))"
  have "finish_round env cx s = pr_bind (recv_pipeline_control env (member W 0) (W - 1) tt TokenFeedback (phase_of ?S) ?S s)
      (\<lambda>x. pr_bind (?K x) (\<lambda>(d, s1). Ret (Inr (d, end_phase cx s1))))"
    unfolding finish_round_def exchange_decision_def Let_def at using assms(5) by (simp add: pr_bind_assoc)
  moreover have sd: "pr_bind (send_decisions env (member W 0) (Decision ?S d) ?S [1..<W] s2) K =
      send_loop dt (\<lambda>_. control_of env (Decision ?S d)) [1..<W]
        (K (fold (control_sent_state env (Decision ?S d) DecisionPurpose (phase_of ?S) ?S) [1..<W] s2))"
    for d s2 and K :: "('a, 'b) rank_state \<Rightarrow> ('a, (pipeline_decision \<times> ('a, 'b) rank_state) presult) prog"
    by (rule send_decisions_program [OF assms(1) _ assms(4)]) (use assms(6) in \<open>auto simp: control_step_def\<close>)
  ultimately show ?thesis
    using recv_control_program [OF assms(1), of "W - 1" W 0 tt TokenFeedback "phase_of ?S" ?S s
      "\<lambda>x. pr_bind (?K x) (\<lambda>(d, s1). Ret (Inr (d, end_phase cx s1)))"] assms(3,6)
    by (auto simp: control_step_def pr_bind_assoc sd [unfolded One_nat_def])
qed

lemma same_core_begin [simp]: "same_core s (begin_phase mf s)"
  by (simp add: begin_phase_def same_core_def emit_st_def split: execution_phase.split)

lemma same_core_end [simp]: "same_core s (end_phase cx s)"
  by (simp add: end_phase_def memory_sample_def same_core_def emit_st_def split: execution_phase.split)

lemma same_core_layers [simp]: "same_core s (emit_layers phase step ls s)"
  by (induction ls arbitrary: s) (auto simp: same_core_def emit_st_def)

text \<open>The state of a rank once its stage has run.\<close>

definition computed_state ::
  "('v, 'd) rank_context \<Rightarrow> 'v kv_cache \<Rightarrow> ('v, 'd) rank_state \<Rightarrow> ('v, 'd) rank_state" where
  "computed_state cx c s =
     emit_layers (phase_of (rs_step s)) (rs_step s) [st_layer_start (rc_stage cx)..<st_layer_end (rc_stage cx)] (s\<lparr>rs_cache := c\<rparr>)"

lemma computed_state_core [simp]:
  "rs_cache (computed_state cx c s) = c" "rs_tokens (computed_state cx c s) = rs_tokens s"
  "rs_stream (computed_state cx c s) = rs_stream s" "rs_previous (computed_state cx c s) = rs_previous s"
  "rs_step (computed_state cx c s) = rs_step s"
  using same_core_layers [of "s\<lparr>rs_cache := c\<rparr>" "phase_of (rs_step s)" "rs_step s"
      "[st_layer_start (rc_stage cx)..<st_layer_end (rc_stage cx)]"]
  by (simp_all add: computed_state_def same_core_def)

lemma first_computes:
  assumes "sa_rank (rc_assignment cx) = 0"
    and "rs_step s = 0 \<and> ids = pm_prompt_token_ids (rc_manifest cx) \<or> (0 < rs_step s \<and> (\<exists>t. rs_previous s = Some t \<and> ids = [t]))"
    and "stage_forward_tokens (pe_ops env) (rc_stage cx) (token_input ids) (kv_len (rs_cache s)) (rs_cache s) = Inr (y, c)"
  shows "compute_stage env cx s = Ret (Inr (y, computed_state cx c s))"
  using assms by (auto simp: compute_stage_def stage_result_def computed_state_def)

lemma next_computes:
  assumes "at_rank W r cx" "0 < r" "r < W" "activation_tag (rs_step s) = Inr tag"
    and "activation seqn (hidden_size (rc_config cx)) x" "0 < seqn" "0 < hidden_size (rc_config cx)"
    and "rs_step s = 0 \<or> seqn = 1"
    and "stage_forward_hidden (pe_ops env) (rc_stage cx) x (kv_len (rs_cache s)) (rs_cache s) = Inr (y, c)"
  shows "\<exists>G. pr_bind (compute_stage env cx s) K = Recv (r - 1) TensorKind tag G \<and>
     G (payload_of x) = K (y, computed_state cx c (received_state (r - 1) (phase_of (rs_step s)) (rs_step s) x s))"
proof -
  let ?H = "hidden_size (rc_config cx)" and ?ph = "phase_of (rs_step s)"
  let ?K = "\<lambda>(hidden, s1). Ret (rbind (validate_activation hidden ?H ?ph) (\<lambda>_.
     stage_result cx (stage_forward_hidden (pe_ops env) (rc_stage cx) hidden (kv_len (rs_cache s)) (rs_cache s1)) s1))"
  let ?s1 = "received_state (r - 1) ?ph (rs_step s) x s"
  have core: "rs_cache ?s1 = rs_cache s" "rs_step ?s1 = rs_step s"
    using same_core_messages(2) [of s] by (simp_all add: same_core_def)
  have dims: "dims3 x = Inr (1, seqn, ?H)" using assms(5) by (simp add: activation_def dims3_def)
  have ph: "?ph = Decode \<longrightarrow> seqn = 1" using assms(8) by (auto simp: phase_of_def)
  have valid: "validate_activation x ?H ?ph = Inr ()" using dims ph by (simp add: validate_activation_def)
  have "compute_stage env cx s = pr_bind (recv_activation (member W r) (r - 1) ?ph (rs_step s) s) ?K"
    using assms(1,2) by (simp add: compute_stage_def at_rank_def Let_def)
  then have eq: "pr_bind (compute_stage env cx s) K =
      pr_bind (recv_activation (member W r) (r - 1) ?ph (rs_step s) s) (\<lambda>z. pr_bind (?K z) K)"
    by (simp add: pr_bind_assoc)
  have done1: "pr_bind (?K (x, ?s1)) K = K (y, computed_state cx c ?s1)"
    using valid assms(9) core by (simp add: stage_result_def computed_state_def)
  have src: "r - 1 < W" "r - 1 \<noteq> r" using assms(2,3) by auto
  from recv_activation_program [OF assms(4) src, of ?ph s "\<lambda>z. pr_bind (?K z) K"] obtain G
    where "pr_bind (compute_stage env cx s) K = Recv (r - 1) TensorKind tag G" "G (payload_of x) = pr_bind (?K (x, ?s1)) K"
    unfolding eq using assms(5-7) by blast
  then show ?thesis unfolding done1 by blast
qed

lemma inner_forward:
  assumes "at_rank W r cx" "Suc r < W" "activation_tag (rs_step s) = Inr tag"
    and "activation seqn h y" "0 < seqn" "0 < h"
  shows "pr_bind (forward_result env cx y s) K =
     Send (Suc r) tag (payload_of y) (K (sent_state (Suc r) (phase_of (rs_step s)) (rs_step s) y s))"
  using assms send_activation_program [OF assms(4-6,3), of "Suc r" W r]
  by (simp add: forward_result_def at_rank_def Let_def)

lemma last_forward:
  assumes "codec_ok env" "at_rank W (W - 1) cx" "2 \<le> W" "token_tag (rs_step s) = Inr tt" "rs_step s < 2 ^ 64"
    and "stage_finish (pe_ops env) (rc_stage cx) y = Inr logits"
    and "rbind (squeeze logits 0) (op_argmax (pe_ops env)) = Inr t"
  shows "pr_bind (forward_result env cx y s) K = Send 0 tt (control_of env (Token (rs_step s) t))
     (K (control_sent_state env (Token (rs_step s) t) TokenFeedback (phase_of (rs_step s)) (rs_step s) 0 s))"
  using assms send_control_program [OF assms(1), of "Token (rs_step s) t" 0 W "W - 1"]
  by (auto simp: forward_result_def at_rank_def Let_def control_step_def pr_bind_assoc)

lemma pipeline_tags:
  assumes "step < 2 ^ 60"
  obtains ta tt td where "activation_tag step = Inr ta" "token_tag step = Inr tt" "decision_tag step = Inr td"
  using step_tag_ok [OF _ assms] by (fastforce simp: activation_tag_def token_tag_def decision_tag_def)

text \<open>
  The ranks of a run: each at its place, with its stage of the model, all with the same
  manifest and configuration, and the tokenizer at rank 0.
\<close>

definition ranks_set_up ::
  "nat \<Rightarrow> (usize \<Rightarrow> ('v, 'd) rank_context) \<Rightarrow> (usize \<Rightarrow> 'v llama_stage) \<Rightarrow> model_config \<Rightarrow> pipeline_manifest \<Rightarrow> 'd tokenizer
     \<Rightarrow> bool" where
  "ranks_set_up W cx st cfg mf tok \<longleftrightarrow>
     2 \<le> W \<and> (\<forall>r < W. at_rank W r (cx r) \<and> rc_stage (cx r) = st r \<and> rc_config (cx r) = cfg \<and> rc_manifest (cx r) = mf) \<and>
     rc_tokenizer (cx 0) = Some tok"

definition ranks_at ::
  "nat \<Rightarrow> usize \<Rightarrow> (usize \<Rightarrow> 'v kv_cache) \<Rightarrow> u32 list \<Rightarrow> 'd \<Rightarrow> (usize \<Rightarrow> ('v, 'd) rank_state) \<Rightarrow> bool" where
  "ranks_at W step c ts ds s \<longleftrightarrow>
     (\<forall>r < W. rs_cache (s r) = c r \<and> rs_step (s r) = step) \<and> rs_tokens (s 0) = ts \<and> rs_stream (s 0) = Some ds"

text \<open>
  The states of the ranks during a round in which rank \<open>r\<close> hands \<open>X (r + 1)\<close> on, leaves the
  cache \<open>c r\<close>, and the token \<open>t\<close> is chosen: after the stage, after handing on, and the program
  that is left then.
\<close>

definition round_stage ::
  "(usize \<Rightarrow> ('v, 'd) rank_context) \<Rightarrow> pipeline_manifest \<Rightarrow> usize \<Rightarrow> (usize \<Rightarrow> 'v tensor) \<Rightarrow> (usize \<Rightarrow> 'v kv_cache)
     \<Rightarrow> (usize \<Rightarrow> ('v, 'd) rank_state) \<Rightarrow> usize \<Rightarrow> ('v, 'd) rank_state" where
  "round_stage cx mf step X c s r =
     (let b = begin_phase mf (s r) in
      computed_state (cx r) (c r) (if r = 0 then b else received_state (r - 1) (phase_of step) step (X r) b))"

definition round_sent ::
  "nat \<Rightarrow> ('v, 'd) pipeline_env \<Rightarrow> (usize \<Rightarrow> ('v, 'd) rank_context) \<Rightarrow> pipeline_manifest \<Rightarrow> usize \<Rightarrow> (usize \<Rightarrow> 'v tensor)
     \<Rightarrow> (usize \<Rightarrow> 'v kv_cache) \<Rightarrow> u32 \<Rightarrow> (usize \<Rightarrow> ('v, 'd) rank_state) \<Rightarrow> usize \<Rightarrow> ('v, 'd) rank_state" where
  "round_sent W env cx mf step X c t s r =
     (if Suc r < W then sent_state (Suc r) (phase_of step) step (X (Suc r)) (round_stage cx mf step X c s r)
      else control_sent_state env (Token step t) TokenFeedback (phase_of step) step 0 (round_stage cx mf step X c s r))"

definition round_left ::
  "nat \<Rightarrow> ('v, 'd) pipeline_env \<Rightarrow> (usize \<Rightarrow> ('v, 'd) rank_context) \<Rightarrow> message_tag \<Rightarrow> usize \<Rightarrow> u32 \<Rightarrow> (usize \<Rightarrow> ('v, 'd) rank_state)
     \<Rightarrow> usize \<Rightarrow> ('v, (pipeline_decision \<times> ('v, 'd) rank_state) presult) prog" where
  "round_left W env cx tt step t e r =
     (if Suc r < W then finish_round env (cx r) (e r)
      else Send 0 tt (control_of env (Token step t)) (finish_round env (cx r) (e r)))"

lemma round_stage_core:
  "rs_cache (round_stage cx mf step X c s r) = c r" "rs_step (round_stage cx mf step X c s r) = rs_step (s r)"
  "rs_tokens (round_stage cx mf step X c s r) = rs_tokens (s r)" "rs_stream (round_stage cx mf step X c s r) = rs_stream (s r)"
  using same_core_begin [of "s r" mf] same_core_messages(2) [of "begin_phase mf (s r)" "r - 1" "phase_of step" step "X r"]
  by (auto simp: round_stage_def same_core_def Let_def)

lemma round_sent_core:
  fixes W env cx mf step X c t s r
  defines "e \<equiv> round_sent W env cx mf step X c t s r"
  shows "rs_cache e = c r" "rs_step e = rs_step (s r)" "rs_tokens e = rs_tokens (s r)" "rs_stream e = rs_stream (s r)"
  using same_core_messages(1,3) [of "round_stage cx mf step X c s r"] round_stage_core [of cx mf step X c s r]
  by (auto simp: e_def round_sent_def same_core_def)

lemma round_forward:
  assumes "codec_ok env" "at_rank W r (cx r)" "2 \<le> W" "r < W" "rs_step (s r) = step" "step < 2 ^ 60"
    and "activation_tag step = Inr ta" "token_tag step = Inr tt" "0 < seqn" "0 < h" "activation seqn h (X (Suc r))"
    and "Suc r = W \<Longrightarrow> stage_finish (pe_ops env) (rc_stage (cx r)) (X W) = Inr logits"
    and "rbind (squeeze logits 0) (op_argmax (pe_ops env)) = Inr t"
  shows "pr_bind (forward_result env (cx r) (X (Suc r)) (round_stage cx mf step X c s r)) (finish_round env (cx r)) =
     (let k = round_left W env cx tt step t (round_sent W env cx mf step X c t s) r in
      if Suc r < W then Send (Suc r) ta (payload_of (X (Suc r))) k else k)"
proof -
  let ?a = "round_stage cx mf step X c s r"
  have step: "rs_step ?a = step" "step < 2 ^ 64" using round_stage_core(2) assms(5,6) by auto
  show ?thesis
  proof (cases "Suc r < W")
    case True
    then show ?thesis
      using inner_forward [OF assms(2) True, of ?a ta seqn h "X (Suc r)" env "finish_round env (cx r)"] assms step
      by (simp add: round_left_def round_sent_def)
  next
    case False
    then have rW: "r = W - 1" "Suc r = W" using assms(4) by auto
    then show ?thesis
      using last_forward [OF assms(1) _ assms(3), of "cx r" ?a tt "X (Suc r)" logits t "finish_round env (cx r)"] assms step False
      by (simp add: round_left_def round_sent_def)
  qed
qed

text \<open>What one round of the ranks is about, and what the forward pass of the model gives for it.\<close>

definition round_data ::
  "nat \<Rightarrow> ('v, 'd) pipeline_env \<Rightarrow> (usize \<Rightarrow> 'v llama_stage) \<Rightarrow> nat \<Rightarrow> usize \<Rightarrow> nat \<Rightarrow> u32 list \<Rightarrow> (usize \<Rightarrow> 'v kv_cache)
     \<Rightarrow> (usize \<Rightarrow> 'v tensor) \<Rightarrow> (usize \<Rightarrow> 'v kv_cache) \<Rightarrow> u32 \<Rightarrow> bool" where
  "round_data W env st H step n ids c X c' t \<longleftrightarrow>
     step < 2 ^ 60 \<and> ids \<noteq> [] \<and> 0 < H \<and> (step = 0 \<or> length ids = 1) \<and> (\<forall>r < W. kv_len (c r) = n) \<and>
     stage_forward_tokens (pe_ops env) (st 0) (token_input ids) n (c 0) = Inr (X 1, c' 0) \<and>
     (\<forall>r. 0 < r \<longrightarrow> r < W \<longrightarrow> stage_forward_hidden (pe_ops env) (st r) (X r) n (c r) = Inr (X (Suc r), c' r)) \<and>
     (\<forall>r. 0 < r \<longrightarrow> r \<le> W \<longrightarrow> activation (length ids) H (X r)) \<and>
     (\<exists>logits. stage_finish (pe_ops env) (st (W - 1)) (X W) = Inr logits \<and>
        rbind (squeeze logits 0) (op_argmax (pe_ops env)) = Inr t)"

lemma round_chain:
  assumes set: "ranks_set_up W cx st cfg mf tok" and codec: "codec_ok env" and at: "ranks_at W step c ts ds s"
    and data: "round_data W env st (hidden_size cfg) step n ids c X c' t"
    and tags: "activation_tag step = Inr ta" "token_tag step = Inr tt"
    and input: "step = 0 \<and> ids = pm_prompt_token_ids mf \<or> (0 < step \<and> (\<exists>t. rs_previous (s 0) = Some t \<and> ids = [t]))"
  shows "reach W (start W (\<lambda>r. pipeline_round env (cx r) (s r)))
     (start W (round_left W env cx tt step t (round_sent W env cx mf step X c' t s)))"
proof -
  from set have W: "2 \<le> W" "0 < W" and rk: "\<And>r. r < W \<Longrightarrow> at_rank W r (cx r)" "\<And>r. r < W \<Longrightarrow> rc_stage (cx r) = st r"
    "\<And>r. r < W \<Longrightarrow> rc_config (cx r) = cfg" "\<And>r. r < W \<Longrightarrow> rc_manifest (cx r) = mf"
    by (auto simp: ranks_set_up_def)
  from data have dat: "step < 2 ^ 60" "0 < length ids" "0 < hidden_size cfg" "step = 0 \<or> length ids = 1"
    "\<And>r. r < W \<Longrightarrow> kv_len (c r) = n" "\<And>r. 0 < r \<Longrightarrow> r \<le> W \<Longrightarrow> activation (length ids) (hidden_size cfg) (X r)"
    by (auto simp: round_data_def)
  define b where "b r = begin_phase mf (s r)" for r
  have b: "rs_cache (b r) = c r" "rs_step (b r) = step" "rs_previous (b r) = rs_previous (s r)" if "r < W" for r
    using same_core_begin [of "s r" mf] at that by (auto simp: b_def same_core_def ranks_at_def)
  let ?a = "round_stage cx mf step X c' s" and ?k = "round_left W env cx tt step t (round_sent W env cx mf step X c' t s)"
  let ?K = "\<lambda>r (hidden, s1). pr_bind (forward_result env (cx r) hidden s1) (finish_round env (cx r))"
  have round: "pipeline_round env (cx r) (s r) = pr_bind (compute_stage env (cx r) (b r)) (?K r)" if "r < W" for r
    using rk(4) [OF that] by (simp add: pipeline_round_finish b_def)
  obtain logits where lg: "stage_finish (pe_ops env) (st (W - 1)) (X W) = Inr logits"
    "rbind (squeeze logits 0) (op_argmax (pe_ops env)) = Inr t" using data unfolding round_data_def by blast
  have fwd: "?K r (X (Suc r), ?a r) = (if Suc r < W then Send (Suc r) ta (payload_of (X (Suc r))) (?k r) else ?k r)"
    if r: "r < W" for r
  proof -
    have "activation (length ids) (hidden_size cfg) (X (Suc r))" "rs_step (s r) = step" using dat(6) r at by (auto simp: ranks_at_def)
    moreover have "stage_finish (pe_ops env) (rc_stage (cx r)) (X W) = Inr logits" if "Suc r = W"
      using that lg(1) rk(2) [OF r] by auto
    ultimately show ?thesis
      using round_forward [of env W r cx s step ta tt "length ids" "hidden_size cfg" X logits t mf c']
        codec rk(1) [OF r] W(1) r dat(1-3) tags lg(2) by (simp add: Let_def)
  qed
  have "\<forall>r. \<exists>G. 0 < r \<and> r < W \<longrightarrow> pipeline_round env (cx r) (s r) = Recv (r - 1) TensorKind ta G \<and>
      G (payload_of (X r)) = ?K r (X (Suc r), ?a r)"
  proof (intro allI, goal_cases)
    case (1 r)
    show ?case
    proof (cases "0 < r \<and> r < W")
      case True
      then have r: "0 < r" "r < W" "r \<noteq> 0" by auto
      from next_computes [OF rk(1) [OF r(2)] r(1,2), of "b r" ta "length ids" "X r" env "X (Suc r)" "c' r" "?K r"]
      show ?thesis
        using r round [OF r(2)] b [OF r(2)] rk(2,3) [OF r(2)] tags(1) dat(2-5) dat(6) [of r] data
        by (simp add: round_stage_def round_data_def b_def Let_def)
    qed auto
  qed
  from choice [OF this] obtain G where G: "\<And>r. 0 < r \<Longrightarrow> r < W \<Longrightarrow> pipeline_round env (cx r) (s r) = Recv (r - 1) TensorKind ta (G r)"
    "\<And>r. 0 < r \<Longrightarrow> r < W \<Longrightarrow> G r (payload_of (X r)) = ?K r (X (Suc r), ?a r)" by blast
  have first: "compute_stage env (cx 0) (b 0) = Ret (Inr (X 1, ?a 0))"
    using first_computes [of "cx 0" "b 0" ids env "X 1" "c' 0"] rk [OF W(2)] b [OF W(2)] dat(5) [OF W(2)] input data
    by (auto simp: at_rank_def round_stage_def round_data_def b_def Let_def)
  show ?thesis
  proof (rule reach_chain [where x = "\<lambda>j. payload_of (X (Suc j))" and g = G, OF W(1)])
    show "pipeline_round env (cx 0) (s 0) = Send 1 ta (payload_of (X (Suc 0))) (?k 0)"
      using round [OF W(2)] first fwd [OF W(2)] W by simp
    have "Suc (W - 2) = W - 1" "0 < W - 1" "W - 1 < W" "\<not> Suc (W - 1) < W" using W by linarith+
    then show "G (W - 1) (payload_of (X (Suc (W - 2)))) = ?k (W - 1)"
      using G(2) [of "W - 1"] fwd [of "W - 1"] by simp
  qed (use G fwd in auto)
qed

lemma round_decision:
  assumes set: "ranks_set_up W cx st cfg mf tok" and codec: "codec_ok env" and step: "step < 2 ^ 64"
    and tags: "token_tag step = Inr tt" "decision_tag step = Inr td" and e: "\<And>r. r < W \<Longrightarrow> rs_step (e r) = step"
    and a2: "decide (cx 0) t (control_received_state env (Token step t) TokenFeedback (phase_of step) step (W - 1) (e 0)) = Inr (d, a2)"
  shows "\<exists>s'. reach W (start W (round_left W env cx tt step t e)) (start W (\<lambda>r. Ret (Inr (d, s' r)))) \<and>
     same_core a2 (s' 0) \<and> (\<forall>r. 0 < r \<longrightarrow> same_core (e r) (s' r))"
proof -
  from set have W: "2 \<le> W" "0 < W" and rk: "\<And>r. r < W \<Longrightarrow> at_rank W r (cx r)" by (auto simp: ranks_set_up_def)
  let ?D = "Decision step d" and ?ph = "phase_of step"
  let ?recv = "\<lambda>r. control_received_state env ?D DecisionPurpose ?ph step 0 (e r)"
  have "\<forall>r. \<exists>h. 0 < r \<and> r < W \<longrightarrow> finish_round env (cx r) (e r) = Recv 0 ControlKind td h \<and>
      h (control_of env ?D) = Ret (Inr (d, end_phase (cx r) (?recv r)))"
  proof (intro allI, goal_cases)
    case (1 r)
    show ?case
      using follower_finish [OF codec rk, of r "e r" td] e tags(2) step by (cases "0 < r \<and> r < W") auto
  qed
  from choice [OF this] obtain h where h: "\<And>r. 0 < r \<Longrightarrow> r < W \<Longrightarrow> finish_round env (cx r) (e r) = Recv 0 ControlKind td (h r)"
    "\<And>r. 0 < r \<Longrightarrow> r < W \<Longrightarrow> h r (control_of env ?D) = Ret (Inr (d, end_phase (cx r) (?recv r)))" by blast
  let ?fold = "fold (control_sent_state env ?D DecisionPurpose ?ph step) [1..<W] a2"
  from leader_finish [OF codec rk [OF W(2)] W(1), of "e 0" td tt] e [OF W(2)] tags step a2
  obtain g where g: "finish_round env (cx 0) (e 0) = Recv (W - 1) ControlKind tt g"
    "g (control_of env (Token step t)) = send_loop td (\<lambda>_. control_of env ?D) [1..<W] (Ret (Inr (d, end_phase (cx 0) ?fold)))"
    by auto
  define s' where "s' r = (if r = 0 then end_phase (cx 0) ?fold else end_phase (cx r) (?recv r))" for r
  have "reach W (start W (round_left W env cx tt step t e)) (start W (\<lambda>r. Ret (Inr (d, s' r))))"
  proof (rule reach_decision [where dt = td and tt = tt and h = h and ?g0.0 = g and dec = "control_of env ?D"
        and tok = "control_of env (Token step t)", OF W(1)])
    have "0 < W - 1" "W - 1 < W" "\<not> Suc (W - 1) < W" using W by linarith+
    then show "round_left W env cx tt step t e (W - 1) = Send 0 tt (control_of env (Token step t)) (Recv 0 ControlKind td (h (W - 1)))"
      using h(1) [of "W - 1"] by (simp add: round_left_def)
  qed (use g h W in \<open>auto simp: round_left_def s'_def\<close>)
  moreover have "same_core a2 (s' 0)"
    using same_core_trans [OF same_core_fold same_core_end, of "control_sent_state env ?D DecisionPurpose ?ph step"]
    by (simp add: s'_def)
  moreover have "same_core (e r) (s' r)" if "0 < r" for r
    using that same_core_trans [OF same_core_messages(4) same_core_end] by (simp add: s'_def)
  ultimately show ?thesis by blast
qed

lemma round_computes:
  assumes set: "ranks_set_up W cx st cfg mf tok" and H: "0 < hidden_size cfg" and codec: "codec_ok env"
    and ops: "kernels_ok (pe_ops env)" and emb: "embedding_ok (hidden_size cfg) (embeddings m)"
    and view: "pipeline_view W m st C c n" and at: "ranks_at W step c ts ds s" and step: "step < 2 ^ 60"
    and input: "step = 0 \<and> ids = pm_prompt_token_ids mf \<or> (0 < step \<and> (\<exists>t. rs_previous (s 0) = Some t \<and> ids = [t]))"
    and ids: "ids \<noteq> []" and fw: "llama_forward (pe_ops env) m (token_input ids) n C = Inr (logits, C')"
    and tk: "rbind (squeeze logits 0) (op_argmax (pe_ops env)) = Inr t"
    and dec: "\<And>a. rs_tokens a = ts \<Longrightarrow> rs_stream a = Some ds \<Longrightarrow> \<exists>a2. decide (cx 0) t a = Inr (d, a2) \<and>
       rs_tokens a2 = ts' \<and> rs_stream a2 = Some ds' \<and> rs_cache a2 = rs_cache a \<and> rs_step a2 = rs_step a \<and> P (rs_previous a2)"
  shows "\<exists>c' s'. computes W (\<lambda>r. pipeline_round env (cx r) (s r)) (\<lambda>r. Inr (d, s' r)) \<and>
     pipeline_view W m st C' c' (n + length ids) \<and> ranks_at W step c' ts' ds' s' \<and> P (rs_previous (s' 0))"
proof -
  have W: "0 < W" using set by (simp add: ranks_set_up_def)
  obtain ta tt td where tags: "activation_tag step = Inr ta" "token_tag step = Inr tt" "decision_tag step = Inr td"
    using pipeline_tags [OF step] by blast
  from view_forward [OF view ops emb ids fw] obtain X c' where view': "pipeline_view W m st C' c' (n + length ids)"
    and fwd: "stage_forward_tokens (pe_ops env) (st 0) (token_input ids) n (c 0) = Inr (X 1, c' 0)"
      "\<forall>r. 0 < r \<longrightarrow> r < W \<longrightarrow> stage_forward_hidden (pe_ops env) (st r) (X r) n (c r) = Inr (X (Suc r), c' r)"
      "\<forall>r. 0 < r \<longrightarrow> r \<le> W \<longrightarrow> activation (length ids) (hidden_size cfg) (X r)"
      "stage_finish (pe_ops env) (st (W - 1)) (X W) = Inr logits" by blast
  have "step = 0 \<or> length ids = 1" using input by auto
  with fwd step ids H tk view_stage(1) [OF view] have data: "round_data W env st (hidden_size cfg) step n ids c X c' t"
    unfolding round_data_def by blast
  let ?e = "round_sent W env cx mf step X c' t s"
  have e: "rs_cache (?e r) = c' r" "rs_step (?e r) = step" if "r < W" for r
    using at that by (simp_all add: round_sent_core ranks_at_def)
  let ?r0 = "control_received_state env (Token step t) TokenFeedback (phase_of step) step (W - 1) (?e 0)"
  have "same_core (?e 0) ?r0" by simp
  then obtain a2 where a2: "decide (cx 0) t ?r0 = Inr (d, a2)" "rs_tokens a2 = ts'" "rs_stream a2 = Some ds'"
    "rs_cache a2 = c' 0" "rs_step a2 = step" "P (rs_previous a2)"
    using dec [of ?r0] round_sent_core [of W env cx mf step X c' t s 0] at e [OF W] by (auto simp: same_core_def ranks_at_def)
  from step have "step < 2 ^ 64" by simp
  from round_decision [OF set codec this tags(2,3), of ?e, OF e(2) a2(1)] obtain s' where
    fin: "reach W (start W (round_left W env cx tt step t ?e)) (start W (\<lambda>r. Ret (Inr (d, s' r))))"
    and s': "same_core a2 (s' 0)" "\<And>r. 0 < r \<Longrightarrow> same_core (?e r) (s' r)" by auto
  from round_chain [OF set codec at data tags(1,2) input] fin
  have "computes W (\<lambda>r. pipeline_round env (cx r) (s r)) (\<lambda>r. Inr (d, s' r))"
    unfolding computes_def by (rule rtranclp_trans)
  moreover have "rs_cache (s' r) = c' r \<and> rs_step (s' r) = step" if "r < W" for r
    using s'(1) s'(2) [of r] a2 e [OF that] by (cases "r = 0") (auto simp: same_core_def)
  ultimately show ?thesis using view' a2 s'(1) by (intro exI [of _ c'] exI [of _ s']) (auto simp: same_core_def ranks_at_def)
qed

section \<open>All rounds\<close>

lemma decide_eos: "t = eos_token_id (rc_config cx) \<Longrightarrow> decide cx t a = Inr (Stop Eos, a)"
  by (simp add: decide_def)

lemma decide_token:
  assumes "t \<noteq> eos_token_id (rc_config cx)" "rc_tokenizer cx = Some tok" "rs_stream a = Some ds"
    and "tok_step tok ds t = Inr (text, ds')" "rs_tokens a = ts" "rc_manifest cx = mf"
  shows "\<exists>a2. decide cx t a = Inr (if pm_effective_max_new_tokens mf \<le> Suc (length ts)
       then Stop (token_limit_stop_reason (pm_requested_max_new_tokens mf) (pm_effective_max_new_tokens mf)) else Continue, a2) \<and>
     rs_tokens a2 = ts @ [t] \<and> rs_stream a2 = Some ds' \<and> rs_cache a2 = rs_cache a \<and> rs_step a2 = rs_step a \<and>
     rs_previous a2 = Some t"
  using assms by (simp add: decide_def emit_st_def token_limit_stop_reason_def Let_def)

lemma loop_step:
  assumes "computes W (\<lambda>r. pipeline_round env (cx r) (s r)) (\<lambda>r. Inr (d, s1 r))"
    and "computes W (\<lambda>r. case d of Continue \<Rightarrow> pipeline_loop fuel env (cx r) (s1 r\<lparr>rs_step := rs_step (s1 r) + 1\<rparr>)
       | Stop reason \<Rightarrow> Ret (Inr (reason, s1 r))) res"
  shows "computes W (\<lambda>r. pipeline_loop (Suc fuel) env (cx r) (s r)) res"
  using computes_bind [OF assms(1), of "\<lambda>r x. case x of Inl e \<Rightarrow> Ret (Inl e) | Inr (d, s1) \<Rightarrow>
     (case d of Continue \<Rightarrow> pipeline_loop fuel env (cx r) (s1\<lparr>rs_step := rs_step s1 + 1\<rparr>) | Stop reason \<Rightarrow> Ret (Inr (reason, s1)))" res]
    assms(2)
  by (simp add: pr_bind_def)

lemma loop_stop:
  assumes "computes W (\<lambda>r. pipeline_round env (cx r) (s r)) (\<lambda>r. Inr (Stop reason, s1 r))"
  shows "computes W (\<lambda>r. pipeline_loop (Suc fuel) env (cx r) (s r)) (\<lambda>r. Inr (reason, s1 r))"
  by (rule loop_step [OF assms]) (simp add: computes_Ret)

lemma greedy_token_argmax: "greedy_token ops logits = Inr t \<Longrightarrow> rbind (squeeze logits 0) (op_argmax ops) = Inr t"
  by (cases "squeeze logits 0") (auto simp: greedy_token_def)

text \<open>What the ranks hold in the end, against the state of single-rank generation.\<close>

definition same_outcome ::
  "nat \<Rightarrow> 'v llama \<Rightarrow> (usize \<Rightarrow> 'v llama_stage) \<Rightarrow> ('v, 'd) gen_state \<Rightarrow> (usize \<Rightarrow> ('v, 'd) rank_state) \<Rightarrow> bool" where
  "same_outcome W m st g s \<longleftrightarrow>
     rs_tokens (s 0) = gs_tokens g \<and> pipeline_view W m st (gs_cache g) (\<lambda>r. rs_cache (s r)) (kv_len (gs_cache g))"

lemma same_outcomeI:
  assumes "pipeline_view W m st (gs_cache g) c n" "ranks_at W step c (gs_tokens g) ds s"
  shows "same_outcome W m st g s"
proof -
  have c: "c r = rs_cache (s r)" if "r < W" for r using assms(2) that by (simp add: ranks_at_def)
  then have "map (\<lambda>r. kv_layers (c r)) [0..<W] = map (\<lambda>r. kv_layers (rs_cache (s r))) [0..<W]" by auto
  with assms c view_len [OF assms(1)] show ?thesis by (auto simp: same_outcome_def pipeline_view_def ranks_at_def)
qed

lemma pipeline_loop_follows:
  assumes set: "ranks_set_up W cx st cfg mf tok" and H: "0 < hidden_size cfg" and codec: "codec_ok env"
    and ops: "kernels_ok (pe_ops env)" and emb: "embedding_ok (hidden_size cfg) (embeddings m)"
    and eff: "effective = pm_effective_max_new_tokens mf" "effective < 2 ^ 60" and req: "requested = pm_requested_max_new_tokens mf"
  shows "llama_forward (pe_ops env) m (token_input ids) n C = Inr (logits, gs_cache g1) \<Longrightarrow>
     greedy_token (pe_ops env) logits = Inr (gs_next g1) \<Longrightarrow> ids \<noteq> [] \<Longrightarrow>
     (if gs_next g1 = eos_token_id cfg then Inr (Eos, g1)
      else rbind (accept_token tok g1) (decode_loop (pe_ops env) m tok (eos_token_id cfg) requested effective)) = Inr (stop, g) \<Longrightarrow>
     gs_tokens g1 = [] \<and> ids = pm_prompt_token_ids mf \<or>
       (gs_tokens g1 \<noteq> [] \<and> (\<exists>t. rs_previous (s 0) = Some t \<and> ids = [t])) \<Longrightarrow>
     length (gs_tokens g1) < effective \<Longrightarrow> effective - length (gs_tokens g1) \<le> fuel \<Longrightarrow>
     pipeline_view W m st C c n \<Longrightarrow> ranks_at W (length (gs_tokens g1)) c (gs_tokens g1) (gs_stream g1) s \<Longrightarrow>
     \<exists>s'. computes W (\<lambda>r. pipeline_loop fuel env (cx r) (s r)) (\<lambda>r. Inr (stop, s' r)) \<and> same_outcome W m st g s'"
proof (induction fuel arbitrary: ids n C logits g1 c s)
  case 0
  then show ?case by simp
next
  case (Suc fuel)
  let ?t = "gs_next g1" and ?ts = "gs_tokens g1" and ?eos = "eos_token_id cfg"
  have W: "0 < W" "rc_config (cx 0) = cfg" "rc_manifest (cx 0) = mf" "rc_tokenizer (cx 0) = Some tok"
    using set by (auto simp: ranks_set_up_def)
  note round = round_computes [OF set H codec ops emb Suc.prems(8,9) _ _ Suc.prems(3,1) greedy_token_argmax [OF Suc.prems(2)]]
  have step: "length ?ts < 2 ^ 60" using Suc.prems(6) eff(2) by simp
  have input: "length ?ts = 0 \<and> ids = pm_prompt_token_ids mf \<or> (0 < length ?ts \<and> (\<exists>t. rs_previous (s 0) = Some t \<and> ids = [t]))"
    using Suc.prems(5) by auto
  show ?case
  proof (cases "?t = ?eos")
    case True
    then have out: "stop = Eos" "g = g1" using Suc.prems(4) by auto
    have dec: "\<exists>a2. decide (cx 0) ?t a = Inr (Stop Eos, a2) \<and> rs_tokens a2 = ?ts \<and> rs_stream a2 = Some (gs_stream g1) \<and>
        rs_cache a2 = rs_cache a \<and> rs_step a2 = rs_step a \<and> True"
      if "rs_tokens a = ?ts" "rs_stream a = Some (gs_stream g1)" for a
      using that decide_eos [of ?t "cx 0" a] True W(2) by simp
    obtain c' s' where r: "computes W (\<lambda>r. pipeline_round env (cx r) (s r)) (\<lambda>r. Inr (Stop Eos, s' r))"
      and v: "pipeline_view W m st (gs_cache g1) c' (n + length ids)" and at: "ranks_at W (length ?ts) c' ?ts (gs_stream g1) s'"
      using round [OF step input dec] by auto
    from loop_stop [OF r] same_outcomeI [OF v at] show ?thesis unfolding out by blast
  next
    case False
    with Suc.prems(4) obtain g2 where g2: "accept_token tok g1 = Inr g2"
      and rest: "decode_loop (pe_ops env) m tok ?eos requested effective g2 = Inr (stop, g)" by auto
    from g2 obtain txt1 ds where ds: "tok_step tok (gs_stream g1) ?t = Inr (txt1, ds)"
      and f2: "gs_cache g2 = gs_cache g1" "gs_tokens g2 = ?ts @ [?t]" "gs_stream g2 = ds" "gs_next g2 = ?t"
      by (auto simp: accept_token_def emit_token_def)
    let ?d = "if effective \<le> Suc (length ?ts) then Stop (token_limit_stop_reason requested effective) else Continue"
    obtain c' s1 where r: "computes W (\<lambda>r. pipeline_round env (cx r) (s r)) (\<lambda>r. Inr (?d, s1 r))"
      and v: "pipeline_view W m st (gs_cache g1) c' (n + length ids)" and at: "ranks_at W (length ?ts) c' (?ts @ [?t]) ds s1"
      and pv: "rs_previous (s1 0) = Some ?t"
      using round [OF step input, where d = ?d and P = "\<lambda>p. p = Some ?t" and ts' = "?ts @ [?t]" and ds' = ds]
        decide_token [of ?t "cx 0" tok _ "gs_stream g1" txt1 ds ?ts mf] False W ds eff(1) req by auto
    show ?thesis
    proof (cases "effective \<le> Suc (length ?ts)")
      case True
      then have out: "stop = token_limit_stop_reason requested effective" "g = g2"
        using rest f2(2) by (auto simp: decode_loop.simps)
      have "same_outcome W m st g2 s1"
        by (rule same_outcomeI [of W m st g2 c' "n + length ids" "length ?ts" ds]) (use v at f2 in simp_all)
      with loop_stop [OF r [unfolded if_P [OF True]]] show ?thesis unfolding out by blast
    next
      case more: False
      with rest f2(2) obtain g3 where g3: "decode_forward (pe_ops env) m g2 = Inr g3"
        and rest3: "(if gs_next g3 = ?eos then Inr (Eos, g3)
           else rbind (accept_token tok g3) (decode_loop (pe_ops env) m tok ?eos requested effective)) = Inr (stop, g)"
        by (subst (asm) decode_loop.simps) (auto split: if_splits)
      from g3 f2 view_len [OF v] obtain logits3 where
        fw3: "llama_forward (pe_ops env) m (token_input [?t]) (n + length ids) (gs_cache g1) = Inr (logits3, gs_cache g3)"
        and gt3: "greedy_token (pe_ops env) logits3 = Inr (gs_next g3)"
        and f3: "gs_tokens g3 = ?ts @ [?t]" "gs_stream g3 = ds"
        by (auto simp: decode_forward_def Let_def)
      let ?s2 = "\<lambda>r. s1 r\<lparr>rs_step := rs_step (s1 r) + 1\<rparr>"
      have at2: "ranks_at W (length (gs_tokens g3)) c' (gs_tokens g3) (gs_stream g3) ?s2"
        using at f3 by (simp add: ranks_at_def)
      have "\<exists>s'. computes W (\<lambda>r. pipeline_loop fuel env (cx r) (?s2 r)) (\<lambda>r. Inr (stop, s' r)) \<and> same_outcome W m st g s'"
        by (rule Suc.IH [OF fw3 gt3 _ rest3 _ _ _ v at2]) (use more f3 pv Suc.prems(7) in auto)
      then show ?thesis using loop_step [OF r] more by auto
    qed
  qed
qed

end
