(* ===== verification/PipelineSample.thy ===== *)
theory PipelineSample
  imports PipelineProofs Wire
begin

text \<open>
  A concrete environment for the theorems about pipelines: kernels that compute shapes only,
  a checkpoint that has every weight, a tokenizer, and a binary codec for control messages.
  It shows that what is assumed of the code outside the model can hold together.
\<close>

section \<open>Kernels and checkpoint\<close>

definition ones :: "nat list \<Rightarrow> unit tensor" where
  "ones ds = cpu_f32 ds (replicate (prod_list ds) ())"

definition sample_ops :: "unit candle_ops" where
  "sample_ops =
     \<lparr>op_add = (\<lambda>_ _. ()), op_zero = (), op_neg_infinity = (),
      op_linear = (\<lambda>w x. Inr (ones (butlast (t_dims x) @ [hd (t_dims w)]))),
      op_embedding = (\<lambda>w ids.
        if prod_list (t_dims ids) \<le> 1 \<and> last (t_dims w) \<le> 1000
        then Inr ((ones (t_dims ids @ [last (t_dims w)]))\<lparr>t_device := t_device w, t_dtype := t_dtype w\<rparr>)
        else Inl (CandleMsg [])),
      op_rms_norm = (\<lambda>eps w x. Inr x),
      op_rope_tables = (\<lambda>cfg n. Inr (ones [n, 32], ones [n, 32])),
      op_rope = (\<lambda>x c s. Inr x),
      op_transpose = (\<lambda>x i j. Inr (x\<lparr>t_dims := (t_dims x)[i := t_dims x ! j, j := t_dims x ! i]\<rparr>)),
      op_t = (\<lambda>x. Inr x),
      op_matmul = (\<lambda>x y. Inr (ones [1, 9, 1, 64])),
      op_div_sqrt = (\<lambda>x d. Inr x),
      op_softmax_last_dim = (\<lambda>x. Inr x),
      op_silu = (\<lambda>x. Inr x),
      op_mul = (\<lambda>x y. Inr x),
      op_to_dtype = (\<lambda>x d. Inr (x\<lparr>t_dtype := d\<rparr>)),
      op_argmax = (\<lambda>x. Inr 5)\<rparr>"

lemma sample_ops_sel:
  "op_linear sample_ops w x = Inr (ones (butlast (t_dims x) @ [hd (t_dims w)]))" "op_rms_norm sample_ops eps w x = Inr x"
  "op_rope sample_ops x c s = Inr x" "op_t sample_ops x = Inr x" "op_matmul sample_ops x y = Inr (ones [1, 9, 1, 64])"
  "op_transpose sample_ops x i j = Inr (x\<lparr>t_dims := (t_dims x)[i := t_dims x ! j, j := t_dims x ! i]\<rparr>)"
  "op_div_sqrt sample_ops x d = Inr x" "op_softmax_last_dim sample_ops x = Inr x" "op_silu sample_ops x = Inr x"
  "op_mul sample_ops x y = Inr x" "op_to_dtype sample_ops x dt = Inr (x\<lparr>t_dtype := dt\<rparr>)" "op_argmax sample_ops x = Inr 5"
  "op_rope_tables sample_ops cfg n = Inr (ones [n, 32], ones [n, 32])" "op_zero sample_ops = ()"
  by (simp_all add: sample_ops_def)

definition sample_checkpoint :: "unit var_builder" where
  "sample_checkpoint name shape = Inr (cpu_f32 shape [])"

lemma ones_sel [simp]:
  "t_dims (ones ds) = ds" "t_device (ones ds) = Cpu" "t_dtype (ones ds) = F32" "length (t_values (ones ds)) = prod_list ds"
  by (simp_all add: ones_def)

lemma sample_kernels_ok: "kernels_ok sample_ops"
proof -
  have "4 * (a * b) < 2 ^ 64" if "a \<le> 1" "b \<le> 1000" for a b :: nat
    using mult_le_mono [OF that] by simp
  then show ?thesis
    by (auto simp: kernels_ok_def sample_ops_def wf_tensor_def elem_count_def)
qed

section \<open>A model of the registry\<close>

abbreviation sample_config :: model_config where
  "sample_config \<equiv> config (spec SmolLm2_135MInstruct)"

definition sample_block :: "unit llama_block" where
  "sample_block = projr (block_load sample_checkpoint sample_config)"

definition sample_layer :: "unit layer_kv_cache" where
  "sample_layer = projr (layer_new () sample_config 2 F32)"

definition sample_rope :: "unit rotary_embedding" where
  "sample_rope = \<lparr>rope_cos = ones [2, 32], rope_sin = ones [2, 32]\<rparr>"

lemmas sample_load_simps = block_load_def attention_load_def mlp_load_def load_rms_norm_def linear_no_bias_def
  load_embedding_def pp_def sample_checkpoint_def head_dim_def spec_simps

lemma sample_block_load: "block_load (pp prefix sample_checkpoint) sample_config = Inr sample_block"
  by (simp add: sample_block_def sample_load_simps)

lemma sample_layer_new: "layer_new () sample_config 2 F32 = Inr sample_layer"
  by (simp add: sample_layer_def layer_new_def sample_load_simps Let_def)

lemma sample_layer_sel:
  "t_dims (l_keys sample_layer) = [1, 3, 2, 64]" "t_device (l_keys sample_layer) = Cpu" "t_dtype (l_keys sample_layer) = F32"
  "t_dims (l_values sample_layer) = [1, 3, 2, 64]" "t_device (l_values sample_layer) = Cpu" "t_dtype (l_values sample_layer) = F32"
  "l_length sample_layer = 0" "l_capacity sample_layer = 2"
  by (simp_all add: sample_layer_def layer_new_def sample_load_simps zeros_def Let_def)

definition hidden_state :: "unit tensor \<Rightarrow> bool" where
  "hidden_state x \<longleftrightarrow> t_dims x = [1, 1, 576] \<and> t_device x = Cpu \<and> t_dtype x = F32"

lemma sample_heads:
  assumes "t_dims x = [1, 1, h]" "hd (t_dims w) = heads * 64"
  shows "project_heads sample_ops w x 1 1 heads 64 = Inr ((ones [1, 1, heads * 64])\<lparr>t_dims := [1, heads, 1, 64]\<rparr>)"
  using assms by (simp add: project_heads_def sample_ops_def reshape_def elem_count_def)

lemma slice_set_shape:
  assumes "axis < length (t_dims dst)" "t_dtype dst = t_dtype src" "t_device dst = t_device src"
    and "length (t_dims dst) = length (t_dims src)" "slice_dims_error axis off 0 (t_dims dst) (t_dims src) = None"
  shows "\<exists>vs. slice_set dst src axis off = Inr (dst\<lparr>t_values := vs\<rparr>)"
  using assms by (simp add: slice_set_def Let_def) (rule exI, rule refl)

lemma sample_append:
  assumes k: "t_dims k = [1, 3, 1, 64]" "t_device k = Cpu" "t_dtype k = F32"
    and v: "t_dims v = [1, 3, 1, 64]" "t_device v = Cpu" "t_dtype v = F32"
  shows "\<exists>ks vs l. layer_append sample_layer k v = (Inr (ks, vs), l) \<and> t_dims ks = [1, 3, 1, 64] \<and> t_dims vs = [1, 3, 1, 64]"
proof -
  obtain ks where ks: "slice_set (l_keys sample_layer) k 2 0 = Inr (l_keys sample_layer\<lparr>t_values := ks\<rparr>)"
    using slice_set_shape [of 2 "l_keys sample_layer" k 0] k by (auto simp: sample_layer_sel)
  obtain vs where vs: "slice_set (l_values sample_layer) v 2 0 = Inr (l_values sample_layer\<lparr>t_values := vs\<rparr>)"
    using slice_set_shape [of 2 "l_values sample_layer" v 0] v by (auto simp: sample_layer_sel)
  obtain kn where kn: "narrow (l_keys sample_layer\<lparr>t_values := ks\<rparr>) 2 0 1 = Inr kn" "t_dims kn = [1, 3, 1, 64]"
    using narrow_shape [of 2 "l_keys sample_layer\<lparr>t_values := ks\<rparr>" 0 1] by (auto simp: sample_layer_sel numeral_2_eq_2)
  obtain vn where vn: "narrow (l_values sample_layer\<lparr>t_values := vs\<rparr>) 2 0 1 = Inr vn" "t_dims vn = [1, 3, 1, 64]"
    using narrow_shape [of 2 "l_values sample_layer\<lparr>t_values := vs\<rparr>" 0 1] by (auto simp: sample_layer_sel numeral_2_eq_2)
  show ?thesis
    using ks vs kn vn k(1) v(1) by (simp add: layer_append_def dims4_def sample_layer_sel Let_def)
qed

lemma sample_attention:
  assumes "hidden_state x"
  shows "\<exists>l. attention_on sample_ops (b_attention sample_block) x 0 sample_rope sample_layer = Inr (ones [1, 1, 576], l)"
proof -
  let ?a = "b_attention sample_block"
  let ?k = "(ones [1, 1, 192])\<lparr>t_dims := [1, 3, 1, 64]\<rparr>"
  let ?q = "(ones [1, 1, 576])\<lparr>t_dims := [1, 9, 1, 64]\<rparr>"
  have x: "t_dims x = [1, 1, 576]" "t_dtype x = F32" using assms by (simp_all add: hidden_state_def)
  have a: "t_dims (q_proj ?a) = [576, 576]" "t_dims (k_proj ?a) = [192, 576]" "t_dims (v_proj ?a) = [192, 576]"
    "t_dims (o_proj ?a) = [576, 576]" "a_num_attention_heads ?a = 9" "a_num_key_value_heads ?a = 3" "a_head_dim ?a = 64"
    by (simp_all add: sample_block_def sample_load_simps)
  have heads: "project_heads sample_ops (q_proj ?a) x 1 1 9 64 = Inr ?q" "project_heads sample_ops (k_proj ?a) x 1 1 3 64 = Inr ?k"
    "project_heads sample_ops (v_proj ?a) x 1 1 3 64 = Inr ?k"
    using sample_heads [OF x(1)] a by simp_all
  obtain vs where cos: "narrow (ones [2, 32]) 0 0 1 = Inr ((ones [2, 32])\<lparr>t_dims := [1, 32], t_values := vs\<rparr>)"
    using narrow_shape [of 0 "ones [2, 32]" 0 1] by auto
  have rope: "rope_apply sample_ops sample_rope t 0 = Inr t" if "t_dims t = [1, n, 1, 64]" for t n
    using that cos by (simp add: rope_apply_def sample_rope_def tensor_dim_def sample_ops_def numeral_2_eq_2)
  obtain ks vs l where app: "layer_append sample_layer ?k ?k = (Inr (ks, vs), l)" "t_dims ks = [1, 3, 1, 64]" "t_dims vs = [1, 3, 1, 64]"
    using sample_append [of ?k ?k] by auto
  obtain kr vr where rep: "repeat_kv ks 3 = Inr kr" "repeat_kv vs 3 = Inr vr"
    using app(2,3) by (simp add: repeat_kv_def dims4_def)
  have "attention_forward sample_ops ?a x 0 0 sample_rope \<lparr>kv_layers = [sample_layer], kv_capacity = 0\<rparr> =
      Inr (ones [1, 1, 576], \<lparr>kv_layers = [l], kv_capacity = 0\<rparr>)"
    using x a heads rope app rep rep [unfolded numeral_3_eq_3]
    by (simp add: attention_forward_def dims3_def kv_append_def reshape_def elem_count_def sample_ops_sel numeral_2_eq_2)
  then show ?thesis by (simp add: attention_on_def)
qed

lemma sample_block_on:
  assumes x: "hidden_state x"
  shows "\<exists>y l. block_on sample_ops sample_rope 0 sample_block x sample_layer = Inr (y, l) \<and> hidden_state y"
proof -
  let ?c = "\<lparr>kv_layers = [sample_layer], kv_capacity = 0\<rparr>"
  obtain l where a: "attention_on sample_ops (b_attention sample_block) x 0 sample_rope sample_layer = Inr (ones [1, 1, 576], l)"
    using sample_attention [OF x] by blast
  have d: "hd (t_dims (down_proj (b_mlp sample_block))) = 576" by (simp add: sample_block_def sample_load_simps)
  have add: "\<exists>y. tensor_add (op_add sample_ops) t (ones [1, 1, 576]) = Inr y \<and> hidden_state y" if "hidden_state t" for t
    using that by (simp add: tensor_add_def hidden_state_def)
  obtain h where h: "tensor_add (op_add sample_ops) x (ones [1, 1, 576]) = Inr h" "hidden_state h" using add [OF x] by blast
  obtain y where y: "tensor_add (op_add sample_ops) h (ones [1, 1, 576]) = Inr y" "hidden_state y" using add [OF h(2)] by blast
  have "mlp_forward sample_ops (b_mlp sample_block) h = Inr (ones [1, 1, 576])"
    using d h(2) by (simp add: mlp_forward_def sample_ops_sel hidden_state_def)
  then show ?thesis
    using a h y by (simp add: block_on_def block_forward_def norm_forward_def attention_local [of 0 ?c] set_layer_def sample_ops_sel)
qed

lemma sample_run_blocks:
  "hidden_state x \<Longrightarrow> \<exists>y ls. run_blocks sample_ops sample_rope 0 (replicate n sample_block) x (replicate n sample_layer) = Inr (y, ls)
     \<and> hidden_state y"
proof (induction n arbitrary: x)
  case (Suc n)
  from sample_block_on [OF Suc.prems] Suc.IH show ?case by fastforce
qed simp

definition sample_llama :: "unit llama" where
  "sample_llama = \<lparr>embeddings = cpu_f32 [49152, 576] [], blocks = replicate 30 sample_block,
     final_norm = (rms_norm_eps sample_config, cpu_f32 [576] []), lm_head = cpu_f32 [49152, 576] [], rope = sample_rope\<rparr>"

definition sample_cache :: "unit kv_cache" where
  "sample_cache = \<lparr>kv_layers = replicate 30 sample_layer, kv_capacity = 2\<rparr>"

lemma collect_replicate: "collect_results (map (\<lambda>_. Inr x) xs) = Inr (replicate (length xs) x)"
  by (induction xs) simp_all

lemma sample_llama_load: "llama_load sample_ops sample_checkpoint sample_config 2 = Inr sample_llama"
proof -
  have "load_blocks sample_checkpoint sample_config [0..<num_hidden_layers sample_config] = Inr (replicate 30 sample_block)"
    unfolding load_blocks_def sample_block_load collect_replicate by (simp add: spec_simps)
  moreover have "rope_new sample_ops sample_config 2 = Inr sample_rope"
    by (simp add: rope_new_def sample_ops_sel sample_rope_def head_dim_def spec_simps)
  ultimately show ?thesis
    unfolding llama_load_def by (simp add: sample_llama_def load_embedding_def load_rms_norm_def pp_def sample_checkpoint_def spec_simps)
qed

lemma sample_kv_new: "kv_new () sample_config 2 F32 = Inr sample_cache"
  unfolding kv_new_def kv_new_for_layers_def sample_layer_new collect_replicate by (simp add: sample_cache_def spec_simps)

lemma sample_forward:
  "\<exists>logits c. llama_forward sample_ops sample_llama (token_input [t]) 0 sample_cache = Inr (logits, c) \<and> t_dims logits = [1, 49152]"
proof -
  let ?x = "ones [1, 1, 576]"
  have emb: "op_embedding sample_ops (embeddings sample_llama) (token_input [t]) = Inr ?x"
    by (simp add: sample_ops_def sample_llama_def token_input_def ones_def cpu_f32_def)
  obtain y ls where y: "run_blocks sample_ops sample_rope 0 (replicate 30 sample_block) ?x (replicate 30 sample_layer) = Inr (y, ls)"
    "hidden_state y" using sample_run_blocks [of ?x 30] by (auto simp: hidden_state_def)
  have fb: "forward_blocks sample_ops (rope sample_llama) 0 0 (blocks sample_llama) ?x sample_cache =
      Inr (y, sample_cache\<lparr>kv_layers := ls\<rparr>)"
    using forward_blocks_run [of sample_cache 0 "blocks sample_llama" sample_ops "rope sample_llama" 0 ?x] y(1)
    by (simp add: sample_llama_def sample_cache_def)
  obtain vs where "narrow y 1 0 1 = Inr (y\<lparr>t_dims := [1, 1, 576], t_values := vs\<rparr>)"
    using narrow_shape [of 1 y 0 1] y(2) by (auto simp: hidden_state_def)
  then have "head_forward sample_ops (final_norm sample_llama) (lm_head sample_llama) y 1 = Inr (ones [1, 49152])"
    using y(2) by (simp add: head_forward_def norm_forward_def index_mid_def squeeze_def sample_ops_sel sample_llama_def hidden_state_def
        ones_def cpu_f32_def)
  moreover have "position_error 0 1 sample_cache = None"
    using sample_layer_sel(7) by (simp add: position_error_def sample_cache_def kv_len_def numeral_eq_Suc)
  ultimately show ?thesis
    using emb fb by (simp add: llama_forward_def dims2_def token_input_def)
qed

section \<open>Codec, tokenizer, manifest\<close>

fun decision_code :: "pipeline_decision \<Rightarrow> u8" where
  "decision_code Continue = 0"
| "decision_code (Stop Eos) = 1"
| "decision_code (Stop MaxNewTokens) = 2"
| "decision_code (Stop ContextLimit) = 3"

definition code_decision :: "u8 \<Rightarrow> pipeline_decision" where
  "code_decision b = (if b = 0 then Continue else if b = 1 then Stop Eos else if b = 2 then Stop MaxNewTokens else Stop ContextLimit)"

lemma code_decision [simp]: "code_decision (decision_code d) = d"
  by (cases d rule: decision_code.cases) (simp_all add: code_decision_def)

fun sample_encode :: "pipeline_control \<Rightarrow> u8 list" where
  "sample_encode (Token n t) = u64_bytes (of_nat n) @ u32_bytes t"
| "sample_encode (Decision n d) = u64_bytes (of_nat n) @ [decision_code d]"

definition sample_decode :: "u8 list \<Rightarrow> string + pipeline_control" where
  "sample_decode bs =
     (case read_u64 bs of
        Inl e \<Rightarrow> Inl ''truncated''
      | Inr (n, rest) \<Rightarrow>
          (case rest of
             [b] \<Rightarrow> Inr (Decision (unat n) (code_decision b))
           | _ \<Rightarrow> (case read_u32 rest of Inl e \<Rightarrow> Inl ''truncated'' | Inr (t, _) \<Rightarrow> Inr (Token (unat n) t))))"

lemma sample_round_trip:
  "control_step c < 2 ^ 64 \<Longrightarrow> length (sample_encode c) \<le> 12 \<and> sample_decode (sample_encode c) = Inr c"
proof (induction c rule: sample_encode.induct)
  case (1 n t)
  have len: "length (u32_bytes t) = 4" by (simp add: wire_simps)
  have "u32_bytes t \<noteq> [b]" for b
  proof
    assume "u32_bytes t = [b]"
    then have "length (u32_bytes t) = 1" by (rule ssubst) simp
    with len show False by linarith
  qed
  then have "(case u32_bytes t of [b] \<Rightarrow> x b | _ \<Rightarrow> y) = y" for x :: "u8 \<Rightarrow> string + pipeline_control" and y
    by (auto split: list.splits)
  then show ?case
    using 1 read_u32_append [of t "[]"] by (simp add: sample_decode_def wire_simps control_step_def unat_of_nat)
next
  case (2 n d)
  then show ?case by (simp add: sample_decode_def wire_simps control_step_def unat_of_nat)
qed

definition sample_tokenizer :: "unit tokenizer" where
  "sample_tokenizer =
     \<lparr>tok_encode = (\<lambda>s. Inr [3]), tok_decode = (\<lambda>ids. Inr (replicate (length ids) CHR ''x'')), tok_stream = (),
      tok_step = (\<lambda>_ t. Inr (Some ''x'', ()))\<rparr>"

definition sample_env :: "(unit, unit) pipeline_env" where
  "sample_env =
     \<lparr>pe_ops = sample_ops, pe_checkpoint = (\<lambda>path dt. Inr sample_checkpoint), pe_tokenizer = (\<lambda>path. Inr sample_tokenizer),
      pe_to_json = (\<lambda>c. Inr (sample_encode c)), pe_from_json = sample_decode\<rparr>"

lemma sample_generate:
  "\<exists>g. generate_tokens sample_ops sample_llama sample_tokenizer 2 [3] 1 1 sample_cache rec = Inr (MaxNewTokens, g) \<and> gs_tokens g = [5]"
proof -
  obtain logits c where f: "llama_forward sample_ops sample_llama (token_input [3]) 0 sample_cache = Inr (logits, c)" "t_dims logits = [1, 49152]"
    using sample_forward by blast
  then have "greedy_token sample_ops logits = Inr 5" by (simp add: greedy_token_def squeeze_def sample_ops_sel)
  with f(1) show ?thesis
    by (simp add: generate_tokens_def accept_token_def emit_token_def sample_tokenizer_def decode_loop.simps
        token_limit_stop_reason_def Let_def)
qed

lemma sample_codec_ok: "codec_ok sample_env"
  using sample_round_trip by (fastforce simp: codec_ok_def sample_env_def MAX_CONTROL_BYTES_def)

definition sample_plan :: stage_memory_plan where
  "sample_plan = \<lparr>smp_rank = 0, smp_layer_start = 0, smp_layer_end = 15, smp_block_parameters = 0, smp_embedding_parameters = 0,
     smp_final_norm_parameters = 0, smp_lm_head_parameters = 0, smp_materialized_parameters = 0, smp_weight_bytes = 0,
     smp_kv_cache_capacity_bytes = 0, smp_persistent_bytes = 0, smp_budget_bytes = 0,
     smp_placement = FitsPersistentEstimate, smp_duplicates_tied_embeddings = False\<rparr>"

definition sample_manifest :: pipeline_manifest where
  "sample_manifest =
     \<lparr>pm_schema_version = 1, pm_run_id = ''run'', pm_request_id = ''request'', pm_model = SmolLm2_135MInstruct,
      pm_dtype = PlanF32, pm_prompt_token_ids = [3], pm_prompt_characters = 1, pm_requested_max_new_tokens = 1,
      pm_effective_max_new_tokens = 1, pm_context_capacity = 2, pm_checkpoint_path = [], pm_tokenizer_path = [],
      pm_partition = projr (balanced (spec SmolLm2_135MInstruct) 2), pm_memory_plans = [sample_plan, sample_plan],
      pm_expected_cpu_millis = 0, pm_expected_memory_bytes = 0\<rparr>"

definition sample_resources :: resource_snapshot where
  "sample_resources = \<lparr>rsn_cpu_millis = None, rsn_memory_current_bytes = None, rsn_memory_limit_bytes = None,
     rsn_cpuset_cpus = None, rsn_cgroup_version = None\<rparr>"

lemma sample_balanced: "balanced (spec SmolLm2_135MInstruct) 2 = Inr (pm_partition sample_manifest)"
proof -
  have "\<exists>p. balanced (spec SmolLm2_135MInstruct) 2 = Inr p" by (simp add: balanced_Inr spec_simps)
  then show ?thesis by (auto simp: sample_manifest_def)
qed

end
