(* ===== verification/PipelineRun.thy ===== *)
theory PipelineRun
  imports PipelineSample
begin

text \<open>
  Whole pipeline runs: the stages loaded from one checkpoint by a balanced partition hold
  the model, and a run of all ranks from the manifest to the reports gives what single-rank
  generation gives.
\<close>

section \<open>Loading\<close>

lemma load_blocks_Inr:
  "load_blocks vb cfg ls = Inr bs \<longleftrightarrow>
     (\<forall>i \<in> set ls. \<exists>b. block_load (pp (''model.layers.'' @ show_nat i) vb) cfg = Inr b) \<and>
     bs = map (\<lambda>i. projr (block_load (pp (''model.layers.'' @ show_nat i) vb) cfg)) ls"
proof (induction ls arbitrary: bs)
  case Nil
  then show ?case by (auto simp: load_blocks_def)
next
  case (Cons i ls)
  then show ?case
    by (cases "block_load (pp (''model.layers.'' @ show_nat i) vb) cfg") (auto simp: load_blocks_def)
qed

lemma kv_new_for_layers_Inr:
  "kv_new_for_layers z cfg n cap dt = Inr c \<longleftrightarrow>
     0 < n \<and> n \<le> num_hidden_layers cfg \<and> 0 < cap \<and> cap \<le> max_position_embeddings cfg \<and>
     (\<exists>l. layer_new z cfg cap dt = Inr l \<and> c = \<lparr>kv_layers = replicate n l, kv_capacity = cap\<rparr>)"
proof -
  have "replicate n r = map Inr ls \<longleftrightarrow> (\<exists>l. r = Inr l \<and> ls = replicate n l)" if "0 < n" for r :: "dlir_error + 'a layer_kv_cache" and ls
  proof
    assume "replicate n r = map Inr ls"
    then have "length ls = n" "\<forall>i < n. r = Inr (ls ! i)" by (auto simp: list_eq_iff_nth_eq)
    then have "r = Inr (ls ! 0) \<and> ls = replicate n (ls ! 0)" using that by (auto simp: list_eq_iff_nth_eq)
    then show "\<exists>l. r = Inr l \<and> ls = replicate n l" by blast
  qed auto
  then show ?thesis by (auto simp: kv_new_for_layers_def collect_results_Inr map_replicate_const)
qed

lemma concat_replicates: "concat (map (\<lambda>r. replicate (f r) x) rs) = replicate (sum_list (map f rs)) x"
  by (induction rs) (simp_all add: replicate_add)

lemma nth_map_stages: "length xs = n \<Longrightarrow> map (\<lambda>r. f (xs ! r)) [0..<n] = map f xs"
  by (auto intro: nth_equalityI)

lemma balanced_range:
  assumes "balanced s W = Inr p" "r < W"
  shows "layer_start (stages p ! r) < layer_end (stages p ! r)"
    "layer_end (stages p ! r) \<le> num_hidden_layers (config s)"
    "0 < layer_count (stages p ! r)" "layer_count (stages p ! r) \<le> num_hidden_layers (config s)"
proof -
  let ?a = "stages p ! r"
  have W: "2 \<le> W" "W \<le> num_hidden_layers (config s)" "length (stages p) = W" using assms(1) by (auto simp: balanced_Inr)
  then show pos: "0 < layer_count ?a"
    using balanced_layer_count [OF assms] by (simp add: div_greater_zero_iff)
  then show lt: "layer_start ?a < layer_end ?a" by (simp add: layer_count_def)
  have "set (stage_layers ?a) \<subseteq> set (concat (map stage_layers (stages p)))" using assms(2) W(3) by (auto intro!: bexI [OF _ nth_mem])
  then have "set (stage_layers ?a) \<subseteq> {0..<num_hidden_layers (config s)}" by (simp add: balanced_layers [OF assms(1)])
  moreover have "layer_end ?a - 1 \<in> set (stage_layers ?a)" using lt by (auto simp: stage_layers_def)
  ultimately show "layer_end ?a \<le> num_hidden_layers (config s)" by auto
  then show "layer_count ?a \<le> num_hidden_layers (config s)" by (simp add: layer_count_def)
qed

lemma stages_hold_model:
  assumes bal: "balanced s W = Inr p" and m: "llama_load ops vb (config s) cap = Inr m"
    and C: "kv_new z (config s) cap dt = Inr C"
  shows "\<exists>st c. pipeline_view W m st C c 0 \<and> (\<forall>r < W. let a = stages p ! r in
     stage_load ops vb (config s) (layer_start a) (layer_end a) (owns_embeddings a) (owns_lm_head a) cap = Inr (st r) \<and>
     kv_new_for_layers z (config s) (layer_count a) cap dt = Inr (c r))"
proof -
  let ?cfg = "config s" and ?block = "\<lambda>i. projr (block_load (pp (''model.layers.'' @ show_nat i) vb) (config s))"
  let ?L = "num_hidden_layers ?cfg"
  from m obtain bs where lb: "load_blocks vb ?cfg [0..<?L] = Inr bs" "blocks m = bs" by (auto simp: llama_load_def)
  then have ok: "\<And>i. i < ?L \<Longrightarrow> \<exists>b. block_load (pp (''model.layers.'' @ show_nat i) vb) ?cfg = Inr b"
    and bs: "blocks m = map ?block [0..<?L]" by (auto simp: load_blocks_Inr)
  from C obtain l where l: "layer_new z ?cfg cap dt = Inr l" "C = \<lparr>kv_layers = replicate ?L l, kv_capacity = cap\<rparr>"
    "0 < cap" "cap \<le> max_position_embeddings ?cfg"
    by (auto simp: kv_new_def kv_new_for_layers_Inr split: if_splits)
  have W: "0 < W" "length (stages p) = W" using bal by (auto simp: balanced_Inr)
  define st where "st r = (let a = stages p ! r in
     \<lparr>st_layer_start = layer_start a, st_layer_end = layer_end a,
      st_embeddings = (if r = 0 then Some (embeddings m) else None), st_blocks = map ?block [layer_start a..<layer_end a],
      st_final_norm = (if r + 1 = W then Some (final_norm m) else None),
      st_lm_head = (if r + 1 = W then Some (lm_head m) else None), st_rope = rope m\<rparr>)" for r
  define c where "c r = \<lparr>kv_layers = replicate (layer_count (stages p ! r)) l, kv_capacity = cap\<rparr>" for r
  have stage: "stage_load ops vb ?cfg (layer_start (stages p ! r)) (layer_end (stages p ! r)) (owns_embeddings (stages p ! r))
      (owns_lm_head (stages p ! r)) cap = Inr (st r)" if r: "r < W" for r
  proof -
    have "load_blocks vb ?cfg [layer_start (stages p ! r)..<layer_end (stages p ! r)] = Inr (st_blocks (st r))"
      using ok balanced_range(2) [OF bal r] by (auto simp: load_blocks_Inr st_def Let_def)
    with m balanced_range(1,2) [OF bal r] balanced_stage_sel [OF bal r] show ?thesis
      by (auto simp: stage_load_def llama_load_def when_loaded_def st_def Let_def split: if_splits)
  qed
  have cache: "kv_new_for_layers z ?cfg (layer_count (stages p ! r)) cap dt = Inr (c r)" if "r < W" for r
    using l balanced_range(3,4) [OF bal that] by (simp add: kv_new_for_layers_Inr c_def)
  have "concat (map (\<lambda>r. st_blocks (st r)) [0..<W]) = concat (map (map ?block) (map stage_layers (stages p)))"
    using nth_map_stages [OF W(2), of "\<lambda>a. map ?block (stage_layers a)"]
    by (simp add: st_def Let_def comp_def flip: stage_layers_def)
  also have "\<dots> = blocks m" by (simp only: map_concat [symmetric] balanced_layers [OF bal] bs)
  finally have blk: "blocks m = concat (map (\<lambda>r. st_blocks (st r)) [0..<W])" by simp
  have lay: "kv_layers C = concat (map (\<lambda>r. kv_layers (c r)) [0..<W])"
    using nth_map_stages [OF W(2), of layer_count] sum_layer_counts [OF bal]
    by (simp add: c_def concat_replicates l(2))
  have "l_length l = 0" using l(1) by (auto simp: layer_new_def Let_def)
  then have each: "st_rope (st r) = rope m \<and> st_blocks (st r) \<noteq> [] \<and> length (st_blocks (st r)) = length (kv_layers (c r)) \<and>
      kv_capacity (c r) = kv_capacity C \<and> map l_length (kv_layers (c r)) = replicate (length (kv_layers (c r))) 0"
    if "r < W" for r
    using balanced_range(1) [OF bal that] by (simp add: st_def c_def l(2) Let_def layer_count_def)
  have "st_embeddings (st 0) = Some (embeddings m)" "st_final_norm (st (W - 1)) = Some (final_norm m)"
    "st_lm_head (st (W - 1)) = Some (lm_head m)" using W(1) by (simp_all add: st_def Let_def)
  with each W(1) blk lay have "pipeline_view W m st C c 0" unfolding pipeline_view_def by blast
  with stage cache show ?thesis by (auto simp: Let_def)
qed

section \<open>From the manifest to the reports\<close>

text \<open>A weight of the checkpoint has the shape asked for, on the CPU and in single precision.\<close>

definition checkpoint_ok :: "'v var_builder \<Rightarrow> bool" where
  "checkpoint_ok vb \<longleftrightarrow>
     (\<forall>name shape t. vb name shape = Inr t \<longrightarrow> t_dims t = shape \<and> t_device t = Cpu \<and> t_dtype t = F32)"

text \<open>A manifest that every rank of a world of \<open>W\<close> accepts, with the checkpoint and tokenizer it names.\<close>

definition manifest_ok ::
  "nat \<Rightarrow> ('v, 'd) pipeline_env \<Rightarrow> pipeline_manifest \<Rightarrow> (usize \<Rightarrow> resource_snapshot) \<Rightarrow> 'v var_builder \<Rightarrow> 'd tokenizer \<Rightarrow> bool" where
  "manifest_ok W env mf rs vb tok \<longleftrightarrow>
     balanced (spec (pm_model mf)) W = Inr (pm_partition mf) \<and>
     length (pm_memory_plans mf) = W \<and> list_all (\<lambda>p. smp_placement p \<noteq> DoesNotFit) (pm_memory_plans mf) \<and>
     list_all (\<lambda>r. check_resources mf (rs r)) [0..<W] \<and> pm_dtype mf = PlanF32 \<and>
     pe_checkpoint env (pm_checkpoint_path mf) PlanF32 = Inr vb \<and> pe_tokenizer env (pm_tokenizer_path mf) = Inr tok \<and>
     pm_prompt_token_ids mf \<noteq> [] \<and> 1 \<le> pm_effective_max_new_tokens mf \<and> pm_effective_max_new_tokens mf < 2 ^ 60"

lemma prepare_rank_ok:
  assumes "manifest_ok W env mf rs vb tok" "r < W"
    and "let a = stages (pm_partition mf) ! r in
       stage_load (pe_ops env) vb (config (spec (pm_model mf))) (layer_start a) (layer_end a) (owns_embeddings a) (owns_lm_head a)
         (pm_context_capacity mf) = Inr st \<and>
       kv_new_for_layers (op_zero (pe_ops env)) (config (spec (pm_model mf))) (layer_count a) (pm_context_capacity mf) F32 = Inr c"
  shows "prepare_rank env (member W r) mf (rs r) =
     Inr (stages (pm_partition mf) ! r, pm_memory_plans mf ! r, st, c)"
proof -
  have "length (stages (pm_partition mf)) = W" using assms(1) by (auto simp: manifest_ok_def balanced_Inr)
  moreover have "validate_cpu_dtype (spec (pm_model mf)) PlanF32 = Inr ()"
    by (cases "pm_model mf") (simp_all add: validate_cpu_dtype_def spec_simps)
  moreover have "smp_placement (pm_memory_plans mf ! r) \<noteq> DoesNotFit" "check_resources mf (rs r)"
    using assms(1,2) by (auto simp: manifest_ok_def list_all_length)
  ultimately show ?thesis
    using assms by (simp add: prepare_rank_def partition_stage_def manifest_ok_def Let_def)
qed

text \<open>The three parts of a run after the preparation: the state that enters the loop, the loop, and the report.\<close>

definition run_context ::
  "rank \<Rightarrow> pipeline_manifest \<Rightarrow> resource_snapshot \<Rightarrow> stage_assignment \<Rightarrow> 'v llama_stage \<Rightarrow> 'd tokenizer \<Rightarrow> ('v, 'd) rank_context" where
  "run_context rk mf rs a stage tok =
     \<lparr>rc_rank = rk, rc_assignment = a, rc_stage = stage, rc_config = config (spec (pm_model mf)), rc_manifest = mf,
      rc_resources = rs, rc_tokenizer = (if sa_rank a = 0 then Some tok else None)\<rparr>"

definition run_start ::
  "rank \<Rightarrow> resource_snapshot \<Rightarrow> stage_assignment \<Rightarrow> 'v kv_cache \<Rightarrow> 'd tokenizer \<Rightarrow> ('v, 'd) rank_state" where
  "run_start rk rs a cache tok =
     (let st0 = \<lparr>rs_cache = cache, rs_tokens = [], rs_stream = None, rs_previous = None, rs_step = 0,
                 rs_decode_forward_count = 0, rs_communication = communication_default,
                 rs_recorder = recorder_new (global_rank rk)\<rparr>;
          st1 = memory_sample rs (emit_st ModelLoadFinished (emit_st ModelLoadStarted (memory_sample rs st0)));
          st2 = emit_st (CollectiveCompleted EvBarrier 0) (emit_st (CollectiveStarted EvBarrier 0) st1) in
      st2\<lparr>rs_stream := if sa_rank a = 0 then Some (tok_stream tok) else None\<rparr>)"

definition run_report ::
  "pipeline_manifest \<Rightarrow> resource_snapshot \<Rightarrow> stage_assignment \<Rightarrow> stage_memory_plan \<Rightarrow> string \<Rightarrow> u64 \<Rightarrow> stop_reason
     \<Rightarrow> ('v, 'd) rank_state \<Rightarrow> pipeline_rank_report" where
  "run_report mf rs a memory completion used reason s =
     (let st4 = emit_st (CollectiveCompleted EvBarrier 1) (emit_st (CollectiveStarted EvBarrier 1) (emit_st (GenerationFinished reason) s)) in
      \<lparr>prr_schema_version = 1, prr_run_id = pm_run_id mf, prr_request_id = pm_request_id mf,
       prr_rank = sa_rank a, prr_assignment = a, prr_memory = memory, prr_resources = rs,
       prr_final_kv_cache_bytes = used, prr_communication = rs_communication st4,
       prr_decode_forward_count = rs_decode_forward_count st4,
       prr_generated_tokens = rs_tokens st4, prr_completion = completion, prr_stop_reason = reason,
       prr_barriers_passed = True, prr_events = er_events (rs_recorder st4), prr_success = True\<rparr>)"

lemma run_pipeline_rank_parts:
  assumes "prepare_rank env rk mf rs = Inr (a, memory, stage, cache)" "pe_tokenizer env (pm_tokenizer_path mf) = Inr tok"
    and "head_dim (config (spec (pm_model mf))) = Inr d"
  shows "\<exists>K. run_pipeline_rank fuel env rk mf rs =
       Barrier (pr_bind (pipeline_loop fuel env (run_context rk mf rs a stage tok) (run_start rk rs a cache tok)) K) \<and>
     (\<forall>reason s completion. (if sa_rank a = 0 then tok_decode tok (rs_tokens s) else Inr []) = Inr completion \<longrightarrow>
        K (reason, s) = Barrier (Ret (Inr (run_report mf rs a memory completion
           (projr (kv_used_bytes (rs_cache s) (config (spec (pm_model mf))) (plan_dtype_candle (pm_dtype mf)))) reason s))))"
  unfolding run_pipeline_rank_def assms(1)
  using assms(2,3)
  by (auto simp: run_context_def run_start_def run_report_def observed_barrier_def pr_bind_def kv_used_bytes_def emit_st_def
      Let_def split: if_splits intro!: exI)

lemma run_start_core:
  "rs_cache (run_start rk rs a c tok) = c" "rs_tokens (run_start rk rs a c tok) = []" "rs_step (run_start rk rs a c tok) = 0"
  "rs_stream (run_start rk rs a c tok) = (if sa_rank a = 0 then Some (tok_stream tok) else None)"
  by (simp_all add: run_start_def memory_sample_def emit_st_def Let_def)

lemma loaded_embedding_ok:
  "llama_load ops vb cfg cap = Inr m \<Longrightarrow> checkpoint_ok vb \<Longrightarrow> embedding_ok (hidden_size cfg) (embeddings m)"
  by (auto simp: llama_load_def load_embedding_def pp_def checkpoint_ok_def embedding_ok_def)

lemma spec_sizes: "0 < hidden_size (config (spec m))" "\<exists>d. head_dim (config (spec m)) = Inr d"
  by (cases m; simp add: spec_simps head_dim_def)+

lemma generate_tokens_start:
  assumes "generate_tokens ops m tok eos prompt requested effective C rec = Inr (stop, g)"
  shows "\<exists>logits g1. llama_forward ops m (token_input prompt) 0 C = Inr (logits, gs_cache g1) \<and>
     greedy_token ops logits = Inr (gs_next g1) \<and> gs_tokens g1 = [] \<and> gs_stream g1 = tok_stream tok \<and>
     (if gs_next g1 = eos then Inr (Eos, g1)
      else rbind (accept_token tok g1) (decode_loop ops m tok eos requested effective)) = Inr (stop, g)"
proof -
  from assms obtain logits C1 nxt where f: "llama_forward ops m (token_input prompt) 0 C = Inr (logits, C1)"
    "greedy_token ops logits = Inr nxt" by (auto simp: generate_tokens_def Let_def)
  let ?g1 = "\<lparr>gs_cache = C1, gs_tokens = [], gs_next = nxt, gs_stream = tok_stream tok, gs_decode_forward_count = 0,
     gs_recorder = emit PrefillFinished (emit (PrefillStarted (length prompt)) rec)\<rparr>"
  show ?thesis
    by (rule exI [of _ logits], rule exI [of _ ?g1]) (use assms f in \<open>simp add: generate_tokens_def Let_def\<close>)
qed

lemma stage_bytes_add_up:
  assumes "same_outcome W m st g s"
  shows "kv_used_bytes (gs_cache g) cfg dt =
     (case head_dim cfg of Inl e \<Rightarrow> Inl e | Inr d \<Rightarrow> Inr (\<Sum>r < W. projr (kv_used_bytes (rs_cache (s r)) cfg dt)))"
proof (cases "head_dim cfg")
  case (Inr d)
  let ?n = "kv_len (gs_cache g)"
  have view: "pipeline_view W m st (gs_cache g) (\<lambda>r. rs_cache (s r)) ?n" using assms by (simp add: same_outcome_def)
  have "length (kv_layers (gs_cache g)) = (\<Sum>r < W. length (kv_layers (rs_cache (s r))))"
    using view by (simp add: pipeline_view_def length_concat comp_def sum_list_sum_nth atLeast0LessThan)
  then have "kv_used_bytes (gs_cache g) cfg dt = Inr (\<Sum>r < W. 2 * of_nat (length (kv_layers (rs_cache (s r)))) * of_nat ?n
      * of_nat (num_key_value_heads cfg) * of_nat d * of_nat (size_in_bytes dt))"
    using Inr by (simp add: kv_used_bytes_def sum_distrib_left sum_distrib_right)
  moreover have "kv_len (rs_cache (s r)) = ?n" if "r < W" for r using view_stage(1) [OF view that] .
  ultimately show ?thesis using Inr by (simp add: kv_used_bytes_def)
qed (simp add: kv_used_bytes_def)

lemma pipeline_run_computes:
  fixes env :: "('v, 'd) pipeline_env" and mf
  defines "cfg \<equiv> config (spec (pm_model mf))" and "ops \<equiv> pe_ops env"
  assumes ok: "manifest_ok W env mf rs vb tok" "checkpoint_ok vb" "kernels_ok ops" "codec_ok env"
    and m: "llama_load ops vb cfg (pm_context_capacity mf) = Inr m"
    and C: "kv_new (op_zero ops) cfg (pm_context_capacity mf) F32 = Inr C"
    and g: "generate_tokens ops m tok (eos_token_id cfg) (pm_prompt_token_ids mf) (pm_requested_max_new_tokens mf)
        (pm_effective_max_new_tokens mf) C rec = Inr (stop, g)"
    and completed: "tok_decode tok (gs_tokens g) = Inr completion" and fuel: "pm_effective_max_new_tokens mf \<le> fuel"
  shows "\<exists>reports. computes W (\<lambda>r. run_pipeline_rank fuel env (member W r) mf (rs r)) (\<lambda>r. Inr (reports r)) \<and>
     prr_generated_tokens (reports 0) = gs_tokens g \<and> prr_completion (reports 0) = completion \<and>
     list_all (\<lambda>r. prr_rank (reports r) = r \<and> prr_success (reports r) \<and> prr_stop_reason (reports r) = stop) [0..<W] \<and>
     kv_used_bytes (gs_cache g) cfg F32 = Inr (\<Sum>r < W. prr_final_kv_cache_bytes (reports r))"
proof -
  let ?p = "pm_partition mf" and ?cap = "pm_context_capacity mf"
  have bal: "balanced (spec (pm_model mf)) W = Inr ?p" and prompt: "pm_prompt_token_ids mf \<noteq> []"
    and eff: "1 \<le> pm_effective_max_new_tokens mf" "pm_effective_max_new_tokens mf < 2 ^ 60"
    and tk: "pe_tokenizer env (pm_tokenizer_path mf) = Inr tok" and dt: "pm_dtype mf = PlanF32"
    using ok(1) by (auto simp: manifest_ok_def)
  have W: "2 \<le> W" using bal by (simp add: balanced_Inr)
  note sel = balanced_stage_sel [OF bal]
  from stages_hold_model [OF bal m [unfolded cfg_def] C [unfolded cfg_def]] obtain st c
    where view: "pipeline_view W m st C c 0"
      and loads: "\<And>r. r < W \<Longrightarrow> prepare_rank env (member W r) mf (rs r) =
         Inr (stages ?p ! r, pm_memory_plans mf ! r, st r, c r)"
    using prepare_rank_ok [OF ok(1)] unfolding ops_def by blast
  let ?cx = "\<lambda>r. run_context (member W r) mf (rs r) (stages ?p ! r) (st r) tok"
  let ?s = "\<lambda>r. run_start (member W r) (rs r) (stages ?p ! r) (c r) tok"
  have set: "ranks_set_up W ?cx st cfg mf tok"
    using W sel by (auto simp: ranks_set_up_def at_rank_def run_context_def cfg_def)
  have at: "ranks_at W 0 c [] (tok_stream tok) ?s" using W sel by (auto simp: ranks_at_def run_start_core)
  obtain logits g1 where g1: "llama_forward ops m (token_input (pm_prompt_token_ids mf)) 0 C = Inr (logits, gs_cache g1)"
    "greedy_token ops logits = Inr (gs_next g1)" "gs_tokens g1 = []" "gs_stream g1 = tok_stream tok"
    "(if gs_next g1 = eos_token_id cfg then Inr (Eos, g1) else rbind (accept_token tok g1)
       (decode_loop ops m tok (eos_token_id cfg) (pm_requested_max_new_tokens mf) (pm_effective_max_new_tokens mf))) = Inr (stop, g)"
    using generate_tokens_start [OF g] by blast
  have "\<exists>s'. computes W (\<lambda>r. pipeline_loop fuel env (?cx r) (?s r)) (\<lambda>r. Inr (stop, s' r)) \<and> same_outcome W m st g s'"
    by (rule pipeline_loop_follows [OF set _ ok(4) _ _ refl eff(2) refl _ _ prompt _ _ _ _ view])
       (use g1 ok(3) at fuel eff(1) spec_sizes(1) loaded_embedding_ok [OF m ok(2)] in \<open>auto simp: cfg_def ops_def\<close>)
  then obtain s' where loop: "computes W (\<lambda>r. pipeline_loop fuel env (?cx r) (?s r)) (\<lambda>r. Inr (stop, s' r))"
    and out: "same_outcome W m st g s'" by blast
  have "\<forall>r. \<exists>K. r < W \<longrightarrow> run_pipeline_rank fuel env (member W r) mf (rs r) = Barrier (pr_bind (pipeline_loop fuel env (?cx r) (?s r)) K) \<and>
     K (stop, s' r) = Barrier (Ret (Inr (run_report mf (rs r) (stages ?p ! r) (pm_memory_plans mf ! r)
       (if r = 0 then completion else []) (projr (kv_used_bytes (rs_cache (s' r)) cfg F32)) stop (s' r))))"
    (is "\<forall>r. \<exists>K. r < W \<longrightarrow> _ \<and> _ = Barrier (Ret (Inr (?report r)))")
  proof (intro allI, goal_cases)
    case (1 r)
    show ?case
    proof (cases "r < W")
      case True
      from spec_sizes(2) obtain d where "head_dim (config (spec (pm_model mf))) = Inr d" by blast
      note parts = run_pipeline_rank_parts [OF loads [OF True] tk this, of fuel]
      have "(if sa_rank (stages ?p ! r) = 0 then tok_decode tok (rs_tokens (s' r)) else Inr []) = Inr (if r = 0 then completion else [])"
        using sel(1) [OF True] completed out by (simp add: same_outcome_def)
      with parts show ?thesis unfolding dt cfg_def plan_dtype_candle.simps by blast
    qed simp
  qed
  from choice [OF this] obtain K where run: "\<And>r. r < W \<Longrightarrow> run_pipeline_rank fuel env (member W r) mf (rs r) =
      Barrier (pr_bind (pipeline_loop fuel env (?cx r) (?s r)) (K r))"
    and K: "\<And>r. r < W \<Longrightarrow> K r (stop, s' r) = Barrier (Ret (Inr (?report r)))" by blast
  have "computes W (\<lambda>r. K r (stop, s' r)) (\<lambda>r. Inr (?report r))"
    by (subst computes_cong [OF K refl]) (use W in \<open>auto intro: computes_barrier computes_Ret\<close>)
  then have "computes W (\<lambda>r. pr_bind (pipeline_loop fuel env (?cx r) (?s r)) (K r)) (\<lambda>r. Inr (?report r))"
    unfolding pr_bind_def by (intro computes_bind [OF loop]) simp
  then have "computes W (\<lambda>r. run_pipeline_rank fuel env (member W r) mf (rs r)) (\<lambda>r. Inr (?report r))"
    by (subst computes_cong [OF run refl]) (use W in \<open>auto intro: computes_barrier\<close>)
  moreover have "kv_used_bytes (gs_cache g) cfg F32 = Inr (\<Sum>r < W. prr_final_kv_cache_bytes (?report r))"
    using stage_bytes_add_up [OF out] spec_sizes(2) by (auto simp: run_report_def Let_def cfg_def)
  ultimately show ?thesis
    using out sel
    by (intro exI [of _ ?report]) (auto simp: run_report_def same_outcome_def emit_st_def list_all_iff Let_def)
qed

text \<open>
  C1. Pipeline-parallel generation equals single-rank generation. Take a manifest that all
  ranks accept, and the model loaded whole from the same checkpoint. If generation on one
  rank returns, then the pipeline run ends in every schedule of the messages (no deadlock,
  no failure, no message left over), every rank reports success and the same stop reason,
  rank 0 reports exactly the tokens and the completion of single-rank generation, and the
  caches of all stages together have the size of the single cache. One round per token is
  enough.
\<close>

theorem pipeline_equals_single_rank:
  fixes env :: "('v, 'd) pipeline_env" and mf
  defines "cfg \<equiv> config (spec (pm_model mf))" and "ops \<equiv> pe_ops env"
  assumes ok: "manifest_ok W env mf rs vb tok" "checkpoint_ok vb" "kernels_ok ops" "codec_ok env"
    and m: "llama_load ops vb cfg (pm_context_capacity mf) = Inr m"
    and C: "kv_new (op_zero ops) cfg (pm_context_capacity mf) F32 = Inr C"
    and g: "generate_tokens ops m tok (eos_token_id cfg) (pm_prompt_token_ids mf) (pm_requested_max_new_tokens mf)
        (pm_effective_max_new_tokens mf) C rec = Inr (stop, g)"
    and completed: "tok_decode tok (gs_tokens g) = Inr completion" and fuel: "pm_effective_max_new_tokens mf \<le> fuel"
  shows "\<exists>reports. all_runs_return W (\<lambda>r. run_pipeline_rank fuel env (member W r) mf (rs r)) (\<lambda>r. Inr (reports r)) \<and>
     prr_generated_tokens (reports 0) = gs_tokens g \<and> prr_completion (reports 0) = completion \<and>
     list_all (\<lambda>r. prr_rank (reports r) = r \<and> prr_success (reports r) \<and> prr_stop_reason (reports r) = stop) [0..<W] \<and>
     kv_used_bytes (gs_cache g) cfg F32 = Inr (\<Sum>r < W. prr_final_kv_cache_bytes (reports r))"
proof -
  note run = pipeline_run_computes [OF ok(1,2) ok(3) [unfolded ops_def] ok(4) m [unfolded cfg_def ops_def] C [unfolded cfg_def ops_def]
      g [unfolded cfg_def ops_def] completed fuel]
  then show ?thesis unfolding cfg_def by (blast intro: computes_all_runs)
qed

lemma sample_manifest_sel:
  "config (spec (pm_model sample_manifest)) = sample_config" "pe_ops sample_env = sample_ops" "pm_context_capacity sample_manifest = 2"
  "op_zero sample_ops = ()" "pm_prompt_token_ids sample_manifest = [3]" "pm_requested_max_new_tokens sample_manifest = 1"
  "pm_effective_max_new_tokens sample_manifest = 1" "eos_token_id sample_config = 2"
  by (simp_all add: sample_manifest_def sample_env_def sample_ops_def spec_simps)

lemma sample_manifest_ok: "manifest_ok 2 sample_env sample_manifest (\<lambda>_. sample_resources) sample_checkpoint sample_tokenizer"
  using sample_balanced
  by (simp add: manifest_ok_def sample_manifest_def sample_env_def sample_plan_def check_resources_def upt_rec)

lemma sample_run_computes:
  "\<exists>reports. computes 2 (\<lambda>r. run_pipeline_rank 1 sample_env (member 2 r) sample_manifest sample_resources) (\<lambda>r. Inr (reports r)) \<and>
     prr_generated_tokens (reports 0) = [5] \<and> prr_completion (reports 0) = ''x''"
proof -
  obtain g where g: "generate_tokens sample_ops sample_llama sample_tokenizer 2 [3] 1 1 sample_cache (recorder_new 0)
      = Inr (MaxNewTokens, g)" "gs_tokens g = [5]" using sample_generate by blast
  have "checkpoint_ok sample_checkpoint" by (simp add: checkpoint_ok_def sample_checkpoint_def)
  from pipeline_run_computes [OF sample_manifest_ok this, unfolded sample_manifest_sel,
      OF sample_kernels_ok sample_codec_ok sample_llama_load sample_kv_new g(1)] g(2)
  show ?thesis by (auto simp: sample_tokenizer_def)
qed

theorem pipeline_equals_single_rank_witness:
  "\<exists>g reports. generate_tokens sample_ops sample_llama sample_tokenizer 2 [3] 1 1 sample_cache (recorder_new 0)
       = Inr (MaxNewTokens, g) \<and> gs_tokens g = [5] \<and>
     all_runs_return 2 (\<lambda>r. run_pipeline_rank 1 sample_env (member 2 r) sample_manifest sample_resources)
       (\<lambda>r. Inr (reports r)) \<and> prr_generated_tokens (reports 0) = [5] \<and> prr_completion (reports 0) = ''x''"
proof -
  obtain g where g: "generate_tokens sample_ops sample_llama sample_tokenizer 2 [3] 1 1 sample_cache (recorder_new 0)
      = Inr (MaxNewTokens, g)" "gs_tokens g = [5]" using sample_generate by blast
  note mf = sample_manifest_sel and ok = sample_manifest_ok
  have "checkpoint_ok sample_checkpoint" by (simp add: checkpoint_ok_def sample_checkpoint_def)
  from pipeline_equals_single_rank [OF ok this, unfolded mf, OF sample_kernels_ok sample_codec_ok sample_llama_load sample_kv_new g(1)]
  obtain reports where "all_runs_return 2 (\<lambda>r. run_pipeline_rank 1 sample_env (member 2 r) sample_manifest sample_resources)
       (\<lambda>r. Inr (reports r))" "prr_generated_tokens (reports 0) = gs_tokens g" "prr_completion (reports 0) = ''x''"
    by (auto simp: sample_tokenizer_def g(2))
  then show ?thesis using g by auto
qed

section \<open>The type of an activation\<close>

text \<open>
  C38. Stages keep the type of an activation. A stage that accepts a consistent CPU/F32
  activation of shape [1, S, H] returns an activation of the same type, which the next
  rank's check accepts (in a decode step, where S must be one, as well as in prefill);
  every cache layer of the stage grows by exactly S positions and no capacity changes.
\<close>

theorem stage_keeps_activation_type:
  assumes "kernels_ok ops" "activation seqn h x" "stage_forward_hidden ops stage x pos c = Inr (y, c')"
  shows "activation seqn h y \<and> (phase = Decode \<and> seqn \<noteq> 1 \<or> validate_activation y h phase = Inr ()) \<and>
     map l_length (kv_layers c') = map (\<lambda>l. l_length l + seqn) (kv_layers c) \<and>
     map l_capacity (kv_layers c') = map l_capacity (kv_layers c) \<and> kv_capacity c' = kv_capacity c"
proof -
  have d: "dims3 x = Inr (1, seqn, h)" using assms(2) by (simp add: activation_def dims3_def)
  with assms(3) have lay: "kv_layer_count c = length (st_blocks stage)"
    and fb: "forward_blocks ops (st_rope stage) pos 0 (st_blocks stage) x c = Inr (y, c')"
    by (auto simp: stage_forward_hidden_def split: if_splits option.splits)
  obtain ls where run: "run_blocks ops (st_rope stage) pos (st_blocks stage) x (kv_layers c) = Inr (y, ls)"
    and c': "c' = c\<lparr>kv_layers := ls\<rparr>"
    using fb forward_blocks_run [of c 0 "st_blocks stage"] lay by (auto simp: kv_layer_count_def)
  from run_blocks_Inr [OF assms(1) run _ assms(2)] lay have y: "activation seqn h y"
    and "map l_length ls = map (\<lambda>l. l_length l + seqn) (kv_layers c)" "map l_capacity ls = map l_capacity (kv_layers c)"
    by (auto simp: kv_layer_count_def)
  moreover have "dims3 y = Inr (1, seqn, h)" using y by (simp add: activation_def dims3_def)
  then have "phase = Decode \<and> seqn \<noteq> 1 \<or> validate_activation y h phase = Inr ()" by (auto simp: validate_activation_def)
  ultimately show ?thesis using c' by auto
qed

theorem stage_keeps_activation_type_witness:
  "\<exists>y c. stage_forward_hidden sample_ops \<lparr>st_layer_start = 3, st_layer_end = 4, st_embeddings = None, st_blocks = [sample_block],
       st_final_norm = None, st_lm_head = None, st_rope = sample_rope\<rparr> (ones [1, 1, 576]) 0
       \<lparr>kv_layers = [sample_layer], kv_capacity = 2\<rparr> = Inr (y, c) \<and>
     activation 1 576 y \<and> validate_activation y 576 Decode = Inr () \<and> map l_length (kv_layers c) = [1]"
proof -
  let ?st = "\<lparr>st_layer_start = 3, st_layer_end = 4, st_embeddings = None, st_blocks = [sample_block],
       st_final_norm = None, st_lm_head = None, st_rope = sample_rope\<rparr>"
  let ?c = "\<lparr>kv_layers = [sample_layer], kv_capacity = 2\<rparr>"
  have x: "activation 1 576 (ones [1, 1, 576])" by (simp add: activation_def wf_tensor_def elem_count_def)
  obtain y l where "block_on sample_ops sample_rope 0 sample_block (ones [1, 1, 576]) sample_layer = Inr (y, l)"
    using sample_block_on [of "ones [1, 1, 576]"] by (auto simp: hidden_state_def)
  then have run: "stage_forward_hidden sample_ops ?st (ones [1, 1, 576]) 0 ?c = Inr (y, ?c\<lparr>kv_layers := [l]\<rparr>)"
    by (intro stage_forward_hidden_run [OF x]) (simp_all add: kv_layer_count_def kv_len_def sample_layer_sel)
  from stage_keeps_activation_type [OF sample_kernels_ok x run, of Decode] run show ?thesis
    by (auto simp: sample_layer_sel)
qed

end
