(* ===== verification/TensorExact.thy ===== *)
theory TensorExact
  imports TensorLockstep PipelineRun
begin

text \<open>
  Tensor-parallel layers against the layers they shard. Floating-point addition depends on
  the order of the terms, so the sharded and the full layer agree bit for bit only where no
  sum is split; where one is, they agree over exact arithmetic. The first case covers the
  vocabulary-parallel embedding, the second the MLP and the row-parallel projections; the
  language-model head splits no sum.
\<close>

section \<open>Matrices in row-major lists\<close>

definition lin_values :: "nat \<Rightarrow> nat \<Rightarrow> nat \<Rightarrow> 'v::comm_ring_1 list \<Rightarrow> 'v list \<Rightarrow> 'v list" where
  "lin_values P i o' x w =
     concat (map (\<lambda>p. map (\<lambda>j. sum_list (map (\<lambda>k. x ! (p * i + k) * w ! (j * i + k)) [0..<i])) [0..<o']) [0..<P])"

definition col_slice :: "nat \<Rightarrow> nat \<Rightarrow> nat \<Rightarrow> nat \<Rightarrow> 'v list \<Rightarrow> 'v list" where
  "col_slice P n a c vs = concat (map (\<lambda>p. block (p * n + a) c vs) [0..<P])"

lemma length_rows: "(\<And>p. p < P \<Longrightarrow> length (f p) = n) \<Longrightarrow> length (concat (map f [0..<P])) = P * n"
  by (induction P) auto

lemma nth_rows:
  assumes "\<And>p. p < P \<Longrightarrow> length (f p) = n" "p < P" "j < n"
  shows "concat (map f [0..<P]) ! (p * n + j) = f p ! j"
  using assms
proof (induction P)
  case (Suc P)
  have len: "length (concat (map f [0..<P])) = P * n" using Suc.prems(1) by (intro length_rows) simp
  show ?case
  proof (cases "p < P")
    case True
    then have "Suc p * n \<le> P * n" by (intro mult_le_mono1) simp
    then have "p * n + j < P * n" using Suc.prems(3) by simp
    with Suc True len show ?thesis by (simp add: nth_append)
  next
    case False
    with Suc.prems have "p = P" by simp
    with len Suc.prems show ?thesis by (simp add: nth_append)
  qed
qed simp

lemma length_list_rows:
  "(\<And>x. x \<in> set xs \<Longrightarrow> length (f x) = n) \<Longrightarrow> length (concat (map f xs)) = length xs * n"
  by (induction xs) auto

lemma nth_list_rows:
  assumes "\<And>x. x \<in> set xs \<Longrightarrow> length (f x) = n" "q < length xs" "j < n"
  shows "concat (map f xs) ! (q * n + j) = f (xs ! q) ! j"
  using nth_rows [of "length xs" "\<lambda>p. f (xs ! p)" n q j] assms by (simp add: nth_map_stages)

lemma row_index:
  assumes "q < P * n" obtains p j where "p < P" "j < n" "q = p * n + (j :: nat)"
proof
  have "0 < n" using assms by (cases n) auto
  then show "q div n < P" "q mod n < n" "q = q div n * n + q mod n"
    using assms by (auto simp: less_mult_imp_div_less)
qed

lemma row_index_below: "p < P \<Longrightarrow> a + c \<le> n \<Longrightarrow> length vs = P * n \<Longrightarrow> p * n + a + c \<le> length vs"
  using mult_le_mono1 [of "Suc p" P n] by simp

lemma length_lin_values [simp]: "length (lin_values P i o' x w) = P * o'"
  unfolding lin_values_def by (rule length_rows) simp

lemma lin_values_nth:
  "p < P \<Longrightarrow> j < o' \<Longrightarrow> lin_values P i o' x w ! (p * o' + j) = (\<Sum>k<i. x ! (p * i + k) * w ! (j * i + k))"
  unfolding lin_values_def by (subst nth_rows) (simp_all add: interv_sum_list_conv_sum_set_nat atLeast0LessThan)

lemma length_col_slice:
  "a + c \<le> n \<Longrightarrow> length vs = P * n \<Longrightarrow> length (col_slice P n a c vs) = P * c"
  unfolding col_slice_def by (rule length_rows) (intro length_block row_index_below)

lemma col_slice_nth:
  assumes "a + c \<le> n" "length vs = P * n" "p < P" "j < c"
  shows "col_slice P n a c vs ! (p * c + j) = vs ! (p * n + a + j)"
proof -
  have "length (block (p * n + a) c vs) = c" if "p < P" for p
    using row_index_below [OF that assms(1,2)] by (rule length_block)
  then have "col_slice P n a c vs ! (p * c + j) = block (p * n + a) c vs ! j"
    unfolding col_slice_def using assms(3,4) by (intro nth_rows)
  then show ?thesis using row_index_below [OF assms(3,1,2)] assms(4) by (simp add: nth_block)
qed

text \<open>Rows of the weight are columns of the output; columns of both operands are terms of the sum.\<close>

lemma lin_values_rows:
  assumes "a + c \<le> o'" "length w = o' * i"
  shows "lin_values P i c x (block (a * i) (c * i) w) = col_slice P o' a c (lin_values P i o' x w)"
proof (rule nth_equalityI)
  show "length (lin_values P i c x (block (a * i) (c * i) w)) = length (col_slice P o' a c (lin_values P i o' x w))"
    using assms(1) by (simp add: length_col_slice)
  fix q assume "q < length (lin_values P i c x (block (a * i) (c * i) w))"
  then obtain p j where q: "p < P" "j < c" "q = p * c + j" by (auto elim: row_index)
  have "block (a * i) (c * i) w ! (j * i + k) = w ! ((a + j) * i + k)" if "k < i" for k
  proof -
    have "a * i + c * i \<le> length w" using assms mult_le_mono1 [OF assms(1), of i] by (simp add: algebra_simps)
    moreover have "j * i + k < c * i" using mult_le_mono1 [of "Suc j" c i] q(2) that by simp
    ultimately show ?thesis by (simp add: nth_block algebra_simps)
  qed
  moreover have "col_slice P o' a c (lin_values P i o' x w) ! q = lin_values P i o' x w ! (p * o' + (a + j))"
    unfolding q(3) using assms(1) q(1,2) by (simp add: col_slice_nth add.assoc)
  ultimately show "lin_values P i c x (block (a * i) (c * i) w) ! q = col_slice P o' a c (lin_values P i o' x w) ! q"
    using q assms(1) by (simp add: lin_values_nth)
qed

lemma lin_values_columns:
  assumes "length x = P * (W * c)" "length w = o' * (W * c)" "q < P * o'"
  shows "(\<Sum>r<W. lin_values P c o' (col_slice P (W * c) (r * c) c x) (col_slice o' (W * c) (r * c) c w) ! q) =
     lin_values P (W * c) o' x w ! q"
proof -
  from assms(3) obtain p j where q: "p < P" "j < o'" "q = p * o' + j" by (rule row_index)
  have fits: "r * c + c \<le> W * c" if "r < W" for r using mult_le_mono1 [of "Suc r" W c] that by simp
  let ?t = "\<lambda>k. x ! (p * (W * c) + k) * w ! (j * (W * c) + k)"
  have "lin_values P c o' (col_slice P (W * c) (r * c) c x) (col_slice o' (W * c) (r * c) c w) ! q = (\<Sum>k<c. ?t (r * c + k))"
    if "r < W" for r
    unfolding q(3) lin_values_nth [OF q(1,2)]
    by (intro sum.cong refl) (use fits [OF that] assms(1,2) q in \<open>simp add: col_slice_nth add.assoc\<close>)
  then have "(\<Sum>r<W. lin_values P c o' (col_slice P (W * c) (r * c) c x) (col_slice o' (W * c) (r * c) c w) ! q)
      = (\<Sum>r<W. \<Sum>k<c. ?t (r * c + k))" by simp
  also have "\<dots> = (\<Sum>r<W. sum ?t {r * c..<r * c + c})"
    by (simp add: sum.atLeastLessThan_shift_0 [where m = "_ * c"] lessThan_atLeast0 comp_def)
  also have "\<dots> = (\<Sum>k<W * c. ?t k)" by (rule sum.nat_group)
  finally show ?thesis unfolding q(3) by (simp add: lin_values_nth [OF q(1,2)])
qed

lemma map_col_slice: "map f (col_slice P n a c vs) = col_slice P n a c (map f vs)"
  by (simp add: col_slice_def map_concat comp_def block_def take_map drop_map)

lemma map2_col_slice:
  assumes "a + c \<le> n" "length xs = P * n" "length ys = P * n"
  shows "map2 f (col_slice P n a c xs) (col_slice P n a c ys) = col_slice P n a c (map2 f xs ys)"
proof (rule nth_equalityI)
  show "length (map2 f (col_slice P n a c xs) (col_slice P n a c ys)) = length (col_slice P n a c (map2 f xs ys))"
    using assms by (simp add: length_col_slice)
  fix q assume "q < length (map2 f (col_slice P n a c xs) (col_slice P n a c ys))"
  then have "q < P * c" using assms by (simp add: length_col_slice)
  then obtain p j where q: "p < P" "j < c" "q = p * c + j" by (rule row_index)
  have "p * n + a + j < P * n" using row_index_below [OF q(1) assms(1), of xs] assms(2) q(2) by simp
  with q assms show "map2 f (col_slice P n a c xs) (col_slice P n a c ys) ! q = col_slice P n a c (map2 f xs ys) ! q"
    using \<open>q < P * c\<close> by (simp add: length_col_slice col_slice_nth)
qed

section \<open>Kernels over exact arithmetic\<close>

text \<open>\<open>x W\<^sup>T\<close> over the last axis of \<open>x\<close>, what \<open>candle_nn::Linear\<close> without bias documents.\<close>

definition linear_exact :: "'v::comm_ring_1 tensor \<Rightarrow> 'v tensor \<Rightarrow> candle_error + 'v tensor" where
  "linear_exact w x =
     (case t_dims w of
        [o', i] \<Rightarrow>
          if t_dims x \<noteq> [] \<and> last (t_dims x) = i
          then Inr (x\<lparr>t_dims := butlast (t_dims x) @ [o'],
                      t_values := lin_values (prod_list (butlast (t_dims x))) i o' (t_values x) (t_values w)\<rparr>)
          else Inl (ShapeMismatchBinaryOp (t_dims x) [i, o'])
      | ds \<Rightarrow> Inl (UnexpectedNumberOfDims 2 (length ds)))"

definition exact_kernels :: "'v::comm_ring_1 candle_ops \<Rightarrow> bool" where
  "exact_kernels ops \<longleftrightarrow>
     op_add ops = (+) \<and> op_linear ops = linear_exact \<and>
     (\<exists>f. \<forall>x. op_silu ops x = Inr (x\<lparr>t_values := map f (t_values x)\<rparr>)) \<and>
     (\<forall>x y. t_dims x = t_dims y \<longrightarrow> op_mul ops x y = Inr (x\<lparr>t_values := map2 (*) (t_values x) (t_values y)\<rparr>))"

lemma cpu_f32_update [simp]:
  "(cpu_f32 ds vs)\<lparr>t_dims := es, t_values := ws\<rparr> = cpu_f32 es ws" "(cpu_f32 ds vs)\<lparr>t_values := ws\<rparr> = cpu_f32 ds ws"
  by (simp_all add: cpu_f32_def)

lemma linear_exact_good:
  "linear_exact (cpu_f32 [o', i] w) (cpu_f32 (ds @ [i]) x) = Inr (cpu_f32 (ds @ [o']) (lin_values (prod_list ds) i o' x w))"
  by (simp add: linear_exact_def)

lemma narrow_last:
  "narrow_values (ds @ [n]) (length ds) a c vs = col_slice (prod_list ds) n a c vs"
  by (simp add: narrow_values_def col_slice_def outer_size_def inner_size_def)

lemma narrow_first: "narrow_values [n, i] 0 a c vs = block (a * i) (c * i) vs"
  by (simp add: narrow_values_def outer_size_def inner_size_def)

lemma rank_sum_sum:
  assumes "0 < W" shows "rank_sum (+) v [0..<W] i = (\<Sum>r<W. v r ! i :: 'v::comm_monoid_add)"
proof -
  have "fold (\<lambda>s acc. acc + v s ! i) [1..<W] (v 0 ! i) = (\<Sum>r<W. v r ! i)"
    using assms
  proof (induction W)
    case (Suc W)
    then show ?case by (cases W) simp_all
  qed simp
  with assms show ?thesis by (simp add: rank_sum_def upt_conv_Cons)
qed

text \<open>Over exact arithmetic both algorithms give the sum.\<close>

lemma reduce_values_sum:
  fixes v :: "usize \<Rightarrow> 'v::comm_ring_1 list"
  assumes "0 < W" "alg = Ring \<Longrightarrow> prod_list ds mod W = 0" "\<And>r. r < W \<Longrightarrow> length (v r) = prod_list ds"
  shows "reduce_values alg (+) W ds v = map (\<lambda>i. \<Sum>r<W. v r ! i) [0..<prod_list ds]"
proof -
  have "reduce_values alg (+) W ds v = map (rank_sum (+) v [0..<W]) [0..<prod_list ds]"
  proof (cases alg)
    case Centralized
    then show ?thesis using central.commutative_sum [where W = W and ds = ds and v = v and add = "(+)"] assms by (simp add: add.assoc add.commute)
  next
    case Ring
    then show ?thesis using ring.commutative_sum [where W = W and ds = ds and v = v and add = "(+)"] assms by (simp add: add.assoc add.commute)
  qed
  then show ?thesis using assms(1) by (simp add: rank_sum_sum)
qed

lemma all_ranksI: "(\<And>r. r < W \<Longrightarrow> f r = Inr (x r)) \<Longrightarrow> \<exists>y. all_ranks W f = Inr y \<and> (\<forall>r < W. y r = x r)"
proof -
  assume "\<And>r. r < W \<Longrightarrow> f r = Inr (x r)"
  then have "map f [0..<W] = map Inr (map x [0..<W])" by simp
  then have "collect_results (map f [0..<W]) = Inr (map x [0..<W])" by (simp only: collect_results_Inr)
  then show ?thesis by (simp add: all_ranks_def)
qed

section \<open>Row-parallel linear\<close>

text \<open>Input columns and weight columns sharded alike: the reduced partial products are the full product.\<close>

lemma lock_row_exact:
  fixes x :: "'v::comm_ring_1 list"
  assumes ops: "exact_kernels ops" and W: "0 < W" and good: "good_shape (ds @ [o'])"
    and ring: "alg = Ring \<Longrightarrow> prod_list ds * o' mod W = 0"
    and len: "length x = prod_list ds * (W * c)" "length w = o' * (W * c)"
  shows "lock_row ops alg W (\<lambda>r. cpu_f32 [o', c] (col_slice o' (W * c) (r * c) c w))
       (\<lambda>r. cpu_f32 (ds @ [c]) (col_slice (prod_list ds) (W * c) (r * c) c x)) =
     Inr (cpu_f32 (ds @ [o']) (lin_values (prod_list ds) (W * c) o' x w))"
proof -
  let ?P = "prod_list ds"
  let ?v = "\<lambda>r. lin_values ?P c o' (col_slice ?P (W * c) (r * c) c x) (col_slice o' (W * c) (r * c) c w)"
  obtain p where p: "all_ranks W (\<lambda>r. lift_tensor (op_linear ops (cpu_f32 [o', c] (col_slice o' (W * c) (r * c) c w))
        (cpu_f32 (ds @ [c]) (col_slice ?P (W * c) (r * c) c x)))) = Inr p"
    and pr: "\<And>r. r < W \<Longrightarrow> p r = cpu_f32 (ds @ [o']) (?v r)"
    using all_ranksI [of W "\<lambda>r. lift_tensor (op_linear ops (cpu_f32 [o', c] (col_slice o' (W * c) (r * c) c w))
        (cpu_f32 (ds @ [c]) (col_slice ?P (W * c) (r * c) c x)))" "\<lambda>r. cpu_f32 (ds @ [o']) (?v r)"] ops
    by (auto simp: exact_kernels_def linear_exact_good)
  have cpu: "cpu_tensors W p" using good pr W by (simp add: cpu_tensors_def wf_tensor_def elem_count_def)
  have "reduce_values alg (+) W (ds @ [o']) (\<lambda>r. t_values (p r)) = map (\<lambda>i. \<Sum>r<W. t_values (p r) ! i) [0..<?P * o']"
    using reduce_values_sum [of W alg "ds @ [o']" "\<lambda>r. t_values (p r)"] W ring pr by simp
  also have "\<dots> = map (\<lambda>i. lin_values ?P (W * c) o' x w ! i) [0..<?P * o']"
    by (rule map_cong) (simp_all add: pr lin_values_columns [OF len] cong: sum.cong_simp)
  also have "\<dots> = lin_values ?P (W * c) o' x w" by (metis length_lin_values map_nth)
  finally show ?thesis
    using p cpu ring pr [OF W] ops by (simp add: lock_row_def reduce_spec_def exact_kernels_def)
qed

section \<open>MLP\<close>

text \<open>The full MLP and the shard of rank \<open>r\<close>, from the values of the full weights.\<close>

definition mlp_of :: "nat \<Rightarrow> nat \<Rightarrow> 'v list \<Rightarrow> 'v list \<Rightarrow> 'v list \<Rightarrow> 'v mlp" where
  "mlp_of h i g u d = \<lparr>gate_proj = cpu_f32 [i, h] g, up_proj = cpu_f32 [i, h] u, down_proj = cpu_f32 [h, i] d\<rparr>"

definition mlp_shard_of ::
  "all_reduce_algorithm \<Rightarrow> nat \<Rightarrow> nat \<Rightarrow> nat \<Rightarrow> 'v list \<Rightarrow> 'v list \<Rightarrow> 'v list \<Rightarrow> usize \<Rightarrow> 'v tp_mlp" where
  "mlp_shard_of alg h W c g u d r =
     \<lparr>tpm_gate_proj = cpu_f32 [c, h] (block (r * c * h) (c * h) g),
      tpm_up_proj = cpu_f32 [c, h] (block (r * c * h) (c * h) u),
      tpm_down_proj = \<lparr>rpl_weight = cpu_f32 [h, c] (col_slice h (W * c) (r * c) c d), rpl_algorithm = alg\<rparr>\<rparr>"

lemma lock_mlp_exact:
  fixes g u d x :: "'v::comm_ring_1 list"
  assumes ops: "exact_kernels ops" and W: "0 < W" and good: "good_shape (ds @ [h])"
    and ring: "alg = Ring \<Longrightarrow> prod_list ds * h mod W = 0"
    and len: "length g = W * c * h" "length u = W * c * h" "length d = h * (W * c)"
  shows "\<exists>y. mlp_forward ops (mlp_of h (W * c) g u d) (cpu_f32 (ds @ [h]) x) = Inr (cpu_f32 (ds @ [h]) y) \<and>
     lock_mlp ops alg W (mlp_shard_of alg h W c g u d) (\<lambda>_. cpu_f32 (ds @ [h]) x) = Inr (cpu_f32 (ds @ [h]) y)"
proof -
  let ?P = "prod_list ds" and ?x = "cpu_f32 (ds @ [h]) x"
  from ops obtain f where f: "\<And>x. op_silu ops x = Inr (x\<lparr>t_values := map f (t_values x)\<rparr>)"
    and lin: "op_linear ops = linear_exact"
    and mul: "\<And>x y. t_dims x = t_dims y \<Longrightarrow> op_mul ops x y = Inr (x\<lparr>t_values := map2 (*) (t_values x) (t_values y)\<rparr>)"
    by (auto simp: exact_kernels_def)
  define G where "G = map f (lin_values ?P h (W * c) x g)"
  define U where "U = lin_values ?P h (W * c) x u"
  define M where "M = map2 (*) G U"
  have lens: "length G = ?P * (W * c)" "length U = ?P * (W * c)" "length M = ?P * (W * c)"
    by (simp_all add: G_def U_def M_def)
  have full: "mlp_forward ops (mlp_of h (W * c) g u d) ?x = Inr (cpu_f32 (ds @ [h]) (lin_values ?P (W * c) h M d))"
    by (simp add: mlp_forward_def mlp_of_def lin f mul linear_exact_good G_def U_def M_def)
  have local: "tp_mlp_local ops (mlp_shard_of alg h W c g u d r) ?x =
      Inr (cpu_f32 (ds @ [c]) (col_slice ?P (W * c) (r * c) c M))" if r: "r < W" for r
  proof -
    have fits: "r * c + c \<le> W * c" using mult_le_mono1 [of "Suc r" W c] r by simp
    have "map2 (*) (map f (lin_values ?P h c x (block (r * c * h) (c * h) g))) (lin_values ?P h c x (block (r * c * h) (c * h) u))
        = col_slice ?P (W * c) (r * c) c M"
      unfolding M_def G_def U_def using lens
      by (simp add: lin_values_rows [OF fits] len map_col_slice map2_col_slice [OF fits, symmetric])
    then show ?thesis by (simp add: tp_mlp_local_def mlp_shard_of_def lin f mul linear_exact_good)
  qed
  obtain l where l: "all_ranks W (\<lambda>r. tp_mlp_local ops (mlp_shard_of alg h W c g u d r) ?x) = Inr l"
    and lr: "\<And>r. r < W \<Longrightarrow> l r = cpu_f32 (ds @ [c]) (col_slice ?P (W * c) (r * c) c M)"
    using all_ranksI [of W "\<lambda>r. tp_mlp_local ops (mlp_shard_of alg h W c g u d r) ?x", OF local] by blast
  have "lock_row ops alg W (\<lambda>r. rpl_weight (tpm_down_proj (mlp_shard_of alg h W c g u d r))) l =
      lock_row ops alg W (\<lambda>r. cpu_f32 [h, c] (col_slice h (W * c) (r * c) c d))
        (\<lambda>r. cpu_f32 (ds @ [c]) (col_slice ?P (W * c) (r * c) c M))"
    by (rule lock_row_cong) (simp_all add: mlp_shard_of_def lr)
  also have "\<dots> = Inr (cpu_f32 (ds @ [h]) (lin_values ?P (W * c) h M d))"
    by (rule lock_row_exact [OF ops W good ring lens(3) len(3)])
  finally have "lock_mlp ops alg W (mlp_shard_of alg h W c g u d) (\<lambda>_. ?x) =
      Inr (cpu_f32 (ds @ [h]) (lin_values ?P (W * c) h M d))" using l by (simp add: lock_mlp_def)
  with full show ?thesis by blast
qed

text \<open>A stored tensor has the shape asked for and one single-precision value per element.\<close>

definition stored_ok :: "'v var_builder \<Rightarrow> bool" where
  "stored_ok vb \<longleftrightarrow>
     (\<forall>name shape t. vb name shape = Inr t \<longrightarrow> t = cpu_f32 shape (t_values t) \<and> length (t_values t) = prod_list shape)"

lemma stored_okD:
  "stored_ok vb \<Longrightarrow> vb name shape = Inr t \<Longrightarrow> \<exists>vs. t = cpu_f32 shape vs \<and> length vs = prod_list shape"
  unfolding stored_ok_def by blast

lemma shard_rows:
  assumes "n = W * c" "r < W" "length vs = n * i"
  shows "narrow (cpu_f32 [n, i] vs) 0 (r * c) c = Inr (cpu_f32 [c, i] (block (r * c * i) (c * i) vs))"
proof -
  have "r * c + c \<le> n" using mult_le_mono1 [of "Suc r" W c] assms(1,2) by simp
  then show ?thesis using narrow_good [of 0 "[n, i]" "r * c" c vs] assms(3) by (simp add: narrow_first)
qed

lemma shard_columns:
  assumes "n = W * c" "r < W" "length vs = o' * n"
  shows "narrow (cpu_f32 [o', n] vs) 1 (r * c) c = Inr (cpu_f32 [o', c] (col_slice o' n (r * c) c vs))"
proof -
  have "r * c + c \<le> n" using mult_le_mono1 [of "Suc r" W c] assms(1,2) by simp
  then show ?thesis using narrow_good [of 1 "[o', n]" "r * c" c vs] assms(3) narrow_last [of "[o']" n "r * c" c vs] by simp
qed

lemma mlp_loads:
  assumes vb: "stored_ok vb" and i: "intermediate_size cfg = W * c" and full: "mlp_load (pp prefix vb) cfg = Inr full"
  shows "\<exists>g u d. full = mlp_of (hidden_size cfg) (W * c) g u d \<and>
     length g = W * c * hidden_size cfg \<and> length u = W * c * hidden_size cfg \<and> length d = hidden_size cfg * (W * c) \<and>
     (\<forall>r < W. tp_mlp_load (full_weights vb) prefix cfg (tp_context r W) alg =
        Inr (mlp_shard_of alg (hidden_size cfg) W c g u d r))"
proof -
  let ?h = "hidden_size cfg" and ?i = "W * c"
  from full i obtain tg tu td where t: "vb (prefix @ ''.gate_proj.weight'') [?i, ?h] = Inr tg"
      "vb (prefix @ ''.up_proj.weight'') [?i, ?h] = Inr tu" "vb (prefix @ ''.down_proj.weight'') [?h, ?i] = Inr td"
    and f: "full = \<lparr>gate_proj = tg, up_proj = tu, down_proj = td\<rparr>"
    by (auto simp: mlp_load_def linear_no_bias_def pp_def)
  from stored_okD [OF vb t(1)] stored_okD [OF vb t(2)] stored_okD [OF vb t(3)] obtain g u d where
    v: "tg = cpu_f32 [?i, ?h] g" "tu = cpu_f32 [?i, ?h] u" "td = cpu_f32 [?h, ?i] d"
    and len: "length g = ?i * ?h" "length u = ?i * ?h" "length d = ?h * ?i" by auto
  note names = t [unfolded v]
  have eq: "full = mlp_of ?h ?i g u d" by (simp add: f v mlp_of_def)
  have "tp_mlp_load (full_weights vb) prefix cfg (tp_context r W) alg = Inr (mlp_shard_of alg ?h W c g u d r)"
    if r: "r < W" for r
    using r shard_rows [OF refl r len(1)] shard_rows [OF refl r len(2)] shard_columns [OF refl r len(3)]
    by (simp add: tp_mlp_load_def full_weights_def i names row_from_weight_def dims2_def
        mlp_shard_of_def Let_def)
  with eq len show ?thesis by blast
qed

lemma activation_cpu:
  assumes "activation seqn h x" "0 < seqn" "0 < h"
  shows "x = cpu_f32 ([1, seqn] @ [h]) (t_values x) \<and> good_shape ([1, seqn] @ [h]) \<and> length (t_values x) = seqn * h"
  using assms cpu_f32_eta [of x]
  by (auto simp: activation_def wf_tensor_def elem_count_def intro!: good_shapeI)

text \<open>
  C3. Column-parallel gate and up projections followed by the row-parallel down projection
  compute the MLP: over exact arithmetic, with the shards that \<open>TensorParallelMlp::load\<close> cuts from the
  weights \<open>Mlp::load\<close> reads, all ranks return the output of the unsharded MLP on the same
  activation, in every schedule, after one collective call, with either all-reduce.
\<close>

theorem tensor_parallel_mlp_exact:
  fixes ops :: "'v::comm_ring_1 candle_ops" and s :: "usize \<Rightarrow> ('v, 'o) tp_state"
  assumes "exact_kernels ops" "stored_ok vb" and W: "0 < W" "W \<le> 256" "k < 2 ^ 44"
    and x: "activation seqn (hidden_size cfg) x" "0 < seqn" "0 < hidden_size cfg"
    and i: "intermediate_size cfg = W * c" and ring: "alg = Ring \<Longrightarrow> seqn * hidden_size cfg mod W = 0"
    and full: "mlp_load (pp prefix vb) cfg = Inr full"
    and shard: "\<And>r. r < W \<Longrightarrow> tp_mlp_load (full_weights vb) prefix cfg (tp_context r W) alg = Inr (shard r)"
    and s: "caches_are W k caches s"
  shows "\<exists>y s'. mlp_forward ops full x = Inr y \<and> caches_are W (Suc k) caches s' \<and>
     all_runs_return W (\<lambda>r. tp_mlp_forward ops ob (shard r) x (s r)) (\<lambda>r. Inr (y, s' r))"
proof -
  let ?h = "hidden_size cfg"
  from mlp_loads [OF assms(2) i full, of alg] obtain g u d where
    f: "full = mlp_of ?h (W * c) g u d" and len: "length g = W * c * ?h" "length u = W * c * ?h" "length d = ?h * (W * c)"
    and sh: "\<forall>r < W. tp_mlp_load (full_weights vb) prefix cfg (tp_context r W) alg = Inr (mlp_shard_of alg ?h W c g u d r)"
    by blast
  have eq: "shard r = mlp_shard_of alg ?h W c g u d r" if "r < W" for r using shard [OF that] sh that by simp
  note xs = activation_cpu [OF x]
  from lock_mlp_exact [OF assms(1) W(1) conjunct1 [OF conjunct2 [OF xs]] _ len, of alg "t_values x"] ring xs f
  obtain y where y: "mlp_forward ops full x = Inr y" "lock_mlp ops alg W (mlp_shard_of alg ?h W c g u d) (\<lambda>_. x) = Inr y"
    by (metis append_Cons append_Nil mult_1 prod_list.Cons prod_list.Nil mult.right_neutral)
  have "together W (\<lambda>r. tp_mlp_forward ops ob (mlp_shard_of alg ?h W c g u d r) x) k caches (Suc k) caches y"
    by (rule together_mlp [OF W _ y(2)]) (simp add: mlp_shard_of_def)
  then have "together W (\<lambda>r. tp_mlp_forward ops ob (shard r) x) k caches (Suc k) caches y"
    by (rule together_cong [rotated]) (simp add: eq)
  with s y(1) computes_all_runs show ?thesis unfolding together_def by blast
qed

section \<open>Vocabulary-parallel embedding\<close>

text \<open>Row lookup, what \<open>candle_nn::Embedding\<close> documents.\<close>

definition embedding_exact :: "'v tensor \<Rightarrow> u32 tensor \<Rightarrow> candle_error + 'v tensor" where
  "embedding_exact w ids =
     (case t_dims w of
        [v, h] \<Rightarrow>
          if list_all (\<lambda>i. unat i < v) (t_values ids)
          then Inr (w\<lparr>t_dims := t_dims ids @ [h],
                      t_values := concat (map (\<lambda>i. block (unat i * h) h (t_values w)) (t_values ids))\<rparr>)
          else Inl (CandleMsg ''index out of range'')
      | ds \<Rightarrow> Inl (UnexpectedNumberOfDims 2 (length ds)))"

definition neutral_scalars :: "'v candle_ops \<Rightarrow> 'v scalar_ops \<Rightarrow> bool" where
  "neutral_scalars ops sc \<longleftrightarrow>
     (\<forall>x. op_add ops (op_zero ops) x = x \<and> op_add ops x (op_zero ops) = x \<and>
          op_times sc x (op_one sc) = x \<and> op_times sc x (op_zero ops) = op_zero ops)"

abbreviation owns :: "nat \<Rightarrow> usize \<Rightarrow> u32 \<Rightarrow> bool" where
  "owns c r i \<equiv> r * c \<le> unat i \<and> unat i < r * c + c"

lemma localize_ids_good:
  "list_all (\<lambda>i. unat i < v) ids \<Longrightarrow>
     localize_ids \<lparr>sr_start = r * c, sr_end = r * c + c\<rparr> v ids =
     Inr (map (\<lambda>i. if owns c r i then of_nat (unat i - r * c) else 0) ids, map (owns c r) ids)"
  by (induction ids) (auto simp: Let_def)

text \<open>What rank \<open>r\<close> contributes: the row of an owned id, zeros for every other.\<close>

lemma embedding_local_good:
  fixes w :: "'v list"
  assumes ops: "op_embedding ops = embedding_exact" "neutral_scalars ops sc"
    and c: "0 < c" "r < W" "length w = W * c * h" and ids: "list_all (\<lambda>i. unat i < W * c) ids"
  shows "embedding_local ops sc \<lparr>vpe_weight = cpu_f32 [c, h] (block (r * c * h) (c * h) w),
       vpe_range = \<lparr>sr_start = r * c, sr_end = r * c + c\<rparr>, vpe_global_vocabulary = W * c, vpe_algorithm = alg\<rparr> (token_input ids) =
     Inr (cpu_f32 [1, length ids, h] (concat (map (\<lambda>i. if owns c r i then block (unat i * h) h w
                                                      else replicate h (op_zero ops)) ids)))"
proof -
  define lid where "lid = (\<lambda>i. if owns c r i then of_nat (unat i - r * c) else (0 :: u32))"
  let ?z = "op_zero ops"
  let ?row = "\<lambda>i. block (unat (lid i) * h) h (block (r * c * h) (c * h) w)"
  let ?out = "\<lambda>i. if owns c r i then block (unat i * h) h w else replicate h ?z"
  have lid: "unat (lid i) < c \<and> (owns c r i \<longrightarrow> unat (lid i) = unat i - r * c)" for i
  proof (cases "owns c r i")
    case True
    have "unat (of_nat (unat i - r * c) :: u32) = unat i - r * c"
      using unat_u32_bound [of i] by (intro unat_of_nat_u32) linarith
    then have "unat (lid i) = unat i - r * c" using True by (simp only: lid_def if_True simp_thms)
    then show ?thesis using True by linarith
  next
    case False
    then show ?thesis using c(1) by (auto simp: lid_def)
  qed
  have shard: "r * c * h + c * h \<le> length w"
    using c(2,3) mult_le_mono1 [of "Suc r" W "c * h"] by (simp add: algebra_simps)
  have fits: "unat (lid i) * h + h \<le> c * h" for i
    using mult_le_mono1 [of "Suc (unat (lid i))" c h] lid [of i] by simp
  have row: "?row i = block (r * c * h + unat (lid i) * h) h w" for i
    using fits [of i] by (simp add: block_block)
  have rowlen: "length (?row i) = h" for i unfolding row using fits [of i] shard by (intro length_block) simp
  have emb: "op_embedding ops (cpu_f32 [c, h] (block (r * c * h) (c * h) w))
      \<lparr>t_device = Cpu, t_dtype = U32, t_dims = [1, length ids], t_values = map lid ids\<rparr> =
      Inr (cpu_f32 [1, length ids, h] (concat (map ?row ids)))"
    using lid by (simp add: ops(1) embedding_exact_def list_all_iff comp_def)
  let ?msk = "map (\<lambda>owned. if owned then op_one sc else ?z) (map (owns c r) ids)"
  have len: "length (concat (map ?row ids)) = length ids * h" using rowlen by (induction ids) simp_all
  have "map (\<lambda>q. op_times sc (concat (map ?row ids) ! q) (?msk ! (q div h))) [0..<length ids * h] = concat (map ?out ids)"
  proof (rule nth_equalityI)
    have outlen: "length (?out i) = h" for i
      using rowlen [of i] lid [of i] row [of i] by (auto simp: algebra_simps)
    show len': "length (map (\<lambda>q. op_times sc (concat (map ?row ids) ! q) (?msk ! (q div h))) [0..<length ids * h]) =
        length (concat (map ?out ids))" using outlen by (induction ids) simp_all
    fix q assume "q < length (map (\<lambda>q. op_times sc (concat (map ?row ids) ! q) (?msk ! (q div h))) [0..<length ids * h])"
    then have "q < length ids * h" by simp
    then obtain p j where q: "p < length ids" "j < h" "q = p * h + j" by (rule row_index)
    then have "q div h = p" by simp
    moreover have "?row (ids ! p) ! j = ?out (ids ! p) ! j" if "owns c r (ids ! p)"
    proof -
      have "r * c * h + (unat (ids ! p) - r * c) * h = unat (ids ! p) * h"
        using that by (metis add_mult_distrib le_add_diff_inverse)
      then show ?thesis using that row [of "ids ! p"] lid [of "ids ! p"] by simp
    qed
    ultimately show "map (\<lambda>q. op_times sc (concat (map ?row ids) ! q) (?msk ! (q div h))) [0..<length ids * h] ! q =
        concat (map ?out ids) ! q"
      using \<open>q < length ids * h\<close> q nth_list_rows [of ids ?row h p j, OF rowlen q(1,2)]
        nth_list_rows [of ids ?out h p j, OF outlen q(1,2)] ops(2)
      by (auto simp: neutral_scalars_def)
  qed
  moreover have "localize_ids \<lparr>sr_start = r * c, sr_end = r * c + c\<rparr> (W * c) ids = Inr (map lid ids, map (owns c r) ids)"
    unfolding lid_def by (rule localize_ids_good [OF ids])
  ultimately show ?thesis
    using emb len by (simp add: embedding_local_def token_input_def dims2_def broadcast_mul_mask_def)
qed

lemma reduce_one_contributor:
  fixes v :: "usize \<Rightarrow> 'v list"
  assumes W: "0 < W" "alg = Ring \<Longrightarrow> prod_list ds mod W = 0" "\<And>r. r < W \<Longrightarrow> length (v r) = prod_list ds"
    and zero: "\<And>x. add z x = x" "\<And>x. add x z = x"
    and i: "i < prod_list ds" "k < W" "\<And>r. r < W \<Longrightarrow> r \<noteq> k \<Longrightarrow> v r ! i = z"
  shows "reduce_values alg add W ds v ! i = v k ! i"
  using central.one_contributor [where W = W and ds = ds and v = v and add = add and z = z and i = i and k = k]
    ring.one_contributor [where W = W and ds = ds and v = v and add = add and z = z and i = i and k = k] assms
  by (cases alg) auto

lemma reduce_values_length:
  assumes "0 < W" "alg = Ring \<Longrightarrow> prod_list ds mod W = 0" "\<And>r. r < W \<Longrightarrow> length (v r) = prod_list ds"
  shows "length (reduce_values alg add W ds v) = prod_list ds"
  using central.result_length [where W = W and ds = ds and v = v and add = add]
    ring.result_length [where W = W and ds = ds and v = v and add = add] assms by (cases alg) auto

lemma owner:
  assumes "0 < c" "unat i < W * c"
  shows "unat i div c < W \<and> owns c (unat i div c) i \<and> (\<forall>r. owns c r i \<longrightarrow> r = unat i div c)"
proof (intro conjI allI impI)
  show "unat i div c < W" using assms(2) by (simp add: less_mult_imp_div_less)
  show "unat i div c * c \<le> unat i" "unat i < unat i div c * c + c"
    using assms(1) div_mult_mod_eq [of "unat i" c] mod_less_divisor [of c "unat i"] by linarith+
  fix r assume "owns c r i"
  then have "(unat i - r * c) div c = 0" "unat i = r * c + (unat i - r * c)" by auto
  then show "r = unat i div c" using assms(1) by (metis add.right_neutral div_mult_self3 less_irrefl add.commute)
qed

lemma lock_embedding_exact:
  fixes w :: "'v list"
  assumes ops: "op_embedding ops = embedding_exact" "neutral_scalars ops sc" and W: "0 < W" and c: "0 < c"
    and w: "length w = W * c * h" and ids: "list_all (\<lambda>i. unat i < W * c) ids"
    and good: "good_shape [1, length ids, h]" and ring: "alg = Ring \<Longrightarrow> length ids * h mod W = 0"
  shows "\<exists>y. op_embedding ops (cpu_f32 [W * c, h] w) (token_input ids) = Inr y \<and>
     lock_embedding ops sc alg W (\<lambda>r. \<lparr>vpe_weight = cpu_f32 [c, h] (block (r * c * h) (c * h) w),
       vpe_range = \<lparr>sr_start = r * c, sr_end = r * c + c\<rparr>, vpe_global_vocabulary = W * c, vpe_algorithm = alg\<rparr>)
       (token_input ids) = Inr y"
proof -
  let ?ds = "[1, length ids, h]" and ?z = "op_zero ops"
  let ?e = "\<lambda>r. \<lparr>vpe_weight = cpu_f32 [c, h] (block (r * c * h) (c * h) w),
       vpe_range = \<lparr>sr_start = r * c, sr_end = r * c + c\<rparr>, vpe_global_vocabulary = W * c, vpe_algorithm = alg\<rparr>"
  let ?out = "\<lambda>r i. if owns c r i then block (unat i * h) h w else replicate h ?z"
  let ?full = "concat (map (\<lambda>i. block (unat i * h) h w) ids)"
  have row: "length (block (unat i * h) h w) = h" if "i \<in> set ids" for i
    using ids that w mult_le_mono1 [of "Suc (unat i)" "W * c" h] by (intro length_block) (auto simp: list_all_iff Suc_le_eq)
  have full: "op_embedding ops (cpu_f32 [W * c, h] w) (token_input ids) = Inr (cpu_f32 ?ds ?full)"
    using ids by (simp add: ops(1) embedding_exact_def token_input_def)
  obtain p where p: "all_ranks W (\<lambda>r. embedding_local ops sc (?e r) (token_input ids)) = Inr p"
    and pr: "\<And>r. r < W \<Longrightarrow> p r = cpu_f32 ?ds (concat (map (?out r) ids))"
    using all_ranksI [of W "\<lambda>r. embedding_local ops sc (?e r) (token_input ids)"
        "\<lambda>r. cpu_f32 ?ds (concat (map (?out r) ids))"] embedding_local_good [OF ops c _ w ids] by blast
  have outlen: "length (?out r i) = h" if "i \<in> set ids" for r i using row [OF that] by simp
  have plen: "length (t_values (p r)) = prod_list ?ds" if "r < W" for r 
    using pr [OF that] length_list_rows [of ids "?out r" h, OF outlen] by simp
  have cpu: "cpu_tensors W p" using good pr plen W by (simp add: cpu_tensors_def wf_tensor_def elem_count_def)
  have rlen: "length (reduce_values alg (op_add ops) W ?ds (\<lambda>r. t_values (p r))) = prod_list ?ds"
    using W ring plen by (intro reduce_values_length) auto
  have "reduce_values alg (op_add ops) W ?ds (\<lambda>r. t_values (p r)) = ?full"
  proof (rule nth_equalityI)
    show "length (reduce_values alg (op_add ops) W ?ds (\<lambda>r. t_values (p r))) = length ?full"
      using rlen length_list_rows [of ids "\<lambda>i. block (unat i * h) h w" h, OF row] by simp
    fix i assume "i < length (reduce_values alg (op_add ops) W ?ds (\<lambda>r. t_values (p r)))"
    then have i: "i < prod_list ?ds" using rlen by simp
    then obtain q j where q: "q < length ids" "j < h" "i = q * h + j" by (auto elim: row_index)
    let ?k = "unat (ids ! q) div c"
    have k: "?k < W" "owns c ?k (ids ! q)" "\<And>r. owns c r (ids ! q) \<Longrightarrow> r = ?k"
      using owner [OF c, of "ids ! q" W] ids q(1) by (auto simp: list_all_length)
    have val: "t_values (p r) ! i = ?out r (ids ! q) ! j" if "r < W" for r
      using pr [OF that] nth_list_rows [of ids "?out r" h, OF outlen q(1,2)] q(3) by simp
    have "reduce_values alg (op_add ops) W ?ds (\<lambda>r. t_values (p r)) ! i = t_values (p ?k) ! i"
    proof (rule reduce_one_contributor [OF W _ plen _ _ i k(1)])
      show "op_add ops ?z x = x" "op_add ops x ?z = x" for x using ops(2) by (simp_all add: neutral_scalars_def)
      fix r assume "r < W" "r \<noteq> ?k"
      then have "\<not> owns c r (ids ! q)" using k(3) by blast
      then show "t_values (p r) ! i = ?z" using val [OF \<open>r < W\<close>] q(2) by auto
    qed (use ring in auto)
    also have "\<dots> = ?full ! i" 
      using val [OF k(1)] k(2) nth_list_rows [of ids "\<lambda>i. block (unat i * h) h w" h, OF row q(1,2)] q(3) by simp
    finally show "reduce_values alg (op_add ops) W ?ds (\<lambda>r. t_values (p r)) ! i = ?full ! i" .
  qed
  then have "lock_embedding ops sc alg W ?e (token_input ids) = Inr (cpu_f32 ?ds ?full)"
    using p cpu ring pr [OF W] by (simp add: lock_embedding_def reduce_spec_def)
  with full show ?thesis by blast
qed

lemma embedding_loads:
  assumes vb: "stored_ok vb" and v: "vocab_size cfg = W * c"
    and full: "load_embedding (vocab_size cfg) (hidden_size cfg) (pp ''model.embed_tokens'' vb) = Inr full"
  shows "\<exists>w. full = cpu_f32 [W * c, hidden_size cfg] w \<and> length w = W * c * hidden_size cfg \<and>
     (\<forall>r < W. rbind (full_weights vb ''model.embed_tokens.weight'' [vocab_size cfg, hidden_size cfg] (Some 0) (tp_context r W))
        (\<lambda>t. embedding_from_weight t (shard_range_of (tp_context r W) (vocab_size cfg)) (vocab_size cfg)) =
        Inr \<lparr>vpe_weight = cpu_f32 [c, hidden_size cfg] (block (r * c * hidden_size cfg) (c * hidden_size cfg) w),
             vpe_range = \<lparr>sr_start = r * c, sr_end = r * c + c\<rparr>, vpe_global_vocabulary = W * c,
             vpe_algorithm = Centralized\<rparr>)"
proof -
  let ?h = "hidden_size cfg"
  from full v have t: "vb ''model.embed_tokens.weight'' [W * c, ?h] = Inr full"
    by (simp add: load_embedding_def pp_def)
  from stored_okD [OF vb t] obtain w where w: "full = cpu_f32 [W * c, ?h] w" "length w = W * c * ?h" by auto
  have "rbind (full_weights vb ''model.embed_tokens.weight'' [vocab_size cfg, ?h] (Some 0) (tp_context r W))
        (\<lambda>t. embedding_from_weight t (shard_range_of (tp_context r W) (vocab_size cfg)) (vocab_size cfg)) =
        Inr \<lparr>vpe_weight = cpu_f32 [c, ?h] (block (r * c * ?h) (c * ?h) w),
             vpe_range = \<lparr>sr_start = r * c, sr_end = r * c + c\<rparr>, vpe_global_vocabulary = W * c,
             vpe_algorithm = Centralized\<rparr>" if r: "r < W" for r
  proof -
    have "c + r * c \<le> W * c" "0 < W" using mult_le_mono1 [of "Suc r" W c] r by simp_all
    then show ?thesis
      using t w shard_rows [OF refl r w(2)] v
      by (simp add: full_weights_def embedding_from_weight_def dims2_def shard_range_of_def range_len_def
          Let_def add.commute)
  qed
  with w show ?thesis by blast
qed

text \<open>
  C12. Vocabulary-parallel embedding: with the shards the loader cuts, all ranks return the
  embedding that one rank would look up in the full table, in every schedule and with either
  all-reduce, for token ids inside the vocabulary. No sum is split: each element has one
  contributor, so all that is used of the element arithmetic is that zero is neutral for
  addition and that multiplying by one keeps and by zero clears.
\<close>

theorem vocab_parallel_embedding_exact:
  fixes ops :: "'v candle_ops" and s :: "usize \<Rightarrow> ('v, 'o) tp_state"
  assumes "op_embedding ops = embedding_exact" "neutral_scalars ops sc" "stored_ok vb"
    and W: "0 < W" "W \<le> 256" "k < 2 ^ 44" and v: "vocab_size cfg = W * c" "0 < c"
    and ids: "list_all (\<lambda>i. unat i < vocab_size cfg) ids" "good_shape [1, length ids, hidden_size cfg]"
    and ring: "alg = Ring \<Longrightarrow> length ids * hidden_size cfg mod W = 0"
    and full: "load_embedding (vocab_size cfg) (hidden_size cfg) (pp ''model.embed_tokens'' vb) = Inr full"
    and shard: "\<And>r. r < W \<Longrightarrow>
      rbind (full_weights vb ''model.embed_tokens.weight'' [vocab_size cfg, hidden_size cfg] (Some 0) (tp_context r W))
        (\<lambda>t. embedding_from_weight t (shard_range_of (tp_context r W) (vocab_size cfg)) (vocab_size cfg)) = Inr (e r)"
    and s: "caches_are W k caches s"
  shows "\<exists>y s'. op_embedding ops full (token_input ids) = Inr y \<and> caches_are W (Suc k) caches s' \<and>
     all_runs_return W (\<lambda>r. embedding_forward ops sc ob (with_all_reduce alg (e r)) (token_input ids) (s r))
       (\<lambda>r. Inr (y, s' r))"
proof -
  let ?h = "hidden_size cfg"
  from embedding_loads [OF assms(3) v(1) full] obtain w where
    w: "full = cpu_f32 [W * c, ?h] w" "length w = W * c * ?h" and
    er: "\<And>r. r < W \<Longrightarrow> e r = \<lparr>vpe_weight = cpu_f32 [c, ?h] (block (r * c * ?h) (c * ?h) w),
             vpe_range = \<lparr>sr_start = r * c, sr_end = r * c + c\<rparr>, vpe_global_vocabulary = W * c, vpe_algorithm = Centralized\<rparr>"
    using shard by (metis Inr_inject)
  let ?e = "\<lambda>r. \<lparr>vpe_weight = cpu_f32 [c, ?h] (block (r * c * ?h) (c * ?h) w),
       vpe_range = \<lparr>sr_start = r * c, sr_end = r * c + c\<rparr>, vpe_global_vocabulary = W * c, vpe_algorithm = alg\<rparr>"
  from lock_embedding_exact [OF assms(1,2) W(1) v(2) w(2) _ ids(2) ring] ids(1) v(1) obtain y where
    y: "op_embedding ops full (token_input ids) = Inr y" "lock_embedding ops sc alg W ?e (token_input ids) = Inr y"
    by (auto simp: w(1))
  have "together W (\<lambda>r. embedding_forward ops sc ob (?e r) (token_input ids)) k caches (Suc k) caches y"
    by (rule together_embedding [OF W _ y(2)]) simp
  then have "together W (\<lambda>r. embedding_forward ops sc ob (with_all_reduce alg (e r)) (token_input ids)) k caches (Suc k) caches y"
    by (rule together_cong [rotated]) (simp add: er with_all_reduce_def)
  with s y(1) computes_all_runs show ?thesis unfolding together_def by blast
qed

section \<open>Language-model head\<close>

lemma lock_head_exact:
  fixes x w :: "'v::comm_ring_1 list"
  assumes ops: "op_linear ops = linear_exact" and W: "0 < W" and w: "length w = W * c * i"
    and good: "good_shape (ds @ [c])" "good_shape (ds @ [W * c])"
  shows "lock_head ops W (\<lambda>r. \<lparr>cpl_weight = cpu_f32 [c, i] (block (r * c * i) (c * i) w),
       cpl_global_output_features = W * c, cpl_gather_output = True\<rparr>) (\<lambda>_. cpu_f32 (ds @ [i]) x) =
     Inr (cpu_f32 (ds @ [W * c]) (lin_values (prod_list ds) i (W * c) x w))"
proof -
  let ?P = "prod_list ds" and ?ds = "ds @ [W * c]" and ?axis = "length ds"
  let ?y = "lin_values ?P i (W * c) x w"
  have fits: "r * c + c \<le> W * c" if "r < W" for r using mult_le_mono1 [of "Suc r" W c] that by simp
  let ?l = "\<lambda>r. cpu_f32 (ds @ [c]) (narrow_values ?ds ?axis (r * c) c ?y)"
  have local: "lift_tensor (op_linear ops (cpu_f32 [c, i] (block (r * c * i) (c * i) w)) (cpu_f32 (ds @ [i]) x)) = Inr (?l r)"
    if "r < W" for r
    by (simp add: ops linear_exact_good lin_values_rows [OF fits [OF that] w] narrow_last)
  obtain l where l: "all_ranks W (\<lambda>r. lift_tensor (op_linear ops (cpu_f32 [c, i] (block (r * c * i) (c * i) w))
        (cpu_f32 (ds @ [i]) x))) = Inr l" and lr: "\<And>r. r < W \<Longrightarrow> l r = ?l r"
    using all_ranksI [of W _ ?l, OF local] by blast
  have len: "length (narrow_values ?ds ?axis (r * c) c ?y) = ?P * c" if "r < W" for r
    using fits [OF that] by (simp add: narrow_last length_col_slice)
  have cpu: "cpu_tensors W l" using good(1) lr len W by (simp add: cpu_tensors_def wf_tensor_def elem_count_def)
  have "cat_values W (?ds[?axis := c]) ?axis (\<lambda>r. narrow_values ?ds ?axis (r * c) c ?y) = ?y"
    by (rule cat_of_narrow_values) simp_all
  moreover have "cat_values W (ds @ [c]) ?axis (\<lambda>r. t_values (l r)) =
      cat_values W (ds @ [c]) ?axis (\<lambda>r. narrow_values ?ds ?axis (r * c) c ?y)"
    by (rule cat_values_cong) (simp add: lr)
  ultimately have "gather_spec W l ?axis = Inr (cpu_f32 ?ds ?y)"
    using cpu lr [OF W] good(2) by (simp add: gather_spec_def Let_def)
  with l lr [OF W] show ?thesis by (simp add: lock_head_def)
qed

text \<open>
  C17. Vocabulary-parallel language-model head: the gathered logits of the row shards are the
  logits of the full head, in every schedule, and the width check of the gather passes.
\<close>

theorem vocab_parallel_head_exact:
  fixes ops :: "'v::comm_ring_1 candle_ops" and s :: "usize \<Rightarrow> ('v, 'o) tp_state"
  assumes "op_linear ops = linear_exact" and W: "0 < W" "k < 2 ^ 44"
    and w: "length w = W * c * i" "0 < c" and good: "good_shape (ds @ [c])" "good_shape (ds @ [W * c])"
    and shard: "\<And>r. r < W \<Longrightarrow>
      rbind (lift_tensor (narrow (cpu_f32 [W * c, i] w) 0 (r * c) c)) (\<lambda>t. head_from_weight t (W * c)) = Inr (h r)"
    and s: "caches_are W k caches s"
  shows "\<exists>y s'. op_linear ops (cpu_f32 [W * c, i] w) (cpu_f32 (ds @ [i]) x) = Inr y \<and> caches_are W (Suc k) caches s' \<and>
     all_runs_return W (\<lambda>r. column_forward ops ob (h r) (cpu_f32 (ds @ [i]) x) (s r)) (\<lambda>r. Inr (y, s' r))"
proof -
  let ?h = "\<lambda>r. \<lparr>cpl_weight = cpu_f32 [c, i] (block (r * c * i) (c * i) w),
       cpl_global_output_features = W * c, cpl_gather_output = True\<rparr>"
  have hr: "h r = ?h r" if "r < W" for r
    using shard [OF that] shard_rows [OF refl that w(1)] w(2)
    by (simp add: head_from_weight_def column_from_weight_def dims2_def)
  let ?y = "cpu_f32 (ds @ [W * c]) (lin_values (prod_list ds) i (W * c) x w)"
  have "together W (\<lambda>r. column_forward ops ob (?h r) (cpu_f32 (ds @ [i]) x)) k caches (Suc k) caches ?y"
    by (rule together_head [OF W _ lock_head_exact [OF assms(1) W(1) w(1) good]]) simp
  then have "together W (\<lambda>r. column_forward ops ob (h r) (cpu_f32 (ds @ [i]) x)) k caches (Suc k) caches ?y"
    by (rule together_cong [rotated]) (simp add: hr)
  moreover have "op_linear ops (cpu_f32 [W * c, i] w) (cpu_f32 (ds @ [i]) x) = Inr ?y"
    by (simp add: assms(1) linear_exact_good)
  ultimately show ?thesis using s computes_all_runs unfolding together_def by blast
qed

end
