(* ===== verification/TensorRun.thy ===== *)
theory TensorRun
  imports TensorRunner TensorExact
begin

text \<open>
  All ranks of a tensor-parallel run. The specification is a single generation loop over
  \<open>lock_forward\<close>; every rank follows it: the same tokens, the same stop reason, the same number of
  collective calls, in every schedule.
\<close>

section \<open>The specification\<close>

fun lock_generate ::
  "'v candle_ops \<Rightarrow> 'v scalar_ops \<Rightarrow> all_reduce_algorithm \<Rightarrow> nat \<Rightarrow> (usize \<Rightarrow> 'v tp_llama) \<Rightarrow> u32 \<Rightarrow> usize \<Rightarrow> usize \<Rightarrow> usize list
     \<Rightarrow> u32 tensor \<Rightarrow> usize \<Rightarrow> (usize \<Rightarrow> 'v kv_cache) \<Rightarrow> u32 list
     \<Rightarrow> (stop_reason \<times> u32 list \<times> usize \<times> (usize \<Rightarrow> 'v kv_cache)) dresult" where
  "lock_generate ops sc alg W m eos requested effective [] ids pos c tokens =
     Inl (InvalidConfig ''generation ended without a stop reason'')"
| "lock_generate ops sc alg W m eos requested effective (step # steps) ids pos c tokens =
     rbind (lock_forward ops sc alg W m ids pos c) (\<lambda>(logits, c').
     rbind (greedy_token ops logits) (\<lambda>token.
     if token = eos then Inr (Eos, tokens, step + 1, c')
     else if step + 1 = effective
     then Inr (token_limit_stop_reason requested effective, tokens @ [token], step + 1, c')
     else lock_generate ops sc alg W m eos requested effective steps (token_input [token]) (pos + t_dims ids ! 1) c'
            (tokens @ [token])))"

section \<open>One step of all ranks\<close>

definition runs_at ::
  "nat \<Rightarrow> nat \<Rightarrow> (usize \<Rightarrow> 'v kv_cache) \<Rightarrow> u32 tensor \<Rightarrow> usize \<Rightarrow> u32 list \<Rightarrow> usize \<Rightarrow> (usize \<Rightarrow> 'v tensor_run) \<Rightarrow> bool" where
  "runs_at W k c ids pos tokens fc rs \<longleftrightarrow>
     caches_are W k c (\<lambda>r. tru_tp (rs r)) \<and>
     (\<forall>r < W. tru_input (rs r) = ids \<and> tru_position (rs r) = pos \<and> tru_tokens (rs r) = tokens \<and>
        tru_decode_forward_count (rs r) = fc)"

lemma emit_run_sel [simp]:
  "tru_input (emit_run k rs) = tru_input rs" "tru_position (emit_run k rs) = tru_position rs"
  "tru_tokens (emit_run k rs) = tru_tokens rs" "tru_decode_forward_count (emit_run k rs) = tru_decode_forward_count rs"
  "ts_cache (tru_tp (emit_run k rs)) = ts_cache (tru_tp rs)"
  "ts_collectives (tru_tp (emit_run k rs)) = ts_collectives (tru_tp rs)"
  by (simp_all add: emit_run_def)

lemma runs_at_update:
  assumes "runs_at W k c ids pos tokens fc rs"
    and "\<And>r. r < W \<Longrightarrow> ts_cache (tru_tp (rs' r)) = ts_cache (tru_tp (rs r)) \<and>
      ts_collectives (tru_tp (rs' r)) = ts_collectives (tru_tp (rs r)) \<and> tru_input (rs' r) = ids' \<and>
      tru_position (rs' r) = pos' \<and> tru_tokens (rs' r) = tokens' \<and> tru_decode_forward_count (rs' r) = fc'"
  shows "runs_at W k c ids' pos' tokens' fc' rs'"
  using assms by (simp add: runs_at_def caches_are_def in_step_def)

definition tensor_codec_ok :: "('v, 'd) tensor_env \<Rightarrow> bool" where
  "tensor_codec_ok env \<longleftrightarrow>
     (\<forall>d. td_step d < 2 ^ 64 \<longrightarrow> (\<exists>bs. te_to_json env d = Inr bs \<and> te_from_json env bs = Inr d \<and> length bs \<le> MAX_CONTROL_BYTES))"

text \<open>The contexts of all ranks of one run.\<close>

definition tensor_contexts ::
  "nat \<Rightarrow> ('v, 'd) tensor_env \<Rightarrow> tensor_parallel_manifest \<Rightarrow> model_config \<Rightarrow> (usize \<Rightarrow> 'v tp_llama) \<Rightarrow> usize \<Rightarrow> ('v, 'd) tensor_context" where
  "tensor_contexts W env mf cfg m r =
     \<lparr>tc_rank = member W r, tc_model = m r, tc_config = cfg, tc_manifest = mf, tc_env = env\<rparr>"

lemma forward_step_computes:
  fixes rs :: "usize \<Rightarrow> 'v tensor_run" and env :: "('v, 'd) tensor_env"
  assumes W: "0 < W" "W \<le> 256" and plan: "same_plan W alg m"
    and k: "k + 2 * length (tpl_blocks (m 0)) + 2 \<le> 2 ^ 44"
    and fw: "lock_forward (te_ops env) (te_scalars env) alg W m ids pos c = Inr (logits, c')"
    and rs: "runs_at W k c ids pos tokens fc rs"
  shows "\<exists>rs'. runs_at W (k + 2 * length (tpl_blocks (m 0)) + 2) c' ids pos tokens (if step = 0 then fc else fc + 1) rs' \<and>
     computes W (\<lambda>r. forward_step (tensor_contexts W env mf cfg m r) step (start_step (tensor_contexts W env mf cfg m r) step (rs r)))
       (\<lambda>r. Inr (logits, rs' r))"
proof -
  let ?cx = "tensor_contexts W env mf cfg m" and ?ob = "event_observer (phase_of step) step"
  let ?k' = "k + 2 * length (tpl_blocks (m 0)) + 2"
  define rs1 where "rs1 = (\<lambda>r. start_step (?cx r) step (rs r))"
  have rs1: "runs_at W k c ids pos tokens fc rs1"
    by (rule runs_at_update [OF rs]) (use rs in \<open>auto simp: rs1_def start_step_def runs_at_def\<close>)
  then have "caches_are W k c (\<lambda>r. tru_tp (rs1 r))" by (simp add: runs_at_def)
  with together_forward [OF W plan k fw, of ?ob] obtain s' where s': "caches_are W ?k' c' s'"
    "computes W (\<lambda>r. tp_forward_observed (te_ops env) (te_scalars env) ?ob (m r) ids pos (tru_tp (rs1 r))) (\<lambda>r. Inr (logits, s' r))"
    unfolding together_def by blast
  define rs2 where "rs2 = (\<lambda>r. (rs1 r)\<lparr>tru_tp := s' r, tru_decode_forward_count := (if step = 0 then fc else fc + 1)\<rparr>)"
  have "runs_at W ?k' c' ids pos tokens (if step = 0 then fc else fc + 1) rs2"
    using s'(1) rs1 by (simp add: runs_at_def rs2_def)
  moreover have "computes W (\<lambda>r. lift_runtime (tp_forward_observed (te_ops env) (te_scalars env) ?ob (m r) ids pos (tru_tp (rs1 r))))
      (\<lambda>r. Inr (logits, s' r))"
    unfolding lift_runtime_def by (rule computes_bind [OF s'(2)]) (simp add: computes_Ret)
  then have "computes W (\<lambda>r. pr_bind (lift_runtime (tp_forward_observed (te_ops env) (te_scalars env) ?ob (m r) ids pos (tru_tp (rs1 r))))
      (\<lambda>(logits, s). Ret (Inr (logits, (rs1 r)\<lparr>tru_tp := s, tru_decode_forward_count := (if step = 0 then fc else fc + 1)\<rparr>))))
      (\<lambda>r. Inr (logits, rs2 r))"
    by (rule computes_pr_bind [where res = "\<lambda>r. (logits, s' r)"]) (simp add: computes_Ret rs2_def)
  then have "computes W (\<lambda>r. forward_step (?cx r) step (rs1 r)) (\<lambda>r. Inr (logits, rs2 r))"
    by (rule iffD1 [OF computes_cong, rotated 2]) (use rs1 in \<open>auto simp: forward_step_def tensor_contexts_def runs_at_def\<close>)
  ultimately show ?thesis unfolding rs1_def by blast
qed

lemma send_token_decisions_program:
  assumes "length bs \<le> MAX_CONTROL_BYTES" "\<forall>d \<in> set ds. d < W \<and> d \<noteq> r"
  shows "pr_bind (send_token_decisions (member W r) tag bs step ds rs) K =
     send_loop tag (\<lambda>_. ControlPayload (ControlPacket bs)) ds
       (K (fold (\<lambda>d. emit_run (ControlSent d TensorDecision (phase_of step) step (of_nat (length bs)))) ds rs))"
  using assms
  by (induction ds arbitrary: rs)
     (simp_all add: send_control_def control_packet_new_def validate_peer_def pr_bind_pbind)

lemma fold_emit_run [simp]:
  "tru_input (fold (\<lambda>d. emit_run (f d)) ds rs) = tru_input rs" "tru_position (fold (\<lambda>d. emit_run (f d)) ds rs) = tru_position rs"
  "tru_tokens (fold (\<lambda>d. emit_run (f d)) ds rs) = tru_tokens rs"
  "tru_decode_forward_count (fold (\<lambda>d. emit_run (f d)) ds rs) = tru_decode_forward_count rs"
  "ts_cache (tru_tp (fold (\<lambda>d. emit_run (f d)) ds rs)) = ts_cache (tru_tp rs)"
  "ts_collectives (tru_tp (fold (\<lambda>d. emit_run (f d)) ds rs)) = ts_collectives (tru_tp rs)"
  by (induction ds arbitrary: rs) simp_all

lemma exchange_token_computes:
  fixes rs :: "usize \<Rightarrow> 'v tensor_run" and env :: "('v, 'd) tensor_env"
  assumes W: "0 < W" and codec: "tensor_codec_ok env" and mf: "tman_tensor_parallel mf = W" and step: "step < 2 ^ 64"
    and d: "choose_token (tensor_contexts W env mf cfg m 0) step logits = Inr d"
    and rs: "runs_at W k c ids pos tokens fc rs"
  shows "\<exists>rs'. runs_at W k c ids pos tokens fc rs' \<and>
     computes W (\<lambda>r. exchange_token (tensor_contexts W env mf cfg m r) step logits (rs r)) (\<lambda>r. Inr (d, rs' r))"
proof -
  have "td_step d = step" using d by (auto simp: choose_token_def Let_def)
  with codec step obtain bs where bs: "te_to_json env d = Inr bs" "te_from_json env bs = Inr d" "length bs \<le> MAX_CONTROL_BYTES"
    by (auto simp: tensor_codec_ok_def)
  let ?n = "of_nat (length bs) :: u64"
  define rs' where "rs' = (\<lambda>r. if r = 0
      then fold (\<lambda>p. emit_run (ControlSent p TensorDecision (phase_of step) step ?n)) [1..<W] (rs 0)
      else emit_run (ControlReceived 0 TensorDecision (phase_of step) step ?n) (rs r))"
  have "runs_at W k c ids pos tokens fc rs'"
    by (rule runs_at_update [OF rs]) (use rs in \<open>auto simp: rs'_def runs_at_def\<close>)
  moreover have "computes W (\<lambda>r. exchange_token (tensor_contexts W env mf cfg m r) step logits (rs r)) (\<lambda>r. Inr (d, rs' r))"
  proof (rule computes_scatter [OF W, where q = ControlKind and y = "\<lambda>_. ControlPayload (ControlPacket bs)"
        and bt = "DECISION_TAG_BASE + of_nat step"])
    note send_token_decisions_program [OF bs(3), of "[Suc 0..<W]" W 0, simplified, simp]
    show "exchange_token (tensor_contexts W env mf cfg m 0) step logits (rs 0) =
        send_loop (DECISION_TAG_BASE + of_nat step) (\<lambda>_. ControlPayload (ControlPacket bs)) (others W 0) (Ret (Inr (d, rs' 0)))"
      using d bs(1) mf by (simp add: exchange_token_def tensor_contexts_def others_0 rs'_def)
  next
    fix r assume r: "r < W" "r \<noteq> 0"
    let ?K = "\<lambda>p. pbind (case p of ControlPayload p \<Rightarrow> Ret (packet_bytes p) | TensorPayload _ \<Rightarrow> Fail (Protocol ''matched control payload''))
      (\<lambda>bytes. let rs1 = emit_run (ControlReceived 0 TensorDecision (phase_of step) step (of_nat (length bytes))) (rs r) in
        pr_bind (Ret (map_err TpJson (te_from_json env bytes))) (\<lambda>d. Ret (Inr (d, rs1))))"
    show "exchange_token (tensor_contexts W env mf cfg m r) step logits (rs r) =
        Recv 0 ControlKind (DECISION_TAG_BASE + of_nat step) ?K"
      using r W by (simp add: exchange_token_def tensor_contexts_def recv_control_def validate_peer_def)
    show "?K (ControlPayload (ControlPacket bs)) = Ret (Inr (d, rs' r)) \<and> kind_of (ControlPayload (ControlPacket bs)) = ControlKind"
      using r bs(2) by (simp add: rs'_def)
  qed
  ultimately show ?thesis by blast
qed

text \<open>The decision rank 0 takes when the greedy choice is \<open>token\<close>.\<close>

definition decision_of :: "tensor_parallel_manifest \<Rightarrow> u32 \<Rightarrow> usize \<Rightarrow> u32 \<Rightarrow> token_decision" where
  "decision_of mf eos step token =
     (let reason = (if token = eos then Some Eos
           else if step + 1 = tman_effective_max_new_tokens mf
           then Some (token_limit_stop_reason (tman_requested_max_new_tokens mf) (tman_effective_max_new_tokens mf))
           else None) in
      \<lparr>td_step = step, td_token = token, td_emit = (token \<noteq> eos), td_continue_generation = (reason = None),
       td_stop_reason = reason\<rparr>)"

lemma choose_token_decision:
  assumes "greedy_token (te_ops (tc_env cx)) logits = Inr token"
  shows "choose_token cx step logits = Inr (decision_of (tc_manifest cx) (eos_token_id (tc_config cx)) step token)"
  using assms
  by (auto simp: choose_token_def greedy_token_def decision_of_def token_limit_stop_reason_def Let_def map_err_Inr)

lemma tensor_step_computes:
  fixes rs :: "usize \<Rightarrow> 'v tensor_run" and env :: "('v, 'd) tensor_env"
  assumes W: "0 < W" "W \<le> 256" and plan: "same_plan W alg m"
    and k: "k + 2 * length (tpl_blocks (m 0)) + 2 \<le> 2 ^ 44"
    and codec: "tensor_codec_ok env" and mf: "tman_tensor_parallel mf = W" and step: "step < 2 ^ 64"
    and fw: "lock_forward (te_ops env) (te_scalars env) alg W m ids pos c = Inr (logits, c')"
    and tok: "greedy_token (te_ops env) logits = Inr token"
    and rs: "runs_at W k c ids pos tokens fc rs"
  shows "\<exists>rs'. runs_at W (k + 2 * length (tpl_blocks (m 0)) + 2) c' ids pos
       (if token = eos_token_id cfg then tokens else tokens @ [token]) (if step = 0 then fc else fc + 1) rs' \<and>
     computes W (\<lambda>r. tensor_step (tensor_contexts W env mf cfg m r) step (rs r))
       (\<lambda>r. Inr (decision_of mf (eos_token_id cfg) step token, rs' r))"
proof -
  let ?cx = "tensor_contexts W env mf cfg m" and ?fc = "if step = 0 then fc else fc + 1"
  let ?k' = "k + 2 * length (tpl_blocks (m 0)) + 2" and ?d = "decision_of mf (eos_token_id cfg) step token"
  from forward_step_computes [OF W plan k fw rs, of step mf cfg] obtain rs1 where
    rs1: "runs_at W ?k' c' ids pos tokens ?fc rs1"
      "computes W (\<lambda>r. forward_step (?cx r) step (start_step (?cx r) step (rs r))) (\<lambda>r. Inr (logits, rs1 r))" by blast
  have "choose_token (?cx 0) step logits = Inr ?d"
    using choose_token_decision [of "?cx 0"] tok by (simp add: tensor_contexts_def)
  from exchange_token_computes [OF W(1) codec mf step this rs1(1)] obtain rs2 where
    rs2: "runs_at W ?k' c' ids pos tokens ?fc rs2"
      "computes W (\<lambda>r. exchange_token (?cx r) step logits (rs1 r)) (\<lambda>r. Inr (?d, rs2 r))" by blast
  define rs3 where "rs3 = (\<lambda>r. projr (accept_decision (?cx r) step ?d (rs2 r)))"
  have acc: "accept_decision (?cx r) step ?d (rs2 r) = Inr (rs3 r)" for r
    by (simp add: rs3_def accept_decision_def decision_of_def Let_def)
  have "runs_at W ?k' c' ids pos (if token = eos_token_id cfg then tokens else tokens @ [token]) ?fc rs3"
    by (rule runs_at_update [OF rs2(1)])
       (use rs2(1) in \<open>auto simp: rs3_def accept_decision_def decision_of_def Let_def runs_at_def\<close>)
  moreover have "computes W (\<lambda>r. pr_bind (exchange_token (?cx r) step logits (rs1 r))
      (\<lambda>(d, rs2). pr_bind (Ret (accept_decision (?cx r) step d rs2)) (\<lambda>rs3. Ret (Inr (d, rs3))))) (\<lambda>r. Inr (?d, rs3 r))"
    by (rule computes_pr_bind [OF rs2(2)]) (simp add: acc computes_Ret)
  then have "computes W (\<lambda>r. tensor_step (?cx r) step (rs r)) (\<lambda>r. Inr (?d, rs3 r))"
    unfolding tensor_step_def by (intro computes_pr_bind [OF rs1(2)]) simp
  ultimately show ?thesis by blast
qed

lemma runs_at_input: "runs_at W k c ids pos tokens fc rs \<Longrightarrow> r < W \<Longrightarrow> tru_input (rs r) = ids \<and> tru_position (rs r) = pos"
  by (simp add: runs_at_def)

lemma tensor_loop_computes:
  fixes rs :: "usize \<Rightarrow> 'v tensor_run" and env :: "('v, 'd) tensor_env"
  assumes W: "0 < W" "W \<le> 256" and plan: "same_plan W alg m"
    and codec: "tensor_codec_ok env" and mf: "tman_tensor_parallel mf = W"
    and eff: "tman_effective_max_new_tokens mf * (2 * length (tpl_blocks (m 0)) + 2) \<le> 2 ^ 44"
  shows "lock_generate (te_ops env) (te_scalars env) alg W m (eos_token_id cfg) (tman_requested_max_new_tokens mf)
       (tman_effective_max_new_tokens mf) [a..<tman_effective_max_new_tokens mf] ids pos c tokens = Inr (reason, out, n, c') \<Longrightarrow>
     length (t_dims ids) = 2 \<Longrightarrow>
     runs_at W (a * (2 * length (tpl_blocks (m 0)) + 2)) c ids pos tokens (a - 1) rs \<Longrightarrow>
     \<exists>rs' ids' pos'. runs_at W (n * (2 * length (tpl_blocks (m 0)) + 2)) c' ids' pos' out (n - 1) rs' \<and>
       computes W (\<lambda>r. tensor_loop (tensor_contexts W env mf cfg m r) [a..<tman_effective_max_new_tokens mf] (rs r))
         (\<lambda>r. Inr (Some reason, rs' r))"
proof (induction "tman_effective_max_new_tokens mf - a" arbitrary: a ids pos c tokens rs)
  case (Suc j)
  let ?E = "tman_effective_max_new_tokens mf" and ?R = "tman_requested_max_new_tokens mf"
  let ?C = "2 * length (tpl_blocks (m 0)) + 2" and ?eos = "eos_token_id cfg"
  let ?cx = "tensor_contexts W env mf cfg m"
  have upt: "[a..<?E] = a # [Suc a..<?E]" using Suc.hyps(2) by (simp add: upt_rec)
  from Suc.prems(1) obtain logits c1 token where
    fw: "lock_forward (te_ops env) (te_scalars env) alg W m ids pos c = Inr (logits, c1)"
    and tok: "greedy_token (te_ops env) logits = Inr token" by (auto simp: upt)
  have "Suc a * ?C \<le> ?E * ?C" using Suc.hyps(2) by (intro mult_right_mono) auto
  with eff have k: "a * ?C + ?C \<le> 2 ^ 44" by simp
  have "1 * ?E \<le> ?E * ?C" by simp
  with eff have "?E < 2 ^ 64" by simp
  with Suc.hyps(2) have step: "a < 2 ^ 64" by simp
  have k': "Suc a * ?C = a * ?C + 2 * length (tpl_blocks (m 0)) + 2" by simp
  define d where "d = decision_of mf ?eos a token"
  let ?toks = "if token = ?eos then tokens else tokens @ [token]"
  have fc: "(if a = 0 then a - 1 else a - 1 + 1) = a" by simp
  have k2: "a * ?C + 2 * length (tpl_blocks (m 0)) + 2 \<le> 2 ^ 44" using k by simp
  from tensor_step_computes [OF W plan k2 codec mf step fw tok Suc.prems(3), of cfg, folded k', folded d_def, unfolded fc]
  obtain rs1 where
    rs1: "runs_at W (Suc a * ?C) c1 ids pos ?toks a rs1"
    and go: "computes W (\<lambda>r. tensor_step (?cx r) a (rs r)) (\<lambda>r. Inr (d, rs1 r))"
    by blast
  let ?K = "\<lambda>r (d, rs1). if \<not> td_continue_generation d
     then Ret (rbind (ok_or (InvalidRequest ''terminal decision omitted stop reason'') (td_stop_reason d)) (\<lambda>reason. Inr (Some reason, rs1)))
     else pr_bind (Ret (map_err TpTensor (tensor_dim (tru_input rs1) 1))) (\<lambda>n.
       tensor_loop (?cx r) [Suc a..<?E] (rs1\<lparr>tru_position := tru_position rs1 + n, tru_input := token_input [td_token d]\<rparr>))"
  have loop: "computes W (\<lambda>r. tensor_loop (?cx r) [a..<?E] (rs r)) res" if "computes W (\<lambda>r. ?K r (d, rs1 r)) res" for res
    unfolding upt tensor_loop.simps by (rule computes_pr_bind [where K = ?K, OF go]) (rule that)
  show ?case
  proof (cases "token = ?eos \<or> Suc a = ?E")
    case True
    with Suc.prems(1) fw tok have res: "n = Suc a" "c' = c1" "out = ?toks" "td_stop_reason d = Some reason" "\<not> td_continue_generation d"
      by (auto simp: upt d_def decision_of_def Let_def split: if_splits)
    have "computes W (\<lambda>r. ?K r (d, rs1 r)) (\<lambda>r. Inr (Some reason, rs1 r))"
      using res by (simp add: computes_Ret)
    from loop [OF this] rs1 show ?thesis unfolding res(1-3) diff_Suc_1 by blast
  next
    case False
    then have d: "td_continue_generation d" "td_token d = token" by (simp_all add: d_def decision_of_def Let_def)
    define rs2 where "rs2 = (\<lambda>r. (rs1 r)\<lparr>tru_position := pos + t_dims ids ! 1, tru_input := token_input [token]\<rparr>)"
    have at: "runs_at W (Suc a * ?C) c1 (token_input [token]) (pos + t_dims ids ! 1) (tokens @ [token]) (Suc a - 1) rs2"
      by (rule runs_at_update [OF rs1]) (use rs1 False in \<open>simp_all add: rs2_def runs_at_def\<close>)
    have K: "?K r (d, rs1 r) = tensor_loop (?cx r) [Suc a..<?E] (rs2 r)" if "r < W" for r
      using runs_at_input [OF rs1 that] Suc.prems(2) d by (simp add: rs2_def tensor_dim_def)
    have gen: "lock_generate (te_ops env) (te_scalars env) alg W m ?eos ?R ?E [Suc a..<?E] (token_input [token])
        (pos + t_dims ids ! 1) c1 (tokens @ [token]) = Inr (reason, out, n, c')"
      using Suc.prems(1) fw tok False by (simp add: upt)
    have "j = ?E - Suc a" using Suc.hyps(2) by simp
    from Suc.hyps(1) [OF this gen _ at] obtain rs' ids' pos' where
      rs': "runs_at W (n * ?C) c' ids' pos' out (n - 1) rs'"
        "computes W (\<lambda>r. tensor_loop (?cx r) [Suc a..<?E] (rs2 r)) (\<lambda>r. Inr (Some reason, rs' r))"
      by (auto simp: token_input_def)
    have "computes W (\<lambda>r. ?K r (d, rs1 r)) (\<lambda>r. Inr (Some reason, rs' r))"
      by (subst computes_cong [OF K refl]) (auto intro: rs'(2))
    from loop [OF this] rs'(1) show ?thesis by blast
  qed
qed simp


section \<open>Whole ranks\<close>

lemma load_plan:
  assumes "tp_load_sharded ops ck cfg p cap alg = Inr m"
  shows "length (tpl_blocks m) = num_hidden_layers cfg \<and> vpe_algorithm (tpl_embeddings m) = alg \<and>
     cpl_gather_output (tpl_lm_head m) \<and>
     (\<forall>b \<in> set (tpl_blocks m). rpl_algorithm (tpa_o_proj (tpb_attention b)) = alg \<and> rpl_algorithm (tpm_down_proj (tpb_mlp b)) = alg)"
proof -
  have block: "rpl_algorithm (tpa_o_proj (tpb_attention b)) = alg \<and> rpl_algorithm (tpm_down_proj (tpb_mlp b)) = alg"
    if "tp_block_load src l cfg p alg = Inr b" for src l b
    using that by (auto simp: tp_block_load_def tp_attention_load_def tp_mlp_load_def row_from_weight_def Let_def)
  from assms obtain bs where bs: "map (\<lambda>l. tp_block_load (mmap_sharded_weights ck) l cfg p alg) [0..<num_hidden_layers cfg] = map Inr bs"
    "tpl_blocks m = bs" and rest: "vpe_algorithm (tpl_embeddings m) = alg" "cpl_gather_output (tpl_lm_head m)"
    by (auto simp: tp_load_sharded_def tp_load_from_def with_all_reduce_def head_from_weight_def column_from_weight_def
        collect_results_Inr split: if_splits)
  have "\<exists>l. tp_block_load (mmap_sharded_weights ck) l cfg p alg = Inr b" if "b \<in> set bs" for b
  proof -
    have "Inr b \<in> set (map (\<lambda>l. tp_block_load (mmap_sharded_weights ck) l cfg p alg) [0..<num_hidden_layers cfg])"
      unfolding bs(1) using that by simp
    then show ?thesis by (auto dest: sym)
  qed
  with block have "\<forall>b \<in> set bs. rpl_algorithm (tpa_o_proj (tpb_attention b)) = alg \<and> rpl_algorithm (tpm_down_proj (tpb_mlp b)) = alg"
    by blast
  moreover have "length bs = num_hidden_layers cfg" using arg_cong [OF bs(1), of length] by simp
  ultimately show ?thesis using bs(2) rest by simp
qed

text \<open>A manifest that fits the world and the files it names: all ranks load.\<close>

definition tensor_manifest_ok ::
  "nat \<Rightarrow> ('v, 'd) tensor_env \<Rightarrow> tensor_parallel_manifest \<Rightarrow> 'v checkpoint \<Rightarrow> 'd tokenizer \<Rightarrow> (usize \<Rightarrow> 'v tp_llama) \<Rightarrow> 'v kv_cache \<Rightarrow> bool" where
  "tensor_manifest_ok W env mf ck tok m c \<longleftrightarrow>
     0 < W \<and> W \<le> 256 \<and> tman_schema_version mf = 1 \<and> tman_dtype mf = PlanF32 \<and> tman_tensor_parallel mf = W \<and>
     tpp_tensor_parallel (tman_partition mf) = W \<and> length (tpp_ranks (tman_partition mf)) = W \<and>
     tman_effective_max_new_tokens mf \<le> 2 ^ 36 \<and>
     te_checkpoint env (tman_checkpoint_path mf) = Inr ck \<and> te_tokenizer env (tman_tokenizer_path mf) = Inr tok \<and>
     (\<forall>r \<in> set [0..<W]. tp_load_sharded (te_ops env) ck (config (spec (tman_model mf))) (tp_context r W)
        (tman_context_capacity mf) (tman_all_reduce mf) = Inr (m r)) \<and>
     kv_new_tensor_parallel (op_zero (te_ops env)) (config (spec (tman_model mf))) W (tman_context_capacity mf) F32 = Inr c"

lemma prepare_tensor_rank_ok:
  assumes "tensor_manifest_ok W env mf ck tok m c" "r < W"
  shows "prepare_tensor_rank env (member W r) mf = Inr (tpp_ranks (tman_partition mf) ! r, m r, c)"
  using assms by (simp add: tensor_manifest_ok_def prepare_tensor_rank_def tensor_parallel_def context_validate_def Let_def)

lemma manifest_same_plan:
  assumes "tensor_manifest_ok W env mf ck tok m c"
  shows "same_plan W (tman_all_reduce mf) m" "length (tpl_blocks (m 0)) = num_hidden_layers (config (spec (tman_model mf)))"
proof -
  have W: "0 < W" and load: "\<And>r. r < W \<Longrightarrow> tp_load_sharded (te_ops env) ck (config (spec (tman_model mf))) (tp_context r W)
      (tman_context_capacity mf) (tman_all_reduce mf) = Inr (m r)" using assms by (auto simp: tensor_manifest_ok_def)
  note plan = load_plan [OF load]
  show "length (tpl_blocks (m 0)) = num_hidden_layers (config (spec (tman_model mf)))" using plan [OF W] by blast
  then show "same_plan W (tman_all_reduce mf) m" unfolding same_plan_def using plan by metis
qed

lemma local_head_dim:
  assumes "kv_new_tensor_parallel z cfg W cap F32 = Inr c" "0 < num_hidden_layers cfg"
  shows "\<exists>d. head_dim (local_config cfg W) = Inr d"
  using assms
  by (auto simp: kv_new_tensor_parallel_def kv_new_def kv_new_for_layers_def local_config_def layer_new_def
      collect_results_Inr upt_conv_Cons split: if_splits)


definition tensor_start :: "rank \<Rightarrow> tensor_parallel_manifest \<Rightarrow> resource_snapshot \<Rightarrow> 'v kv_cache \<Rightarrow> 'v tensor_run" where
  "tensor_start rk mf rsn c =
     emit_run (run_event_kind.CollectiveCompleted EvBarrier 0) (emit_run (run_event_kind.CollectiveStarted EvBarrier 0)
       \<lparr>tru_tp = \<lparr>ts_cache = c, ts_collectives = native_new rk, ts_observer = emit ModelLoadFinished (emit ModelLoadStarted
           (emit (MemorySample (rsn_memory_current_bytes rsn) (rsn_memory_limit_bytes rsn)) (recorder_new (global_rank rk))))\<rparr>,
        tru_input = token_input (tman_prompt_token_ids mf), tru_position = 0, tru_tokens = [], tru_decode_forward_count = 0\<rparr>)"

lemma tensor_start_at:
  "runs_at W 0 (\<lambda>_. c) (token_input (tman_prompt_token_ids mf)) 0 [] 0 (\<lambda>r. tensor_start (member W r) mf (rsn r) c)"
  by (simp add: runs_at_def caches_are_def in_step_def tensor_start_def native_new_def)

definition tensor_report_of ::
  "rank \<Rightarrow> tensor_parallel_manifest \<Rightarrow> peer_info list \<Rightarrow> resource_snapshot \<Rightarrow> tensor_parallel_memory_plan \<Rightarrow> string \<Rightarrow> u64
     \<Rightarrow> stop_reason \<Rightarrow> 'v tensor_run \<Rightarrow> tensor_parallel_rank_report" where
  "tensor_report_of rk mf peers rsn memory completion used reason rs =
     (let trs = traces (ts_collectives (tru_tp rs)) in
      \<lparr>tprr_schema_version = 1, tprr_run_id = tman_run_id mf, tprr_request_id = tman_request_id mf,
       tprr_rank = global_rank rk, tprr_peers = peers, tprr_memory = memory, tprr_resources = rsn,
       tprr_final_kv_cache_bytes = used, tprr_collectives = trs,
       tprr_sent_bytes = sum_list (map tr_sent_bytes trs), tprr_received_bytes = sum_list (map tr_received_bytes trs),
       tprr_generated_tokens = tru_tokens rs, tprr_completion = completion, tprr_stop_reason = reason,
       tprr_decode_forward_count = tru_decode_forward_count rs, tprr_events = er_events (ts_observer (tru_tp rs)),
       tprr_barriers_passed = True, tprr_success = True\<rparr>)"

definition tensor_report where
  "tensor_report rk mf peers rsn memory completion used reason rs =
     tensor_report_of rk mf peers rsn memory completion used reason
       (emit_run (run_event_kind.CollectiveCompleted EvBarrier 1) (emit_run (run_event_kind.CollectiveStarted EvBarrier 1)
          (emit_run (GenerationFinished reason) rs)))"

lemma pr_bind_barrier [simp]: "pr_bind (tensor_barrier g rs) K =
    Barrier (K (emit_run (run_event_kind.CollectiveCompleted EvBarrier g) (emit_run (run_event_kind.CollectiveStarted EvBarrier g) rs)))"
  by (simp add: tensor_barrier_def pr_bind_def)

lemma run_tensor_parallel_rank_parts:
  assumes prep: "prepare_tensor_rank env (member W r) mf = Inr (memory, m r, c)"
    and tok: "te_tokenizer env (tman_tokenizer_path mf) = Inr tok"
    and decode: "tok_decode tok (tru_tokens rs') = Inr completion"
    and used: "kv_used_bytes (ts_cache (tru_tp rs')) (local_config (config (spec (tman_model mf))) (tman_tensor_parallel mf)) F32 = Inr used"
  shows "\<exists>K. run_tensor_parallel_rank env (member W r) mf peers rsn =
      Barrier (pr_bind (tensor_loop (tensor_contexts W env mf (config (spec (tman_model mf))) m r) [0..<tman_effective_max_new_tokens mf]
        (tensor_start (member W r) mf rsn c)) K) \<and>
     K (Some reason, rs') = Barrier (Ret (Inr (tensor_report (member W r) mf peers rsn memory (if r = 0 then completion else []) used reason rs')))"
proof -
  let ?rk = "member W r" and ?cfg = "config (spec (tman_model mf))"
  let ?tok = "if r = 0 then Some tok else None"
  let ?K = "\<lambda>(stop, rs2).
     pr_bind (Ret (ok_or (InvalidRequest ''generation ended without a stop reason'') stop)) (\<lambda>reason.
     pr_bind (tensor_barrier 1 (emit_run (GenerationFinished reason) rs2)) (\<lambda>rs3.
     pr_bind (Ret (case ?tok of Some t \<Rightarrow> map_err TpTokenizer (tok_decode t (tru_tokens rs3)) | None \<Rightarrow> Inr [])) (\<lambda>completion.
     pr_bind (Ret (map_err TpRuntime (kv_used_bytes (ts_cache (tru_tp rs3)) (local_config ?cfg (tman_tensor_parallel mf)) F32))) (\<lambda>used.
     Ret (Inr (tensor_report_of ?rk mf peers rsn memory completion used reason rs3))))))"
  have "run_tensor_parallel_rank env ?rk mf peers rsn =
      Barrier (pr_bind (tensor_loop (tensor_contexts W env mf ?cfg m r) [0..<tman_effective_max_new_tokens mf]
        (tensor_start ?rk mf rsn c)) ?K)"
    using prep tok
    by (simp add: run_tensor_parallel_rank_def tensor_start_def tensor_contexts_def tensor_report_of_def
        take_traces_def Let_def)
  moreover have "?K (Some reason, rs') = Barrier (Ret (Inr (tensor_report ?rk mf peers rsn memory (if r = 0 then completion else []) used reason rs')))"
    using decode used by (simp add: tensor_report_def Let_def)
  ultimately show ?thesis by blast
qed

text \<open>
  C2. The ranks of a tensor-parallel run agree. Take a manifest that fits the world and the
  files it names, and a run of the specification, which generates from all shards in one
  process. Then the ranks return in every schedule of the messages (no deadlock, no failure,
  no message left over), and every rank reports success, the tokens and the stop reason of
  the specification, one decode pass for each step after the first, exactly \<open>2 L + 2\<close>
  collective calls for each step, and the bytes of its own cache; the text is decoded on
  rank 0 only.
\<close>

theorem tensor_parallel_ranks_agree:
  fixes env :: "('v, 'd) tensor_env" and mf
  defines "cfg \<equiv> config (spec (tman_model mf))"
  assumes ok: "tensor_manifest_ok W env mf ck tok m c" and codec: "tensor_codec_ok env"
    and gen: "lock_generate (te_ops env) (te_scalars env) (tman_all_reduce mf) W m (eos_token_id cfg)
        (tman_requested_max_new_tokens mf) (tman_effective_max_new_tokens mf) [0..<tman_effective_max_new_tokens mf]
        (token_input (tman_prompt_token_ids mf)) 0 (\<lambda>_. c) [] = Inr (reason, tokens, n, c')"
    and completed: "tok_decode tok tokens = Inr completion"
  shows "\<exists>reports. all_runs_return W (\<lambda>r. run_tensor_parallel_rank env (member W r) mf (peers r) (rsn r)) (\<lambda>r. Inr (reports r)) \<and>
     list_all (\<lambda>r. tprr_rank (reports r) = r \<and> tprr_success (reports r) \<and> tprr_generated_tokens (reports r) = tokens \<and>
        tprr_stop_reason (reports r) = reason \<and> tprr_decode_forward_count (reports r) = n - 1 \<and>
        length (tprr_collectives (reports r)) = n * (2 * num_hidden_layers cfg + 2) \<and>
        tprr_completion (reports r) = (if r = 0 then completion else []) \<and>
        kv_used_bytes (c' r) (local_config cfg W) F32 = Inr (tprr_final_kv_cache_bytes (reports r))) [0..<W]"
proof -
  let ?E = "tman_effective_max_new_tokens mf" and ?L = "num_hidden_layers cfg"
  have W: "0 < W" "W \<le> 256" and tp: "tman_tensor_parallel mf = W" and E: "?E \<le> 2 ^ 36"
    and tok: "te_tokenizer env (tman_tokenizer_path mf) = Inr tok"
    and c: "kv_new_tensor_parallel (op_zero (te_ops env)) cfg W (tman_context_capacity mf) F32 = Inr c"
    using ok by (auto simp: tensor_manifest_ok_def cfg_def)
  note plan = manifest_same_plan [OF ok, folded cfg_def]
  have L: "0 < ?L \<and> ?L \<le> 32" by (cases "tman_model mf") (simp_all add: cfg_def spec_simps)
  have "?E * (2 * ?L + 2) \<le> 2 ^ 36 * 2 ^ 8" using E L by (intro mult_le_mono) auto
  then have "?E * (2 * length (tpl_blocks (m 0)) + 2) \<le> 2 ^ 44" unfolding plan(2) by simp
  note loops = tensor_loop_computes [OF W plan(1) codec tp this gen, of "\<lambda>r. tensor_start (member W r) mf (rsn r) c"]
  have "length (t_dims (token_input (tman_prompt_token_ids mf))) = 2" by (simp add: token_input_def)
  from loops [OF this, unfolded plan(2)] tensor_start_at [of W c mf rsn]
  obtain rs' ids' pos' where at: "runs_at W (n * (2 * ?L + 2)) c' ids' pos' tokens (n - 1) rs'"
    and loop: "computes W (\<lambda>r. tensor_loop (tensor_contexts W env mf cfg m r) [0..<?E] (tensor_start (member W r) mf (rsn r) c))
        (\<lambda>r. Inr (Some reason, rs' r))"
    unfolding mult_0 zero_diff by blast
  from local_head_dim [OF c] L obtain d where d: "head_dim (local_config cfg W) = Inr d" by (elim conjE) auto
  define used where "used r = projr (kv_used_bytes (c' r) (local_config cfg W) F32)" for r
  have used: "kv_used_bytes (c' r) (local_config cfg W) F32 = Inr (used r)" for r
    using d by (simp add: used_def kv_used_bytes_def)
  let ?report = "\<lambda>r. tensor_report (member W r) mf (peers r) (rsn r) (tpp_ranks (tman_partition mf) ! r)
      (if r = 0 then completion else []) (used r) reason (rs' r)"
  have "\<exists>K. \<forall>r. r < W \<longrightarrow> run_tensor_parallel_rank env (member W r) mf (peers r) (rsn r) =
      Barrier (pr_bind (tensor_loop (tensor_contexts W env mf cfg m r) [0..<?E] (tensor_start (member W r) mf (rsn r) c)) (K r)) \<and>
      K r (Some reason, rs' r) = Barrier (Ret (Inr (?report r)))"
  proof (rule choice, intro allI, goal_cases)
    case (1 r)
    show ?case
    proof (cases "r < W")
      case True
      with at have rs': "tru_tokens (rs' r) = tokens" "ts_cache (tru_tp (rs' r)) = c' r"
        by (simp_all add: runs_at_def caches_are_def)
      from run_tensor_parallel_rank_parts [where m = m and reason = reason, OF prepare_tensor_rank_ok [OF ok True] tok]
        completed used [of r] show ?thesis unfolding rs' [symmetric] tp [symmetric] cfg_def by blast
    qed simp
  qed
  then obtain K where run: "\<And>r. r < W \<Longrightarrow> run_tensor_parallel_rank env (member W r) mf (peers r) (rsn r) =
      Barrier (pr_bind (tensor_loop (tensor_contexts W env mf cfg m r) [0..<?E] (tensor_start (member W r) mf (rsn r) c)) (K r))"
    and K: "\<And>r. r < W \<Longrightarrow> K r (Some reason, rs' r) = Barrier (Ret (Inr (?report r)))" by blast
  have "computes W (\<lambda>r. K r (Some reason, rs' r)) (\<lambda>r. Inr (?report r))"
    by (subst computes_cong [OF K refl]) (use W in \<open>auto intro: computes_barrier computes_Ret\<close>)
  then have "computes W (\<lambda>r. pr_bind (tensor_loop (tensor_contexts W env mf cfg m r) [0..<?E] (tensor_start (member W r) mf (rsn r) c)) (K r))
      (\<lambda>r. Inr (?report r))"
    by (rule computes_pr_bind [OF loop])
  then have "computes W (\<lambda>r. run_tensor_parallel_rank env (member W r) mf (peers r) (rsn r)) (\<lambda>r. Inr (?report r))"
    by (subst computes_cong [OF run refl]) (use W in \<open>auto intro: computes_barrier\<close>)
  then show ?thesis
    using computes_all_runs at used
    by (intro exI [of _ ?report]) (auto simp: tensor_report_def tensor_report_of_def runs_at_def caches_are_def in_step_def list_all_iff Let_def)
qed

end
