(* ===== verification/Artifacts.thy ===== *)
theory Artifacts
  imports Packets MemoryPlan "HOL-Library.Multiset"
begin

text \<open>
  Validation of downloaded artifacts against the registry
  (\<open>crates/runtime/src/artifacts.rs\<close>) and registry inspection
  (\<open>crates/runtime/src/inspect.rs\<close>). Resolving files through the Hub, reading them and parsing
  JSON and the safetensors header is outside the model: the validators take what was parsed.
  A \<open>BTreeMap\<close> is an association list kept in key order.
\<close>

section \<open>Ordered maps\<close>

fun str_less :: "string \<Rightarrow> string \<Rightarrow> bool" where
  "str_less _ [] = False"
| "str_less [] (d # ds) = True"
| "str_less (c # cs) (d # ds) = (of_char c < (of_char d :: nat) \<or> c = d \<and> str_less cs ds)"

fun bt_insert :: "string \<Rightarrow> 'a \<Rightarrow> (string \<times> 'a) list \<Rightarrow> (string \<times> 'a) list" where
  "bt_insert k v [] = [(k, v)]"
| "bt_insert k v ((k', v') # m) =
     (if k = k' then (k, v) # m
      else if str_less k k' then (k, v) # (k', v') # m
      else (k', v') # bt_insert k v m)"

lemma map_of_bt_insert: "map_of (bt_insert k v m) = (map_of m)(k \<mapsto> v)"
  by (induction m) (auto simp: fun_eq_iff)

lemma mset_bt_insert: "k \<notin> fst ` set m \<Longrightarrow> mset (bt_insert k v m) = add_mset (k, v) (mset m)"
  by (induction m) (auto split: prod.splits)

definition bt_collect :: "(string \<times> 'a) list \<Rightarrow> (string \<times> 'a) list" where
  "bt_collect kvs = fold (\<lambda>(k, v). bt_insert k v) kvs []"

lemma bt_fold:
  "map_of (fold (\<lambda>(k, v). bt_insert k v) kvs m) = map_of m ++ map_of (rev kvs)"
  by (induction kvs arbitrary: m) (auto simp: map_of_bt_insert map_add_def fun_eq_iff split: option.splits)

lemma bt_fold_mset:
  "distinct (map fst kvs) \<Longrightarrow> fst ` set m \<inter> fst ` set kvs = {} \<Longrightarrow>
     mset (fold (\<lambda>(k, v). bt_insert k v) kvs m) = mset kvs + mset m"
proof (induction kvs arbitrary: m)
  case Nil
  then show ?case by simp
next
  case (Cons kv kvs)
  obtain k v where kv: "kv = (k, v)" by (cases kv)
  have new: "mset (bt_insert k v m) = add_mset (k, v) (mset m)"
    using Cons.prems(2) kv by (intro mset_bt_insert) auto
  then have "set (bt_insert k v m) = insert (k, v) (set m)"
    by (metis set_mset_add_mset_insert set_mset_mset)
  then have "fst ` set (bt_insert k v m) \<inter> fst ` set kvs = {}" using Cons.prems kv by auto
  with Cons.IH [of "bt_insert k v m"] Cons.prems(1) new kv show ?case by simp
qed

lemma bt_collect_lookup:
  "distinct (map fst kvs) \<Longrightarrow> (k, v) \<in> set kvs \<Longrightarrow> map_of (bt_collect kvs) k = Some v"
  unfolding bt_collect_def by (simp add: bt_fold map_of_eq_Some_iff flip: rev_map)

lemma bt_collect_mset: "distinct (map fst kvs) \<Longrightarrow> mset (bt_collect kvs) = mset kvs"
  unfolding bt_collect_def by (simp add: bt_fold_mset)

section \<open>Metadata\<close>

record hub_llama_config =
  hub_architectures :: "string list"
  hub_model_type :: string
  hub_hidden_act :: string
  hub_attention_bias :: bool
  hub_mlp_bias :: bool
  hub_config :: model_config
  hub_rope_scaling :: bool

fun str_contains :: "string \<Rightarrow> string \<Rightarrow> bool" where
  "str_contains [] pat = (pat = [])"
| "str_contains (c # cs) pat = (take (length pat) (c # cs) = pat \<or> str_contains cs pat)"

definition required_template_markers :: "model_spec \<Rightarrow> string list" where
  "required_template_markers s =
     (case ms_prompt_template s of
        SmolChatMl \<Rightarrow> [''<|im_start|>'', ''<|im_end|>'']
      | TinyLlamaChat \<Rightarrow> [''<|user|>'', ''<|assistant|>''])"

fun check_markers :: "model_spec \<Rightarrow> string \<Rightarrow> string list \<Rightarrow> unit dresult" where
  "check_markers s tmpl [] = Inr ()"
| "check_markers s tmpl (mk # mks) =
     (if \<not> str_contains tmpl mk
      then Inl (CheckpointMismatch (''chat template for '' @ model_id_as_str (ms_id s)
             @ '' is missing expected marker '' @ [CHR 0x22] @ mk @ [CHR 0x22]))
      else check_markers s tmpl mks)"

text \<open>
  \<open>hub_rope_scaling\<close> tells whether the field is present and not null. The message of a differing
  configuration prints both records; here it ends where they begin.
\<close>

definition validate_metadata ::
  "model_spec \<Rightarrow> hub_llama_config dresult \<Rightarrow> string option dresult \<Rightarrow> unit dresult" where
  "validate_metadata s config_file chat_template_file =
     rbind config_file (\<lambda>c.
       if hub_architectures c \<noteq> [''LlamaForCausalLM''] \<or> hub_model_type c \<noteq> ''llama'' \<or> hub_hidden_act c \<noteq> ''silu''
          \<or> hub_attention_bias c \<or> hub_mlp_bias c \<or> hub_rope_scaling c
       then Inl (CheckpointMismatch
         ''only unbiased LlamaForCausalLM checkpoints with SiLU and unscaled RoPE are supported'')
       else if hub_config c \<noteq> config s
       then Inl (CheckpointMismatch (''config for '' @ model_id_as_str (ms_id s)
              @ '' differs from the compiled registry''))
       else rbind chat_template_file (\<lambda>t.
         rbind (ok_or (CheckpointMismatch ''tokenizer_config.json has no chat_template'') t) (\<lambda>tmpl.
         check_markers s tmpl (required_template_markers s))))"

section \<open>Tensor manifest\<close>

fun checkpoint_safetensors :: "checkpoint_dtype \<Rightarrow> dtype" where
  "checkpoint_safetensors CheckpointF16 = F16"
| "checkpoint_safetensors CheckpointBf16 = BF16"

definition layer_tensor_shapes :: "model_config \<Rightarrow> usize \<Rightarrow> usize \<Rightarrow> (string \<times> nat list) list" where
  "layer_tensor_shapes cfg kv_size layer =
     (let prefix = ''model.layers.'' @ show_nat layer; h = hidden_size cfg; i = intermediate_size cfg in
      [(prefix @ ''.self_attn.q_proj.weight'', [h, h]),
       (prefix @ ''.self_attn.k_proj.weight'', [kv_size, h]),
       (prefix @ ''.self_attn.v_proj.weight'', [kv_size, h]),
       (prefix @ ''.self_attn.o_proj.weight'', [h, h]),
       (prefix @ ''.mlp.gate_proj.weight'', [i, h]),
       (prefix @ ''.mlp.up_proj.weight'', [i, h]),
       (prefix @ ''.mlp.down_proj.weight'', [h, i]),
       (prefix @ ''.input_layernorm.weight'', [h]),
       (prefix @ ''.post_attention_layernorm.weight'', [h])])"

text \<open>The insertions in program order.\<close>

definition tensor_insertions :: "model_config \<Rightarrow> usize \<Rightarrow> (string \<times> nat list) list" where
  "tensor_insertions cfg kv_size =
     [(''model.embed_tokens.weight'', [vocab_size cfg, hidden_size cfg]),
      (''model.norm.weight'', [hidden_size cfg])]
     @ (if tie_word_embeddings cfg then [] else [(''lm_head.weight'', [vocab_size cfg, hidden_size cfg])])
     @ concat (map (layer_tensor_shapes cfg kv_size) [0..<num_hidden_layers cfg])"

definition expected_tensor_shapes :: "model_spec \<Rightarrow> (string \<times> nat list) list dresult" where
  "expected_tensor_shapes s =
     rbind (head_dim (config s)) (\<lambda>d.
       Inr (bt_collect (tensor_insertions (config s) (num_key_value_heads (config s) * d))))"

type_synonym tensor_metadata = "(string \<times> (nat list \<times> dtype)) list"

fun parameter_count :: "u64 \<Rightarrow> nat list list \<Rightarrow> u64 option" where
  "parameter_count acc [] = Some acc"
| "parameter_count acc (sh # shs) =
     Option.bind (checked_product 1 (map of_nat sh)) (\<lambda>count.
     Option.bind (checked_add acc count) (\<lambda>acc'. parameter_count acc' shs))"

definition show_checkpoint_dtype :: "checkpoint_dtype \<Rightarrow> string" where
  "show_checkpoint_dtype d = (case d of CheckpointF16 \<Rightarrow> ''F16'' | CheckpointBf16 \<Rightarrow> ''Bf16'')"

fun show_debug_list :: "('a \<Rightarrow> string) \<Rightarrow> 'a list \<Rightarrow> string" where
  "show_debug_list f [] = []"
| "show_debug_list f [x] = f x"
| "show_debug_list f (x # xs) = f x @ '', '' @ show_debug_list f xs"

definition quoted :: "string \<Rightarrow> string" where
  "quoted s = [CHR 0x22] @ s @ [CHR 0x22]"

definition manifest_mismatch :: "(string \<times> nat list) list \<Rightarrow> (string \<times> nat list) list \<Rightarrow> string" where
  "manifest_mismatch actual expected =
     (let missing = filter (\<lambda>k. map_of actual k = None) (map fst expected);
          unexpected = filter (\<lambda>k. map_of expected k = None) (map fst actual);
          wrong_shapes = concat (map (\<lambda>(k, sh). case map_of actual k of None \<Rightarrow> []
             | Some a \<Rightarrow> if a \<noteq> sh then [(k, sh, a)] else []) expected) in
      ''tensor manifest mismatch; missing=['' @ show_debug_list quoted missing
      @ ''], unexpected=['' @ show_debug_list quoted unexpected
      @ ''], wrong_shapes=['' @ show_debug_list (\<lambda>(k, sh, a).
           ''('' @ quoted k @ '', '' @ show_shape sh @ '', '' @ show_shape a @ '')'') wrong_shapes @ '']'')"

definition validate_tensor_metadata :: "model_spec \<Rightarrow> tensor_metadata \<Rightarrow> unit dresult" where
  "validate_tensor_metadata s tensors =
     rbind (expected_tensor_shapes s) (\<lambda>expected.
       let wrong_dtypes = map (\<lambda>(n, _, d). (n, d))
             (filter (\<lambda>(_, _, d). d \<noteq> checkpoint_safetensors (ms_checkpoint_dtype s)) tensors) in
       if wrong_dtypes \<noteq> []
       then Inl (CheckpointMismatch (''expected '' @ show_checkpoint_dtype (ms_checkpoint_dtype s) @ '' tensors but ''
              @ show_nat (length wrong_dtypes) @ '' tensors differed; first mismatches: [''
              @ show_debug_list (\<lambda>(n, d). ''('' @ quoted n @ '', '' @ show_dtype d @ '')'') (take 8 wrong_dtypes) @ '']''))
       else
         let actual = map (\<lambda>(n, sh, _). (n, sh)) tensors in
         if actual \<noteq> expected then Inl (CheckpointMismatch (manifest_mismatch actual expected))
         else rbind (ok_or (CheckpointMismatch ''parameter count overflow'')
                (parameter_count 0 (map (\<lambda>(_, sh, _). sh) tensors))) (\<lambda>parameters.
           if parameters \<noteq> expected_parameters s
           then Inl (CheckpointMismatch (''checkpoint has '' @ show_nat (unat parameters) @ '' parameters but ''
                  @ show_nat (unat (expected_parameters s)) @ '' are expected''))
           else Inr ()))"

section \<open>Inspection\<close>

record inspection_request =
  ir_model :: supported_model_id
  ir_dtype :: plan_dtype
  ir_context_length :: usize
  ir_device_memory_budget :: "memory_budget option"

record inspection_report =
  insp_schema_version :: u32
  insp_model :: supported_model_id
  insp_repository :: string
  insp_revision :: string
  insp_architecture :: string
  insp_config :: model_config
  insp_memory :: rank_memory_plan
  insp_caveat :: string

definition inspect :: "inspection_request \<Rightarrow> inspection_report dresult" where
  "inspect req =
     (let s = spec (ir_model req) in
      rbind (rank_memory_plan_for_model s (ir_dtype req) (ir_context_length req) (ir_device_memory_budget req)) (\<lambda>memory.
      Inr \<lparr>insp_schema_version = 1, insp_model = ir_model req, insp_repository = repository s,
           insp_revision = revision s, insp_architecture = ''LlamaForCausalLM'', insp_config = config s,
           insp_memory = memory,
           insp_caveat = ''Activations, workspaces, allocator fragmentation, and runtime memory are excluded.''\<rparr>))"

section \<open>The names of the manifest\<close>

lemma show_nat_inj: "show_nat m = show_nat n \<Longrightarrow> m = n"
  by (metis digits_value_show)

lemma show_nat_eq [simp]: "show_nat m = show_nat n \<longleftrightarrow> m = n"
  using show_nat_inj by blast

lemma show_nat_no_dot: "CHR ''.'' \<notin> set (show_nat n)"
  using show_nat_digits [of n] by (auto simp: list_all_iff is_ascii_digit_def)

lemma layer_name_cancel:
  assumes "show_nat i @ CHR ''.'' # x = show_nat j @ CHR ''.'' # y"
  shows "i = j"
proof -
  have "takeWhile (\<lambda>c. c \<noteq> CHR ''.'') (show_nat k @ CHR ''.'' # z) = show_nat k" for k z
    using show_nat_no_dot [of k] by (subst takeWhile_append2) auto
  with assms have "show_nat i = show_nat j" by metis
  then show ?thesis by (rule show_nat_inj)
qed

definition in_layer :: "usize \<Rightarrow> string \<Rightarrow> bool" where
  "in_layer i n \<longleftrightarrow> (\<exists>x. n = ''model.layers.'' @ show_nat i @ CHR ''.'' # x)"

lemma in_layer_unique: "in_layer i n \<Longrightarrow> in_layer j n \<Longrightarrow> i = j"
  unfolding in_layer_def using layer_name_cancel [of i _ j] by (auto simp only: same_append_eq)

definition layer_suffixes :: "string list" where
  "layer_suffixes = [''.self_attn.q_proj.weight'', ''.self_attn.k_proj.weight'', ''.self_attn.v_proj.weight'',
     ''.self_attn.o_proj.weight'', ''.mlp.gate_proj.weight'', ''.mlp.up_proj.weight'', ''.mlp.down_proj.weight'',
     ''.input_layernorm.weight'', ''.post_attention_layernorm.weight'']"

lemma layer_tensor_names:
  "map fst (layer_tensor_shapes cfg kv i) = map ((@) (''model.layers.'' @ show_nat i)) layer_suffixes"
  unfolding layer_tensor_shapes_def layer_suffixes_def Let_def list.map fst_conv ..

lemma layer_names: "n \<in> fst ` set (layer_tensor_shapes cfg kv i) \<Longrightarrow> in_layer i n"
  using layer_tensor_names [of cfg kv i] unfolding set_map [symmetric]
  by (auto simp: layer_suffixes_def in_layer_def)

lemma distinct_layer: "distinct (map fst (layer_tensor_shapes cfg kv i))"
proof -
  have "distinct layer_suffixes" by (simp add: layer_suffixes_def)
  then show ?thesis unfolding layer_tensor_names by (subst distinct_map) (auto intro: inj_onI)
qed

lemma names_of_layers:
  "fst ` set (concat (map f [0..<n])) = (\<Union>i < n. fst ` set (f i))"
  by (auto simp: image_UN atLeast0LessThan)

lemma distinct_layers:
  "distinct (map fst (concat (map (layer_tensor_shapes cfg kv) [0..<n])))"
proof (induction n)
  case 0
  then show ?case by simp
next
  case (Suc n)
  have "fst ` set (concat (map (layer_tensor_shapes cfg kv) [0..<n])) \<inter> fst ` set (layer_tensor_shapes cfg kv n) = {}"
    unfolding names_of_layers using in_layer_unique [OF layer_names layer_names] less_irrefl by blast
  with Suc distinct_layer show ?case by simp
qed

lemma distinct_insertions: "distinct (map fst (tensor_insertions cfg kv))"
proof -
  let ?top = "[''model.embed_tokens.weight'', ''model.norm.weight'', ''lm_head.weight'']"
  have "n \<notin> set ?top" if "n \<in> fst ` set (concat (map (layer_tensor_shapes cfg kv) [0..<k]))" for n k
  proof -
    from that obtain i where "in_layer i n" 
      unfolding names_of_layers using layer_names by blast
    then show ?thesis by (auto simp: in_layer_def)
  qed
  then show ?thesis
    using distinct_layers [of cfg kv "num_hidden_layers cfg"] unfolding tensor_insertions_def
    by (simp del: set_concat) blast
qed

section \<open>The validators accept exactly the registry's manifest\<close>

lemma member_le_prod_list: "x \<in> set xs \<Longrightarrow> 0 \<notin> set xs \<Longrightarrow> x \<le> prod_list (xs :: nat list)"
proof (induction xs)
  case (Cons y ys)
  then have "1 \<le> prod_list ys" using prod_list_zero_iff [of ys] by (auto simp: Suc_le_eq)
  with Cons show ?case by (cases "x = y") (auto intro: trans_le_add1 order_trans)
qed simp

lemma parameter_count_fits:
  assumes "\<forall>sh \<in> set shs. 0 \<notin> set sh" "unat acc + sum_list (map prod_list shs) < 2 ^ 64"
  shows "\<exists>w. parameter_count acc shs = Some w \<and> unat w = unat acc + sum_list (map prod_list shs)"
  using assms
proof (induction shs arbitrary: acc)
  case Nil
  then show ?case by simp
next
  case (Cons sh shs)
  have small: "d < 2 ^ 64" "d \<noteq> 0" if "d \<in> set sh" for d
    using member_le_prod_list [OF that] Cons.prems that by (auto intro: gr0I)
  then have dims: "map unat (map of_nat sh :: u64 list) = sh"
    by (auto intro!: map_idI simp: comp_def)
  have nz: "0 \<notin> set (map of_nat sh :: u64 list)"
    using small by (force simp: unat_eq_0 [symmetric])
  obtain c where c: "checked_product 1 (map of_nat sh) = Some (c :: u64)" "unat c = prod_list sh"
    using checked_product_fits [of "1 :: u64" "map of_nat sh"] dims nz Cons.prems(2) by auto
  obtain a where a: "checked_add acc c = Some a" "unat a = unat acc + prod_list sh"
    using checked_add_fits [of acc c] c(2) Cons.prems(2) by auto
  from Cons.IH [of a] Cons.prems a(2) obtain w where
    "parameter_count a shs = Some w" "unat w = unat a + sum_list (map prod_list shs)" by auto
  with a c show ?case by auto
qed

lemma layers_parameters:
  "sum_list (map (\<lambda>x. prod_list (snd x)) (concat (map (layer_tensor_shapes cfg kv) [0..<n]))) =
     n * (2 * hidden_size cfg * hidden_size cfg + 2 * kv * hidden_size cfg
          + 3 * intermediate_size cfg * hidden_size cfg + 2 * hidden_size cfg)"
  by (induction n) (simp_all add: layer_tensor_shapes_def Let_def algebra_simps)

lemma insertions_parameters:
  "sum_list (map (\<lambda>x. prod_list (snd x)) (tensor_insertions (config (spec m)) (num_key_value_heads (config (spec m)) * 64)))
     = unat (expected_parameters (spec m))"
  unfolding tensor_insertions_def map_append sum_list_append layers_parameters
  by (cases m) (simp_all add: spec_simps)

lemma insertions_nonzero:
  "sh \<in> snd ` set (tensor_insertions (config (spec m)) (num_key_value_heads (config (spec m)) * 64)) \<Longrightarrow> 0 \<notin> set sh"
  by (cases m) (auto simp: tensor_insertions_def layer_tensor_shapes_def Let_def spec_simps)

lemma expected_parameter_count:
  assumes "expected_tensor_shapes (spec m) = Inr expected"
  shows "parameter_count 0 (map snd expected) = Some (expected_parameters (spec m))"
proof -
  let ?ins = "tensor_insertions (config (spec m)) (num_key_value_heads (config (spec m)) * 64)"
  have perm: "mset expected = mset ?ins"
    using assms bt_collect_mset [OF distinct_insertions] by (auto simp: expected_tensor_shapes_def)
  have "sum_list (map prod_list (map snd expected)) = sum_mset (image_mset (\<lambda>x. prod_list (snd x)) (mset expected))"
    by (simp add: sum_mset_sum_list [symmetric] comp_def)
  also have "\<dots> = unat (expected_parameters (spec m))"
    unfolding perm using insertions_parameters [of m] by (simp add: sum_mset_sum_list [symmetric])
  finally have sum: "sum_list (map prod_list (map snd expected)) = unat (expected_parameters (spec m))" .
  have "set expected = set ?ins" using perm by (metis set_mset_mset)
  then have "\<forall>sh \<in> set (map snd expected). 0 \<notin> set sh" using insertions_nonzero by auto
  from parameter_count_fits [OF this, of 0] sum show ?thesis
    using unat_u64_bound [of "expected_parameters (spec m)"] by (auto simp: word_unat_eq_iff)
qed

definition expected_metadata :: "supported_model_id \<Rightarrow> tensor_metadata" where
  "expected_metadata m =
     map (\<lambda>(n, sh). (n, sh, checkpoint_safetensors (ms_checkpoint_dtype (spec m))))
       (projr (expected_tensor_shapes (spec m)))"

lemma expected_shapes_exist: "expected_tensor_shapes (spec m) = Inr (projr (expected_tensor_shapes (spec m)))"
  by (simp add: expected_tensor_shapes_def)

lemma expected_metadata_accepted: "validate_tensor_metadata (spec m) (expected_metadata m) = Inr ()"
proof -
  obtain e where e: "expected_tensor_shapes (spec m) = Inr e" using expected_shapes_exist by blast
  have "map (\<lambda>(_, sh, _). sh) (expected_metadata m) = map snd e" "map (\<lambda>(n, sh, _). (n, sh)) (expected_metadata m) = e"
    unfolding expected_metadata_def e by (auto intro!: map_idI simp: comp_def case_prod_unfold)
  moreover have "filter (\<lambda>(_, _, d). d \<noteq> checkpoint_safetensors (ms_checkpoint_dtype (spec m))) (expected_metadata m) = []"
    unfolding expected_metadata_def by (auto simp: filter_empty_conv)
  ultimately show ?thesis
    using e expected_parameter_count [OF e] by (simp add: validate_tensor_metadata_def)
qed

text \<open>
  C16. \<open>validate_tensor_metadata\<close> accepts a checkpoint of a registered model if and only if its tensors
  are exactly the expected ones (names, shapes, order of the map) in the registered dtype:
  the pinned parameter count of both models agrees with the shapes, so that check never
  rejects a manifest the shape check let through, and nothing overflows.
\<close>

theorem manifest_validation_exact:
  "validate_tensor_metadata (spec m) tensors = Inr () \<longleftrightarrow>
     (\<exists>expected. expected_tensor_shapes (spec m) = Inr expected \<and>
        tensors = map (\<lambda>(n, sh). (n, sh, checkpoint_safetensors (ms_checkpoint_dtype (spec m)))) expected)"
    (is "?accepts \<longleftrightarrow> ?exact")
proof
  let ?d = "checkpoint_safetensors (ms_checkpoint_dtype (spec m))"
  assume ?accepts
  then obtain expected where e: "expected_tensor_shapes (spec m) = Inr expected"
    "\<forall>(n, sh, d) \<in> set tensors. d = ?d" "map (\<lambda>(n, sh, _). (n, sh)) tensors = expected"
    by (auto simp: validate_tensor_metadata_def Let_def filter_empty_conv split: if_splits)
  have "tensors = map (\<lambda>(n, sh). (n, sh, ?d)) (map (\<lambda>(n, sh, _). (n, sh)) tensors)"
    using e(2) by (auto intro!: map_idI [symmetric] simp: comp_def)
  with e show ?exact by auto
next
  assume ?exact
  then have "tensors = expected_metadata m" using expected_shapes_exist [of m] by (auto simp: expected_metadata_def)
  then show ?accepts by (simp add: expected_metadata_accepted)
qed

end
