(* ===== verification/TensorLoad.thy ===== *)
theory TensorLoad
  imports TensorParallel Artifacts PipelineSample
begin

text \<open>
  From a validated checkpoint to loaded models: every tensor the loaders ask for is in the
  manifest that \<open>validate_tensor_metadata\<close> accepts, with the shape they ask for. The mmap-backed
  source that reads only a rank's slices and the source that slices full tensors then give
  the same shards.
\<close>

section \<open>Both weight sources\<close>

text \<open>What \<open>MmapedSafetensors\<close> documents: a listed tensor can be loaded and has the listed shape.\<close>

definition checkpoint_lists :: "'v checkpoint \<Rightarrow> tensor_metadata \<Rightarrow> bool" where
  "checkpoint_lists ck tensors \<longleftrightarrow> (\<forall>(n, sh, _) \<in> set tensors. \<exists>t. ck n = Inr t \<and> t_dims t = sh)"

definition shard_shape :: "nat option \<Rightarrow> usize \<Rightarrow> nat list \<Rightarrow> nat list" where
  "shard_shape sd n shape = (case sd of None \<Rightarrow> shape | Some d \<Rightarrow> shape[d := shape ! d div n])"

text \<open>A source serves a request: both sources give the same tensor, of the shard's shape.\<close>

definition serves :: "'v checkpoint \<Rightarrow> parallel_context \<Rightarrow> string \<Rightarrow> nat list \<Rightarrow> nat option \<Rightarrow> 'v tensor \<Rightarrow> bool" where
  "serves ck p name shape sd t \<longleftrightarrow>
     mmap_sharded_weights ck name shape sd p = Inr t \<and>
     full_weights (checkpoint_get ck) name shape sd p = Inr t \<and> t_dims t = shard_shape sd (tp_size p) shape"

lemma sources_agree:
  assumes t: "ck name = Inr t" "t_dims t = shape" and p: "tp_rank p < tp_size p"
    and sd: "\<And>d. sd = Some d \<Longrightarrow> d < length shape \<and> d \<le> 1 \<and> shape ! d mod tp_size p = 0"
  shows "\<exists>u. serves ck p name shape sd u"
proof (cases sd)
  case None
  with t show ?thesis
    by (simp add: serves_def mmap_sharded_weights_def full_weights_def sharded_get_def shard_default_def
        checkpoint_get_def shard_shape_def)
next
  case (Some d)
  let ?n = "tp_size p" and ?c = "shape ! d div tp_size p"
  from sd Some have d: "d < length shape" "d \<le> 1" "shape ! d = ?c * ?n" by auto
  have "(tp_rank p + 1) * ?c \<le> ?n * ?c" using p by (intro mult_le_mono1) simp
  then have fits: "tp_rank p * ?c + ?c \<le> t_dims t ! d" using d(3) t(2) by (simp add: mult.commute)
  obtain vs where nar: "narrow t d (tp_rank p * ?c) ?c = Inr (t\<lparr>t_dims := shape[d := ?c], t_values := vs\<rparr>)"
    using narrow_shape [OF _ fits] d(1) t(2) by auto
  have "narrow t d 0 (shape ! d) = Inr t" if "?n = 1"
    using d(1) t(2) by (simp add: narrow_def Let_def)
  then have "sharded_get ck shape name \<lparr>sh_dim = d, sh_rank = tp_rank p, sh_world_size = ?n\<rparr> = narrow t d (tp_rank p * ?c) ?c"
    using t d p nar sd [OF Some] by (auto simp: sharded_get_def checkpoint_get_def Let_def)
  with t nar Some show ?thesis
    by (simp add: serves_def mmap_sharded_weights_def full_weights_def checkpoint_get_def shard_shape_def Let_def)
qed

section \<open>the manifest covers what is asked for\<close>

definition checkpoint_covers :: "'v checkpoint \<Rightarrow> model_config \<Rightarrow> bool" where
  "checkpoint_covers ck cfg \<longleftrightarrow> (\<exists>d. head_dim cfg = Inr d \<and>
     (\<forall>(n, sh) \<in> set (tensor_insertions cfg (num_key_value_heads cfg * d)). \<exists>t. ck n = Inr t \<and> t_dims t = sh))"

lemma validated_covers:
  assumes "validate_tensor_metadata s tensors = Inr ()" "checkpoint_lists ck tensors"
  shows "checkpoint_covers ck (config s)"
proof -
  from assms(1) obtain d where d: "head_dim (config s) = Inr d"
    and eq: "map (\<lambda>(n, sh, _). (n, sh)) tensors = bt_collect (tensor_insertions (config s) (num_key_value_heads (config s) * d))"
    by (auto simp: validate_tensor_metadata_def expected_tensor_shapes_def Let_def split: if_splits)
  have "set (map (\<lambda>(n, sh, _). (n, sh)) tensors) = set (tensor_insertions (config s) (num_key_value_heads (config s) * d))"
    unfolding eq using bt_collect_mset [OF distinct_insertions] by (metis set_mset_mset)
  with assms(2) d show ?thesis by (fastforce simp: checkpoint_covers_def checkpoint_lists_def)
qed

text \<open>The divisibility a plan guarantees.\<close>

lemma plan_divides:
  assumes "plan_tensor_shard cfg p = Inr plan"
  shows "tp_rank p < tp_size p" "vocab_size cfg mod tp_size p = 0" "hidden_size cfg mod tp_size p = 0"
    "intermediate_size cfg mod tp_size p = 0" "num_key_value_heads cfg mod tp_size p = 0"
    "tsp_vocabulary plan = shard_range_of p (vocab_size cfg)"
  using assms by (auto simp: plan_tensor_shard_def context_validate_def Let_def split: if_splits)

lemma served:
  assumes "checkpoint_covers ck cfg" "head_dim cfg = Inr d" "plan_tensor_shard cfg p = Inr plan"
    and "(name, shape) \<in> set (tensor_insertions cfg (num_key_value_heads cfg * d))"
    and "\<And>a. sd = Some a \<Longrightarrow> a < length shape \<and> a \<le> 1 \<and> shape ! a mod tp_size p = 0"
  shows "\<exists>u. serves ck p name shape sd u"
proof -
  from assms(1,2,4) obtain t where "ck name = Inr t" "t_dims t = shape" by (auto simp: checkpoint_covers_def)
  then show ?thesis using plan_divides(1) [OF assms(3)] assms(5) by (rule sources_agree)
qed

lemma layer_insertions:
  "layer < num_hidden_layers cfg \<Longrightarrow> x \<in> set (layer_tensor_shapes cfg kv layer) \<Longrightarrow> x \<in> set (tensor_insertions cfg kv)"
  by (auto simp: tensor_insertions_def)

section \<open>The loaders\<close>

lemma kv_width_divides:
  "num_key_value_heads cfg mod n = 0 \<Longrightarrow> num_key_value_heads cfg * d mod n = (0 :: nat)"
  by (metis mod_mult_left_eq mult_zero_left mod_0)

lemma attention_served:
  assumes c: "checkpoint_covers ck cfg" and d: "head_dim cfg = Inr d" and plan: "plan_tensor_shard cfg p = Inr plan"
    and l: "layer < num_hidden_layers cfg"
  shows "\<exists>a. tp_attention_load (mmap_sharded_weights ck) ((''model.layers.'' @ show_nat layer) @ ''.self_attn'') cfg p alg = Inr a \<and>
     tp_attention_load (full_weights (checkpoint_get ck)) ((''model.layers.'' @ show_nat layer) @ ''.self_attn'') cfg p alg = Inr a"
proof -
  let ?at = "(''model.layers.'' @ show_nat layer) @ ''.self_attn''" and ?h = "hidden_size cfg"
    and ?kv = "num_key_value_heads cfg * d"
  note div = plan_divides [OF plan] kv_width_divides [OF plan_divides(5) [OF plan], of d]
  note s = served [OF c d plan layer_insertions [OF l]]
  obtain q where q: "serves ck p (?at @ ''.q_proj.weight'') [?h, ?h] (Some 0) q"
    using s [of "?at @ ''.q_proj.weight''" "[?h, ?h]" "Some 0"] div by (auto simp: layer_tensor_shapes_def Let_def)
  obtain k where k: "serves ck p (?at @ ''.k_proj.weight'') [?kv, ?h] (Some 0) k"
    using s [of "?at @ ''.k_proj.weight''" "[?kv, ?h]" "Some 0"] div by (auto simp: layer_tensor_shapes_def Let_def)
  obtain v where v: "serves ck p (?at @ ''.v_proj.weight'') [?kv, ?h] (Some 0) v"
    using s [of "?at @ ''.v_proj.weight''" "[?kv, ?h]" "Some 0"] div by (auto simp: layer_tensor_shapes_def Let_def)
  obtain ow where ow: "serves ck p (?at @ ''.o_proj.weight'') [?h, ?h] (Some 1) ow"
    using s [of "?at @ ''.o_proj.weight''" "[?h, ?h]" "Some 1"] div by (auto simp: layer_tensor_shapes_def Let_def)
  have "row_from_weight ow alg = Inr \<lparr>rpl_weight = ow, rpl_algorithm = alg\<rparr>"
    using ow by (simp add: row_from_weight_def dims2_def serves_def shard_shape_def)
  with q k v ow d show ?thesis unfolding serves_def tp_attention_load_def by (simp add: Let_def)
qed

lemma mlp_served:
  assumes c: "checkpoint_covers ck cfg" and d: "head_dim cfg = Inr d" and plan: "plan_tensor_shard cfg p = Inr plan"
    and l: "layer < num_hidden_layers cfg"
  shows "\<exists>a. tp_mlp_load (mmap_sharded_weights ck) ((''model.layers.'' @ show_nat layer) @ ''.mlp'') cfg p alg = Inr a \<and>
     tp_mlp_load (full_weights (checkpoint_get ck)) ((''model.layers.'' @ show_nat layer) @ ''.mlp'') cfg p alg = Inr a"
proof -
  let ?at = "(''model.layers.'' @ show_nat layer) @ ''.mlp''" and ?h = "hidden_size cfg" and ?i = "intermediate_size cfg"
  note div = plan_divides [OF plan]
  note s = served [OF c d plan layer_insertions [OF l]]
  obtain g where g: "serves ck p (?at @ ''.gate_proj.weight'') [?i, ?h] (Some 0) g"
    using s [of "?at @ ''.gate_proj.weight''" "[?i, ?h]" "Some 0"] div by (auto simp: layer_tensor_shapes_def Let_def)
  obtain u where u: "serves ck p (?at @ ''.up_proj.weight'') [?i, ?h] (Some 0) u"
    using s [of "?at @ ''.up_proj.weight''" "[?i, ?h]" "Some 0"] div by (auto simp: layer_tensor_shapes_def Let_def)
  obtain dn where dn: "serves ck p (?at @ ''.down_proj.weight'') [?h, ?i] (Some 1) dn"
    using s [of "?at @ ''.down_proj.weight''" "[?h, ?i]" "Some 1"] div by (auto simp: layer_tensor_shapes_def Let_def)
  have "row_from_weight dn alg = Inr \<lparr>rpl_weight = dn, rpl_algorithm = alg\<rparr>"
    using dn by (simp add: row_from_weight_def dims2_def serves_def shard_shape_def)
  with g u dn show ?thesis unfolding serves_def tp_mlp_load_def by simp
qed

lemma block_served:
  assumes c: "checkpoint_covers ck cfg" and d: "head_dim cfg = Inr d" and plan: "plan_tensor_shard cfg p = Inr plan"
    and l: "layer < num_hidden_layers cfg"
  shows "\<exists>b. tp_block_load (mmap_sharded_weights ck) layer cfg p alg = Inr b \<and>
     tp_block_load (full_weights (checkpoint_get ck)) layer cfg p alg = Inr b"
proof -
  let ?pre = "''model.layers.'' @ show_nat layer" and ?h = "hidden_size cfg"
  note s = served [OF c d plan layer_insertions [OF l], where sd = None]
  obtain n1 where n1: "serves ck p (?pre @ ''.input_layernorm.weight'') [?h] None n1"
    using s [of "?pre @ ''.input_layernorm.weight''" "[?h]"] by (auto simp: layer_tensor_shapes_def Let_def)
  obtain n2 where n2: "serves ck p (?pre @ ''.post_attention_layernorm.weight'') [?h] None n2"
    using s [of "?pre @ ''.post_attention_layernorm.weight''" "[?h]"] by (auto simp: layer_tensor_shapes_def Let_def)
  from n1 n2 attention_served [OF c d plan l, of alg] mlp_served [OF c d plan l, of alg]
  show ?thesis unfolding serves_def tp_block_load_def Let_def by auto
qed

lemma collect_same:
  assumes "\<And>x. x \<in> set xs \<Longrightarrow> \<exists>b. f x = Inr b \<and> g x = Inr b"
  shows "\<exists>bs. length bs = length xs \<and> collect_results (map f xs) = Inr bs \<and> collect_results (map g xs) = Inr bs"
proof -
  from assms obtain b where "\<And>x. x \<in> set xs \<Longrightarrow> f x = Inr (b x) \<and> g x = Inr (b x)" by metis
  then have "map f xs = map Inr (map b xs)" "map g xs = map Inr (map b xs)" by auto
  then show ?thesis by (metis collect_results_Inr length_map)
qed

lemma full_block_loads:
  assumes c: "checkpoint_covers ck cfg" and d: "head_dim cfg = Inr d" and l: "layer < num_hidden_layers cfg"
  shows "\<exists>b. block_load (pp (''model.layers.'' @ show_nat layer) (checkpoint_get ck)) cfg = Inr b"
proof -
  have t: "\<exists>t. checkpoint_get ck n sh = Inr t" if "(n, sh) \<in> set (layer_tensor_shapes cfg (num_key_value_heads cfg * d) layer)" for n sh
  proof -
    from c d layer_insertions [OF l that] obtain t where "ck n = Inr t" "t_dims t = sh" by (auto simp: checkpoint_covers_def)
    then show ?thesis by (simp add: checkpoint_get_def)
  qed
  then obtain w where w: "\<forall>(n, sh) \<in> set (layer_tensor_shapes cfg (num_key_value_heads cfg * d) layer).
      checkpoint_get ck n sh = Inr (w n sh)" by (metis (mono_tags, lifting) case_prodI2)
  show ?thesis
    using w [unfolded layer_tensor_shapes_def Let_def] d
    by (simp add: block_load_def attention_load_def mlp_load_def load_rms_norm_def linear_no_bias_def pp_def Let_def)
qed

lemma top_insertions:
  "(''model.embed_tokens.weight'', [vocab_size cfg, hidden_size cfg]) \<in> set (tensor_insertions cfg kv)"
  "(''model.norm.weight'', [hidden_size cfg]) \<in> set (tensor_insertions cfg kv)"
  "\<not> tie_word_embeddings cfg \<Longrightarrow> (''lm_head.weight'', [vocab_size cfg, hidden_size cfg]) \<in> set (tensor_insertions cfg kv)"
  by (simp_all add: tensor_insertions_def)

lemma tp_loads:
  assumes c: "checkpoint_covers ck cfg" and d: "head_dim cfg = Inr d" and plan: "plan_tensor_shard cfg p = Inr plan"
    and v: "0 < vocab_size cfg" and r: "op_rope_tables ops cfg cap = Inr tables"
  shows "\<exists>m. tp_load_sharded ops ck cfg p cap alg = Inr m \<and> tp_load ops (checkpoint_get ck) cfg p cap alg = Inr m \<and>
     tpl_parallel m = p \<and> length (tpl_blocks m) = num_hidden_layers cfg"
proof -
  let ?v = "vocab_size cfg" and ?h = "hidden_size cfg" and ?n = "tp_size p"
  note div = plan_divides [OF plan]
  note s = served [OF c d plan]
  obtain e where e: "serves ck p ''model.embed_tokens.weight'' [?v, ?h] (Some 0) e"
    using s [OF top_insertions(1), of "Some 0"] div by auto
  obtain n where n: "serves ck p ''model.norm.weight'' [?h] None n" using s [OF top_insertions(2), of None] by auto
  obtain w where w: "\<not> tie_word_embeddings cfg \<Longrightarrow> serves ck p ''lm_head.weight'' [?v, ?h] (Some 0) w"
    using s [OF top_insertions(3), of "Some 0"] div by (cases "tie_word_embeddings cfg") auto
  from collect_same [of "[0..<num_hidden_layers cfg]" "\<lambda>layer. tp_block_load (mmap_sharded_weights ck) layer cfg p alg"
      "\<lambda>layer. tp_block_load (full_weights (checkpoint_get ck)) layer cfg p alg"] block_served [OF c d plan, of _ alg]
  obtain bs where
    bs: "length bs = num_hidden_layers cfg"
      "collect_results (map (\<lambda>layer. tp_block_load (mmap_sharded_weights ck) layer cfg p alg) [0..<num_hidden_layers cfg]) = Inr bs"
      "collect_results (map (\<lambda>layer. tp_block_load (full_weights (checkpoint_get ck)) layer cfg p alg) [0..<num_hidden_layers cfg]) = Inr bs"
    by auto
  have local: "?v = (?v div ?n) * ?n" using div(2) by auto
  then have pos: "?v div ?n \<noteq> 0" "?v mod (?v div ?n) = 0" using v by (metis mult_0 less_irrefl, metis mod_mult_self1_is_0)
  have "(tp_rank p + 1) * (?v div ?n) \<le> ?n * (?v div ?n)" using div(1) by (intro mult_le_mono1) simp
  then have "\<exists>x. embedding_from_weight e (tsp_vocabulary plan) ?v = Inr x"
    using e local div(6)
    by (simp add: embedding_from_weight_def dims2_def serves_def shard_shape_def range_len_def shard_range_of_def
        Let_def algebra_simps)
  moreover have "\<exists>x. head_from_weight (if tie_word_embeddings cfg then e else w) ?v = Inr x"
    using e w pos
    by (cases "tie_word_embeddings cfg")
       (auto simp: head_from_weight_def column_from_weight_def dims2_def serves_def shard_shape_def)
  moreover have "\<exists>x. rope_new ops cfg cap = Inr x" using d r by (cases tables) (simp add: rope_new_def)
  ultimately show ?thesis
    using e n w bs plan
    unfolding tp_load_sharded_def tp_load_def tp_load_from_def serves_def shard_shape_def
    by (cases "tie_word_embeddings cfg") auto
qed

lemma full_loads:
  assumes c: "checkpoint_covers ck cfg" and d: "head_dim cfg = Inr d" and r: "op_rope_tables ops cfg cap = Inr tables"
  shows "\<exists>m. llama_load ops (checkpoint_get ck) cfg cap = Inr m"
proof -
  have t: "\<exists>t. checkpoint_get ck n sh = Inr t" if "(n, sh) \<in> set (tensor_insertions cfg (num_key_value_heads cfg * d))" for n sh
    using c d that by (force simp: checkpoint_covers_def checkpoint_get_def)
  have "\<exists>bs. load_blocks (checkpoint_get ck) cfg [0..<num_hidden_layers cfg] = Inr bs"
    unfolding load_blocks_def
    using collect_same [of "[0..<num_hidden_layers cfg]"
        "\<lambda>i. block_load (pp (''model.layers.'' @ show_nat i) (checkpoint_get ck)) cfg"
        "\<lambda>i. block_load (pp (''model.layers.'' @ show_nat i) (checkpoint_get ck)) cfg"] full_block_loads [OF c d] by auto
  moreover have "\<exists>x. rope_new ops cfg cap = Inr x" using d r by (cases tables) (simp add: rope_new_def)
  ultimately show ?thesis
    using t [OF top_insertions(1)] t [OF top_insertions(2)] t [OF top_insertions(3)]
    by (cases "tie_word_embeddings cfg")
       (auto simp: llama_load_def load_embedding_def linear_no_bias_def load_rms_norm_def pp_def)
qed

text \<open>
  C15. A checkpoint that passes \<open>validate_tensor_metadata\<close> for a registered model loads: the single-rank
  loader succeeds on it, and for every valid tensor-parallel context both rank loaders
  succeed and give the same shards, the one that maps only the rank's slices of each
  tensor (\<open>load_sharded\<close>) and the one that slices the full tensors (\<open>load\<close>), with all layers.
\<close>

theorem validated_checkpoint_loads:
  assumes "validate_tensor_metadata (spec m) tensors = Inr ()" "checkpoint_lists ck tensors"
    and "plan_tensor_shard (config (spec m)) p = Inr plan"
    and "op_rope_tables ops (config (spec m)) cap = Inr tables"
  shows "(\<exists>full. llama_load ops (checkpoint_get ck) (config (spec m)) cap = Inr full) \<and>
     (\<exists>sharded. tp_load_sharded ops ck (config (spec m)) p cap alg = Inr sharded \<and>
        tp_load ops (checkpoint_get ck) (config (spec m)) p cap alg = Inr sharded \<and>
        tpl_parallel sharded = p \<and> length (tpl_blocks sharded) = num_hidden_layers (config (spec m)))"
proof -
  have c: "checkpoint_covers ck (config (spec m))" using assms(1,2) by (rule validated_covers)
  have "0 < vocab_size (config (spec m))" by (cases m) (simp_all add: spec_simps)
  from tp_loads [OF c spec_head_dim assms(3) this assms(4)] full_loads [OF c spec_head_dim assms(4)]
  show ?thesis by blast
qed

definition sample_store :: "supported_model_id \<Rightarrow> unit checkpoint" where
  "sample_store m n = (case map_of (expected_metadata m) n of None \<Rightarrow> Inl (CandleMsg n) | Some (sh, _) \<Rightarrow> Inr (cpu_f32 sh []))"

lemma sample_store_lists: "checkpoint_lists (sample_store m) (expected_metadata m)"
proof -
  have "expected_tensor_shapes (spec m) = Inr (bt_collect (tensor_insertions (config (spec m)) (num_key_value_heads (config (spec m)) * 64)))"
    by (simp add: expected_tensor_shapes_def)
  then have names: "map fst (expected_metadata m) = map fst (bt_collect (tensor_insertions (config (spec m)) (num_key_value_heads (config (spec m)) * 64)))"
    by (simp add: expected_metadata_def comp_def case_prod_unfold)
  have "distinct (map fst (expected_metadata m))"
    unfolding names using distinct_insertions bt_collect_mset [OF distinct_insertions]
    by (metis mset_eq_imp_distinct_iff mset_map)
  then show ?thesis by (auto simp: checkpoint_lists_def sample_store_def)
qed

theorem validated_checkpoint_loads_witness:
  "\<exists>sharded. tp_load_sharded sample_ops (sample_store SmolLm2_135MInstruct) (config (spec SmolLm2_135MInstruct))
       \<lparr>tp_rank = 1, tp_size = 3, pp_rank = 0, pp_size = 1, ep_rank = 0, ep_size = 1\<rparr> 8 Ring = Inr sharded \<and>
     length (tpl_blocks sharded) = 30"
proof -
  let ?p = "\<lparr>tp_rank = 1, tp_size = 3, pp_rank = 0, pp_size = 1, ep_rank = 0, ep_size = 1\<rparr>"
  obtain plan where plan: "plan_tensor_shard (config (spec SmolLm2_135MInstruct)) ?p = Inr plan"
    by (simp add: plan_tensor_shard_def context_validate_def spec_simps head_dim_def Let_def)
  have "num_hidden_layers (config (spec SmolLm2_135MInstruct)) = 30" by (simp add: spec_simps)
  with validated_checkpoint_loads [OF expected_metadata_accepted sample_store_lists plan sample_ops_sel(13), where alg = Ring and cap = 8]
  show ?thesis by auto
qed

end
