(* ===== verification/TensorSample.thy ===== *)
theory TensorSample
  imports TensorRun TensorLoad
begin

text \<open>
  Concrete tensor-parallel runs. Two ranks compute small layers on integers, with shards cut from
  a numbered checkpoint; three ranks run the registered 135M model on kernels that compute shapes
  only. They show that what the theorems assume can hold together.
\<close>

section \<open>Two ranks on integers\<close>

definition int_ops :: "int candle_ops" where
  "int_ops =
     \<lparr>op_add = (+), op_zero = 0, op_neg_infinity = - 1000000, op_linear = linear_exact, op_embedding = embedding_exact,
      op_rms_norm = (\<lambda>eps w x. Inr x), op_rope_tables = (\<lambda>cfg n. Inr (cpu_f32 [n, 1] [], cpu_f32 [n, 1] [])),
      op_rope = (\<lambda>x c s. Inr x), op_transpose = (\<lambda>x i j. Inr x), op_t = Inr, op_matmul = (\<lambda>x y. Inr x),
      op_div_sqrt = (\<lambda>x d. Inr x), op_softmax_last_dim = Inr,
      op_silu = (\<lambda>x. Inr (x\<lparr>t_values := map (max 0) (t_values x)\<rparr>)),
      op_mul = (\<lambda>x y. Inr (x\<lparr>t_values := map2 (*) (t_values x) (t_values y)\<rparr>)),
      op_to_dtype = (\<lambda>x d. Inr (x\<lparr>t_dtype := d\<rparr>)), op_argmax = (\<lambda>x. Inr 0)\<rparr>"

definition int_scalars :: "int scalar_ops" where
  "int_scalars = \<lparr>op_times = (*), op_one = 1\<rparr>"

lemma int_kernels: "exact_kernels int_ops" "op_embedding int_ops = embedding_exact" "op_linear int_ops = linear_exact"
  "neutral_scalars int_ops int_scalars"
  by (auto simp: exact_kernels_def neutral_scalars_def int_ops_def int_scalars_def)

text \<open>Every tensor holds the numbers 0, 1, 2, \<dots>.\<close>

definition numbered :: "int var_builder" where
  "numbered name shape = Inr (cpu_f32 shape (map int [0..<prod_list shape]))"

lemma numbered_ok: "stored_ok numbered"
  by (simp add: stored_ok_def numbered_def cpu_f32_def)

definition small_config :: model_config where
  "small_config = sample_config\<lparr>hidden_size := 2, intermediate_size := 4, vocab_size := 4\<rparr>"

definition fresh :: "'v kv_cache \<Rightarrow> nat \<Rightarrow> usize \<Rightarrow> ('v, unit) tp_state" where
  "fresh c W r = \<lparr>ts_cache = c, ts_collectives = native_new (member W r), ts_observer = ()\<rparr>"

lemma fresh_caches: "caches_are W 0 (\<lambda>_. c) (fresh c W)"
  by (simp add: caches_are_def in_step_def fresh_def native_new_def)

definition small_mlp :: "usize \<Rightarrow> int tp_mlp" where
  "small_mlp r = projr (tp_mlp_load (full_weights numbered) ''mlp'' small_config (tp_context r 2) Ring)"

definition small_cache :: "int kv_cache" where
  "small_cache = \<lparr>kv_layers = [], kv_capacity = 0\<rparr>"

lemma below_2: "r < 2 \<longleftrightarrow> r = 0 \<or> r = Suc 0"
  by auto

lemma small_narrow:
  "r < 2 \<Longrightarrow> length vs = 4 * i \<Longrightarrow> narrow (cpu_f32 [4, i] vs) 0 (r * 2) 2 = Inr (cpu_f32 [2, i] (block (r * 2 * i) (2 * i) vs))"
  using shard_rows [of 4 2 2 r vs i] by simp

theorem tensor_parallel_mlp_exact_witness:
  "\<exists>s'. mlp_forward int_ops (projr (mlp_load (pp ''mlp'' numbered) small_config)) (cpu_f32 [1, 1, 2] [1, 2]) = Inr (cpu_f32 [1, 1, 2] [1656, 4312]) \<and>
     all_runs_return 2 (\<lambda>r. tp_mlp_forward int_ops noop_observer (small_mlp r) (cpu_f32 [1, 1, 2] [1, 2]) (fresh small_cache 2 r))
       (\<lambda>r. Inr (cpu_f32 [1, 1, 2] [1656, 4312], s' r))"
proof -
  let ?x = "cpu_f32 [1, 1, 2] [1, 2] :: int tensor"
  let ?y = "cpu_f32 [1, 1, 2] [1656, 4312] :: int tensor"
  define full where "full = projr (mlp_load (pp ''mlp'' numbered) small_config)"
  have full: "mlp_load (pp ''mlp'' numbered) small_config = Inr full"
    by (simp add: full_def mlp_load_def linear_no_bias_def pp_def numbered_def)
  have shard: "tp_mlp_load (full_weights numbered) ''mlp'' small_config (tp_context r 2) Ring = Inr (small_mlp r)" if "r < 2" for r
    using that mlp_loads [OF numbered_ok _ full, of 2 2 Ring] by (auto simp: small_mlp_def small_config_def)
  have y: "mlp_forward int_ops full ?x = Inr ?y"
    by (simp add: full_def mlp_load_def linear_no_bias_def pp_def numbered_def small_config_def mlp_forward_def int_ops_def linear_exact_def
        lin_values_def upt_rec cpu_f32_def)
  have "activation 1 (hidden_size small_config) ?x"
    by (simp add: activation_def small_config_def wf_tensor_def elem_count_def)
  from tensor_parallel_mlp_exact [OF int_kernels(1) numbered_ok _ _ _ this _ _ _ _ full shard fresh_caches [of 2 small_cache],
      where c = 2 and ob = noop_observer] y
  show ?thesis unfolding full_def [symmetric] by (auto simp: small_config_def)
qed

definition small_embedding :: "usize \<Rightarrow> int vocab_parallel_embedding" where
  "small_embedding r =
     \<lparr>vpe_weight = cpu_f32 [2, 2] (block (r * 2 * 2) (2 * 2) (map int [0..<8])),
      vpe_range = \<lparr>sr_start = r * 2, sr_end = r * 2 + 2\<rparr>, vpe_global_vocabulary = 4, vpe_algorithm = Centralized\<rparr>"

theorem vocab_parallel_embedding_exact_witness:
  "\<exists>s'. op_embedding int_ops (cpu_f32 [4, 2] (map int [0..<8])) (token_input [3, 0]) = Inr (cpu_f32 [1, 2, 2] [6, 7, 0, 1]) \<and>
     all_runs_return 2 (\<lambda>r. embedding_forward int_ops int_scalars noop_observer (with_all_reduce Ring (small_embedding r))
        (token_input [3, 0]) (fresh small_cache 2 r)) (\<lambda>r. Inr (cpu_f32 [1, 2, 2] [6, 7, 0, 1], s' r))"
proof -
  let ?w = "cpu_f32 [4, 2] (map int [0..<8])" and ?y = "cpu_f32 [1, 2, 2] [6, 7, 0, 1] :: int tensor"
  have full: "load_embedding (vocab_size small_config) (hidden_size small_config) (pp ''model.embed_tokens'' numbered) = Inr ?w"
    by (simp add: load_embedding_def pp_def numbered_def small_config_def)
  have shard: "rbind (full_weights numbered ''model.embed_tokens.weight'' [vocab_size small_config, hidden_size small_config] (Some 0) (tp_context r 2))
        (\<lambda>t. embedding_from_weight t (shard_range_of (tp_context r 2) (vocab_size small_config)) (vocab_size small_config)) = Inr (small_embedding r)"
    if "r < 2" for r
    using small_narrow [OF that, of "map int [0..<8]" 2] that
    by (auto simp: full_weights_def numbered_def small_config_def embedding_from_weight_def dims2_def shard_range_of_def range_len_def
        small_embedding_def Let_def less_2_cases_iff)
  have y: "op_embedding int_ops ?w (token_input [3, 0]) = Inr ?y"
    by (simp add: int_ops_def embedding_exact_def token_input_def block_def upt_rec cpu_f32_def)
  have "good_shape [1, length ([3, 0] :: u32 list), hidden_size small_config]" by (simp add: small_config_def good_shapeI)
  from vocab_parallel_embedding_exact [where alg = Ring and c = 2 and ob = noop_observer, OF int_kernels(2,4) numbered_ok _ _ _ _ _ _ this _ full shard
      fresh_caches [of 2 small_cache]] y
  show ?thesis by (auto simp: small_config_def)
qed

theorem vocab_parallel_head_exact_witness:
  "\<exists>s'. op_linear int_ops (cpu_f32 [4, 2] (map int [0..<8])) (cpu_f32 [1, 2] [1, 2]) = Inr (cpu_f32 [1, 4] [2, 8, 14, 20]) \<and>
     all_runs_return 2 (\<lambda>r. column_forward int_ops noop_observer
        (projr (head_from_weight (cpu_f32 [2, 2] (block (r * 2 * 2) (2 * 2) (map int [0..<8]))) 4))
        (cpu_f32 [1, 2] [1, 2]) (fresh small_cache 2 r)) (\<lambda>r. Inr (cpu_f32 [1, 4] [2, 8, 14, 20], s' r))"
proof -
  let ?w = "map int [0..<8]" and ?h = "\<lambda>r. projr (head_from_weight (cpu_f32 [2, 2] (block (r * 2 * 2) (2 * 2) (map int [0..<8]))) 4)"
  have shard: "rbind (lift_tensor (narrow (cpu_f32 [2 * 2, 2] ?w) 0 (r * 2) 2)) (\<lambda>t. head_from_weight t (2 * 2)) = Inr (?h r)"
    if "r < 2" for r
    using small_narrow [OF that, of ?w 2] by (simp add: head_from_weight_def column_from_weight_def dims2_def)
  have y: "op_linear int_ops (cpu_f32 [4, 2] ?w) (cpu_f32 [1, 2] [1, 2]) = Inr (cpu_f32 [1, 4] [2, 8, 14, 20])"
    by (simp add: int_ops_def linear_exact_def lin_values_def upt_rec cpu_f32_def)
  from vocab_parallel_head_exact [where ds = "[1]" and x = "[1, 2]" and ob = noop_observer, OF int_kernels(3) _ _ _ _ _ _ shard fresh_caches [of 2 small_cache]] y
  show ?thesis by (auto simp: good_shapeI)
qed


section \<open>Three ranks, the registered model\<close>

definition ends_with :: "string \<Rightarrow> string \<Rightarrow> bool" where
  "ends_with suf n \<longleftrightarrow> take (length suf) (rev n) = rev suf"

definition weight_shape :: "string \<Rightarrow> nat list" where
  "weight_shape n =
     (if ends_with ''embed_tokens.weight'' n then [49152, 576]
      else if ends_with ''k_proj.weight'' n \<or> ends_with ''v_proj.weight'' n then [192, 576]
      else if ends_with ''q_proj.weight'' n \<or> ends_with ''o_proj.weight'' n then [576, 576]
      else if ends_with ''gate_proj.weight'' n \<or> ends_with ''up_proj.weight'' n then [1536, 576]
      else if ends_with ''down_proj.weight'' n then [576, 1536]
      else [576])"

definition shaped :: "unit checkpoint" where
  "shaped n = Inr (cpu_f32 (weight_shape n) [])"

definition shard_of :: "nat list \<Rightarrow> nat \<Rightarrow> usize \<Rightarrow> unit tensor" where
  "shard_of sh d r = projr (narrow (cpu_f32 sh []) d (r * (sh ! d div 3)) (sh ! d div 3))"

definition shard_ops :: "unit candle_ops" where
  "shard_ops = sample_ops\<lparr>op_matmul := (\<lambda>x y. Inr (ones [1, 3, 1, 64]))\<rparr>"

definition unit_scalars :: "unit scalar_ops" where
  "unit_scalars = \<lparr>op_times = (\<lambda>_ _. ()), op_one = ()\<rparr>"

lemma shard_ops_sel:
  "op_linear shard_ops w x = Inr (ones (butlast (t_dims x) @ [hd (t_dims w)]))" "op_rms_norm shard_ops eps w x = Inr x"
  "op_rope shard_ops x c s = Inr x" "op_t shard_ops x = Inr x" "op_matmul shard_ops x y = Inr (ones [1, 3, 1, 64])"
  "op_transpose shard_ops x i j = Inr (x\<lparr>t_dims := (t_dims x)[i := t_dims x ! j, j := t_dims x ! i]\<rparr>)"
  "op_div_sqrt shard_ops x d = Inr x" "op_softmax_last_dim shard_ops x = Inr x" "op_silu shard_ops x = Inr x"
  "op_mul shard_ops x y = Inr x" "op_to_dtype shard_ops x dt = Inr (x\<lparr>t_dtype := dt\<rparr>)" "op_argmax shard_ops x = Inr 5"
  "op_rope_tables shard_ops cfg n = Inr (ones [n, 32], ones [n, 32])" "op_zero shard_ops = ()"
  by (simp_all add: shard_ops_def sample_ops_def)

lemma shard_narrow:
  assumes "r < 3" "d < length sh" "3 * k = sh ! d"
  shows "narrow (cpu_f32 sh []) d (r * k) k = Inr (shard_of sh d r)" "t_dims (shard_of sh d r) = sh[d := k]"
    "t_device (shard_of sh d r) = Cpu" "t_dtype (shard_of sh d r) = F32"
proof -
  have k: "sh ! d div 3 = k" using assms(3) by simp
  have "r * k + k \<le> 3 * k" using mult_le_mono1 [of "Suc r" 3 k] assms(1) by simp
  then obtain vs where "narrow (cpu_f32 sh []) d (r * k) k = Inr (cpu_f32 (sh[d := k]) vs :: unit tensor)"
    using narrow_shape [of d "cpu_f32 sh [] :: unit tensor" "r * k" k] assms by auto
  then show "narrow (cpu_f32 sh []) d (r * k) k = Inr (shard_of sh d r)" "t_dims (shard_of sh d r) = sh[d := k]"
    "t_device (shard_of sh d r) = Cpu" "t_dtype (shard_of sh d r) = F32"
    by (simp_all add: shard_of_def k)
qed

lemma shaped_shard:
  assumes "r < 3" "weight_shape name = sh" "d < length sh" "d \<le> 1" "3 * k = sh ! d"
  shows "mmap_sharded_weights shaped name shape (Some d) (tp_context r 3) = Inr (shard_of sh d r)"
proof -
  have "sh ! d div 3 = k" "sh ! d mod 3 = 0" using assms(5) by presburger+
  then show ?thesis
    using shard_narrow(1) [OF assms(1,3,5)] assms
    by (simp add: mmap_sharded_weights_def sharded_get_def shaped_def Let_def)
qed

lemma shaped_full: "weight_shape name = sh \<Longrightarrow> mmap_sharded_weights shaped name sh None p = Inr (cpu_f32 sh [])"
  by (simp add: mmap_sharded_weights_def sharded_get_def shaped_def shard_default_def checkpoint_get_def)

definition shard_block :: "usize \<Rightarrow> unit tp_block" where
  "shard_block r =
     \<lparr>tpb_input_norm = (rms_norm_eps sample_config, cpu_f32 [576] []),
      tpb_attention = \<lparr>tpa_q_proj = shard_of [576, 576] 0 r, tpa_k_proj = shard_of [192, 576] 0 r,
        tpa_v_proj = shard_of [192, 576] 0 r, tpa_o_proj = \<lparr>rpl_weight = shard_of [576, 576] 1 r, rpl_algorithm = Ring\<rparr>,
        tpa_local_query_heads = 3, tpa_local_kv_heads = 1, tpa_head_dim = 64\<rparr>,
      tpb_post_attention_norm = (rms_norm_eps sample_config, cpu_f32 [576] []),
      tpb_mlp = \<lparr>tpm_gate_proj = shard_of [1536, 576] 0 r, tpm_up_proj = shard_of [1536, 576] 0 r,
        tpm_down_proj = \<lparr>rpl_weight = shard_of [576, 1536] 1 r, rpl_algorithm = Ring\<rparr>\<rparr>\<rparr>"

lemma layer_weight_shapes:
  "weight_shape (p @ ''.input_layernorm.weight'') = [576]" "weight_shape (p @ ''.post_attention_layernorm.weight'') = [576]"
  "weight_shape (p @ ''.q_proj.weight'') = [576, 576]" "weight_shape (p @ ''.k_proj.weight'') = [192, 576]"
  "weight_shape (p @ ''.v_proj.weight'') = [192, 576]" "weight_shape (p @ ''.o_proj.weight'') = [576, 576]"
  "weight_shape (p @ ''.gate_proj.weight'') = [1536, 576]" "weight_shape (p @ ''.up_proj.weight'') = [1536, 576]"
  "weight_shape (p @ ''.down_proj.weight'') = [576, 1536]"
  by (simp_all add: weight_shape_def ends_with_def)

lemma shard_block_load:
  assumes r: "r < 3"
  shows "tp_block_load (mmap_sharded_weights shaped) layer sample_config (tp_context r 3) Ring = Inr (shard_block r)"
proof -
  note s = shaped_shard [OF r layer_weight_shapes(3), where k = 192, unfolded One_nat_def] shaped_shard [OF r layer_weight_shapes(4), where k = 64, unfolded One_nat_def]
    shaped_shard [OF r layer_weight_shapes(5), where k = 64, unfolded One_nat_def] shaped_shard [OF r layer_weight_shapes(6), where k = 192, unfolded One_nat_def]
    shaped_shard [OF r layer_weight_shapes(7), where k = 512, unfolded One_nat_def] shaped_shard [OF r layer_weight_shapes(8), where k = 512, unfolded One_nat_def]
    shaped_shard [OF r layer_weight_shapes(9), where k = 512, unfolded One_nat_def]
  note f = shaped_full [OF layer_weight_shapes(1)] shaped_full [OF layer_weight_shapes(2)]
  note dims = shard_narrow(2) [OF r, of 1 "[576, 576]" 192] shard_narrow(2) [OF r, of 1 "[576, 1536]" 512]
  have cfg: "hidden_size sample_config = 576" "head_dim sample_config = Inr 64" "num_key_value_heads sample_config = 3"
    "num_attention_heads sample_config = 9" "intermediate_size sample_config = 1536"
    by (simp_all add: spec_simps head_dim_def)
  have "tp_attention_load (mmap_sharded_weights shaped) prefix sample_config (tp_context r 3) Ring = Inr (tpb_attention (shard_block r))" for prefix
    using dims by (simp add: tp_attention_load_def cfg s row_from_weight_def dims2_def shard_block_def Let_def)
  moreover have "tp_mlp_load (mmap_sharded_weights shaped) prefix sample_config (tp_context r 3) Ring = Inr (tpb_mlp (shard_block r))" for prefix
    using dims by (simp add: tp_mlp_load_def cfg s row_from_weight_def dims2_def shard_block_def)
  ultimately show ?thesis
    unfolding tp_block_load_def Let_def cfg f rbind.simps by (simp add: shard_block_def)
qed


definition shard_layer :: "unit layer_kv_cache" where
  "shard_layer = \<lparr>l_keys = zeros () [1, 1, 2, 64] F32, l_values = zeros () [1, 1, 2, 64] F32, l_length = 0, l_capacity = 2\<rparr>"

definition shard_cache :: "unit kv_cache" where
  "shard_cache = \<lparr>kv_layers = replicate 30 shard_layer, kv_capacity = 2\<rparr>"

definition shard_llama :: "usize \<Rightarrow> unit tp_llama" where
  "shard_llama r =
     \<lparr>tpl_parallel = tp_context r 3,
      tpl_embeddings = \<lparr>vpe_weight = shard_of [49152, 576] 0 r, vpe_range = shard_range_of (tp_context r 3) 49152,
        vpe_global_vocabulary = 49152, vpe_algorithm = Ring\<rparr>,
      tpl_blocks = replicate 30 (shard_block r), tpl_final_norm = (rms_norm_eps sample_config, cpu_f32 [576] []),
      tpl_lm_head = \<lparr>cpl_weight = shard_of [49152, 576] 0 r, cpl_global_output_features = 49152, cpl_gather_output = True\<rparr>,
      tpl_rope = sample_rope\<rparr>"

lemma shard_llama_load:
  assumes r: "r < 3"
  shows "tp_load_sharded shard_ops shaped sample_config (tp_context r 3) 2 Ring = Inr (shard_llama r)"
proof -
  have cfg: "vocab_size sample_config = 49152" "hidden_size sample_config = 576" "num_hidden_layers sample_config = 30"
    "tie_word_embeddings sample_config"
    by (simp_all add: spec_simps)
  have plan: "\<exists>plan. plan_tensor_shard sample_config (tp_context r 3) = Inr plan \<and> tsp_vocabulary plan = shard_range_of (tp_context r 3) 49152"
    using r by (simp add: plan_tensor_shard_def context_validate_def spec_simps head_dim_def Let_def)
  have names: "weight_shape ''model.embed_tokens.weight'' = [49152, 576]" "weight_shape ''model.norm.weight'' = [576]"
    by (simp_all add: weight_shape_def ends_with_def)
  have emb: "mmap_sharded_weights shaped ''model.embed_tokens.weight'' [49152, 576] (Some 0) (tp_context r 3) = Inr (shard_of [49152, 576] 0 r)"
    using shaped_shard [OF r names(1), of 0 16384] by simp
  have norm: "mmap_sharded_weights shaped ''model.norm.weight'' [576] None (tp_context r 3) = Inr (cpu_f32 [576] [])"
    using shaped_full [OF names(2)] .
  have rows: "t_dims (shard_of [49152, 576] 0 r) = [16384, 576]" using shard_narrow(2) [OF r, of 0 "[49152, 576]" 16384] by simp
  have blocks: "collect_results (map (\<lambda>layer. tp_block_load (mmap_sharded_weights shaped) layer sample_config (tp_context r 3) Ring)
      [0..<num_hidden_layers sample_config]) = Inr (replicate 30 (shard_block r))"
    unfolding shard_block_load [OF r] collect_replicate by (simp add: cfg)
  have rope: "rope_new shard_ops sample_config 2 = Inr sample_rope"
    by (simp add: rope_new_def shard_ops_sel sample_rope_def head_dim_def spec_simps)
  have e: "embedding_from_weight (shard_of [49152, 576] 0 r) (shard_range_of (tp_context r 3) 49152) 49152 =
      Inr ((tpl_embeddings (shard_llama r))\<lparr>vpe_algorithm := Centralized\<rparr>)"
    using r rows by (simp add: embedding_from_weight_def dims2_def shard_range_of_def range_len_def shard_llama_def Let_def)
  have h: "head_from_weight (shard_of [49152, 576] 0 r) 49152 = Inr (tpl_lm_head (shard_llama r))"
    using rows by (simp add: head_from_weight_def column_from_weight_def dims2_def shard_llama_def)
  from plan obtain plan where "plan_tensor_shard sample_config (tp_context r 3) = Inr plan"
    "tsp_vocabulary plan = shard_range_of (tp_context r 3) 49152" by blast
  then show ?thesis
    unfolding tp_load_sharded_def tp_load_from_def blocks
    using emb norm e h rope by (simp add: cfg with_all_reduce_def shard_llama_def)
qed

lemma shard_cache_new: "kv_new_tensor_parallel () sample_config 3 2 F32 = Inr shard_cache"
proof -
  have new: "layer_new () (sample_config\<lparr>hidden_size := 192, num_attention_heads := 3, num_key_value_heads := 1\<rparr>) 2 F32 = Inr shard_layer"
    by (simp add: layer_new_def head_dim_def spec_simps shard_layer_def Let_def)
  have cfg: "num_key_value_heads sample_config = 3" "hidden_size sample_config = 576" "num_attention_heads sample_config = 9"
    "num_hidden_layers sample_config = 30" "max_position_embeddings sample_config = 8192"
    by (simp_all add: spec_simps)
  show ?thesis
    using new collect_replicate [of shard_layer "[0..<30]"]
    by (simp add: kv_new_tensor_parallel_def kv_new_def kv_new_for_layers_def cfg shard_cache_def)
qed

lemma shard_append:
  assumes "t_dims k = [1, 1, 1, 64]" "t_device k = Cpu" "t_dtype k = F32"
  shows "\<exists>ks vs l. layer_append shard_layer k k = (Inr (ks, vs), l) \<and> t_dims ks = [1, 1, 1, 64] \<and> t_dims vs = [1, 1, 1, 64]"
proof -
  let ?z = "zeros () [1, 1, 2, 64] F32"
  have z: "t_dims ?z = [1, 1, 2, 64]" "t_device ?z = Cpu" "t_dtype ?z = F32" by (simp_all add: zeros_def)
  obtain ks where ks: "slice_set ?z k 2 0 = Inr (?z\<lparr>t_values := ks\<rparr>)"
    using slice_set_shape [of 2 ?z k 0] assms z by auto
  obtain kn where kn: "narrow (?z\<lparr>t_values := ks\<rparr>) 2 0 1 = Inr kn" "t_dims kn = [1, 1, 1, 64]"
    using narrow_shape [of 2 "?z\<lparr>t_values := ks\<rparr>" 0 1] z by (auto simp: numeral_2_eq_2)
  show ?thesis using ks kn assms(1) by (simp add: layer_append_def dims4_def shard_layer_def Let_def)
qed


lemma shard_attention_local:
  assumes r: "r < 3" and x: "hidden_state x" and l: "layer < length (kv_layers c)" "kv_layers c ! layer = shard_layer"
  shows "\<exists>l. tp_attention_local shard_ops (tpb_attention (shard_block r)) x 0 layer sample_rope c =
     Inr (ones [1, 1, 192], c\<lparr>kv_layers := (kv_layers c)[layer := l]\<rparr>)"
proof -
  let ?a = "tpb_attention (shard_block r)"
  let ?k = "(ones [1, 1, 64])\<lparr>t_dims := [1, 1, 1, 64]\<rparr>" and ?q = "(ones [1, 1, 192])\<lparr>t_dims := [1, 3, 1, 64]\<rparr>"
  have dx: "t_dims x = [1, 1, 576]" "t_dtype x = F32" using x by (simp_all add: hidden_state_def)
  have dims: "t_dims (shard_of [576, 576] 0 r) = [192, 576]" "t_dims (shard_of [192, 576] 0 r) = [64, 576]"
    using shard_narrow(2) [OF r, of 0 "[576, 576]" 192] shard_narrow(2) [OF r, of 0 "[192, 576]" 64] by simp_all
  have a: "t_dims (tpa_q_proj ?a) = [192, 576]" "t_dims (tpa_k_proj ?a) = [64, 576]" "t_dims (tpa_v_proj ?a) = [64, 576]"
    "tpa_local_query_heads ?a = 3" "tpa_local_kv_heads ?a = 1" "tpa_head_dim ?a = 64"
    by (simp_all add: shard_block_def dims)
  have heads: "project_heads shard_ops (tpa_q_proj ?a) x 1 1 3 64 = Inr ?q" "project_heads shard_ops (tpa_k_proj ?a) x 1 1 1 64 = Inr ?k"
    "project_heads shard_ops (tpa_v_proj ?a) x 1 1 1 64 = Inr ?k"
    using dx a by (simp_all add: project_heads_def shard_ops_sel reshape_def elem_count_def)
  obtain vs where cos: "narrow (ones [2, 32]) 0 0 1 = Inr ((ones [2, 32])\<lparr>t_dims := [1, 32], t_values := vs\<rparr>)"
    using narrow_shape [of 0 "ones [2, 32]" 0 1] by auto
  have rope: "rope_apply shard_ops sample_rope t 0 = Inr t" if "t_dims t = [1, n, 1, 64]" for t n
    using that cos by (simp add: rope_apply_def sample_rope_def tensor_dim_def shard_ops_sel numeral_2_eq_2)
  obtain ks vs l where app: "layer_append shard_layer ?k ?k = (Inr (ks, vs), l)" "t_dims ks = [1, 1, 1, 64]" "t_dims vs = [1, 1, 1, 64]"
    using shard_append [of ?k] by auto
  obtain kr vr where rep: "repeat_kv ks 3 = Inr kr" "repeat_kv vs 3 = Inr vr"
    using app(2,3) by (simp add: repeat_kv_def dims4_def)
  have flat: "(ones [1, 3, 1, 64])\<lparr>t_dtype := F32, t_dims := [1, 1, 192]\<rparr> = ones [1, 1, 192]" by (simp add: ones_def cpu_f32_def)
  have "tp_attention_local shard_ops ?a x 0 layer sample_rope c = Inr (ones [1, 1, 192], c\<lparr>kv_layers := (kv_layers c)[layer := l]\<rparr>)"
    using dx a heads rope app l rep rep [unfolded numeral_3_eq_3] flat
    by (simp add: tp_attention_local_def dims3_def kv_append_def reshape_def elem_count_def shard_ops_sel numeral_2_eq_2)
  then show ?thesis by blast
qed

lemma all_ranks_family:
  assumes "\<forall>r < W. f r = Inr (y r)"
  shows "\<exists>x. all_ranks W f = Inr x \<and> (\<forall>r < W. x r = y r)"
proof -
  have eq: "map f [0..<W] = map Inr (map y [0..<W])" using assms by simp
  have "all_ranks W f = Inr (\<lambda>r. map y [0..<W] ! r)"
    unfolding all_ranks_def eq by (metis collect_results_Inr rbind.simps(2))
  then show ?thesis by auto
qed

lemma ones_cpu: "good_shape ds \<Longrightarrow> 0 < W \<Longrightarrow> (\<forall>r < W. x r = ones ds) \<Longrightarrow> cpu_tensors W x"
  by (auto simp: cpu_tensors_def wf_tensor_def elem_count_def)

lemma shard_row:
  assumes w: "\<And>r. r < 3 \<Longrightarrow> hd (t_dims (w r)) = 576" and x: "\<And>r. r < 3 \<Longrightarrow> t_dims (x r) = [1, 1, n]"
  shows "\<exists>y. lock_row shard_ops Ring 3 w x = Inr y \<and> hidden_state y"
proof -
  have "\<forall>r < 3. lift_tensor (op_linear shard_ops (w r) (x r)) = Inr (ones [1, 1, 576])"
    using w x by (simp add: shard_ops_sel)
  from all_ranks_family [OF this] obtain l where
    l: "all_ranks 3 (\<lambda>r. lift_tensor (op_linear shard_ops (w r) (x r))) = Inr l" "\<forall>r < 3. l r = ones [1, 1, 576]" by blast
  have "cpu_tensors 3 l" using l(2) by (intro ones_cpu [of "[1, 1, 576]"]) (simp_all add: good_shapeI)
  moreover have "t_dims (l 0) = [1, 1, 576]" using l(2) by simp
  ultimately show ?thesis using l(1) by (simp add: lock_row_def reduce_spec_def hidden_state_def Let_def)
qed

lemma hidden_add: "hidden_state x \<Longrightarrow> hidden_state y \<Longrightarrow> \<exists>z. tensor_add (op_add shard_ops) x y = Inr z \<and> hidden_state z"
  by (simp add: tensor_add_def hidden_state_def)

definition fresh_from :: "nat \<Rightarrow> unit kv_cache \<Rightarrow> bool" where
  "fresh_from i c \<longleftrightarrow> length (kv_layers c) = 30 \<and> (\<forall>j \<in> {i..<30}. kv_layers c ! j = shard_layer)"

lemma shard_lock_block:
  assumes x: "hidden_state x" and c: "\<And>r. r < 3 \<Longrightarrow> fresh_from layer (c r)" "layer < 30"
  shows "\<exists>y c'. lock_block shard_ops Ring 3 shard_block x 0 layer (\<lambda>_. sample_rope) c = Inr (y, c') \<and> hidden_state y \<and>
     (\<forall>r < 3. fresh_from (Suc layer) (c' r))"
proof -
  have norm: "\<exists>n. all_ranks 3 (\<lambda>r. norm_forward shard_ops (f (shard_block r)) t) = Inr n \<and> (\<forall>r < 3. n r = t)" for f t
    by (rule all_ranks_family) (simp add: norm_forward_def shard_ops_sel split: prod.splits)
  obtain n where n: "all_ranks 3 (\<lambda>r. norm_forward shard_ops (tpb_input_norm (shard_block r)) x) = Inr n" "\<forall>r < 3. n r = x"
    using norm by blast
  have "\<forall>r. \<exists>l. r < 3 \<longrightarrow> tp_attention_local shard_ops (tpb_attention (shard_block r)) (n r) 0 layer sample_rope (c r) =
      Inr (ones [1, 1, 192], (c r)\<lparr>kv_layers := (kv_layers (c r))[layer := l]\<rparr>)"
    using shard_attention_local x n(2) c by (simp add: fresh_from_def)
  then obtain l where "\<forall>r < 3. tp_attention_local shard_ops (tpb_attention (shard_block r)) (n r) 0 layer sample_rope (c r) =
      Inr (ones [1, 1, 192], (c r)\<lparr>kv_layers := (kv_layers (c r))[layer := l r]\<rparr>)" by metis
  from all_ranks_family [OF this] obtain lc where
    lc: "all_ranks 3 (\<lambda>r. tp_attention_local shard_ops (tpb_attention (shard_block r)) (n r) 0 layer sample_rope (c r)) = Inr lc"
      "\<forall>r < 3. lc r = (ones [1, 1, 192], (c r)\<lparr>kv_layers := (kv_layers (c r))[layer := l r]\<rparr>)" by blast
  have o: "hd (t_dims (rpl_weight (tpa_o_proj (tpb_attention (shard_block r))))) = 576"
    "hd (t_dims (rpl_weight (tpm_down_proj (tpb_mlp (shard_block r))))) = 576" if "r < 3" for r
    using shard_narrow(2) [OF that, of 1 "[576, 576]" 192] shard_narrow(2) [OF that, of 1 "[576, 1536]" 512] by (simp_all add: shard_block_def)
  obtain at where at: "lock_row shard_ops Ring 3 (\<lambda>r. rpl_weight (tpa_o_proj (tpb_attention (shard_block r)))) (\<lambda>r. fst (lc r)) = Inr at"
    "hidden_state at" using shard_row [of "\<lambda>r. rpl_weight (tpa_o_proj (tpb_attention (shard_block r)))" "\<lambda>r. fst (lc r)" 192] o(1) lc(2) by auto
  obtain h where h: "tensor_add (op_add shard_ops) x at = Inr h" "hidden_state h" using hidden_add x at(2) by blast
  obtain p where p: "all_ranks 3 (\<lambda>r. norm_forward shard_ops (tpb_post_attention_norm (shard_block r)) h) = Inr p" "\<forall>r < 3. p r = h"
    using norm by blast
  have "\<forall>r < 3. tp_mlp_local shard_ops (tpb_mlp (shard_block r)) (p r) = Inr (ones [1, 1, 512])"
    using p(2) h(2) shard_narrow(2) [of _ 0 "[1536, 576]" 512]
    by (simp add: tp_mlp_local_def shard_ops_sel shard_block_def hidden_state_def)
  from all_ranks_family [OF this] obtain g where
    g: "all_ranks 3 (\<lambda>r. tp_mlp_local shard_ops (tpb_mlp (shard_block r)) (p r)) = Inr g" "\<forall>r < 3. g r = ones [1, 1, 512]" by blast
  obtain d where d: "lock_row shard_ops Ring 3 (\<lambda>r. rpl_weight (tpm_down_proj (tpb_mlp (shard_block r)))) g = Inr d" "hidden_state d"
    using shard_row [of "\<lambda>r. rpl_weight (tpm_down_proj (tpb_mlp (shard_block r)))" g 512] o(2) g(2) by auto
  obtain y where y: "tensor_add (op_add shard_ops) h d = Inr y" "hidden_state y" using hidden_add h(2) d(2) by blast
  have "fresh_from (Suc layer) (snd (lc r))" if "r < 3" for r
    using lc(2) c that by (auto simp: fresh_from_def nth_list_update)
  with y show ?thesis
    using n(1) lc(1) at(1) h(1) p(1) g(1) d(1) by (simp add: lock_block_def lock_attention_def lock_mlp_def)
qed


lemma shard_lock_blocks:
  "hidden_state x \<Longrightarrow> (\<And>r. r < 3 \<Longrightarrow> fresh_from (30 - n) (c r)) \<Longrightarrow> n \<le> 30 \<Longrightarrow>
     \<exists>y c'. lock_blocks shard_ops Ring 3 shard_llama 0 (30 - n) n x c = Inr (y, c') \<and> hidden_state y"
proof (induction n arbitrary: x c)
  case (Suc n)
  have blk: "lock_block shard_ops Ring 3 (\<lambda>r. tpl_blocks (shard_llama r) ! (30 - Suc n)) x 0 (30 - Suc n) (\<lambda>r. tpl_rope (shard_llama r)) c =
      lock_block shard_ops Ring 3 shard_block x 0 (30 - Suc n) (\<lambda>_. sample_rope) c"
    using Suc.prems(3) by (simp add: shard_llama_def)
  obtain y c' where y: "lock_block shard_ops Ring 3 shard_block x 0 (30 - Suc n) (\<lambda>_. sample_rope) c = Inr (y, c')" "hidden_state y"
    "\<forall>r < 3. fresh_from (Suc (30 - Suc n)) (c' r)"
  proof -
    have "30 - Suc n < 30" using Suc.prems(3) by linarith
    with shard_lock_block [OF Suc.prems(1), of _ c] Suc.prems(2) have "\<exists>y c'.
        lock_block shard_ops Ring 3 shard_block x 0 (30 - Suc n) (\<lambda>_. sample_rope) c = Inr (y, c') \<and> hidden_state y \<and>
        (\<forall>r < 3. fresh_from (Suc (30 - Suc n)) (c' r))" by blast
    then show thesis using that by blast
  qed
  have "Suc (30 - Suc n) = 30 - n" using Suc.prems(3) by simp
  with Suc.IH [OF y(2), of c'] y Suc.prems(3) show ?case unfolding lock_blocks.simps blk y(1) by simp
qed simp

lemma shard_embedding:
  assumes "unat t < 49152"
  shows "\<exists>y. lock_embedding shard_ops unit_scalars Ring 3 (\<lambda>r. tpl_embeddings (shard_llama r)) (token_input [t]) = Inr y \<and> hidden_state y"
proof -
  have "\<forall>r < 3. embedding_local shard_ops unit_scalars (tpl_embeddings (shard_llama r)) (token_input [t]) = Inr (ones [1, 1, 576])"
  proof (intro allI impI)
    fix r :: nat assume r: "r < 3"
    note s = shard_narrow(2-4) [OF r, of 0 "[49152, 576]" 16384]
    have m: "map (\<lambda>i. ()) [0..<576] = replicate 576 ()" by (metis diff_zero length_upt map_replicate_const)
    show "embedding_local shard_ops unit_scalars (tpl_embeddings (shard_llama r)) (token_input [t]) = Inr (ones [1, 1, 576])"
      using assms s m
      by (simp add: embedding_local_def token_input_def dims2_def shard_llama_def shard_ops_def sample_ops_def unit_scalars_def
          broadcast_mul_mask_def ones_def cpu_f32_def Let_def)
  qed
  from all_ranks_family [OF this] obtain l where
    l: "all_ranks 3 (\<lambda>r. embedding_local shard_ops unit_scalars (tpl_embeddings (shard_llama r)) (token_input [t])) = Inr l"
      "\<forall>r < 3. l r = ones [1, 1, 576]" by blast
  have "cpu_tensors 3 l" using l(2) by (intro ones_cpu [of "[1, 1, 576]"]) (simp_all add: good_shapeI)
  moreover have "t_dims (l 0) = [1, 1, 576]" using l(2) by simp
  ultimately show ?thesis using l(1) by (simp add: lock_embedding_def reduce_spec_def hidden_state_def Let_def)
qed

lemma shard_head:
  assumes "\<And>r. r < 3 \<Longrightarrow> t_dims (x r) = [1, 576]"
  shows "\<exists>y. lock_head shard_ops 3 (\<lambda>r. tpl_lm_head (shard_llama r)) x = Inr y \<and> t_dims y = [1, 49152]"
proof -
  have "\<forall>r < 3. lift_tensor (op_linear shard_ops (cpl_weight (tpl_lm_head (shard_llama r))) (x r)) = Inr (ones [1, 16384])"
    using assms shard_narrow(2) [of _ 0 "[49152, 576]" 16384] by (simp add: shard_ops_sel shard_llama_def)
  from all_ranks_family [OF this] obtain l where
    l: "all_ranks 3 (\<lambda>r. lift_tensor (op_linear shard_ops (cpl_weight (tpl_lm_head (shard_llama r))) (x r))) = Inr l"
      "\<forall>r < 3. l r = ones [1, 16384]" by blast
  have "cpu_tensors 3 l" using l(2) by (intro ones_cpu [of "[1, 16384]"]) (simp_all add: good_shapeI)
  moreover have "l 0 = ones [1, 16384]" using l(2) by simp
  ultimately show ?thesis
    using l(1) by (simp add: lock_head_def gather_spec_def good_shapeI shard_llama_def Let_def)
qed

lemma shard_forward:
  assumes t: "unat t < 49152"
  shows "\<exists>logits c'. lock_forward shard_ops unit_scalars Ring 3 shard_llama (token_input [t]) 0 (\<lambda>_. shard_cache) = Inr (logits, c') \<and>
     t_dims logits = [1, 49152]"
proof -
  have "replicate 30 shard_layer = shard_layer # replicate 29 shard_layer" by (simp add: numeral_eq_Suc)
  then have "kv_len shard_cache = 0" by (simp add: kv_len_def shard_cache_def shard_layer_def)
  then have "\<forall>r < 3. tp_forward_checks (shard_llama r) (member 3 r) (token_input [t]) 0 shard_cache = Inr 1"
    by (simp add: tp_forward_checks_def shard_llama_def dims2_def token_input_def kv_layer_count_def) (simp add: shard_cache_def)
  from all_ranks_family [OF this] obtain s where
    s: "all_ranks 3 (\<lambda>r. tp_forward_checks (shard_llama r) (member 3 r) (token_input [t]) 0 shard_cache) = Inr s" "\<forall>r < 3. s r = 1" by blast
  obtain e where e: "lock_embedding shard_ops unit_scalars Ring 3 (\<lambda>r. tpl_embeddings (shard_llama r)) (token_input [t]) = Inr e" "hidden_state e"
    using shard_embedding [OF t] by blast
  have "fresh_from (30 - 30) shard_cache" by (simp add: fresh_from_def shard_cache_def)
  with shard_lock_blocks [OF e(2), of 30 "\<lambda>_. shard_cache"] obtain y c' where
    y: "lock_blocks shard_ops Ring 3 shard_llama 0 0 30 e (\<lambda>_. shard_cache) = Inr (y, c')" "hidden_state y" by auto
  have "\<forall>r < 3. norm_forward shard_ops (tpl_final_norm (shard_llama r)) y = Inr y"
    by (simp add: norm_forward_def shard_ops_sel split: prod.splits)
  from all_ranks_family [OF this] obtain n where
    n: "all_ranks 3 (\<lambda>r. norm_forward shard_ops (tpl_final_norm (shard_llama r)) y) = Inr n" "\<forall>r < 3. n r = y" by blast
  obtain vs where "narrow y 1 0 1 = Inr (y\<lparr>t_dims := [1, 1, 576], t_values := vs\<rparr>)"
    using narrow_shape [of 1 y 0 1] y(2) by (auto simp: hidden_state_def)
  then obtain z where z: "index_mid y 0 = Inr z" "t_dims z = [1, 576]" by (simp add: index_mid_def squeeze_def)
  have "\<forall>r < 3. lift_tensor (index_mid (n r) (s r - 1)) = Inr z" using n(2) s(2) z(1) by simp
  from all_ranks_family [OF this] obtain l where
    l: "all_ranks 3 (\<lambda>r. lift_tensor (index_mid (n r) (s r - 1))) = Inr l" "\<forall>r < 3. l r = z" by blast
  obtain g where g: "lock_head shard_ops 3 (\<lambda>r. tpl_lm_head (shard_llama r)) l = Inr g" "t_dims g = [1, 49152]"
    using shard_head [of l] l(2) z(2) by auto
  have "length (tpl_blocks (shard_llama 0)) = 30" by (simp add: shard_llama_def)
  then show ?thesis
    unfolding lock_forward_def s(1) rbind.simps e(1) using y(1) n(1) l(1) g by (simp add: shard_ops_sel)
qed


theorem tp_forward_refines_lockstep_witness:
  "\<exists>logits s'. t_dims logits = [1, 49152] \<and>
     all_runs_return 3 (\<lambda>r. tp_forward_observed shard_ops unit_scalars noop_observer (shard_llama r) (token_input [7]) 0 (fresh shard_cache 3 r))
       (\<lambda>r. Inr (logits, s' r)) \<and> length (traces (ts_collectives (s' 2))) = 62"
proof -
  obtain logits c' where f: "lock_forward shard_ops unit_scalars Ring 3 shard_llama (token_input [7]) 0 (\<lambda>_. shard_cache) = Inr (logits, c')"
    "t_dims logits = [1, 49152]" using shard_forward [of 7] by auto
  have plan: "same_plan 3 Ring shard_llama" by (simp add: same_plan_def shard_llama_def shard_block_def)
  have blocks: "length (tpl_blocks (shard_llama 0)) = 30" by (simp add: shard_llama_def)
  from tp_forward_refines_lockstep [OF _ _ plan _ f(1) fresh_caches, of noop_observer, unfolded blocks] obtain s' where
    "caches_are 3 62 c' s'"
    "all_runs_return 3 (\<lambda>r. tp_forward_observed shard_ops unit_scalars noop_observer (shard_llama r) (token_input [7]) 0 (fresh shard_cache 3 r))
       (\<lambda>r. Inr (logits, s' r))" by auto
  then show ?thesis using f(2) by (intro exI [of _ logits] exI [of _ s']) (simp add: caches_are_def in_step_def)
qed

section \<open>A whole run\<close>

fun reason_code :: "stop_reason option \<Rightarrow> u8" where
  "reason_code None = 0"
| "reason_code (Some Eos) = 1"
| "reason_code (Some MaxNewTokens) = 2"
| "reason_code (Some ContextLimit) = 3"

definition code_reason :: "u8 \<Rightarrow> stop_reason option" where
  "code_reason b = (if b = 0 then None else if b = 1 then Some Eos else if b = 2 then Some MaxNewTokens else Some ContextLimit)"

lemma code_reason [simp]: "code_reason (reason_code r) = r"
  by (cases r rule: reason_code.cases) (simp_all add: code_reason_def)

definition encode_token :: "token_decision \<Rightarrow> u8 list" where
  "encode_token d = u64_bytes (of_nat (td_step d)) @ u32_bytes (td_token d) @
     [if td_emit d then 1 else 0, if td_continue_generation d then 1 else 0, reason_code (td_stop_reason d)]"

definition decode_token :: "u8 list \<Rightarrow> string + token_decision" where
  "decode_token bs =
     (case read_u64 bs of
        Inl e \<Rightarrow> Inl ''truncated''
      | Inr (n, rest) \<Rightarrow>
          (case read_u32 rest of
             Inr (t, [e, c, s]) \<Rightarrow> Inr \<lparr>td_step = unat n, td_token = t, td_emit = (e = 1), td_continue_generation = (c = 1),
                                   td_stop_reason = code_reason s\<rparr>
           | _ \<Rightarrow> Inl ''truncated''))"

definition shard_env :: "(unit, unit) tensor_env" where
  "shard_env = \<lparr>te_ops = shard_ops, te_scalars = unit_scalars, te_checkpoint = (\<lambda>_. Inr shaped),
     te_tokenizer = (\<lambda>_. Inr sample_tokenizer), te_to_json = (\<lambda>d. Inr (encode_token d)), te_from_json = decode_token\<rparr>"

lemma shard_codec_ok: "tensor_codec_ok shard_env"
proof -
  have "decode_token (encode_token d) = Inr d" if "td_step d < 2 ^ 64" for d
    using that by (simp add: decode_token_def encode_token_def wire_simps unat_of_nat)
  moreover have "length (encode_token d) = 15" for d by (simp add: encode_token_def wire_simps)
  ultimately show ?thesis by (simp add: tensor_codec_ok_def shard_env_def MAX_CONTROL_BYTES_def)
qed

definition shard_manifest :: tensor_parallel_manifest where
  "shard_manifest =
     \<lparr>tman_schema_version = 1, tman_run_id = ''run'', tman_request_id = ''request'', tman_model = SmolLm2_135MInstruct,
      tman_dtype = PlanF32, tman_tensor_parallel = 3, tman_all_reduce = Ring, tman_prompt_token_ids = [7],
      tman_requested_max_new_tokens = 4, tman_effective_max_new_tokens = 1, tman_context_capacity = 2,
      tman_checkpoint_path = [], tman_tokenizer_path = [],
      tman_partition = projr (tensor_parallel_plan SmolLm2_135MInstruct 3 2 None),
      tman_expected_cpu_millis = 0, tman_expected_memory_bytes = 0\<rparr>"

lemma shard_manifest_ok: "tensor_manifest_ok 3 shard_env shard_manifest shaped sample_tokenizer shard_llama shard_cache"
proof -
  have cfg: "num_key_value_heads sample_config = 3" "max_position_embeddings sample_config = 8192" by (simp_all add: spec_simps)
  obtain p where p: "tensor_parallel_plan SmolLm2_135MInstruct 3 2 None = Inr p" "length (tpp_ranks p) = 3"
    by (rule partition_registered [of 3 SmolLm2_135MInstruct 2 None]) (simp_all add: cfg)
  then have "tpp_tensor_parallel p = 3" by (auto simp: tensor_parallel_plan_def Let_def split: if_splits)
  with p show ?thesis
    using shard_llama_load shard_cache_new
    by (simp add: tensor_manifest_ok_def shard_manifest_def shard_env_def shard_ops_sel)
qed

theorem tensor_parallel_ranks_agree_witness:
  "\<exists>reports. all_runs_return 3 (\<lambda>r. run_tensor_parallel_rank shard_env (member 3 r) shard_manifest [] sample_resources) (\<lambda>r. Inr (reports r)) \<and>
     map (\<lambda>r. (tprr_generated_tokens (reports r), tprr_stop_reason (reports r), length (tprr_collectives (reports r)), tprr_completion (reports r)))
       [0, 1, 2] = [([5], ContextLimit, 62, ''x''), ([5], ContextLimit, 62, []), ([5], ContextLimit, 62, [])]"
proof -
  obtain logits c' where f: "lock_forward shard_ops unit_scalars Ring 3 shard_llama (token_input [7]) 0 (\<lambda>_. shard_cache) = Inr (logits, c')"
    "t_dims logits = [1, 49152]" using shard_forward [of 7] by auto
  then have "greedy_token shard_ops logits = Inr 5" by (simp add: greedy_token_def squeeze_def shard_ops_sel)
  with f(1) have gen: "lock_generate (te_ops shard_env) (te_scalars shard_env) (tman_all_reduce shard_manifest) 3 shard_llama
      (eos_token_id (config (spec (tman_model shard_manifest)))) (tman_requested_max_new_tokens shard_manifest)
      (tman_effective_max_new_tokens shard_manifest) [0..<tman_effective_max_new_tokens shard_manifest]
      (token_input (tman_prompt_token_ids shard_manifest)) 0 (\<lambda>_. shard_cache) [] = Inr (ContextLimit, [5], 1, c')"
    by (simp add: shard_env_def shard_manifest_def spec_simps token_limit_stop_reason_def)
  have "tok_decode sample_tokenizer [5] = Inr ''x''" by (simp add: sample_tokenizer_def)
  from tensor_parallel_ranks_agree [OF shard_manifest_ok shard_codec_ok gen this, of "\<lambda>_. []" "\<lambda>_. sample_resources"]
  obtain reports where "all_runs_return 3 (\<lambda>r. run_tensor_parallel_rank shard_env (member 3 r) shard_manifest [] sample_resources) (\<lambda>r. Inr (reports r))"
    and rep: "list_all (\<lambda>r. tprr_rank (reports r) = r \<and> tprr_success (reports r) \<and> tprr_generated_tokens (reports r) = [5] \<and>
        tprr_stop_reason (reports r) = ContextLimit \<and> tprr_decode_forward_count (reports r) = 1 - 1 \<and>
        length (tprr_collectives (reports r)) = 1 * (2 * num_hidden_layers (config (spec (tman_model shard_manifest))) + 2) \<and>
        tprr_completion (reports r) = (if r = 0 then ''x'' else []) \<and>
        kv_used_bytes (c' r) (local_config (config (spec (tman_model shard_manifest))) 3) F32 = Inr (tprr_final_kv_cache_bytes (reports r))) [0..<3]"
    by blast
  moreover have "num_hidden_layers (config (spec (tman_model shard_manifest))) = 30" by (simp add: shard_manifest_def spec_simps)
  ultimately show ?thesis by (intro exI [of _ reports]) (simp add: list_all_iff)
qed

end
