(* ===== verification/InMemory.thy ===== *)
theory InMemory
  imports Transport
begin

text \<open>
  The in-memory transport (\<open>crates/collectives/src/in_memory.rs\<close>): one endpoint per rank,
  one unbounded first-in-first-out channel per ordered rank pair and one queue of frames a
  receive passed over. Time enters as \<open>clock\<close>: \<open>clock i\<close> is what \<open>started.elapsed()\<close>
  returns at the \<open>i\<close>-th turn of a receive loop; the channel of a call holds the frames that
  arrive before it would have to wait past its deadline. A dropped endpoint is \<open>None\<close> in
  the world. No code of the transport panics while it holds one of the locks, so the
  lock-poisoning branches (\<open>Synchronization\<close>) are not modelled.
\<close>

section \<open>Endpoints\<close>

record 'v in_memory_transport =
  im_rank :: rank
  im_senders :: "bool list"
  im_receivers :: "'v message_frame list option list"
  im_pending :: "'v message_frame list"
  im_receive_timeout :: duration

type_synonym 'v in_memory_world = "'v in_memory_transport option list"

definition create_in_memory_world :: "usize \<Rightarrow> duration \<Rightarrow> 'v in_memory_transport list cresult" where
  "create_in_memory_world W timeout =
     (if W = 0 then Inl InvalidWorldSize
      else collect_results (map (\<lambda>g. rbind (rank_new g W) (\<lambda>rk. Inr
        \<lparr>im_rank = rk,
         im_senders = map (\<lambda>destination. destination \<noteq> g) [0..<W],
         im_receivers = map (\<lambda>source. if source = g then None else Some []) [0..<W],
         im_pending = [], im_receive_timeout = timeout\<rparr>)) [0..<W]))"

text \<open>A frame reaches the channel of its source.\<close>

definition im_arrive :: "'v message_frame \<Rightarrow> 'v in_memory_transport \<Rightarrow> 'v in_memory_transport" where
  "im_arrive f ep = ep\<lparr>im_receivers :=
     (im_receivers ep)[f_source f := map_option (\<lambda>fs. fs @ [f]) (im_receivers ep ! f_source f)]\<rparr>"

definition im_send ::
  "'v in_memory_world \<Rightarrow> 'v in_memory_transport \<Rightarrow> usize \<Rightarrow> message_tag \<Rightarrow> 'v message_payload \<Rightarrow>
     unit cresult \<times> 'v in_memory_world" where
  "im_send world ep destination tag payload =
     (case validate_peer (im_rank ep) destination of
        Inl e \<Rightarrow> (Inl e, world)
      | Inr _ \<Rightarrow>
          if \<not> im_senders ep ! destination
          then (Inl (WorkerPanicked (global_rank (im_rank ep)) ''validated distinct peers always have a sender''), world)
          else case world ! destination of
              None \<Rightarrow> (Inl (SendDisconnected (global_rank (im_rank ep)) destination tag), world)
            | Some peer \<Rightarrow>
                (Inr (), world[destination := Some (im_arrive
                   \<lparr>f_source = global_rank (im_rank ep), f_destination = destination, f_tag = tag, f_payload = payload\<rparr>
                   peer)]))"

section \<open>Receiving\<close>

definition im_matches :: "payload_kind \<Rightarrow> message_tag \<Rightarrow> 'v message_frame \<Rightarrow> bool" where
  "im_matches q tag f \<longleftrightarrow> f_tag f = tag \<and> kind_of (f_payload f) = q"

definition im_take_pending ::
  "payload_kind \<Rightarrow> usize \<Rightarrow> message_tag \<Rightarrow> 'v in_memory_transport \<Rightarrow>
     'v message_payload option \<times> 'v in_memory_transport" where
  "im_take_pending q source tag ep =
     (case position (\<lambda>f. f_source f = source \<and> im_matches q tag f) (im_pending ep) of
        None \<Rightarrow> (None, ep)
      | Some index \<Rightarrow>
          (case remove_at index (im_pending ep) of
             None \<Rightarrow> (None, ep)
           | Some (f, rest) \<Rightarrow> (Some (f_payload f), ep\<lparr>im_pending := rest\<rparr>)))"

definition im_timeout_error :: "'v in_memory_transport \<Rightarrow> usize \<Rightarrow> message_tag \<Rightarrow> collectives_error" where
  "im_timeout_error ep source tag =
     ReceiveTimeout (global_rank (im_rank ep)) source tag (im_receive_timeout ep)"

fun im_recv_loop ::
  "payload_kind \<Rightarrow> (nat \<Rightarrow> duration) \<Rightarrow> bool \<Rightarrow> usize \<Rightarrow> message_tag \<Rightarrow> nat \<Rightarrow> 'v message_frame list \<Rightarrow>
     'v in_memory_transport \<Rightarrow> 'v message_payload cresult \<times> 'v in_memory_transport" where
  "im_recv_loop q clock connected source tag i [] ep =
     (let ep = ep\<lparr>im_receivers := (im_receivers ep)[source := Some []]\<rparr> in
      if clock i > im_receive_timeout ep then (Inl (im_timeout_error ep source tag), ep)
      else if connected then (Inl (im_timeout_error ep source tag), ep)
      else (Inl (ReceiveDisconnected (global_rank (im_rank ep)) source tag), ep))"
| "im_recv_loop q clock connected source tag i (f # fs) ep =
     (if clock i > im_receive_timeout ep
      then (Inl (im_timeout_error ep source tag), ep\<lparr>im_receivers := (im_receivers ep)[source := Some (f # fs)]\<rparr>)
      else if im_matches q tag f
      then (Inr (f_payload f), ep\<lparr>im_receivers := (im_receivers ep)[source := Some fs]\<rparr>)
      else im_recv_loop q clock connected source tag (Suc i) fs (ep\<lparr>im_pending := im_pending ep @ [f]\<rparr>))"

definition im_recv ::
  "payload_kind \<Rightarrow> (nat \<Rightarrow> duration) \<Rightarrow> bool \<Rightarrow> usize \<Rightarrow> message_tag \<Rightarrow> 'v in_memory_transport \<Rightarrow>
     'v message_payload cresult \<times> 'v in_memory_transport" where
  "im_recv q clock connected source tag ep =
     (case validate_peer (im_rank ep) source of
        Inl e \<Rightarrow> (Inl e, ep)
      | Inr _ \<Rightarrow>
          (case im_take_pending q source tag ep of
             (Some payload, ep') \<Rightarrow> (Inr payload, ep')
           | (None, ep') \<Rightarrow>
               (case im_receivers ep' ! source of
                  None \<Rightarrow> (Inl (WorkerPanicked (global_rank (im_rank ep'))
                            ''validated distinct peers always have a receiver''), ep')
                | Some frames \<Rightarrow> im_recv_loop q clock connected source tag 0 frames ep')))"

section \<open>The mailbox of an endpoint\<close>

definition frame_mail :: "'v message_frame \<Rightarrow> 'v mail" where
  "frame_mail f = (f_tag f, f_payload f)"

definition im_channel :: "'v in_memory_transport \<Rightarrow> usize \<Rightarrow> 'v message_frame list" where
  "im_channel ep s =
     (if s < length (im_receivers ep) then (case im_receivers ep ! s of None \<Rightarrow> [] | Some fs \<Rightarrow> fs) else [])"

definition im_box :: "'v in_memory_transport \<Rightarrow> usize \<Rightarrow> 'v mail list" where
  "im_box ep s = map frame_mail (filter (\<lambda>f. f_source f = s) (im_pending ep) @ im_channel ep s)"

definition im_peers :: "'v in_memory_transport \<Rightarrow> usize set" where
  "im_peers ep = {s. validate_peer (im_rank ep) s = Inr ()}"

definition im_wf :: "'v in_memory_transport \<Rightarrow> bool" where
  "im_wf ep \<longleftrightarrow>
     wf_rank (im_rank ep) \<and> length (im_receivers ep) = world_size (im_rank ep) \<and>
     length (im_senders ep) = world_size (im_rank ep) \<and>
     (\<forall>s < world_size (im_rank ep). im_senders ep ! s \<longleftrightarrow> s \<noteq> global_rank (im_rank ep)) \<and>
     (\<forall>s < world_size (im_rank ep). im_receivers ep ! s = None \<longleftrightarrow> s = global_rank (im_rank ep)) \<and>
     (\<forall>s < world_size (im_rank ep). \<forall>fs. im_receivers ep ! s = Some fs \<longrightarrow> (\<forall>f \<in> set fs. f_source f = s))"

definition im_deliver :: "usize \<Rightarrow> 'v mail \<Rightarrow> 'v in_memory_transport \<Rightarrow> 'v in_memory_transport" where
  "im_deliver s m ep = im_arrive
     \<lparr>f_source = s, f_destination = global_rank (im_rank ep), f_tag = fst m, f_payload = snd m\<rparr> ep"

text \<open>A receive that is not cut short: the deadline does not pass while frames are there.\<close>

definition im_receive ::
  "payload_kind \<Rightarrow> usize \<Rightarrow> message_tag \<Rightarrow> 'v in_memory_transport \<Rightarrow>
     'v message_payload option \<times> 'v in_memory_transport" where
  "im_receive q s t ep =
     (case im_recv q (\<lambda>_. 0) True s t ep of (Inr p, ep') \<Rightarrow> (Some p, ep') | (Inl _, ep') \<Rightarrow> (None, ep'))"

lemma im_matches_mail: "im_matches q t f = mail_matches q t (frame_mail f)"
  by (simp add: im_matches_def mail_matches_def frame_mail_def)

lemma im_peers_iff: "s \<in> im_peers ep \<longleftrightarrow> s < world_size (im_rank ep) \<and> s \<noteq> global_rank (im_rank ep)"
  by (simp add: im_peers_def)

lemma extract_first_map:
  "extract_first p (map g xs) = map_option (\<lambda>(x, ys). (g x, map g ys)) (extract_first (\<lambda>x. p (g x)) xs)"
  by (induction xs) (auto simp: option.map_comp comp_def case_prod_unfold simp del: extract_first_None)

lemma extract_first_filter:
  "extract_first p (filter r xs) = map_option (\<lambda>(x, ys). (x, filter r ys)) (extract_first (\<lambda>x. r x \<and> p x) xs)"
  by (induction xs) (auto simp: option.map_comp comp_def case_prod_unfold simp del: extract_first_None)

lemma loop_hit:
  assumes "\<forall>u \<in> set us. \<not> im_matches q t u" "im_matches q t f"
    and "\<forall>j. \<not> im_receive_timeout ep < clock j"
  shows "im_recv_loop q clock c s t i (us @ f # vs) ep =
     (Inr (f_payload f), ep\<lparr>im_pending := im_pending ep @ us, im_receivers := (im_receivers ep)[s := Some vs]\<rparr>)"
  using assms by (induction us arbitrary: i ep) auto

lemma loop_miss:
  assumes "\<forall>u \<in> set us. \<not> im_matches q t u" "\<forall>j. \<not> im_receive_timeout ep < clock j"
  shows "im_recv_loop q clock True s t i us ep =
     (Inl (im_timeout_error ep s t),
      ep\<lparr>im_pending := im_pending ep @ us, im_receivers := (im_receivers ep)[s := Some []]\<rparr>)"
  using assms by (induction us arbitrary: i ep) (auto simp: im_timeout_error_def Let_def)

lemma im_take_pending_extract:
  "im_take_pending q s t ep =
     (case extract_first (\<lambda>f. f_source f = s \<and> im_matches q t f) (im_pending ep) of
        None \<Rightarrow> (None, ep) | Some (f, rest) \<Rightarrow> (Some (f_payload f), ep\<lparr>im_pending := rest\<rparr>))"
  by (auto simp: im_take_pending_def position_remove_at simp del: position_None split: option.splits)

lemma pending_mail:
  "extract_first (mail_matches q t) (map frame_mail (filter (\<lambda>f. f_source f = s) fs)) =
     map_option (\<lambda>(f, rest). (frame_mail f, map frame_mail (filter (\<lambda>f. f_source f = s) rest)))
       (extract_first (\<lambda>f. f_source f = s \<and> im_matches q t f) fs)"
  by (simp add: extract_first_map extract_first_filter option.map_comp comp_def case_prod_unfold im_matches_mail
      del: extract_first_None)

lemma im_channel_Some:
  assumes "im_wf ep" "s \<in> im_peers ep"
  obtains fs where "im_receivers ep ! s = Some fs" "im_channel ep s = fs" "s < length (im_receivers ep)"
    "\<And>f. f \<in> set fs \<Longrightarrow> f_source f = s"
  using assms by (cases "im_receivers ep ! s") (auto simp: im_wf_def im_peers_iff im_channel_def)

text \<open>What a receive does, by where the first matching frame is.\<close>

lemma im_receive_cases:
  assumes wf: "im_wf ep" and s: "s \<in> im_peers ep"
  obtains (pending) f rest where
      "extract_first (\<lambda>f. f_source f = s \<and> im_matches q t f) (im_pending ep) = Some (f, rest)"
      "im_receive q s t ep = (Some (f_payload f), ep\<lparr>im_pending := rest\<rparr>)"
  | (channel) us f vs where
      "extract_first (\<lambda>f. f_source f = s \<and> im_matches q t f) (im_pending ep) = None"
      "im_channel ep s = us @ f # vs" "\<forall>u \<in> set us. \<not> im_matches q t u" "im_matches q t f"
      "im_receive q s t ep = (Some (f_payload f),
         ep\<lparr>im_pending := im_pending ep @ us, im_receivers := (im_receivers ep)[s := Some vs]\<rparr>)"
  | (absent) "extract_first (\<lambda>f. f_source f = s \<and> im_matches q t f) (im_pending ep) = None"
      "\<forall>u \<in> set (im_channel ep s). \<not> im_matches q t u"
      "im_receive q s t ep = (None,
         ep\<lparr>im_pending := im_pending ep @ im_channel ep s, im_receivers := (im_receivers ep)[s := Some []]\<rparr>)"
proof -
  have peer: "validate_peer (im_rank ep) s = Inr ()" using s by (simp add: im_peers_def)
  obtain fs where fs: "im_receivers ep ! s = Some fs" "im_channel ep s = fs" using im_channel_Some [OF wf s] by metis
  show thesis
  proof (cases "extract_first (\<lambda>f. f_source f = s \<and> im_matches q t f) (im_pending ep)")
    case (Some x)
    obtain f rest where x: "x = (f, rest)" by (cases x)
    show thesis
      by (rule pending [of f rest])
         (use Some x peer in \<open>simp_all add: im_receive_def im_recv_def im_take_pending_extract
            del: validate_peer_Inr\<close>)
  next
    case None
    show thesis
    proof (cases "extract_first (im_matches q t) fs")
      case None': None
      then have miss: "\<forall>u \<in> set fs. \<not> im_matches q t u" by simp
      show thesis
        by (rule absent)
           (use None miss fs peer in \<open>simp_all add: im_receive_def im_recv_def im_take_pending_extract loop_miss
              del: extract_first_None validate_peer_Inr\<close>)
    next
      case (Some x)
      then obtain f rest where "extract_first (im_matches q t) fs = Some (f, rest)" by (cases x) auto
      from extract_first_Some_split [OF this] obtain us vs where
        h: "fs = us @ f # vs" "im_matches q t f" "\<forall>u \<in> set us. \<not> im_matches q t u" by blast
      show thesis
        by (rule channel [of us f vs])
           (use None h fs peer in \<open>simp_all add: im_receive_def im_recv_def im_take_pending_extract loop_hit
              del: extract_first_None validate_peer_Inr\<close>)
    qed
  qed
qed

lemma im_channel_update:
  "s < length (im_receivers ep) \<Longrightarrow>
     im_channel (ep\<lparr>im_pending := ps, im_receivers := (im_receivers ep)[s := Some fs]\<rparr>) s' =
       (if s' = s then fs else im_channel ep s')"
  by (auto simp: im_channel_def)

lemma frame_mail_snd: "f_payload f = snd (frame_mail f)"
  by (simp add: frame_mail_def)

lemma take_from_pending:
  assumes "extract_first (\<lambda>f. f_source f = s \<and> im_matches q t f) (im_pending ep) = Some (f, rest)"
  shows "take_mail q t (im_box ep s) = Some (f_payload f, im_box (ep\<lparr>im_pending := rest\<rparr>) s)"
    and "s' \<noteq> s \<Longrightarrow> im_box (ep\<lparr>im_pending := rest\<rparr>) s' = im_box ep s'"
proof -
  have ch: "im_channel (ep\<lparr>im_pending := ps\<rparr>) = im_channel ep" for ps
    by (simp add: im_channel_def fun_eq_iff)
  have "extract_first (mail_matches q t) (map frame_mail (filter (\<lambda>f. f_source f = s) (im_pending ep)))
      = Some (frame_mail f, map frame_mail (filter (\<lambda>f. f_source f = s) rest))"
    by (simp add: pending_mail assms)
  then show "take_mail q t (im_box ep s) = Some (f_payload f, im_box (ep\<lparr>im_pending := rest\<rparr>) s)"
    by (simp add: take_mail_def im_box_def extract_first_append ch frame_mail_def)
  from extract_first_Some_split [OF assms] obtain us vs where
    "im_pending ep = us @ f # vs" "rest = us @ vs" "f_source f = s" by blast
  then show "s' \<noteq> s \<Longrightarrow> im_box (ep\<lparr>im_pending := rest\<rparr>) s' = im_box ep s'"
    by (simp add: im_box_def ch)
qed

lemma moved_to_pending:
  assumes "\<forall>u \<in> set us. f_source u = s" "s < length (im_receivers ep)" "im_channel ep s = us @ ws"
  shows "im_box (ep\<lparr>im_pending := im_pending ep @ us, im_receivers := (im_receivers ep)[s := Some vs]\<rparr>) s' =
     (if s' = s then map frame_mail (filter (\<lambda>f. f_source f = s) (im_pending ep) @ us @ vs) else im_box ep s')"
proof -
  have "filter (\<lambda>f. f_source f = s') us = (if s' = s then us else [])"
    using assms(1) by (induction us) auto
  with assms(2) show ?thesis by (simp add: im_box_def im_channel_update)
qed

lemma take_after_pending:
  assumes "extract_first (\<lambda>f. f_source f = s \<and> im_matches q t f) (im_pending ep) = None"
    and "im_channel ep s = us @ ws" "\<forall>u \<in> set us. \<not> im_matches q t u"
  shows "take_mail q t (im_box ep s) = map_option (\<lambda>(m, rest). (snd m,
      map frame_mail (filter (\<lambda>f. f_source f = s) (im_pending ep) @ us) @ rest))
        (extract_first (mail_matches q t) (map frame_mail ws))"
proof -
  have 1: "extract_first (mail_matches q t) (map frame_mail (filter (\<lambda>f. f_source f = s) (im_pending ep))) = None"
    using assms(1) by (simp only: pending_mail) simp
  have 2: "extract_first (mail_matches q t) (map frame_mail us) = None"
    using assms(3) by (simp add: im_matches_mail)
  show ?thesis
    unfolding take_mail_def im_box_def assms(2) map_append extract_first_append 1 2
    by (simp add: option.map_comp comp_def case_prod_unfold)
qed

interpretation im: mailbox_transport im_box im_peers im_deliver im_receive im_wf "\<lambda>_ _. True"
proof unfold_locales
  fix ep :: "'v in_memory_transport" and s s' m
  assume wf: "im_wf ep" and s: "s \<in> im_peers ep"
  obtain fs where fs: "im_receivers ep ! s = Some fs" "im_channel ep s = fs" "s < length (im_receivers ep)"
    "\<And>f. f \<in> set fs \<Longrightarrow> f_source f = s" using im_channel_Some [OF wf s] by metis
  show "im_box (im_deliver s m ep) s' = (if s' = s then im_box ep s @ [m] else im_box ep s')"
    using fs by (auto simp: im_box_def im_deliver_def im_arrive_def im_channel_def frame_mail_def)
  show "im_wf (im_deliver s m ep) \<and> im_peers (im_deliver s m ep) = im_peers ep"
    using fs wf s by (auto simp: im_wf_def im_deliver_def im_arrive_def im_peers_iff nth_list_update)
next
  fix ep ep' :: "'v in_memory_transport" and s q t r
  assume wf: "im_wf ep" and s: "s \<in> im_peers ep" and r: "im_receive q s t ep = (r, ep')"
  have len: "s < length (im_receivers ep)" using wf s by (simp add: im_wf_def im_peers_iff)
  have src: "f_source f = s" if "f \<in> set (im_channel ep s)" for f
    using im_channel_Some [OF wf s] that by metis
  show "im_wf ep' \<and> im_peers ep' = im_peers ep"
    by (cases rule: im_receive_cases [OF wf s, of q t]) (use wf s r len src in \<open>auto simp: im_wf_def im_peers_iff nth_list_update\<close>)
next
  fix ep ep' :: "'v in_memory_transport" and s q t p
  assume wf: "im_wf ep" and s: "s \<in> im_peers ep" and r: "im_receive q s t ep = (Some p, ep')"
  have len: "s < length (im_receivers ep)" using wf s by (simp add: im_wf_def im_peers_iff)
  have src: "f_source f = s" if "f \<in> set (im_channel ep s)" for f
    using im_channel_Some [OF wf s] that by metis
  show "take_mail q t (im_box ep s) = Some (p, im_box ep' s) \<and> (\<forall>s'. s' \<noteq> s \<longrightarrow> im_box ep' s' = im_box ep s')"
  proof (use wf s in \<open>cases rule: im_receive_cases [where q = q and t = t]\<close>)
    case (pending f rest)
    with r take_from_pending [OF pending(1)] show ?thesis by simp
  next
    case (channel us f vs)
    have us: "\<forall>u \<in> set us. f_source u = s" using src channel(2) by simp
    have "extract_first (mail_matches q t) (map frame_mail (f # vs)) = Some (frame_mail f, map frame_mail vs)"
      using channel(4) by (simp add: im_matches_mail)
    with r channel(5) take_after_pending [OF channel(1-3)] moved_to_pending [OF us len channel(2)]
    show ?thesis by (auto simp: frame_mail_def)
  qed (use r in simp)
next
  fix ep ep' :: "'v in_memory_transport" and s q t
  assume wf: "im_wf ep" and s: "s \<in> im_peers ep" and r: "im_receive q s t ep = (None, ep')"
  have len: "s < length (im_receivers ep)" using wf s by (simp add: im_wf_def im_peers_iff)
  have src: "\<forall>f \<in> set (im_channel ep s). f_source f = s"
    using im_channel_Some [OF wf s] by metis
  show "take_mail q t (im_box ep s) = None \<and> im_box ep' = im_box ep"
  proof (use wf s in \<open>cases rule: im_receive_cases [where q = q and t = t]\<close>)
    case absent
    have ch: "im_channel ep s = im_channel ep s @ []" by simp
    from r absent(3) take_after_pending [OF absent(1) ch absent(2)] moved_to_pending [OF src len ch, of "[]"]
    show ?thesis by (auto simp: im_box_def fun_eq_iff)
  qed (use r in simp_all)
qed

section \<open>Properties\<close>

text \<open>
  Creating a world gives exactly one endpoint per rank, in rank order, each with a
  channel from and to every other rank and none to itself, and no frame waiting anywhere;
  only the empty world is refused.
\<close>

theorem create_world_correct:
  "create_in_memory_world 0 timeout = Inl InvalidWorldSize \<and>
   (0 < W \<longrightarrow> (\<exists>eps. create_in_memory_world W timeout = Inr eps \<and> length eps = W \<and>
      (\<forall>g < W. im_wf (eps ! g) \<and> global_rank (im_rank (eps ! g)) = g \<and> im_peers (eps ! g) = {0..<W} - {g}
        \<and> (\<forall>s. im_box (eps ! g) s = []))))"
proof (intro conjI impI)
  let ?ep = "\<lambda>g. \<lparr>im_rank = \<lparr>global_rank = g, world_size = W\<rparr>, im_senders = map (\<lambda>d. d \<noteq> g) [0..<W],
      im_receivers = map (\<lambda>s. if s = g then None else Some []) [0..<W], im_pending = [], im_receive_timeout = timeout\<rparr>"
  assume "0 < W"
  then have "create_in_memory_world W timeout = Inr (map ?ep [0..<W])"
    by (auto simp: create_in_memory_world_def collect_results_Inr rank_new_def)
  moreover have "im_wf (?ep g) \<and> im_peers (?ep g) = {0..<W} - {g} \<and> (\<forall>s. im_box (?ep g) s = [])" if "g < W" for g
    using that by (auto simp: im_wf_def wf_rank_def im_peers_iff im_box_def im_channel_def)
  ultimately show "\<exists>eps. create_in_memory_world W timeout = Inr eps \<and> length eps = W \<and>
      (\<forall>g < W. im_wf (eps ! g) \<and> global_rank (im_rank (eps ! g)) = g \<and> im_peers (eps ! g) = {0..<W} - {g}
        \<and> (\<forall>s. im_box (eps ! g) s = []))"
    by (intro exI [of _ "map ?ep [0..<W]"]) auto
qed (simp add: create_in_memory_world_def)

theorem create_world_correct_witness:
  "\<exists>eps :: int in_memory_transport list. create_in_memory_world 3 5 = Inr eps \<and> length eps = 3 \<and> im_wf (eps ! 2)"
  using create_world_correct [of 5 3] by auto

lemma im_send_Inr:
  assumes "im_wf ep" "d \<in> im_peers ep" "world ! d = Some peer" "global_rank (im_rank peer) = d"
  shows "im_send world ep d t p = (Inr (), world[d := Some (im_deliver (global_rank (im_rank ep)) (t, p) peer)])"
  using assms
  by (auto simp: im_send_def im_peers_iff im_wf_def im_deliver_def validate_peer_def split: sum.splits)

text \<open>
  C32. A sent packet arrives: when rank \<open>d\<close> has no earlier message of that source, kind and
  tag waiting, a send to it succeeds and its next receive for that source, kind and tag
  returns exactly that packet and leaves every mailbox as it was before the send.
\<close>

theorem in_memory_send_recv:
  assumes "im_wf ep" "d \<in> im_peers ep" "d < length world"
    and "world ! d = Some peer" "im_wf peer" "global_rank (im_rank peer) = d"
    and "global_rank (im_rank ep) \<in> im_peers peer"
    and "take_mail (kind_of p) t (im_box peer (global_rank (im_rank ep))) = None"
  shows "\<exists>peer' peer''. im_send world ep d t p = (Inr (), world[d := Some peer'])
     \<and> im_recv (kind_of p) (\<lambda>_. 0) True (global_rank (im_rank ep)) t peer' = (Inr p, peer'')
     \<and> im_box peer'' = im_box peer"
proof -
  let ?s = "global_rank (im_rank ep)"
  let ?peer = "im_deliver ?s (t, p) peer"
  have "im_send world ep d t p = (Inr (), world[d := Some ?peer])"
    by (rule im_send_Inr [OF assms(1,2,4,6)])
  moreover obtain peer'' where r: "im_receive (kind_of p) ?s t ?peer = (Some p, peer'')" "im_box peer'' = im_box peer"
    using im.receive_after_delivers [OF assms(5,7) _ assms(8) refl] by auto
  moreover from r(1) have "im_recv (kind_of p) (\<lambda>_. 0) True ?s t ?peer = (Inr p, peer'')"
    by (auto simp: im_receive_def split: prod.splits sum.splits)
  ultimately show ?thesis by blast
qed

theorem in_memory_send_recv_witness:
  "\<exists>eps :: int in_memory_transport list. create_in_memory_world 2 5 = Inr eps \<and>
     (\<exists>peer' peer''. im_send (map Some eps) (eps ! 0) 1 7 (ControlPayload (ControlPacket [3])) =
         (Inr (), (map Some eps)[1 := Some peer'])
       \<and> im_recv ControlKind (\<lambda>_. 0) True 0 7 peer' = (Inr (ControlPayload (ControlPacket [3])), peer'')
       \<and> im_box peer'' = im_box (eps ! 1))"
proof -
  let ?ep = "\<lambda>g. \<lparr>im_rank = \<lparr>global_rank = g, world_size = 2\<rparr>, im_senders = [0 \<noteq> g, 1 \<noteq> g],
      im_receivers = [if 0 = g then None else Some [], if 1 = g then None else Some []], im_pending = [],
      im_receive_timeout = 5\<rparr> :: int in_memory_transport"
  have "create_in_memory_world 2 5 = Inr [?ep 0, ?ep 1]"
    by (simp add: create_in_memory_world_def rank_new_def upt_rec)
  moreover have wf: "im_wf (?ep 0)" "im_wf (?ep 1)"
    by (auto simp: im_wf_def wf_rank_def less_Suc_eq numeral_2_eq_2)
  ultimately show ?thesis
    using in_memory_send_recv [of "?ep 0" 1 "map Some [?ep 0, ?ep 1]" "?ep 1" "ControlPayload (ControlPacket [3])" 7]
    by (simp add: im_peers_iff im_box_def im_channel_def)
qed

lemma loop_error_box:
  assumes "im_recv_loop q clock c s t i fs ep = (Inl e, ep')" "s < length (im_receivers ep)"
    and "\<forall>f \<in> set fs. f_source f = s"
  shows "im_box ep' = im_box (ep\<lparr>im_receivers := (im_receivers ep)[s := Some fs]\<rparr>)"
  using assms
proof (induction fs arbitrary: i ep)
  case Nil
  then show ?case by (auto simp: Let_def split: if_splits)
next
  case (Cons f fs)
  show ?case
  proof (cases "clock i > im_receive_timeout ep")
    case True
    with Cons.prems show ?thesis by auto
  next
    case False
    with Cons.prems have "im_recv_loop q clock c s t (Suc i) fs (ep\<lparr>im_pending := im_pending ep @ [f]\<rparr>) = (Inl e, ep')"
      by (auto split: if_splits)
    from Cons.IH [OF this] Cons.prems(2,3) show ?thesis
      by (auto simp: im_box_def im_channel_def fun_eq_iff)
  qed
qed

text \<open>
  C33. A receive that fails, because its deadline passes at any point or because the sender
  is gone, loses nothing: every mailbox of the endpoint holds the same messages in the same
  order as before the call.
\<close>

theorem failed_recv_keeps_mail:
  assumes "im_wf ep" "im_recv q clock connected s t ep = (Inl e, ep')"
  shows "im_box ep' = im_box ep"
proof (cases "validate_peer (im_rank ep) s")
  case (Inl e')
  with assms(2) show ?thesis by (simp add: im_recv_def)
next
  case (Inr u)
  then have s: "s \<in> im_peers ep" by (simp add: im_peers_def)
  obtain fs where fs: "im_receivers ep ! s = Some fs" "s < length (im_receivers ep)"
    "\<And>f. f \<in> set fs \<Longrightarrow> f_source f = s" using im_channel_Some [OF assms(1) s] by metis
  have same: "(im_receivers ep)[s := Some fs] = im_receivers ep" by (metis fs(1) list_update_id)
  have "im_recv_loop q clock connected s t 0 fs ep = (Inl e, ep')"
    using assms(2) Inr fs(1) unfolding im_recv_def im_take_pending_extract
    by (auto split: option.splits prod.splits simp del: extract_first_None)
  from loop_error_box [OF this fs(2)] fs(3) show ?thesis by (simp add: same)
qed

theorem failed_recv_keeps_mail_witness:
  "\<exists>ep ep' :: int in_memory_transport. im_wf ep \<and> im_box ep 1 \<noteq> [] \<and>
     im_recv TensorKind (\<lambda>i. i) True 1 7 ep = (Inl (ReceiveTimeout 0 1 7 5), ep') \<and> ep' \<noteq> ep \<and> im_box ep' = im_box ep"
proof -
  let ?f = "\<lparr>f_source = 1, f_destination = 0, f_tag = 8, f_payload = ControlPayload (ControlPacket [3])\<rparr>"
  let ?ep = "\<lambda>ch ps. \<lparr>im_rank = \<lparr>global_rank = 0, world_size = 2\<rparr>, im_senders = [False, True],
      im_receivers = [None, Some ch], im_pending = ps, im_receive_timeout = 5\<rparr> :: int in_memory_transport"
  have wf: "im_wf (?ep [?f] [])" by (auto simp: im_wf_def wf_rank_def less_Suc_eq numeral_2_eq_2)
  have r: "im_recv TensorKind (\<lambda>i. i) True 1 7 (?ep [?f] []) = (Inl (ReceiveTimeout 0 1 7 5), ?ep [] [?f])"
    by (simp add: im_recv_def validate_peer_def im_take_pending_def im_matches_def im_timeout_error_def Let_def)
  have "im_box (?ep [?f] []) 1 \<noteq> []" by (simp add: im_box_def im_channel_def)
  moreover note failed_recv_keeps_mail [OF wf r]
  ultimately show ?thesis
    using wf r by (intro exI [of _ "?ep [?f] []"] exI [of _ "?ep [] [?f]"] conjI) (assumption | simp)+
qed

end
