(* ===== verification/InMemoryBarrier.thy ===== *)
theory InMemoryBarrier
  imports Ranks
begin

text \<open>
  The reusable barrier of the in-memory world (\<open>InMemoryBarrier\<close> in
  \<open>crates/collectives/src/in_memory.rs\<close>) as a state machine. The code runs under one lock
  and releases it only inside \<open>wait_timeout\<close>, so a call is an entry step and then any number
  of wake-up steps. \<open>expired\<close> says that \<open>timeout.checked_sub(elapsed)\<close> fails at the head of
  the wait loop, \<open>timed_out\<close> that the wait itself timed out. \<open>barrier_steps\<close> lets the ranks of
  a world enter and wake in any order, any number of times.
\<close>

record barrier_state =
  generation :: u64
  arrived :: usize
  broken :: bool

datatype barrier_call = Waiting u64 | Returned "unit cresult"

definition barrier_new :: barrier_state where
  "barrier_new = \<lparr>generation = 0, arrived = 0, broken = False\<rparr>"

text \<open>The head of the wait loop: give up and break the barrier, or wait.\<close>

definition barrier_loop_head ::
  "usize \<Rightarrow> duration \<Rightarrow> bool \<Rightarrow> u64 \<Rightarrow> barrier_state \<Rightarrow> barrier_state \<times> barrier_call" where
  "barrier_loop_head rank timeout expired gen st =
     (if expired then (st\<lparr>broken := True\<rparr>, Returned (Inl (BarrierTimeout rank gen timeout)))
      else (st, Waiting gen))"

definition barrier_enter ::
  "nat \<Rightarrow> usize \<Rightarrow> duration \<Rightarrow> bool \<Rightarrow> barrier_state \<Rightarrow> barrier_state \<times> barrier_call" where
  "barrier_enter W rank timeout expired st =
     (let gen = generation st in
      if broken st then (st, Returned (Inl (BarrierBroken rank gen)))
      else let st = st\<lparr>arrived := arrived st + 1\<rparr> in
        if arrived st = W then
          (let st = st\<lparr>arrived := 0\<rparr> in
           case checked_add (generation st) 1 of
             None \<Rightarrow> (st, Returned (Inl (Protocol ''barrier generation overflow'')))
           | Some g \<Rightarrow> (st\<lparr>generation := g\<rparr>, Returned (Inr ())))
        else barrier_loop_head rank timeout expired gen st)"

definition barrier_wake ::
  "usize \<Rightarrow> duration \<Rightarrow> bool \<Rightarrow> bool \<Rightarrow> u64 \<Rightarrow> barrier_state \<Rightarrow> barrier_state \<times> barrier_call" where
  "barrier_wake rank timeout timed_out expired gen st =
     (if generation st \<noteq> gen then (st, Returned (Inr ()))
      else if broken st then (st, Returned (Inl (BarrierBroken rank gen)))
      else if timed_out then (st\<lparr>broken := True\<rparr>, Returned (Inl (BarrierTimeout rank gen timeout)))
      else barrier_loop_head rank timeout expired gen st)"

section \<open>Ranks using the barrier\<close>

text \<open>\<open>Ready k\<close>: passed \<open>k\<close> barriers and is outside; \<open>Inside k gen\<close>: waiting in the next one,
  entered at generation \<open>gen\<close>; \<open>Gone k e\<close>: its call failed with \<open>e\<close> after \<open>k\<close> barriers.\<close>

datatype barrier_rank = Ready nat | Inside nat u64 | Gone nat collectives_error

fun after_call :: "nat \<Rightarrow> barrier_call \<Rightarrow> barrier_rank" where
  "after_call k (Waiting gen) = Inside k gen"
| "after_call k (Returned (Inr _)) = Ready (Suc k)"
| "after_call k (Returned (Inl e)) = Gone k e"

record barrier_world =
  shared :: barrier_state
  ranks :: "usize \<Rightarrow> barrier_rank"

inductive barrier_step :: "nat \<Rightarrow> duration \<Rightarrow> barrier_world \<Rightarrow> barrier_world \<Rightarrow> bool" for W timeout where
  enter: "r < W \<Longrightarrow> ranks b r = Ready k \<Longrightarrow> barrier_enter W r timeout expired (shared b) = (st, c) \<Longrightarrow>
     barrier_step W timeout b \<lparr>shared = st, ranks = (ranks b)(r := after_call k c)\<rparr>"
| wake: "r < W \<Longrightarrow> ranks b r = Inside k gen \<Longrightarrow>
     barrier_wake r timeout timed_out expired gen (shared b) = (st, c) \<Longrightarrow>
     barrier_step W timeout b \<lparr>shared = st, ranks = (ranks b)(r := after_call k c)\<rparr>"

inductive_cases barrier_stepE: "barrier_step W timeout b b'"

definition barrier_start :: barrier_world where
  "barrier_start = \<lparr>shared = barrier_new, ranks = (\<lambda>_. Ready 0)\<rparr>"

fun passed :: "barrier_rank \<Rightarrow> nat" where
  "passed (Ready k) = k" | "passed (Inside k g) = k" | "passed (Gone k e) = k"

fun entered :: "barrier_rank \<Rightarrow> nat" where
  "entered (Ready k) = k" | "entered (Inside k g) = Suc k" | "entered (Gone k e) = k"

section \<open>The invariant\<close>

text \<open>
  With \<open>g\<close> the generation: every rank is outside having passed \<open>g\<close> barriers, inside the
  current one, or inside the previous one and already released. While no call has failed, the
  barrier is intact and the arrival count is the number of ranks inside the current one, less
  than the world size. A failed call breaks the barrier, except that the overflow of the
  generation counter leaves all other ranks inside.
\<close>

definition inside_current :: "nat \<Rightarrow> u64 \<Rightarrow> (usize \<Rightarrow> barrier_rank) \<Rightarrow> usize set" where
  "inside_current W g rs = {r. r < W \<and> rs r = Inside (unat g) g}"

fun placed :: "u64 \<Rightarrow> barrier_rank \<Rightarrow> bool" where
  "placed g (Ready k) = (k = unat g)"
| "placed g (Inside k gen) = (k = unat gen \<and> (gen = g \<or> Suc k = unat g))"
| "placed g (Gone k e) = (k = unat g)"

fun is_gone :: "barrier_rank \<Rightarrow> bool" where
  "is_gone (Gone k e) = True"
| "is_gone _ = False"

definition barrier_inv :: "nat \<Rightarrow> barrier_world \<Rightarrow> bool" where
  "barrier_inv W b \<longleftrightarrow>
     (let g = generation (shared b) in
      (\<forall>r < W. placed g (ranks b r)) \<and>
      ((\<exists>r < W. is_gone (ranks b r)) \<longrightarrow>
         broken (shared b) \<or> (\<forall>r < W. is_gone (ranks b r) \<or> ranks b r = Inside (unat g) g)) \<and>
      ((\<forall>r < W. \<not> is_gone (ranks b r)) \<longrightarrow>
         \<not> broken (shared b) \<and> arrived (shared b) = card (inside_current W g (ranks b)) \<and> arrived (shared b) < W))"

lemma finite_inside [simp]: "finite (inside_current W g rs)"
  by (simp add: inside_current_def)

lemma inside_insert:
  "r < W \<Longrightarrow> inside_current W g (rs(r := Inside (unat g) g)) = insert r (inside_current W g rs)"
  by (auto simp: inside_current_def)

lemma inside_all:
  assumes "card (inside_current W g rs) = W - 1" "r < W" "r \<notin> inside_current W g rs" "i < W" "i \<noteq> r"
  shows "rs i = Inside (unat g) g"
proof -
  have "inside_current W g rs \<subseteq> {0..<W} - {r}" using assms(3) by (auto simp: inside_current_def)
  moreover have "card (inside_current W g rs) = card ({0..<W} - {r})" using assms(1,2) by simp
  ultimately have "inside_current W g rs = {0..<W} - {r}" by (rule card_subset_eq [rotated]) simp
  then have "i \<in> inside_current W g rs" using assms(4,5) by simp
  then show ?thesis by (simp add: inside_current_def)
qed

lemma barrier_inv_intactI:
  assumes "\<And>i. i < W \<Longrightarrow> placed (generation st) (rs i) \<and> \<not> is_gone (rs i)" "\<not> broken st"
    and "arrived st = card (inside_current W (generation st) rs)" "arrived st < W"
  shows "barrier_inv W \<lparr>shared = st, ranks = rs\<rparr>"
  unfolding barrier_inv_def Let_def barrier_world.select_convs
  by (intro conjI impI allI; use assms in blast)

lemma barrier_inv_brokenI:
  assumes "\<And>i. i < W \<Longrightarrow> placed (generation st) (rs i)" "r < W" "is_gone (rs r)" "broken st"
  shows "barrier_inv W \<lparr>shared = st, ranks = rs\<rparr>"
  unfolding barrier_inv_def Let_def barrier_world.select_convs
  by (intro conjI impI allI; use assms in blast)

lemma barrier_inv_placed: "barrier_inv W b \<Longrightarrow> i < W \<Longrightarrow> placed (generation (shared b)) (ranks b i)"
  by (simp add: barrier_inv_def Let_def)

lemma barrier_inv_intact:
  assumes "barrier_inv W b" "r < W" "ranks b r = Ready k" "\<not> broken (shared b)"
  shows "\<forall>i < W. \<not> is_gone (ranks b i)"
    and "arrived (shared b) = card (inside_current W (generation (shared b)) (ranks b))" "arrived (shared b) < W"
proof -
  show none: "\<forall>i < W. \<not> is_gone (ranks b i)"
    using assms unfolding barrier_inv_def Let_def by (metis barrier_rank.distinct(1) is_gone.simps(2))
  show "arrived (shared b) = card (inside_current W (generation (shared b)) (ranks b))" "arrived (shared b) < W"
    using assms(1) none by (auto simp: barrier_inv_def Let_def)
qed

text \<open>A rank whose call fails while the barrier is or becomes broken.\<close>

lemma inv_gone:
  assumes "barrier_inv W b" "r < W" "k = unat (generation (shared b))"
    and "generation st = generation (shared b)" "broken st"
  shows "barrier_inv W \<lparr>shared = st, ranks = (ranks b)(r := Gone k e)\<rparr>"
  by (rule barrier_inv_brokenI [of _ _ _ r]) (use assms barrier_inv_placed [OF assms(1)] in auto)

lemma inv_enter_wait:
  assumes inv: "barrier_inv W b" and r: "r < W" "ranks b r = Ready (unat (generation (shared b)))"
    and "\<not> broken (shared b)" "arrived (shared b) + 1 \<noteq> W"
  shows "barrier_inv W \<lparr>shared = (shared b)\<lparr>arrived := arrived (shared b) + 1\<rparr>,
     ranks = (ranks b)(r := Inside (unat (generation (shared b))) (generation (shared b)))\<rparr>"
proof -
  note intact = barrier_inv_intact [OF inv r assms(4)]
  have "r \<notin> inside_current W (generation (shared b)) (ranks b)" using r by (simp add: inside_current_def)
  then show ?thesis
    by (intro barrier_inv_intactI)
       (use intact r assms(4,5) barrier_inv_placed [OF inv] in \<open>auto simp: inside_insert\<close>)
qed

lemma inv_enter_last:
  assumes inv: "barrier_inv W b" and r: "r < W" "ranks b r = Ready (unat (generation (shared b)))"
    and "\<not> broken (shared b)" "arrived (shared b) + 1 = W"
  shows "checked_add (generation (shared b)) 1 = Some g \<Longrightarrow>
       barrier_inv W \<lparr>shared = (shared b)\<lparr>arrived := 0, generation := g\<rparr>,
         ranks = (ranks b)(r := Ready (Suc (unat (generation (shared b)))))\<rparr>"
    and "barrier_inv W \<lparr>shared = (shared b)\<lparr>arrived := 0\<rparr>,
         ranks = (ranks b)(r := Gone (unat (generation (shared b))) e)\<rparr>"
proof -
  let ?g = "generation (shared b)"
  note intact = barrier_inv_intact [OF inv r assms(4)]
  have all: "ranks b i = Inside (unat ?g) ?g" if "i < W" "i \<noteq> r" for i
    using that r assms(5) intact by (intro inside_all [of W ?g "ranks b" r i]) (auto simp: inside_current_def)
  show "barrier_inv W \<lparr>shared = (shared b)\<lparr>arrived := 0\<rparr>, ranks = (ranks b)(r := Gone (unat ?g) e)\<rparr>"
    using r all barrier_inv_placed [OF inv] by (auto simp: barrier_inv_def Let_def)
  assume "checked_add ?g 1 = Some g"
  then have g: "unat g = Suc (unat ?g)" by (simp add: checked_simps)
  let ?rs = "(ranks b)(r := Ready (Suc (unat ?g)))"
  have "?rs i \<noteq> Inside (unat g) g" if "i < W" for i using all [OF that] g by auto
  then have "inside_current W g ?rs = {}" by (simp add: inside_current_def)
  moreover have "placed g (?rs i) \<and> \<not> is_gone (?rs i)" if "i < W" for i
    using all [OF that] that g by auto
  ultimately show "barrier_inv W \<lparr>shared = (shared b)\<lparr>arrived := 0, generation := g\<rparr>, ranks = ?rs\<rparr>"
    using r assms(4) by (intro barrier_inv_intactI) auto
qed

lemma inv_released:
  assumes inv: "barrier_inv W b" and r: "r < W" "ranks b r = Inside k gen" "gen \<noteq> generation (shared b)"
  shows "barrier_inv W \<lparr>shared = shared b, ranks = (ranks b)(r := Ready (Suc k))\<rparr>"
proof -
  let ?g = "generation (shared b)" and ?rs = "(ranks b)(r := Ready (Suc k))"
  have placed: "placed ?g (?rs i)" if "i < W" for i
    using barrier_inv_placed [OF inv that] barrier_inv_placed [OF inv r(1)] r by auto
  have same: "inside_current W ?g ?rs = inside_current W ?g (ranks b)"
    using r by (auto simp: inside_current_def)
  show ?thesis
  proof (cases "\<exists>i < W. is_gone (ranks b i)")
    case True
    then obtain i where i: "i < W" "is_gone (ranks b i)" by blast
    have "\<not> is_gone (ranks b r)" "ranks b r \<noteq> Inside (unat ?g) ?g" using r by auto
    with True inv r(1) have "broken (shared b)" unfolding barrier_inv_def Let_def by blast
    moreover have "i \<noteq> r" using i r by auto
    ultimately show ?thesis using i placed by (intro barrier_inv_brokenI [of _ _ _ i]) auto
  next
    case False
    with inv have "\<not> broken (shared b)" "arrived (shared b) = card (inside_current W ?g (ranks b))"
      "arrived (shared b) < W" by (auto simp: barrier_inv_def Let_def)
    with False placed same show ?thesis by (intro barrier_inv_intactI) auto
  qed
qed

lemma barrier_inv_step:
  assumes "barrier_step W timeout b b'" "barrier_inv W b"
  shows "barrier_inv W b'"
  using assms(1)
proof cases
  case (enter r k expired st c)
  have k: "k = unat (generation (shared b))"
    using assms(2) enter by (force simp: barrier_inv_def Let_def)
  show ?thesis
    using enter inv_gone [OF assms(2)] inv_enter_wait [OF assms(2), of r] inv_enter_last [OF assms(2), of r] k
    by (auto simp: barrier_enter_def barrier_loop_head_def Let_def split: if_splits option.splits)
next
  case (wake r k gen timed_out expired st c)
  have k: "k = unat gen" using assms(2) wake by (force simp: barrier_inv_def Let_def)
  have id: "(ranks b)(r := Inside k gen) = ranks b" using wake by auto
  have eta: "barrier_inv W \<lparr>shared = shared b, ranks = ranks b\<rparr>" using assms(2) by (cases b) simp
  show ?thesis
    using wake inv_gone [OF assms(2)] inv_released [OF assms(2), of r k gen] k id eta
    by (auto simp: barrier_wake_def barrier_loop_head_def Let_def split: if_splits)
qed

lemma barrier_inv_reachable:
  assumes "(barrier_step W timeout)\<^sup>*\<^sup>* barrier_start b" "0 < W"
  shows "barrier_inv W b"
  using assms(1)
proof (induction rule: rtranclp_induct)
  case base
  then show ?case
    using assms(2) by (simp add: barrier_inv_def barrier_start_def barrier_new_def inside_current_def)
next
  case (step b b')
  then show ?case using barrier_inv_step by blast
qed

lemma passed_le: "placed g x \<Longrightarrow> passed x \<le> unat g"
  by (cases x) auto

lemma entered_ge: "placed g x \<Longrightarrow> unat g \<le> entered x"
  by (cases x) auto

text \<open>
  C30. Whatever the ranks' timing, timeouts and spurious wake-ups: no rank passes its \<open>n\<close>-th
  barrier before every rank of the world has entered its own \<open>n\<close>-th; a failed call means that
  no rank ever passes that barrier; and while no call has failed, a rank waits only if another
  one has still to arrive or to leave the previous barrier.
\<close>

theorem barrier_synchronizes:
  assumes "(barrier_step W timeout)\<^sup>*\<^sup>* barrier_start b" "r < W" "i < W"
  shows "passed (ranks b r) \<le> entered (ranks b i)
     \<and> (\<forall>k e. ranks b r = Gone k e \<longrightarrow> passed (ranks b i) \<le> k)
     \<and> ((\<forall>j < W. \<not> is_gone (ranks b j)) \<longrightarrow>
          (\<exists>j < W. ranks b j \<noteq> Inside (unat (generation (shared b))) (generation (shared b))))"
proof -
  let ?g = "generation (shared b)"
  have inv: "barrier_inv W b" using barrier_inv_reachable [OF assms(1)] assms(2) by simp
  then have pl: "placed ?g (ranks b r)" "placed ?g (ranks b i)" using assms(2,3) by (auto simp: barrier_inv_def Let_def)
  have "passed (ranks b r) \<le> entered (ranks b i)"
    using passed_le [OF pl(1)] entered_ge [OF pl(2)] by simp
  moreover have "passed (ranks b i) \<le> k" if "ranks b r = Gone k e" for k e
    using passed_le [OF pl(2)] pl(1) that by simp
  moreover have "\<exists>j < W. ranks b j \<noteq> Inside (unat ?g) ?g" if none: "\<forall>j < W. \<not> is_gone (ranks b j)"
  proof (rule ccontr)
    assume "\<not> (\<exists>j < W. ranks b j \<noteq> Inside (unat ?g) ?g)"
    then have "inside_current W ?g (ranks b) = {0..<W}" by (auto simp: inside_current_def)
    with inv none show False by (auto simp: barrier_inv_def Let_def)
  qed
  ultimately show ?thesis by blast
qed

theorem barrier_synchronizes_witness:
  "\<exists>b. (barrier_step 2 9)\<^sup>*\<^sup>* barrier_start b \<and> ranks b 0 = Inside 0 0 \<and> ranks b 1 = Ready 1
     \<and> passed (ranks b 1) \<le> entered (ranks b 0)"
proof -
  let ?b1 = "\<lparr>shared = \<lparr>generation = 0, arrived = 1, broken = False\<rparr>, ranks = (\<lambda>_. Ready 0)(0 := Inside 0 0)\<rparr>"
  let ?b2 = "\<lparr>shared = \<lparr>generation = 1, arrived = 0, broken = False\<rparr>,
    ranks = ((\<lambda>_. Ready 0)(0 := Inside 0 0))(1 := Ready 1)\<rparr>"
  have "barrier_step 2 9 barrier_start \<lparr>shared = \<lparr>generation = 0, arrived = 1, broken = False\<rparr>,
      ranks = (ranks barrier_start)(0 := after_call 0 (Waiting 0))\<rparr>"
    by (rule barrier_step.enter [where expired = False])
       (simp_all add: barrier_start_def barrier_new_def barrier_enter_def barrier_loop_head_def Let_def)
  then have 1: "barrier_step 2 9 barrier_start ?b1" by (simp add: barrier_start_def)
  have "barrier_step 2 9 ?b1 \<lparr>shared = \<lparr>generation = 1, arrived = 0, broken = False\<rparr>,
      ranks = (ranks ?b1)(1 := after_call 0 (Returned (Inr ())))\<rparr>"
    by (rule barrier_step.enter [where expired = False])
       (simp_all add: barrier_enter_def Let_def checked_add_def)
  then have 2: "barrier_step 2 9 ?b1 ?b2" by simp
  have run: "(barrier_step 2 9)\<^sup>*\<^sup>* barrier_start ?b2" 
    by (rule rtranclp.rtrancl_into_rtrancl [where r = "barrier_step 2 9"], rule r_into_rtranclp) (rule 1, rule 2)
  have "passed (ranks ?b2 1) \<le> entered (ranks ?b2 0)"
    using barrier_synchronizes [OF run, of 1 0] by simp
  with run show ?thesis by (intro exI [of _ ?b2]) simp
qed

end
