(* ===== verification/TcpProofs.thy ===== *)
theory TcpProofs
  imports TcpTransport
begin

text \<open>
  The TCP endpoint implements the mailbox contract: frames written with \<open>write_wire\<close> are read
  back one by one, receives take the oldest matching frame of their source, and frames put
  aside are neither lost nor reordered.
\<close>

section \<open>Streams of frames\<close>

definition wire_bytes :: "usize \<Rightarrow> wire_frame \<Rightarrow> u8 list" where
  "wire_bytes maximum f = projr (write_wire Written f maximum)"

definition frame_ok :: "usize \<Rightarrow> usize \<Rightarrow> usize \<Rightarrow> wire_frame \<Rightarrow> bool" where
  "frame_ok maximum source destination f \<longleftrightarrow>
     wire_ok f \<and> frame_source f = source \<and> frame_destination f = destination \<and>
     (case write_wire Written f maximum of Inl e \<Rightarrow> False | Inr bytes \<Rightarrow> True)"

lemma read_written:
  assumes "frame_ok maximum s d f" "maximum < 2 ^ 64"
  shows "read_wire (False, False) ending maximum (wire_bytes maximum f @ rest) = (Inr f, rest)"
proof -
  from assms(1) obtain body where body: "encode_wire f maximum = Inr body" and
    bytes: "wire_bytes maximum f = u64_bytes (of_nat (length body)) @ body"
    by (auto simp: frame_ok_def wire_bytes_def write_wire_def split: sum.splits)
  have small: "length body \<le> maximum" using body by (auto simp: encode_wire_def Let_def split: if_splits)
  then have len: "length body < 18446744073709551616" using assms(2) by simp
  have "le_value (u64_bytes (of_nat (length body))) = length body"
    using len by (simp add: u64_bytes_def le_value_bytes)
  moreover have "decode_wire body = Inr f"
    using assms by (intro decode_encode [OF body]) (auto simp: frame_ok_def)
  ultimately show ?thesis using small by (simp add: read_wire_def bytes Let_def)
qed

function parse_stream :: "usize \<Rightarrow> u8 list \<Rightarrow> wire_frame list" where
  "parse_stream maximum stream =
     (case read_wire (False, False) WouldBlock maximum stream of
        (Inl e, rest) \<Rightarrow> []
      | (Inr f, rest) \<Rightarrow> f # parse_stream maximum rest)"
  by pat_completeness auto
termination
  by (relation "measure (\<lambda>(m, stream). length stream)") (auto dest: read_wire_shorter [OF sym])

declare parse_stream.simps [simp del]

abbreviation frames_bytes :: "usize \<Rightarrow> wire_frame list \<Rightarrow> u8 list" where
  "frames_bytes maximum fs \<equiv> concat (map (wire_bytes maximum) fs)"

lemma parse_frames:
  assumes "\<forall>f \<in> set fs. frame_ok maximum s d f" "maximum < 2 ^ 64"
  shows "parse_stream maximum (frames_bytes maximum fs) = fs"
  using assms(1)
proof (induction fs)
  case Nil
  show ?case by (simp add: parse_stream.simps read_wire_def)
next
  case (Cons f fs)
  then show ?case
    using read_written [of maximum s d f WouldBlock] assms(2) by (subst parse_stream.simps) simp
qed

section \<open>The receive loop on whole frames\<close>

definition tcp_wf :: "tcp_transport \<Rightarrow> bool" where
  "tcp_wf ep \<longleftrightarrow>
     wf_rank (tcp_rank ep) \<and> tcp_max_tensor_bytes ep < 2 ^ 64 \<and>
     length (tcp_readers ep) = world_size (tcp_rank ep) \<and> length (tcp_pending ep) = world_size (tcp_rank ep) \<and>
     (\<forall>s < world_size (tcp_rank ep). s \<noteq> global_rank (tcp_rank ep) \<longrightarrow>
        (\<exists>fs. tcp_readers ep ! s = Some (frames_bytes (tcp_max_tensor_bytes ep) fs) \<and>
              (\<forall>f \<in> set fs. frame_ok (tcp_max_tensor_bytes ep) s (global_rank (tcp_rank ep)) f)))"

definition tcp_peer_set :: "tcp_transport \<Rightarrow> usize set" where
  "tcp_peer_set ep = {s. validate_peer (tcp_rank ep) s = Inr ()}"

lemma tcp_peer_iff: "s \<in> tcp_peer_set ep \<longleftrightarrow> s < world_size (tcp_rank ep) \<and> s \<noteq> global_rank (tcp_rank ep)"
  by (simp add: tcp_peer_set_def)

text \<open>An endpoint after \<open>us\<close> were put aside and \<open>vs\<close> are still to be read from peer \<open>s\<close>.\<close>

definition moved :: "usize \<Rightarrow> wire_frame list \<Rightarrow> wire_frame list \<Rightarrow> tcp_transport \<Rightarrow> tcp_transport" where
  "moved s us vs ep =
     ep\<lparr>tcp_readers := (tcp_readers ep)[s := Some (frames_bytes (tcp_max_tensor_bytes ep) vs)],
        tcp_pending := (tcp_pending ep)[s := tcp_pending ep ! s @ us]\<rparr>"

lemma moved_sel [simp]:
  "tcp_rank (moved s us vs ep) = tcp_rank ep" "tcp_max_tensor_bytes (moved s us vs ep) = tcp_max_tensor_bytes ep"
  "tcp_operation_timeout (moved s us vs ep) = tcp_operation_timeout ep"
  "length (tcp_readers (moved s us vs ep)) = length (tcp_readers ep)"
  "s < length (tcp_readers ep) \<Longrightarrow>
     tcp_readers (moved s us vs ep) ! s = Some (frames_bytes (tcp_max_tensor_bytes ep) vs)"
  by (simp_all add: moved_def)

lemma moved_read:
  assumes "s < length (tcp_readers ep)" "s < length (tcp_pending ep)" "s \<in> tcp_peer_set ep"
    and "frame_ok (tcp_max_tensor_bytes ep) s (global_rank (tcp_rank ep)) f" "tcp_max_tensor_bytes ep < 2 ^ 64"
  shows "tcp_read_from (False, False) ending s (moved s us (f # vs) ep) = (Inr f, moved s us vs ep)"
proof -
  have "validate_peer (tcp_rank ep) s = Inr ()" using assms(3) by (simp add: tcp_peer_set_def)
  moreover have "(moved s us (f # vs) ep)\<lparr>tcp_readers := (tcp_readers (moved s us (f # vs) ep))
      [s := Some (frames_bytes (tcp_max_tensor_bytes ep) vs)]\<rparr> = moved s us vs ep"
    by (simp add: moved_def)
  ultimately show ?thesis
    using assms(1,4) read_written [OF assms(4,5)]
    by (simp add: tcp_read_from_def frame_ok_def Let_def del: validate_peer_Inr)
qed

lemma moved_push:
  assumes "s < length (tcp_pending ep)"
  shows "tcp_push_pending s f (moved s us vs ep) = moved s (us @ [f]) vs ep"
  using assms by (simp add: tcp_push_pending_def moved_def)

lemma moved_empty:
  assumes "s < length (tcp_readers ep)" "s \<in> tcp_peer_set ep"
  shows "tcp_read_from (False, False) ending s (moved s us [] ep) =
     (Inl (Io ''read TCP frame length'' ending), moved s us [] ep)"
proof -
  have "validate_peer (tcp_rank ep) s = Inr ()" using assms(2) by (simp add: tcp_peer_set_def)
  moreover have "(moved s us [] ep)\<lparr>tcp_readers := (tcp_readers (moved s us [] ep))[s := Some []]\<rparr> = moved s us [] ep"
    by (simp add: moved_def)
  ultimately show ?thesis
    using assms(1) by (simp add: tcp_read_from_def read_wire_def Let_def del: validate_peer_Inr)
qed

lemma tcp_loop_hit:
  assumes "s < length (tcp_readers ep)" "s < length (tcp_pending ep)" "s \<in> tcp_peer_set ep"
    and "tcp_max_tensor_bytes ep < 2 ^ 64"
    and "\<forall>g \<in> set (us @ [f]). frame_ok (tcp_max_tensor_bytes ep) s (global_rank (tcp_rank ep)) g"
    and "\<forall>u \<in> set us. \<not> wire_matches q t u" "wire_matches q t f"
  shows "tcp_recv_loop q (\<lambda>_. (False, False)) ending s t i (moved s ws (us @ f # vs) ep) =
     (Inr (wire_payload f), moved s (ws @ us) vs ep)"
  using assms(5,6)
proof (induction us arbitrary: ws i)
  case Nil
  then show ?case
    using assms moved_read [OF assms(1,2,3) _ assms(4), of f ending ws vs]
    by (subst tcp_recv_loop.simps) simp
next
  case (Cons u us)
  then show ?case
    using assms(1,2) moved_read [OF assms(1,2,3) _ assms(4), of u ending ws "us @ f # vs"]
    by (subst tcp_recv_loop.simps) (simp add: moved_push)
qed

lemma tcp_loop_miss:
  assumes "s < length (tcp_readers ep)" "s < length (tcp_pending ep)" "s \<in> tcp_peer_set ep"
    and "tcp_max_tensor_bytes ep < 2 ^ 64"
    and "\<forall>g \<in> set us. frame_ok (tcp_max_tensor_bytes ep) s (global_rank (tcp_rank ep)) g"
    and "\<forall>u \<in> set us. \<not> wire_matches q t u"
  shows "tcp_recv_loop q (\<lambda>_. (False, False)) WouldBlock s t i (moved s ws us ep) =
     (Inl (ReceiveTimeout (global_rank (tcp_rank ep)) s t (tcp_operation_timeout ep)), moved s (ws @ us) [] ep)"
  using assms(5,6)
proof (induction us arbitrary: ws i)
  case Nil
  then show ?case
    using assms(1) moved_empty [OF assms(1,3), of WouldBlock ws]
    by (subst tcp_recv_loop.simps) (simp add: recv_error_def)
next
  case (Cons u us)
  then show ?case
    using assms(1,2) moved_read [OF assms(1,2,3) _ assms(4), of u WouldBlock ws us]
    by (subst tcp_recv_loop.simps) (simp add: moved_push)
qed

section \<open>The mailbox of an endpoint\<close>

definition tcp_incoming :: "tcp_transport \<Rightarrow> usize \<Rightarrow> wire_frame list" where
  "tcp_incoming ep s = (case tcp_readers ep ! s of None \<Rightarrow> []
     | Some stream \<Rightarrow> parse_stream (tcp_max_tensor_bytes ep) stream)"

definition tcp_box :: "tcp_transport \<Rightarrow> usize \<Rightarrow> f32 mail list" where
  "tcp_box ep s =
     (if s < length (tcp_readers ep)
      then List.map_filter frame_payload (tcp_pending ep ! s @ tcp_incoming ep s) else [])"

definition tcp_deliver :: "usize \<Rightarrow> f32 mail \<Rightarrow> tcp_transport \<Rightarrow> tcp_transport" where
  "tcp_deliver s m ep = ep\<lparr>tcp_readers := (tcp_readers ep)[s := map_option (\<lambda>stream. stream @
      wire_bytes (tcp_max_tensor_bytes ep) (tcp_frame s (global_rank (tcp_rank ep)) (fst m) (snd m)))
        (tcp_readers ep ! s)]\<rparr>"

definition tcp_fits :: "tcp_transport \<Rightarrow> f32 mail \<Rightarrow> bool" where
  "tcp_fits ep m \<longleftrightarrow> (\<forall>s \<in> tcp_peer_set ep. frame_ok (tcp_max_tensor_bytes ep) s (global_rank (tcp_rank ep))
     (tcp_frame s (global_rank (tcp_rank ep)) (fst m) (snd m)))"

text \<open>A receive whose deadline passes only when there is nothing left to read.\<close>

definition tcp_receive ::
  "payload_kind \<Rightarrow> usize \<Rightarrow> message_tag \<Rightarrow> tcp_transport \<Rightarrow> f32 message_payload option \<times> tcp_transport" where
  "tcp_receive q s t ep =
     (case tcp_recv q (\<lambda>_. (False, False)) WouldBlock s t ep of
        (Inr p, ep') \<Rightarrow> (Some p, ep') | (Inl _, ep') \<Rightarrow> (None, ep'))"

lemma extract_first_map_filter:
  "extract_first p (List.map_filter g xs) =
     map_option (\<lambda>(x, ys). (the (g x), List.map_filter g ys))
       (extract_first (\<lambda>x. case g x of None \<Rightarrow> False | Some y \<Rightarrow> p y) xs)"
proof (induction xs)
  case Nil
  then show ?case by (simp add: List.map_filter_simps)
next
  case (Cons x xs)
  then show ?case
    by (cases "g x") (auto simp: List.map_filter_simps option.map_comp comp_def case_prod_unfold
        simp del: extract_first_None)
qed

lemma take_box:
  assumes "s < length (tcp_readers ep)"
  shows "take_mail q t (tcp_box ep s) = map_option (\<lambda>(f, rest). (wire_payload f, List.map_filter frame_payload rest))
     (extract_first (wire_matches q t) (tcp_pending ep ! s @ tcp_incoming ep s))"
proof -
  have "(\<lambda>x. case frame_payload x of None \<Rightarrow> False | Some y \<Rightarrow> mail_matches q t y) = wire_matches q t"
    by (simp add: fun_eq_iff wire_matches_def)
  with assms show ?thesis
    by (simp add: take_mail_def tcp_box_def extract_first_map_filter option.map_comp comp_def case_prod_unfold
        wire_payload_def del: extract_first_None)
qed

lemma tcp_take_pending_extract:
  "tcp_take_pending q s t ep =
     (case extract_first (wire_matches q t) (tcp_pending ep ! s) of
        None \<Rightarrow> (None, ep)
      | Some (f, rest) \<Rightarrow> (Some (wire_payload f), ep\<lparr>tcp_pending := (tcp_pending ep)[s := rest]\<rparr>))"
  by (auto simp: tcp_take_pending_def position_remove_at simp del: position_None split: option.splits)

lemma tcp_incoming_wf:
  assumes "tcp_wf ep" "s \<in> tcp_peer_set ep"
  obtains fs where "tcp_incoming ep s = fs" "tcp_readers ep ! s = Some (frames_bytes (tcp_max_tensor_bytes ep) fs)"
    "\<forall>f \<in> set fs. frame_ok (tcp_max_tensor_bytes ep) s (global_rank (tcp_rank ep)) f"
    "s < length (tcp_readers ep)" "s < length (tcp_pending ep)" "tcp_max_tensor_bytes ep < 2 ^ 64"
    "ep = moved s [] fs ep"
proof -
  from assms obtain fs where fs: "tcp_readers ep ! s = Some (frames_bytes (tcp_max_tensor_bytes ep) fs)"
    "\<forall>f \<in> set fs. frame_ok (tcp_max_tensor_bytes ep) s (global_rank (tcp_rank ep)) f"
    by (auto simp: tcp_wf_def tcp_peer_iff)
  have b: "s < length (tcp_readers ep)" "s < length (tcp_pending ep)" "tcp_max_tensor_bytes ep < 2 ^ 64"
    using assms by (auto simp: tcp_wf_def tcp_peer_iff)
  have "tcp_incoming ep s = fs" using fs b(3) by (simp add: tcp_incoming_def parse_frames)
  moreover have "ep = moved s [] fs ep"
    unfolding moved_def using fs(1) by (metis append_Nil2 list_update_id tcp_transport.surjective tcp_transport.update_convs(3,4))
  ultimately show thesis using fs b that by blast
qed

lemma tcp_receive_cases:
  assumes wf: "tcp_wf ep" and s: "s \<in> tcp_peer_set ep"
  obtains (pending) f rest where
      "extract_first (wire_matches q t) (tcp_pending ep ! s) = Some (f, rest)"
      "tcp_receive q s t ep = (Some (wire_payload f), ep\<lparr>tcp_pending := (tcp_pending ep)[s := rest]\<rparr>)"
  | (stream) us f vs where
      "extract_first (wire_matches q t) (tcp_pending ep ! s) = None"
      "tcp_incoming ep s = us @ f # vs" "\<forall>u \<in> set us. \<not> wire_matches q t u" "wire_matches q t f"
      "tcp_receive q s t ep = (Some (wire_payload f), moved s us vs ep)"
  | (absent) "extract_first (wire_matches q t) (tcp_pending ep ! s) = None"
      "\<forall>u \<in> set (tcp_incoming ep s). \<not> wire_matches q t u"
      "tcp_receive q s t ep = (None, moved s (tcp_incoming ep s) [] ep)"
proof -
  have peer: "validate_peer (tcp_rank ep) s = Inr ()" using s by (simp add: tcp_peer_set_def)
  obtain fs where fs: "tcp_incoming ep s = fs"
    "\<forall>f \<in> set fs. frame_ok (tcp_max_tensor_bytes ep) s (global_rank (tcp_rank ep)) f"
    and b: "s < length (tcp_readers ep)" "s < length (tcp_pending ep)" "tcp_max_tensor_bytes ep < 2 ^ 64"
    and ep: "ep = moved s [] fs ep" using tcp_incoming_wf [OF wf s] by metis
  show thesis
  proof (cases "extract_first (wire_matches q t) (tcp_pending ep ! s)")
    case (Some x)
    obtain f rest where x: "x = (f, rest)" by (cases x)
    show thesis
      by (rule pending [of f rest])
         (use Some x peer in \<open>simp_all add: tcp_receive_def tcp_recv_def tcp_take_pending_extract del: validate_peer_Inr\<close>)
  next
    case None
    then have r: "tcp_receive q s t ep =
        (case tcp_recv_loop q (\<lambda>_. (False, False)) WouldBlock s t 0 (moved s [] fs ep) of
          (Inr p, ep') \<Rightarrow> (Some p, ep') | (Inl _, ep') \<Rightarrow> (None, ep'))"
      using peer unfolding ep [symmetric]
      by (simp add: tcp_receive_def tcp_recv_def tcp_take_pending_extract del: validate_peer_Inr extract_first_None)
    show thesis
    proof (cases "extract_first (wire_matches q t) fs")
      case None': None
      then have miss: "\<forall>u \<in> set fs. \<not> wire_matches q t u" by simp
      from tcp_loop_miss [OF b(1,2) s b(3) fs(2) miss, of 0 "[]"] r None miss fs(1) show thesis
        by (intro absent) (auto simp del: extract_first_None)
    next
      case (Some x)
      then obtain f rest where "extract_first (wire_matches q t) fs = Some (f, rest)" by (cases x) auto
      from extract_first_Some_split [OF this] obtain us vs where
        h: "fs = us @ f # vs" "wire_matches q t f" "\<forall>u \<in> set us. \<not> wire_matches q t u" by blast
      have "\<forall>g \<in> set (us @ [f]). frame_ok (tcp_max_tensor_bytes ep) s (global_rank (tcp_rank ep)) g"
        using fs(2) h(1) by auto
      from tcp_loop_hit [OF b(1,2) s b(3) this h(3,2), of WouldBlock 0 "[]" vs] r None h fs(1) show thesis
        by (intro stream) (auto simp del: extract_first_None)
    qed
  qed
qed

lemma moved_wf:
  assumes wf: "tcp_wf ep" and s: "s \<in> tcp_peer_set ep"
    and vs: "\<forall>f \<in> set vs. frame_ok (tcp_max_tensor_bytes ep) s (global_rank (tcp_rank ep)) f"
  shows "tcp_wf (moved s us vs ep) \<and> tcp_peer_set (moved s us vs ep) = tcp_peer_set ep"
proof -
  have "\<exists>fs. tcp_readers (moved s us vs ep) ! s' = Some (frames_bytes (tcp_max_tensor_bytes ep) fs) \<and>
      (\<forall>f \<in> set fs. frame_ok (tcp_max_tensor_bytes ep) s' (global_rank (tcp_rank ep)) f)"
    if "s' < world_size (tcp_rank ep)" "s' \<noteq> global_rank (tcp_rank ep)" for s'
  proof (cases "s' = s")
    case True
    with wf s vs show ?thesis by (auto simp: tcp_wf_def tcp_peer_iff moved_def)
  next
    case False
    with wf that show ?thesis by (auto simp: tcp_wf_def moved_def)
  qed
  with wf show ?thesis by (auto simp: tcp_wf_def tcp_peer_set_def moved_def)
qed

lemma moved_box:
  assumes "s < length (tcp_readers ep)" "s < length (tcp_pending ep)" "tcp_max_tensor_bytes ep < 2 ^ 64"
    and "\<forall>f \<in> set vs. frame_ok (tcp_max_tensor_bytes ep) s (global_rank (tcp_rank ep)) f"
  shows "tcp_box (moved s us vs ep) s' =
     (if s' = s then List.map_filter frame_payload (tcp_pending ep ! s @ us @ vs) else tcp_box ep s')"
  using assms parse_frames [OF assms(4,3)]
  by (auto simp: tcp_box_def tcp_incoming_def moved_def cong: option.case_cong)

lemma tcp_deliver_moved:
  assumes "tcp_wf ep" "s \<in> tcp_peer_set ep"
  shows "tcp_deliver s m ep =
     moved s [] (tcp_incoming ep s @ [tcp_frame s (global_rank (tcp_rank ep)) (fst m) (snd m)]) ep"
proof -
  obtain fs where fs: "tcp_incoming ep s = fs"
    "tcp_readers ep ! s = Some (frames_bytes (tcp_max_tensor_bytes ep) fs)" using tcp_incoming_wf [OF assms] by metis
  then show ?thesis by (simp add: tcp_deliver_def moved_def)
qed

lemma frame_payload_tcp_frame [simp]: "frame_payload (tcp_frame s d t p) = Some (t, p)"
  by (cases p) auto

lemma map_filter_append: "List.map_filter g (xs @ ys) = List.map_filter g xs @ List.map_filter g ys"
  by (simp add: List.map_filter_def)

interpretation tcp: mailbox_transport tcp_box tcp_peer_set tcp_deliver tcp_receive tcp_wf tcp_fits
proof unfold_locales
  fix ep s m s'
  assume wf: "tcp_wf ep" and s: "s \<in> tcp_peer_set ep" and m: "tcp_fits ep m"
  obtain fs where fs: "tcp_incoming ep s = fs"
    "\<forall>f \<in> set fs. frame_ok (tcp_max_tensor_bytes ep) s (global_rank (tcp_rank ep)) f"
    "s < length (tcp_readers ep)" "s < length (tcp_pending ep)" "tcp_max_tensor_bytes ep < 2 ^ 64"
    using tcp_incoming_wf [OF wf s] by metis
  let ?f = "tcp_frame s (global_rank (tcp_rank ep)) (fst m) (snd m)"
  have ok: "\<forall>f \<in> set (fs @ [?f]). frame_ok (tcp_max_tensor_bytes ep) s (global_rank (tcp_rank ep)) f"
    using fs(2) m s by (auto simp: tcp_fits_def)
  show "tcp_wf (tcp_deliver s m ep) \<and> tcp_peer_set (tcp_deliver s m ep) = tcp_peer_set ep"
    unfolding tcp_deliver_moved [OF wf s] fs(1) by (rule moved_wf [OF wf s ok])
  show "tcp_box (tcp_deliver s m ep) s' = (if s' = s then tcp_box ep s @ [m] else tcp_box ep s')"
    unfolding tcp_deliver_moved [OF wf s] fs(1) moved_box [OF fs(3-5) ok]
    using fs(1,3) by (simp add: tcp_box_def map_filter_append List.map_filter_simps)
next
  fix ep q s t p ep'
  assume wf: "tcp_wf ep" and s: "s \<in> tcp_peer_set ep" and r: "tcp_receive q s t ep = (Some p, ep')"
  obtain fs where fs: "tcp_incoming ep s = fs"
    "\<forall>f \<in> set fs. frame_ok (tcp_max_tensor_bytes ep) s (global_rank (tcp_rank ep)) f"
    "s < length (tcp_readers ep)" "s < length (tcp_pending ep)" "tcp_max_tensor_bytes ep < 2 ^ 64"
    using tcp_incoming_wf [OF wf s] by metis
  show "take_mail q t (tcp_box ep s) = Some (p, tcp_box ep' s) \<and> (\<forall>s'. s' \<noteq> s \<longrightarrow> tcp_box ep' s' = tcp_box ep s')"
  proof (use wf s in \<open>cases rule: tcp_receive_cases [where q = q and t = t]\<close>)
    case (pending f rest)
    have "tcp_incoming (ep\<lparr>tcp_pending := x\<rparr>) = tcp_incoming ep" for x
      by (simp add: tcp_incoming_def fun_eq_iff cong: option.case_cong)
    with pending r fs(3,4) show ?thesis
      unfolding take_box [OF fs(3)] by (auto simp: tcp_box_def extract_first_append)
  next
    case (stream us f vs)
    have vs: "\<forall>f \<in> set vs. frame_ok (tcp_max_tensor_bytes ep) s (global_rank (tcp_rank ep)) f"
      using fs(1,2) stream(2) by auto
    have "extract_first (wire_matches q t) us = None" using stream(3) by simp
    then have "extract_first (wire_matches q t) (us @ f # vs) = Some (f, us @ vs)"
      using stream(4) by (simp add: extract_first_append del: extract_first_None)
    with stream r show ?thesis
      unfolding take_box [OF fs(3)] by (auto simp: moved_box [OF fs(3-5) vs] extract_first_append
        simp del: extract_first_None)
  qed (use r in simp)
next
  fix ep q s t ep'
  assume wf: "tcp_wf ep" and s: "s \<in> tcp_peer_set ep" and r: "tcp_receive q s t ep = (None, ep')"
  obtain fs where fs: "tcp_incoming ep s = fs"
    "s < length (tcp_readers ep)" "s < length (tcp_pending ep)" "tcp_max_tensor_bytes ep < 2 ^ 64"
    using tcp_incoming_wf [OF wf s] by metis
  show "take_mail q t (tcp_box ep s) = None \<and> tcp_box ep' = tcp_box ep"
  proof (use wf s in \<open>cases rule: tcp_receive_cases [where q = q and t = t]\<close>)
    case absent
    have "extract_first (wire_matches q t) (tcp_incoming ep s) = None" using absent(2) by simp
    then have "extract_first (wire_matches q t) (tcp_pending ep ! s @ tcp_incoming ep s) = None"
      using absent(1) by (simp add: extract_first_append del: extract_first_None)
    with absent r fs(2) moved_box [OF fs(2-4), of "[]" "tcp_incoming ep s"] show ?thesis
      unfolding take_box [OF fs(2)] by (auto simp: fun_eq_iff tcp_box_def simp del: extract_first_None)
  qed (use r in simp_all)
next
  fix ep q s t r ep'
  assume wf: "tcp_wf ep" and s: "s \<in> tcp_peer_set ep" and r: "tcp_receive q s t ep = (r, ep')"
  obtain fs where fs: "tcp_incoming ep s = fs"
    "\<forall>f \<in> set fs. frame_ok (tcp_max_tensor_bytes ep) s (global_rank (tcp_rank ep)) f"
    using tcp_incoming_wf [OF wf s] by metis
  show "tcp_wf ep' \<and> tcp_peer_set ep' = tcp_peer_set ep"
  proof (use wf s in \<open>cases rule: tcp_receive_cases [where q = q and t = t]\<close>)
    case (pending f rest)
    with r wf show ?thesis by (auto simp: tcp_wf_def tcp_peer_set_def)
  next
    case (stream us f vs)
    with r fs show ?thesis by (auto intro!: moved_wf [OF wf s, THEN conjunct1] moved_wf [OF wf s, THEN conjunct2])
  next
    case absent
    with r show ?thesis by (auto intro!: moved_wf [OF wf s, THEN conjunct1] moved_wf [OF wf s, THEN conjunct2])
  qed
qed

section \<open>Properties\<close>

fun payload_ok :: "f32 message_payload \<Rightarrow> bool" where
  "payload_ok (TensorPayload p) = (wf_packet p \<and> length (p_shape p) \<le> 64)"
| "payload_ok (ControlPayload p) = (length (packet_bytes p) \<le> MAX_CONTROL_BYTES)"

lemma tcp_frame_sel [simp]:
  "frame_source (tcp_frame s d t p) = s" "frame_destination (tcp_frame s d t p) = d"
  "wire_ok (tcp_frame s d t p) = payload_ok p"
  by (cases p; simp)+

lemma encode_same_shape:
  assumes "encode_wire (tcp_frame s d t p) maximum = Inr body" "s' < 2 ^ 32"
  shows "\<exists>body'. encode_wire (tcp_frame s' d t p) maximum = Inr body'"
proof -
  have pay: "encode_payload (tcp_frame s' d t p) = encode_payload (tcp_frame s d t p)" by (cases p) auto
  have kind: "frame_kind (tcp_frame s' d t p) = frame_kind (tcp_frame s d t p)" by (cases p) auto
  from assms show ?thesis
    unfolding encode_wire_def pay kind
    by (auto simp: Let_def to_u32_def u32_try_from_def split: if_splits)
qed

lemma tcp_send_fits:
  assumes "tcp_send Written ep (global_rank (tcp_rank peer)) t p = Inr bytes" "payload_ok p"
    and "tcp_max_tensor_bytes ep = tcp_max_tensor_bytes peer" "world_size (tcp_rank peer) \<le> 2 ^ 32"
  shows "tcp_fits peer (t, p)"
    and "bytes = wire_bytes (tcp_max_tensor_bytes peer)
      (tcp_frame (global_rank (tcp_rank ep)) (global_rank (tcp_rank peer)) t p)"
proof -
  let ?d = "global_rank (tcp_rank peer)"
  from assms(1,3) have w: "write_wire Written (tcp_frame (global_rank (tcp_rank ep)) ?d t p) (tcp_max_tensor_bytes peer)
      = Inr bytes"
    by (auto simp: tcp_send_def tcp_send_frame_def simp del: validate_peer_Inr)
  then show "bytes = wire_bytes (tcp_max_tensor_bytes peer) (tcp_frame (global_rank (tcp_rank ep)) ?d t p)"
    by (simp add: wire_bytes_def)
  from w obtain body where
    "encode_wire (tcp_frame (global_rank (tcp_rank ep)) ?d t p) (tcp_max_tensor_bytes peer) = Inr body"
    by (auto simp: write_wire_def)
  note enc = encode_same_shape [OF this]
  show "tcp_fits peer (t, p)"
    unfolding tcp_fits_def
  proof
    fix s assume "s \<in> tcp_peer_set peer"
    then have "s < 2 ^ 32" using assms(4) by (simp add: tcp_peer_iff)
    from enc [OF this] assms(2) show "frame_ok (tcp_max_tensor_bytes peer) s ?d
        (tcp_frame s ?d (fst (t, p)) (snd (t, p)))"
      by (auto simp: frame_ok_def write_wire_def)
  qed
qed

text \<open>
  C28. End to end over TCP bytes: take a well-formed packet, a tensor of at most 64 dimensions
  or a control packet within its size limit, in a world of at most \<open>2 ^ 32\<close> ranks whose two
  endpoints have the same frame maximum, below \<open>2 ^ 64\<close> (\<open>tcp_wf\<close>). When the send of it succeeds
  and its bytes reach the peer's stream behind whatever frames are already there, and no
  earlier message of that source, kind and tag is waiting, the peer's receive for that source,
  kind and tag returns exactly the packet sent and leaves every mailbox as it was before.
  (A tensor of more dimensions is sent as well, but the peer's
  \<open>decode_wire\<close> refuses it.)
\<close>

theorem tcp_send_recv:
  assumes "tcp_send Written ep (global_rank (tcp_rank peer)) t p = Inr bytes" "payload_ok p"
    and "tcp_max_tensor_bytes ep = tcp_max_tensor_bytes peer" "world_size (tcp_rank peer) \<le> 2 ^ 32"
    and "tcp_wf peer" "global_rank (tcp_rank ep) \<in> tcp_peer_set peer"
    and "tcp_readers peer ! global_rank (tcp_rank ep) = Some stream"
    and "take_mail (kind_of p) t (tcp_box peer (global_rank (tcp_rank ep))) = None"
  shows "\<exists>peer'. tcp_recv (kind_of p) (\<lambda>_. (False, False)) WouldBlock (global_rank (tcp_rank ep)) t
       (peer\<lparr>tcp_readers := (tcp_readers peer)[global_rank (tcp_rank ep) := Some (stream @ bytes)]\<rparr>) = (Inr p, peer')
     \<and> tcp_box peer' = tcp_box peer"
proof -
  let ?s = "global_rank (tcp_rank ep)"
  note fits = tcp_send_fits [OF assms(1-4)]
  have "tcp_deliver ?s (t, p) peer = peer\<lparr>tcp_readers := (tcp_readers peer)[?s := Some (stream @ bytes)]\<rparr>"
    using assms(7) by (simp add: tcp_deliver_def fits(2))
  moreover obtain peer' where "tcp_receive (kind_of p) ?s t (tcp_deliver ?s (t, p) peer) = (Some p, peer')"
    "tcp_box peer' = tcp_box peer"
    using tcp.receive_after_delivers [OF assms(5,6) fits(1) assms(8) refl] by blast
  ultimately show ?thesis
    by (auto simp: tcp_receive_def split: prod.splits sum.splits)
qed

abbreviation (input) tcp_pair :: "usize \<Rightarrow> tcp_transport" where
  "tcp_pair g \<equiv> \<lparr>tcp_rank = \<lparr>global_rank = g, world_size = 2\<rparr>, tcp_peers = [],
     tcp_readers = [if g = 0 then None else Some [], if g = 1 then None else Some []], tcp_pending = [[], []],
     tcp_operation_timeout = 9, tcp_max_tensor_bytes = 64, tcp_barrier_generation = 0\<rparr>"

lemma tcp_pair_wf: "g < 2 \<Longrightarrow> tcp_wf (tcp_pair g)"
  by (auto simp: tcp_wf_def wf_rank_def less_2_cases_iff intro!: exI [of _ "[]"])

theorem tcp_send_recv_witness:
  "\<exists>bytes peer'. tcp_send Written (tcp_pair 0) 1 7 (ControlPayload (ControlPacket [3])) = Inr bytes
     \<and> tcp_recv ControlKind (\<lambda>_. (False, False)) WouldBlock 0 7
       ((tcp_pair 1)\<lparr>tcp_readers := [Some bytes, None]\<rparr>) = (Inr (ControlPayload (ControlPacket [3])), peer')"
proof -
  obtain bytes where b: "tcp_send Written (tcp_pair 0) 1 7 (ControlPayload (ControlPacket [3])) = Inr bytes"
    by (simp add: tcp_send_def tcp_send_frame_def validate_peer_def write_wire_def encode_wire_def to_u32_def
        u32_try_from_def WIRE_MAGIC_def Let_def)
  have "\<exists>peer'. tcp_recv ControlKind (\<lambda>_. (False, False)) WouldBlock 0 7
       ((tcp_pair 1)\<lparr>tcp_readers := [Some bytes, None]\<rparr>) = (Inr (ControlPayload (ControlPacket [3])), peer')"
    using tcp_send_recv [of "tcp_pair 0" "tcp_pair 1" 7 "ControlPayload (ControlPacket [3])" bytes "[]"] b
      tcp_pair_wf [of 1]
    by (auto simp: tcp_peer_iff MAX_CONTROL_BYTES_def tcp_box_def tcp_incoming_def parse_stream.simps read_wire_def
        List.map_filter_simps)
  with b show ?thesis by blast
qed

text \<open>The wait for a barrier frame, on whole frames.\<close>

lemma recv_barrier_frames:
  assumes b: "s < length (tcp_readers ep)" "s < length (tcp_pending ep)" "s \<in> tcp_peer_set ep"
    and "tcp_max_tensor_bytes ep < 2 ^ 64"
    and "\<forall>g \<in> set (us @ [f]). frame_ok (tcp_max_tensor_bytes ep) s (global_rank (tcp_rank ep)) g"
    and "\<forall>u \<in> set us. is_tensor_frame u" "\<not> is_tensor_frame f"
    and "\<forall>u \<in> set (tcp_pending ep ! s @ ws). \<not> is_barrier_frame u"
  shows "recv_barrier show_frame (\<lambda>_. (False, False)) ending s arrive gen i (moved s ws (us @ f # vs) ep) =
     (if expected_barrier arrive gen f then Inr () else Inl (barrier_frame_error show_frame gen f),
      moved s (ws @ us) vs ep)"
  using assms(5,6,8)
proof (induction us arbitrary: ws i)
  case Nil
  have "extract_first is_barrier_frame (tcp_pending (moved s ws (f # vs) ep) ! s) = None"
    using Nil(3) b(2) by (simp add: moved_def)
  with Nil assms moved_read [OF assms(1,2,3) _ assms(4), of f ending ws vs] show ?case
    by (subst recv_barrier.simps) (simp del: extract_first_None)
next
  case (Cons u us)
  have tensor: "is_tensor_frame u" using Cons.prems(2) by simp
  then have "\<not> is_barrier_frame u" by (cases u) auto
  then have ws: "\<forall>u \<in> set (tcp_pending ep ! s @ ws @ [u]). \<not> is_barrier_frame u" using Cons.prems(3) by auto
  have "extract_first is_barrier_frame (tcp_pending (moved s ws ((u # us) @ f # vs) ep) ! s) = None"
    using Cons.prems(3) b(2) by (simp add: moved_def)
  moreover have "tcp_read_from (False, False) ending s (moved s ws ((u # us) @ f # vs) ep) =
      (Inr u, moved s ws (us @ f # vs) ep)"
    using Cons.prems(1) moved_read [OF assms(1,2,3) _ assms(4), of u ending ws "us @ f # vs"] by simp
  ultimately have "recv_barrier show_frame (\<lambda>_. (False, False)) ending s arrive gen i (moved s ws ((u # us) @ f # vs) ep)
      = recv_barrier show_frame (\<lambda>_. (False, False)) ending s arrive gen (Suc i) (moved s (ws @ [u]) (us @ f # vs) ep)"
    using tensor b(1,2) by (subst recv_barrier.simps) (simp add: moved_push del: extract_first_None)
  also have "\<dots> = (if expected_barrier arrive gen f then Inr () else Inl (barrier_frame_error show_frame gen f),
      moved s ((ws @ [u]) @ us) vs ep)"
    by (rule Cons.IH) (use Cons.prems ws in auto)
  finally show ?case by simp
qed

text \<open>
  C31. Waiting at a TCP barrier: tensor frames that arrive first are put aside and stay
  receivable, and the first other frame decides the call: the barrier frame of the expected
  direction and generation lets it pass, anything else fails it. In particular a control
  message from the peer that arrives before the barrier frame fails the barrier and is lost.
\<close>

theorem tcp_barrier_wait:
  assumes "tcp_wf ep" "s \<in> tcp_peer_set ep" "\<forall>u \<in> set (tcp_pending ep ! s). \<not> is_barrier_frame u"
    and "tcp_incoming ep s = us @ f # vs" "\<forall>u \<in> set us. is_tensor_frame u" "\<not> is_tensor_frame f"
  shows "\<exists>ep'. recv_barrier show_frame (\<lambda>_. (False, False)) ending s arrive gen 0 ep =
      (if expected_barrier arrive gen f then Inr () else Inl (barrier_frame_error show_frame gen f), ep')
    \<and> tcp_box ep' s = List.map_filter frame_payload (tcp_pending ep ! s @ us @ vs)
    \<and> (\<forall>s'. s' \<noteq> s \<longrightarrow> tcp_box ep' s' = tcp_box ep s')"
proof -
  obtain fs where fs: "tcp_incoming ep s = fs"
    "\<forall>f \<in> set fs. frame_ok (tcp_max_tensor_bytes ep) s (global_rank (tcp_rank ep)) f"
    and b: "s < length (tcp_readers ep)" "s < length (tcp_pending ep)" "tcp_max_tensor_bytes ep < 2 ^ 64"
    and ep: "ep = moved s [] fs ep" using tcp_incoming_wf [OF assms(1,2)] by metis
  have vs: "\<forall>f \<in> set vs. frame_ok (tcp_max_tensor_bytes ep) s (global_rank (tcp_rank ep)) f"
    using fs assms(4) by auto
  have "recv_barrier show_frame (\<lambda>_. (False, False)) ending s arrive gen 0 (moved s [] (us @ f # vs) ep) =
      (if expected_barrier arrive gen f then Inr () else Inl (barrier_frame_error show_frame gen f), moved s ([] @ us) vs ep)"
    by (rule recv_barrier_frames) (use assms fs b in auto)
  then show ?thesis
    using ep fs(1) assms(4) moved_box [OF b vs, of us] by auto
qed

theorem tcp_barrier_wait_witness:
  "\<exists>ep ep'. tcp_box ep 0 = [(7, ControlPayload (ControlPacket [3]))]
     \<and> recv_barrier (\<lambda>_. ''frame'') (\<lambda>_. (False, False)) TimedOut 0 False 0 0 ep =
       (Inl (barrier_frame_error (\<lambda>_. ''frame'') 0 (ControlFrame 0 1 7 (ControlPacket [3]))), ep')
     \<and> tcp_box ep' 0 = []"
proof -
  let ?m = "(7, ControlPayload (ControlPacket [3])) :: f32 mail" and ?f = "ControlFrame 0 1 7 (ControlPacket [3])"
  let ?ep = "tcp_deliver 0 ?m (tcp_pair 1)"
  have wf: "tcp_wf (tcp_pair 1)" by (rule tcp_pair_wf) simp
  have peer: "0 \<in> tcp_peer_set (tcp_pair 1)" by (simp add: tcp_peer_iff)
  have ok: "frame_ok 64 0 1 ?f"
    by (simp add: frame_ok_def write_wire_def encode_wire_def to_u32_def u32_try_from_def WIRE_MAGIC_def Let_def
        MAX_CONTROL_BYTES_def)
  have fits: "tcp_fits (tcp_pair 1) ?m" using ok by (auto simp: tcp_fits_def tcp_peer_iff less_2_cases_iff)
  have wf': "tcp_wf ?ep" "0 \<in> tcp_peer_set ?ep" using tcp.deliver_invar [OF wf peer fits] peer by auto
  have empty: "tcp_box (tcp_pair 1) 0 = []"
    by (simp add: tcp_box_def tcp_incoming_def parse_stream.simps read_wire_def List.map_filter_simps)
  have box: "tcp_box ?ep 0 = [?m]" using tcp.deliver_box [OF wf peer fits, of 0] empty by simp
  have inc: "tcp_incoming ?ep 0 = [?f]" "tcp_pending ?ep ! 0 = []"
    using parse_frames [of "[?f]" 64 0 1] ok by (simp_all add: tcp_incoming_def tcp_deliver_def)
  from tcp_barrier_wait [OF wf', of "[]" ?f "[]" "\<lambda>_. ''frame''" TimedOut False 0] inc obtain ep' where
    "recv_barrier (\<lambda>_. ''frame'') (\<lambda>_. (False, False)) TimedOut 0 False 0 0 ?ep =
       (Inl (barrier_frame_error (\<lambda>_. ''frame'') 0 ?f), ep')" "tcp_box ep' 0 = []"
    by (auto simp: List.map_filter_simps)
  with box show ?thesis by blast
qed

end
