(* ===== verification/Rendezvous.thy ===== *)
theory Rendezvous
  imports TcpTransport
begin

text \<open>
  How TCP ranks find each other (\<open>TcpTransportConfig::validate\<close>, \<open>run_rendezvous_server\<close>,
  \<open>register_with_rendezvous\<close>, \<open>establish_full_mesh\<close> and \<open>validate_handshake\<close> of
  \<open>crates/collectives/src/tcp.rs\<close>). Sockets and JSON are outside the model: a listener is the
  sequence of what successive accepts and reads produce, an error included; when it ends, the
  next accept times out. \<open>json\<close> is the serializer, whose bytes \<open>write_json\<close> measures against
  \<open>CONTROL_FRAME_LIMIT\<close>, and \<open>sock\<close> says how each connection takes the one answer it is given.
  Addresses and run identifiers are ASCII strings.
\<close>

section \<open>Configuration\<close>

record tcp_config =
  cfg_rank :: rank
  cfg_run_id :: string
  cfg_rendezvous_addr :: string
  cfg_rendezvous_bind_addr :: "string option"
  cfg_listen_addr :: string
  cfg_advertise_addr :: string
  cfg_startup_timeout :: duration
  cfg_operation_timeout :: duration
  cfg_max_tensor_bytes :: usize

fun first_empty :: "(string \<times> string) list \<Rightarrow> string option" where
  "first_empty [] = None"
| "first_empty ((name, v) # rest) = (if trim v = [] then Some name else first_empty rest)"

definition config_validate :: "tcp_config \<Rightarrow> unit cresult" where
  "config_validate c =
     (if cfg_run_id c = [] \<or> length (cfg_run_id c) > 64
         \<or> \<not> list_all (\<lambda>b. is_ascii_alphanumeric b \<or> b = CHR ''-'' \<or> b = CHR ''_'') (cfg_run_id c)
      then Inl (Rendezvous (''run ID must contain 1-64 ASCII letters, digits, '-' or '_'' @ [CHR 0x27]))
      else case first_empty [(''rendezvous'', cfg_rendezvous_addr c), (''listen'', cfg_listen_addr c),
                             (''advertise'', cfg_advertise_addr c)] of
        Some name \<Rightarrow> Inl (Rendezvous (name @ '' address cannot be empty''))
      | None \<Rightarrow>
          if global_rank (cfg_rank c) = 0 \<and> cfg_rendezvous_bind_addr c = None
          then Inl (Rendezvous ''rank 0 requires a rendezvous bind address'')
          else if cfg_startup_timeout c = 0 \<or> cfg_operation_timeout c = 0
          then Inl (Rendezvous ''startup and operation timeouts must be positive'')
          else if cfg_max_tensor_bytes c < 64
          then Inl (Protocol ''maximum tensor frame must be at least 64 bytes'')
          else Inr ())"

section \<open>Control frames\<close>

definition CONTROL_FRAME_LIMIT :: nat where
  "CONTROL_FRAME_LIMIT = 64 * 1024"

text \<open>\<open>write_json\<close>; \<open>body\<close> is what the serializer returned for the value.\<close>

definition write_json :: "string + u8 list \<Rightarrow> socket_write \<Rightarrow> unit cresult" where
  "write_json body sock =
     rbind (map_err ControlJson body) (\<lambda>bytes.
       if length bytes > CONTROL_FRAME_LIMIT
       then Inl (Protocol (''control frame is '' @ show_nat (length bytes) @ '' bytes, maximum is ''
              @ show_nat CONTROL_FRAME_LIMIT))
       else write_socket ''write control frame'' sock)"

lemma write_json_Inr:
  "write_json body sock = Inr () \<longleftrightarrow>
     (\<exists>bytes. body = Inr bytes \<and> length bytes \<le> CONTROL_FRAME_LIMIT) \<and> sock = Written"
  by (cases body) (auto simp: write_json_def)

section \<open>Rendezvous server\<close>

record registration =
  reg_protocol_version :: u16
  reg_run_id :: string
  reg_rank :: usize
  reg_world_size :: usize
  reg_advertise_addr :: string

datatype rendezvous_response = ReadyPeers "peer_info list" | RendezvousError string

definition registration_error ::
  "string \<Rightarrow> nat \<Rightarrow> registration option list \<Rightarrow> registration \<Rightarrow> string option" where
  "registration_error run_id W registrations r =
     (if reg_protocol_version r \<noteq> PROTOCOL_VERSION
      then Some (''rank '' @ show_nat (reg_rank r) @ '' uses protocol '' @ show_nat (unat (reg_protocol_version r))
             @ '', expected '' @ show_nat (unat PROTOCOL_VERSION))
      else if reg_run_id r \<noteq> run_id
      then Some (''rank '' @ show_nat (reg_rank r) @ '' supplied a different run ID'')
      else if reg_world_size r \<noteq> W
      then Some (''rank '' @ show_nat (reg_rank r) @ '' supplied world size '' @ show_nat (reg_world_size r)
             @ '', expected '' @ show_nat W)
      else if reg_rank r \<ge> W
      then Some (''rank '' @ show_nat (reg_rank r) @ '' is outside world size '' @ show_nat W)
      else if registrations ! reg_rank r \<noteq> None
      then Some (''rank '' @ show_nat (reg_rank r) @ '' registered more than once'')
      else if trim (reg_advertise_addr r) = []
      then Some (''rank '' @ show_nat (reg_rank r) @ '' advertised an empty address'')
      else if \<exists>x \<in> set registrations. \<exists>e. x = Some e \<and> reg_advertise_addr e = reg_advertise_addr r
      then Some (''rank '' @ show_nat (reg_rank r) @ '' advertised duplicate address '' @ reg_advertise_addr r)
      else None)"

definition registered :: "registration option list \<Rightarrow> registration list" where
  "registered registrations = List.map_filter (\<lambda>x. x) registrations"

definition peer_table :: "registration option list \<Rightarrow> peer_info list" where
  "peer_table registrations =
     map (\<lambda>(rank, r). \<lparr>pi_rank = rank, pi_address = reg_advertise_addr (the r)\<rparr>)
       (List.enumerate 0 registrations)"

text \<open>
  The answers. A client is named by the rank it registered, the connection whose registration
  is refused by \<open>None\<close>; each is written to at most once. The answers with the table go out in
  rank order until one cannot be written, which ends the server with that error; the answers
  with an error message go to every connection, and one that cannot be written is skipped
  (\<open>let _ = write_json\<close>). Returned are the answers that were written.
\<close>

fun answer_ready ::
  "(rendezvous_response \<Rightarrow> string + u8 list) \<Rightarrow> (usize option \<Rightarrow> socket_write) \<Rightarrow> rendezvous_response \<Rightarrow>
     registration list \<Rightarrow> unit cresult \<times> (registration \<times> rendezvous_response) list" where
  "answer_ready json sock response [] = (Inr (), [])"
| "answer_ready json sock response (r # rs) =
     (case write_json (json response) (sock (Some (reg_rank r))) of
        Inl e \<Rightarrow> (Inl e, [])
      | Inr _ \<Rightarrow>
          (case answer_ready json sock response rs of
             (result, answers) \<Rightarrow> (result, (r, response) # answers)))"

definition answer_error ::
  "(rendezvous_response \<Rightarrow> string + u8 list) \<Rightarrow> (usize option \<Rightarrow> socket_write) \<Rightarrow> rendezvous_response \<Rightarrow>
     registration \<Rightarrow> registration list \<Rightarrow> (registration \<times> rendezvous_response) list" where
  "answer_error json sock response refused clients =
     map (\<lambda>(r, client). (r, response))
       (filter (\<lambda>(r, client). write_json (json response) (sock client) = Inr ())
          ((refused, None) # map (\<lambda>r. (r, Some (reg_rank r))) clients))"

fun rendezvous_loop ::
  "(rendezvous_response \<Rightarrow> string + u8 list) \<Rightarrow> (usize option \<Rightarrow> socket_write) \<Rightarrow> string \<Rightarrow> nat \<Rightarrow>
     registration option list \<Rightarrow> registration cresult list \<Rightarrow>
     unit cresult \<times> (registration \<times> rendezvous_response) list" where
  "rendezvous_loop json sock run_id W registrations incoming =
     (if None \<notin> set registrations
      then answer_ready json sock (ReadyPeers (peer_table registrations)) (registered registrations)
      else case incoming of
        [] \<Rightarrow> (Inl (Rendezvous ''accept rendezvous registration timed out''), [])
      | Inl e # rest \<Rightarrow> (Inl e, [])
      | Inr r # rest \<Rightarrow>
          (case registration_error run_id W registrations r of
             Some message \<Rightarrow>
               (Inl (Rendezvous message),
                answer_error json sock (RendezvousError message) r (registered registrations))
           | None \<Rightarrow> rendezvous_loop json sock run_id W (registrations[reg_rank r := Some r]) rest))"

declare rendezvous_loop.simps [simp del]

definition run_rendezvous_server ::
  "(rendezvous_response \<Rightarrow> string + u8 list) \<Rightarrow> (usize option \<Rightarrow> socket_write) \<Rightarrow> string \<Rightarrow> nat \<Rightarrow>
     registration cresult list \<Rightarrow> unit cresult \<times> (registration \<times> rendezvous_response) list" where
  "run_rendezvous_server json sock run_id W incoming =
     rendezvous_loop json sock run_id W (replicate W None) incoming"

definition own_registration :: "tcp_config \<Rightarrow> registration" where
  "own_registration c =
     \<lparr>reg_protocol_version = PROTOCOL_VERSION, reg_run_id = cfg_run_id c, reg_rank = global_rank (cfg_rank c),
      reg_world_size = world_size (cfg_rank c), reg_advertise_addr = cfg_advertise_addr c\<rparr>"

definition accept_peer_table :: "tcp_config \<Rightarrow> rendezvous_response \<Rightarrow> peer_info list cresult" where
  "accept_peer_table c response =
     (case response of
        ReadyPeers peers \<Rightarrow>
          if length peers \<noteq> world_size (cfg_rank c) \<or> list_ex (\<lambda>(rank, peer). pi_rank peer \<noteq> rank) (List.enumerate 0 peers)
          then Inl (Rendezvous ''coordinator returned a malformed peer table'')
          else Inr peers
      | RendezvousError message \<Rightarrow> Inl (Rendezvous message))"

text \<open>The client's side; \<open>connected\<close> and \<open>response\<close> are how connecting and reading the answer end.\<close>

definition register_with_rendezvous ::
  "(registration \<Rightarrow> string + u8 list) \<Rightarrow> socket_write \<Rightarrow> tcp_config \<Rightarrow> unit cresult \<Rightarrow> rendezvous_response cresult \<Rightarrow>
     peer_info list cresult" where
  "register_with_rendezvous json sock c connected response =
     rbind connected (\<lambda>_.
     rbind (write_json (json (own_registration c)) sock) (\<lambda>_.
     rbind response (accept_peer_table c)))"

section \<open>Full mesh\<close>

record peer_handshake =
  hs_protocol_version :: u16
  hs_run_id :: string
  hs_world_size :: usize
  hs_source :: usize
  hs_destination :: usize

datatype handshake_response = HandshakeReady | HandshakeError string

definition validate_handshake :: "peer_handshake \<Rightarrow> string \<Rightarrow> usize \<Rightarrow> usize \<Rightarrow> string option" where
  "validate_handshake h run_id W destination =
     (if hs_protocol_version h \<noteq> PROTOCOL_VERSION
      then Some (''peer uses protocol '' @ show_nat (unat (hs_protocol_version h)) @ '', expected ''
             @ show_nat (unat PROTOCOL_VERSION))
      else if hs_run_id h \<noteq> run_id then Some ''peer supplied a different run ID''
      else if hs_world_size h \<noteq> W then Some ''peer supplied a different world size''
      else if hs_destination h \<noteq> destination
      then Some (''peer targeted rank '' @ show_nat (hs_destination h) @ '', accepted by rank '' @ show_nat destination)
      else if hs_source h \<ge> W \<or> hs_source h = destination
      then Some (''invalid peer source rank '' @ show_nat (hs_source h))
      else None)"

definition accept_error :: "string \<Rightarrow> nat \<Rightarrow> usize \<Rightarrow> usize list \<Rightarrow> peer_handshake \<Rightarrow> string option" where
  "accept_error run_id W rank incoming h =
     (case validate_handshake h run_id W rank of
        Some m \<Rightarrow> Some m
      | None \<Rightarrow>
          if hs_source h \<ge> rank then Some (''rank '' @ show_nat rank @ '' accepts only lower-ranked dialers'')
          else if hs_source h \<in> set incoming
          then Some (''rank '' @ show_nat (hs_source h) @ '' connected more than once'')
          else None)"

text \<open>A refused dialer is told so if possible; one that is accepted must be told, \<open>sock\<close> says
  how the connection of a source takes that answer.\<close>

fun accept_loop ::
  "(handshake_response \<Rightarrow> string + u8 list) \<Rightarrow> (usize \<Rightarrow> socket_write) \<Rightarrow> string \<Rightarrow> nat \<Rightarrow> usize \<Rightarrow>
     usize list \<Rightarrow> peer_handshake cresult list \<Rightarrow> usize list cresult" where
  "accept_loop json sock run_id W rank incoming accepted =
     (if length incoming \<ge> rank then Inr incoming
      else case accepted of
        [] \<Rightarrow> Inl (Rendezvous ''accept peer handshake timed out'')
      | Inl e # rest \<Rightarrow> Inl e
      | Inr h # rest \<Rightarrow>
          (case accept_error run_id W rank incoming h of
             Some message \<Rightarrow> Inl (Protocol message)
           | None \<Rightarrow>
               (case write_json (json HandshakeReady) (sock (hs_source h)) of
                  Inl e \<Rightarrow> Inl e
                | Inr _ \<Rightarrow> accept_loop json sock run_id W rank (incoming @ [hs_source h]) rest)))"

declare accept_loop.simps [simp del]

text \<open>The dialling half: \<open>dial p\<close> is how connecting to peer \<open>p\<close> and its handshake end.\<close>

fun dial_peers :: "(usize \<Rightarrow> handshake_response cresult) \<Rightarrow> peer_info list \<Rightarrow> usize list cresult" where
  "dial_peers dial [] = Inr []"
| "dial_peers dial (p # ps) =
     rbind (dial (pi_rank p)) (\<lambda>response.
       case response of
         HandshakeReady \<Rightarrow> rbind (dial_peers dial ps) (\<lambda>rest. Inr (pi_rank p # rest))
       | HandshakeError message \<Rightarrow> Inl (Protocol message))"

definition establish_full_mesh ::
  "(handshake_response \<Rightarrow> string + u8 list) \<Rightarrow> (usize \<Rightarrow> socket_write) \<Rightarrow> tcp_config \<Rightarrow> peer_info list \<Rightarrow> (usize \<Rightarrow> handshake_response cresult) \<Rightarrow> peer_handshake cresult list \<Rightarrow>
     usize list cresult" where
  "establish_full_mesh json sock c peers dial accepted =
     (let rank = global_rank (cfg_rank c); W = world_size (cfg_rank c) in
      rbind (dial_peers dial (drop (rank + 1) peers)) (\<lambda>streams.
      rbind (accept_loop json sock (cfg_run_id c) W rank [] accepted) (\<lambda>incoming.
      let streams = sort (streams @ incoming) in
      if length streams \<noteq> W - 1
      then Inl (Protocol (''rank '' @ show_nat rank @ '' established '' @ show_nat (length streams) @ '' of ''
             @ show_nat (W - 1) @ '' peer connections''))
      else Inr streams)))"

section \<open>The server's table\<close>

text \<open>What holds of the registrations after every accepted one.\<close>

definition table_ok :: "string \<Rightarrow> nat \<Rightarrow> registration option list \<Rightarrow> bool" where
  "table_ok run_id W regs \<longleftrightarrow> length regs = W \<and>
     (\<forall>i r. i < W \<longrightarrow> regs ! i = Some r \<longrightarrow>
        reg_rank r = i \<and> reg_run_id r = run_id \<and> reg_world_size r = W \<and> trim (reg_advertise_addr r) \<noteq> []) \<and>
     (\<forall>i j r s. i < W \<longrightarrow> j < W \<longrightarrow> regs ! i = Some r \<longrightarrow> regs ! j = Some s \<longrightarrow>
        reg_advertise_addr r = reg_advertise_addr s \<longrightarrow> i = j)"

lemma table_ok_insert:
  assumes "table_ok run_id W regs" "registration_error run_id W regs r = None"
  shows "table_ok run_id W (regs[reg_rank r := Some r])"
proof -
  have len: "length regs = W" using assms(1) by (simp add: table_ok_def)
  have r: "reg_rank r < W" "reg_run_id r = run_id" "reg_world_size r = W" "trim (reg_advertise_addr r) \<noteq> []"
    and fresh: "\<forall>x \<in> set regs. \<forall>e. x = Some e \<longrightarrow> reg_advertise_addr e \<noteq> reg_advertise_addr r"
    using assms(2) by (auto simp: registration_error_def split: if_splits)
  have new: "reg_advertise_addr e \<noteq> reg_advertise_addr r" if "i < W" "regs ! i = Some e" for i e
    using fresh that len nth_mem [of i regs] by metis
  let ?regs = "regs[reg_rank r := Some r]"
  have get: "?regs ! i = (if i = reg_rank r then Some r else regs ! i)" if "i < W" for i
    using that len by simp
  note old = assms(1) [unfolded table_ok_def]
  show ?thesis
    unfolding table_ok_def
  proof (intro conjI allI impI)
    fix i j x y
    assume i: "i < W" "?regs ! i = Some x" and j: "j < W" "?regs ! j = Some y"
      and eq: "reg_advertise_addr x = reg_advertise_addr y"
    show "i = j"
    proof (cases "i = reg_rank r \<or> j = reg_rank r")
      case True
      with i j eq get [OF i(1)] get [OF j(1)] new show ?thesis by (auto split: if_splits)
    next
      case False
      with i j get [OF i(1)] get [OF j(1)] have "regs ! i = Some x" "regs ! j = Some y" by auto
      with old i(1) j(1) eq show ?thesis by blast
    qed
  next
    fix i x assume i: "i < W" "?regs ! i = Some x"
    have "x = r \<and> i = reg_rank r \<or> regs ! i = Some x" using i get by (auto split: if_splits)
    then show "reg_rank x = i" "reg_run_id x = run_id" "reg_world_size x = W" "trim (reg_advertise_addr x) \<noteq> []"
      using old i(1) r by blast+
  qed (simp add: len)
qed

lemma answer_ready_Inr:
  "answer_ready json sock response rs = (Inr (), answers) \<longleftrightarrow>
     (\<forall>r \<in> set rs. write_json (json response) (sock (Some (reg_rank r))) = Inr ())
     \<and> answers = map (\<lambda>r. (r, response)) rs"
proof (induction rs arbitrary: answers)
  case Nil
  show ?case by auto
next
  case (Cons r rs)
  show ?case
    using Cons.IH [of "snd (answer_ready json sock response rs)"] Cons.IH [of "map (\<lambda>r. (r, response)) rs"]
    by (cases "answer_ready json sock response rs") (auto split: sum.split)
qed

lemma rendezvous_ready:
  assumes "rendezvous_loop json sock run_id W regs incoming = (Inr (), answers)" "table_ok run_id W regs"
  shows "\<exists>full. table_ok run_id W full \<and> None \<notin> set full \<and>
     answers = map (\<lambda>r. (r, ReadyPeers (peer_table full))) (registered full)"
  using assms
proof (induction json sock run_id W regs incoming rule: rendezvous_loop.induct)
  case (1 json sock run_id W regs incoming)
  show ?case
  proof (cases "None \<notin> set regs")
    case True
    with 1 show ?thesis by (auto simp: rendezvous_loop.simps [of json sock run_id W regs] answer_ready_Inr)
  next
    case False
    with 1(2) obtain r rest where "incoming = Inr r # rest" "registration_error run_id W regs r = None"
      "rendezvous_loop json sock run_id W (regs[reg_rank r := Some r]) rest = (Inr (), answers)"
      by (auto simp: rendezvous_loop.simps [of json sock run_id W regs] split: list.splits sum.splits option.splits)
    with False 1(1) table_ok_insert [OF 1(3)] show ?thesis by auto
  qed
qed

lemma full_table:
  assumes "table_ok run_id W full" "None \<notin> set full"
  obtains reg where "full = map (\<lambda>i. Some (reg i)) [0..<W]" "\<And>i. i < W \<Longrightarrow> reg_rank (reg i) = i"
    "\<And>i. i < W \<Longrightarrow> trim (reg_advertise_addr (reg i)) \<noteq> []" "inj_on (\<lambda>i. reg_advertise_addr (reg i)) {0..<W}"
proof -
  let ?reg = "\<lambda>i. the (full ! i)"
  have len: "length full = W" using assms(1) by (simp add: table_ok_def)
  have some: "full ! i = Some (?reg i)" if "i < W" for i
    using assms(2) that len nth_mem [of i full] by (cases "full ! i") auto
  have 1: "full = map (\<lambda>i. Some (?reg i)) [0..<W]"
    by (rule nth_equalityI) (use len some in auto)
  have 2: "reg_rank (?reg i) = i" "trim (reg_advertise_addr (?reg i)) \<noteq> []" if "i < W" for i
    using assms(1) that some [OF that] by (auto simp: table_ok_def)
  have 3: "inj_on (\<lambda>i. reg_advertise_addr (?reg i)) {0..<W}"
    using assms(1) some unfolding table_ok_def inj_on_def by (metis atLeastLessThan_iff)
  show thesis by (rule that [OF 1 2 3])
qed

lemma registered_map_Some: "registered (map (\<lambda>i. Some (g i)) xs) = map g xs"
  by (induction xs) (simp_all add: registered_def List.map_filter_simps)

lemma peer_table_map_Some:
  "peer_table (map (\<lambda>i. Some (g i)) [0..<W]) =
     map (\<lambda>i. \<lparr>pi_rank = i, pi_address = reg_advertise_addr (g i)\<rparr>) [0..<W]"
  by (rule nth_equalityI) (simp_all add: peer_table_def nth_enumerate_eq)

lemma accept_peer_table_ok:
  "world_size (cfg_rank c) = W \<Longrightarrow>
     accept_peer_table c (ReadyPeers (map (\<lambda>i. \<lparr>pi_rank = i, pi_address = a i\<rparr>) [0..<W])) =
       Inr (map (\<lambda>i. \<lparr>pi_rank = i, pi_address = a i\<rparr>) [0..<W])"
  by (auto simp: accept_peer_table_def list_ex_iff in_set_enumerate_eq)

lemma table_ok_start: "table_ok run_id W (replicate W None)"
  by (simp add: table_ok_def)

text \<open>
  C34. When the rendezvous server succeeds, every rank of the world has registered exactly
  once and all of them were answered with one and the same table; it lists every rank at its
  own index with the address that rank advertised, no address blank and no two equal, and
  every rank's own check of the table accepts it.
\<close>

theorem rendezvous_table:
  assumes "run_rendezvous_server json sock run_id W incoming = (Inr (), answers)"
  shows "\<exists>addr. map (\<lambda>(r, _). (reg_rank r, reg_advertise_addr r)) answers = map (\<lambda>i. (i, addr i)) [0..<W]
     \<and> (\<forall>i < W. trim (addr i) \<noteq> []) \<and> inj_on addr {0..<W}
     \<and> (let peers = map (\<lambda>i. \<lparr>pi_rank = i, pi_address = addr i\<rparr>) [0..<W] in
        (\<forall>a \<in> set answers. snd a = ReadyPeers peers)
        \<and> (\<forall>c. world_size (cfg_rank c) = W \<longrightarrow> accept_peer_table c (ReadyPeers peers) = Inr peers))"
proof -
  obtain full where full: "table_ok run_id W full" "None \<notin> set full"
    and answers: "answers = map (\<lambda>r. (r, ReadyPeers (peer_table full))) (registered full)"
    using rendezvous_ready [OF _ table_ok_start] assms unfolding run_rendezvous_server_def by blast
  obtain reg where reg: "full = map (\<lambda>i. Some (reg i)) [0..<W]" "\<And>i. i < W \<Longrightarrow> reg_rank (reg i) = i"
    "\<And>i. i < W \<Longrightarrow> trim (reg_advertise_addr (reg i)) \<noteq> []" "inj_on (\<lambda>i. reg_advertise_addr (reg i)) {0..<W}"
    using full_table [OF full] by metis
  show ?thesis
    unfolding answers reg(1) registered_map_Some peer_table_map_Some
    by (intro exI [of _ "\<lambda>i. reg_advertise_addr (reg i)"])
       (use reg(2-4) in \<open>auto simp: Let_def accept_peer_table_ok\<close>)
qed

text \<open>A serializer that writes just the addresses of a table.\<close>

fun addresses_only :: "rendezvous_response \<Rightarrow> string + u8 list" where
  "addresses_only (ReadyPeers peers) = Inr (map of_char (concat (map pi_address peers)))"
| "addresses_only (RendezvousError message) = Inr (map of_char message)"

theorem rendezvous_table_witness:
  "\<exists>answers addr. run_rendezvous_server addresses_only (\<lambda>_. Written) ''run'' 2
       [Inr \<lparr>reg_protocol_version = 2, reg_run_id = ''run'', reg_rank = 1, reg_world_size = 2, reg_advertise_addr = ''b''\<rparr>,
        Inr \<lparr>reg_protocol_version = 2, reg_run_id = ''run'', reg_rank = 0, reg_world_size = 2, reg_advertise_addr = ''a''\<rparr>]
       = (Inr (), answers)
     \<and> map (\<lambda>(r, _). (reg_rank r, reg_advertise_addr r)) answers = map (\<lambda>i. (i, addr i)) [0..<2]"
proof -
  let ?r = "\<lambda>i a. \<lparr>reg_protocol_version = 2, reg_run_id = ''run'', reg_rank = i, reg_world_size = 2,
      reg_advertise_addr = a\<rparr> :: registration"
  have "trim ''a'' \<noteq> []" "trim ''b'' \<noteq> []" by code_simp+
  then obtain answers where r: "run_rendezvous_server addresses_only (\<lambda>_. Written) ''run'' 2 [Inr (?r 1 ''b''), Inr (?r 0 ''a'')] = (Inr (), answers)"
    by (simp add: run_rendezvous_server_def rendezvous_loop.simps registration_error_def PROTOCOL_VERSION_def
        numeral_2_eq_2 registered_def List.map_filter_simps peer_table_def write_json_def CONTROL_FRAME_LIMIT_def)
  from rendezvous_table [OF r] r show ?thesis by blast
qed

section \<open>Any order of arrival\<close>

abbreviation enter :: "registration \<Rightarrow> registration option list \<Rightarrow> registration option list" where
  "enter r regs \<equiv> regs[reg_rank r := Some r]"

lemma rendezvous_loop_accepts:
  assumes "length regs = W"
    and "\<And>r. r \<in> set rs \<Longrightarrow> reg_protocol_version r = PROTOCOL_VERSION \<and> reg_run_id r = run_id \<and> reg_world_size r = W
        \<and> reg_rank r < W \<and> trim (reg_advertise_addr r) \<noteq> []"
    and "distinct (map reg_rank rs)" "\<And>i. i < W \<Longrightarrow> regs ! i = None \<longleftrightarrow> i \<in> reg_rank ` set rs"
    and "\<And>i e r. i < W \<Longrightarrow> regs ! i = Some e \<Longrightarrow> r \<in> set rs \<Longrightarrow> reg_advertise_addr e \<noteq> reg_advertise_addr r"
    and "distinct (map reg_advertise_addr rs)"
  shows "rendezvous_loop json sock run_id W regs (map Inr rs) =
     answer_ready json sock (ReadyPeers (peer_table (fold enter rs regs))) (registered (fold enter rs regs))"
  using assms
proof (induction rs arbitrary: regs)
  case Nil
  then have "None \<notin> set regs" by (auto simp: in_set_conv_nth)
  then show ?case by (subst rendezvous_loop.simps) simp
next
  case (Cons r rs)
  have r: "reg_rank r < W" "regs ! reg_rank r = None" using Cons.prems(2) [of r] Cons.prems(4) [of "reg_rank r"] by auto
  then have gap: "None \<in> set regs" using Cons.prems(1) by (metis nth_mem)
  have "reg_protocol_version r = PROTOCOL_VERSION \<and> reg_run_id r = run_id \<and> reg_world_size r = W
      \<and> trim (reg_advertise_addr r) \<noteq> []" using Cons.prems(2) [of r] by simp
  moreover have "\<not> (\<exists>x \<in> set regs. \<exists>e. x = Some e \<and> reg_advertise_addr e = reg_advertise_addr r)"
    using Cons.prems(1,5) by (metis in_set_conv_nth list.set_intros(1))
  ultimately have "registration_error run_id W regs r = None"
    using r by (simp add: registration_error_def)
  then have step: "rendezvous_loop json sock run_id W regs (map Inr (r # rs)) =
      rendezvous_loop json sock run_id W (enter r regs) (map Inr rs)"
    using gap by (subst rendezvous_loop.simps) simp
  have "rendezvous_loop json sock run_id W (enter r regs) (map Inr rs) =
     answer_ready json sock (ReadyPeers (peer_table (fold enter rs (enter r regs)))) (registered (fold enter rs (enter r regs)))"
  proof (rule Cons.IH)
    fix i assume i: "i < W"
    show "enter r regs ! i = None \<longleftrightarrow> i \<in> reg_rank ` set rs"
      using Cons.prems(1,3) Cons.prems(4) [OF i] i by (cases "i = reg_rank r") auto
  next
    fix i e x assume i: "i < W" "enter r regs ! i = Some e" and x: "x \<in> set rs"
    show "reg_advertise_addr e \<noteq> reg_advertise_addr x"
    proof (cases "i = reg_rank r")
      case True
      with i Cons.prems(1) have "e = r" by simp
      with Cons.prems(6) x show ?thesis by (metis distinct.simps(2) image_eqI list.set_map list.simps(9))
    next
      case False
      with i have "regs ! i = Some e" by simp
      with Cons.prems(5) i(1) x show ?thesis by simp
    qed
  next
    fix x assume "x \<in> set rs"
    then show "reg_protocol_version x = PROTOCOL_VERSION \<and> reg_run_id x = run_id \<and> reg_world_size x = W
        \<and> reg_rank x < W \<and> trim (reg_advertise_addr x) \<noteq> []" using Cons.prems(2) [of x] by simp
  qed (use Cons.prems(1,3,6) in simp_all)
  with step show ?case by simp
qed

text \<open>The table of a complete set of registrations is their list in rank order.\<close>

lemma length_entered [simp]: "length (fold enter rs regs) = length regs"
  by (induction rs arbitrary: regs) simp_all

lemma entered_other: "i \<notin> reg_rank ` set rs \<Longrightarrow> fold enter rs regs ! i = regs ! i"
  by (induction rs arbitrary: regs) simp_all

lemma entered_own:
  "distinct (map reg_rank rs) \<Longrightarrow> r \<in> set rs \<Longrightarrow> reg_rank r < length regs \<Longrightarrow> fold enter rs regs ! reg_rank r = Some r"
  by (induction rs arbitrary: regs) (auto simp: entered_other)

lemma entered_all:
  assumes "distinct (map reg_rank rs)" "reg_rank ` set rs = {0..<W}"
  shows "fold enter rs (replicate W None) = map Some (sort_key reg_rank rs)"
    "map reg_rank (sort_key reg_rank rs) = [0..<W]"
proof -
  let ?s = "sort_key reg_rank rs"
  have "sorted (map reg_rank ?s)" "distinct (map reg_rank ?s)" "set (map reg_rank ?s) = set [0..<W]"
    using assms by (simp_all add: distinct_map)
  then show ranks: "map reg_rank ?s = [0..<W]" using sorted_distinct_set_unique [of _ "[0..<W]"] by simp
  have len: "length ?s = W" using arg_cong [OF ranks, of length] by simp
  show "fold enter rs (replicate W None) = map Some ?s"
  proof (rule nth_equalityI)
    fix i assume "i < length (fold enter rs (replicate W None))"
    then have i: "i < W" by simp
    then have "reg_rank (?s ! i) = i" using arg_cong [OF ranks, of "\<lambda>xs. xs ! i"] len by simp
    moreover have "?s ! i \<in> set rs" using i len nth_mem [of i ?s] by simp
    ultimately show "fold enter rs (replicate W None) ! i = map Some ?s ! i"
      using entered_own [OF assms(1), of "?s ! i" "replicate W None"] i len by simp
  qed (use len in simp)
qed

lemma registered_Some: "registered (map Some rs) = rs"
  using registered_map_Some [of id rs] by simp

lemma peer_table_Some:
  assumes "map reg_rank rs = [0..<W]"
  shows "peer_table (map Some rs) = map (\<lambda>r. \<lparr>pi_rank = reg_rank r, pi_address = reg_advertise_addr r\<rparr>) rs"
proof (rule nth_equalityI)
  have len: "length rs = W" using arg_cong [OF assms, of length] by simp
  fix i assume "i < length (peer_table (map Some rs))"
  then have "i < W" by (simp add: peer_table_def len)
  then show "peer_table (map Some rs) ! i =
      map (\<lambda>r. \<lparr>pi_rank = reg_rank r, pi_address = reg_advertise_addr r\<rparr>) rs ! i"
    using arg_cong [OF assms, of "\<lambda>xs. xs ! i"] len by (simp add: peer_table_def nth_enumerate_eq)
qed (simp add: peer_table_def)

text \<open>
  C35. Rendezvous never depends on timing: if each rank of the world registers once, with the
  right protocol, run and world and with its own non-blank address, then whatever the order in
  which the registrations arrive the server answers the ranks in rank order with the table of
  all of them. It succeeds exactly when the answers can be written: the serialized table fits
  a control frame (64 KiB) and the socket of every rank takes its answer; the first answer
  that cannot be written is what it fails with.
\<close>

theorem rendezvous_any_order:
  assumes "\<And>r. r \<in> set rs \<Longrightarrow> reg_protocol_version r = PROTOCOL_VERSION \<and> reg_run_id r = run_id \<and> reg_world_size r = W
        \<and> trim (reg_advertise_addr r) \<noteq> []"
    and "distinct (map reg_rank rs)" "reg_rank ` set rs = {0..<W}" "distinct (map reg_advertise_addr rs)"
  shows "let clients = sort_key reg_rank rs;
       peers = map (\<lambda>r. \<lparr>pi_rank = reg_rank r, pi_address = reg_advertise_addr r\<rparr>) clients;
       outcome = run_rendezvous_server json sock run_id W (map Inr rs) in
     outcome = answer_ready json sock (ReadyPeers peers) clients \<and>
     (outcome = (Inr (), map (\<lambda>r. (r, ReadyPeers peers)) clients) \<longleftrightarrow>
        W = 0 \<or> (\<exists>bytes. json (ReadyPeers peers) = Inr bytes \<and> length bytes \<le> CONTROL_FRAME_LIMIT)
               \<and> (\<forall>i < W. sock (Some i) = Written))"
proof -
  let ?clients = "sort_key reg_rank rs"
  let ?peers = "map (\<lambda>r. \<lparr>pi_rank = reg_rank r, pi_address = reg_advertise_addr r\<rparr>) ?clients"
  note all = entered_all [OF assms(2,3)]
  have "rendezvous_loop json sock run_id W (replicate W None) (map Inr rs) =
     answer_ready json sock (ReadyPeers (peer_table (fold enter rs (replicate W None))))
       (registered (fold enter rs (replicate W None)))"
  proof (rule rendezvous_loop_accepts)
    fix r assume r: "r \<in> set rs"
    then have "reg_rank r \<in> {0..<W}" unfolding assms(3) [symmetric] by (rule imageI)
    then show "reg_protocol_version r = PROTOCOL_VERSION \<and> reg_run_id r = run_id \<and> reg_world_size r = W
        \<and> reg_rank r < W \<and> trim (reg_advertise_addr r) \<noteq> []" using assms(1) [OF r] by simp
  qed (use assms(2-4) in simp_all)
  then have outcome: "run_rendezvous_server json sock run_id W (map Inr rs) =
      answer_ready json sock (ReadyPeers ?peers) ?clients"
    by (simp add: run_rendezvous_server_def all(1) registered_Some peer_table_Some [OF all(2)])
  have "(\<forall>r \<in> set ?clients. P (reg_rank r)) \<longleftrightarrow> (\<forall>i \<in> reg_rank ` set rs. P i)" for P by simp
  then have "(\<forall>r \<in> set ?clients. P (reg_rank r)) \<longleftrightarrow> (\<forall>i < W. P i)" for P
    unfolding assms(3) by (simp add: Ball_def)
  then have "(\<forall>r \<in> set ?clients. write_json (json (ReadyPeers ?peers)) (sock (Some (reg_rank r))) = Inr ()) \<longleftrightarrow>
      (\<forall>i < W. write_json (json (ReadyPeers ?peers)) (sock (Some i)) = Inr ())" by simp
  then show ?thesis
    unfolding Let_def outcome answer_ready_Inr write_json_Inr by auto
qed

theorem rendezvous_any_order_witness:
  "let b = \<lparr>reg_protocol_version = 2, reg_run_id = ''run'', reg_rank = 1, reg_world_size = 2, reg_advertise_addr = ''b''\<rparr>;
       a = \<lparr>reg_protocol_version = 2, reg_run_id = ''run'', reg_rank = 0, reg_world_size = 2, reg_advertise_addr = ''a''\<rparr>;
       table = ReadyPeers [\<lparr>pi_rank = 0, pi_address = ''a''\<rparr>, \<lparr>pi_rank = 1, pi_address = ''b''\<rparr>] in
     run_rendezvous_server addresses_only (\<lambda>_. Written) ''run'' 2 (map Inr [b, a]) = (Inr (), [(a, table), (b, table)])
     \<and> fst (run_rendezvous_server addresses_only (\<lambda>client. if client = Some 1 then PastDeadline else Written) ''run'' 2
          (map Inr [b, a])) = Inl (Protocol ''TCP write deadline expired'')"
proof -
  let ?r = "\<lambda>i a. \<lparr>reg_protocol_version = 2, reg_run_id = ''run'', reg_rank = i, reg_world_size = 2,
      reg_advertise_addr = a\<rparr> :: registration"
  let ?clients = "[?r 0 ''a'', ?r 1 ''b'']"
  let ?table = "ReadyPeers [\<lparr>pi_rank = 0, pi_address = ''a''\<rparr>, \<lparr>pi_rank = 1, pi_address = ''b''\<rparr>]"
  have trim: "trim ''a'' \<noteq> []" "trim ''b'' \<noteq> []" by code_simp+
  have "run_rendezvous_server addresses_only sock ''run'' 2 (map Inr [?r 1 ''b'', ?r 0 ''a'']) =
      answer_ready addresses_only sock ?table ?clients" for sock
  proof -
    have valid: "reg_protocol_version r = PROTOCOL_VERSION \<and> reg_run_id r = ''run'' \<and> reg_world_size r = 2
        \<and> trim (reg_advertise_addr r) \<noteq> []" if "r \<in> set [?r 1 ''b'', ?r 0 ''a'']" for r
      using that trim by (auto simp: PROTOCOL_VERSION_def)
    have ranks: "distinct (map reg_rank [?r 1 ''b'', ?r 0 ''a''])" "reg_rank ` set [?r 1 ''b'', ?r 0 ''a''] = {0..<2}"
      and addrs: "distinct (map reg_advertise_addr [?r 1 ''b'', ?r 0 ''a''])" by auto
    have "sort_key reg_rank [?r 1 ''b'', ?r 0 ''a''] = ?clients" by simp
    with rendezvous_any_order [OF valid ranks addrs, of addresses_only sock, unfolded Let_def, THEN conjunct1]
    show ?thesis by (simp only: list.map registration.simps)
  qed
  then show ?thesis by (simp add: Let_def write_json_def CONTROL_FRAME_LIMIT_def)
qed

section \<open>The mesh\<close>

lemma accept_loop_sources:
  assumes "accept_loop json sock run_id W rank incoming accepted = Inr result"
    and "distinct incoming" "set incoming \<subseteq> {0..<rank}"
  shows "distinct result \<and> set result = {0..<rank}"
  using assms
proof (induction json sock run_id W rank incoming accepted rule: accept_loop.induct)
  case (1 json sock run_id W rank incoming accepted)
  show ?case
  proof (cases "length incoming \<ge> rank")
    case True
    with 1(2) have res: "result = incoming" by (simp add: accept_loop.simps [of json sock run_id W rank incoming])
    have "card (set incoming) = length incoming" by (rule distinct_card [OF 1(3)])
    with True have "rank \<le> card (set incoming)" by simp
    then have "set incoming = {0..<rank}" using 1(4) by (intro card_seteq) auto
    with res 1(3) show ?thesis by simp
  next
    case False
    with 1(2) obtain h rest where h: "accepted = Inr h # rest" "accept_error run_id W rank incoming h = None"
      "write_json (json HandshakeReady) (sock (hs_source h)) = Inr ()"
      "accept_loop json sock run_id W rank (incoming @ [hs_source h]) rest = Inr result"
      by (auto simp: accept_loop.simps [of json sock run_id W rank incoming] split: list.splits sum.splits option.splits)
    from h(2) have "hs_source h < rank" "hs_source h \<notin> set incoming"
      by (auto simp: accept_error_def split: option.splits if_splits)
    then have "distinct (incoming @ [hs_source h])" "set (incoming @ [hs_source h]) \<subseteq> {0..<rank}" using 1(3,4) by auto
    from 1(1) [OF False h(1) refl h(2,3,4) this] show ?thesis .
  qed
qed

lemma dial_peers_ranks: "dial_peers dial ps = Inr rs \<Longrightarrow> rs = map pi_rank ps"
proof (induction ps arbitrary: rs)
  case Nil
  then show ?case by simp
next
  case (Cons p ps)
  then obtain x where "dial (pi_rank p) = Inr x" by auto
  with Cons show ?case by (cases x) auto
qed

text \<open>
  C36. When the mesh is established, the rank holds exactly one stream to every other rank of
  the world and none to itself: it dialled each higher rank and accepted each lower rank once.
\<close>

theorem full_mesh_complete:
  assumes "accept_peer_table c response = Inr peers" "establish_full_mesh json sock c peers dial accepted = Inr streams"
    and "global_rank (cfg_rank c) < world_size (cfg_rank c)"
  shows "streams = filter (\<lambda>r. r \<noteq> global_rank (cfg_rank c)) [0..<world_size (cfg_rank c)]"
proof -
  let ?rank = "global_rank (cfg_rank c)" and ?W = "world_size (cfg_rank c)"
  have len: "length peers = ?W" and idx: "\<forall>x \<in> set (List.enumerate 0 peers). pi_rank (snd x) = fst x"
    using assms(1) by (auto simp: accept_peer_table_def list_ex_iff split: rendezvous_response.splits if_splits)
  have "pi_rank (peers ! i) = i" if "i < ?W" for i
    using bspec [OF idx, of "(i, peers ! i)"] that len by (simp add: in_set_enumerate_eq)
  then have ranks: "map pi_rank peers = [0..<?W]" using len by (intro nth_equalityI) auto
  from assms(2) obtain dialled incoming where dialled: "dial_peers dial (drop (?rank + 1) peers) = Inr dialled" and
    inc: "accept_loop json sock (cfg_run_id c) ?W ?rank [] accepted = Inr incoming" and s: "streams = sort (dialled @ incoming)"
    by (auto simp: establish_full_mesh_def Let_def split: if_splits)
  have d: "dialled = [Suc ?rank..<?W]"
    using dial_peers_ranks [OF dialled] ranks by (simp flip: drop_map)
  have i: "distinct incoming" "set incoming = {0..<?rank}" using accept_loop_sources [OF inc] by auto
  have sd: "sorted streams" "distinct streams" unfolding s using d i by auto
  have sset: "set streams = set (filter (\<lambda>r. r \<noteq> ?rank) [0..<?W])" unfolding s using d i assms(3) by auto
  show ?thesis
    by (rule sorted_distinct_set_unique [OF sd _ _ sset]) (simp_all add: sorted_wrt_filter)
qed

theorem full_mesh_complete_witness:
  "\<exists>c peers. accept_peer_table c (ReadyPeers peers) = Inr peers \<and>
     establish_full_mesh (\<lambda>_. Inr (map of_char ''ready'')) (\<lambda>_. Written) c peers (\<lambda>_. Inr HandshakeReady)
       [Inr \<lparr>hs_protocol_version = 2, hs_run_id = ''run'', hs_world_size = 3, hs_source = 0, hs_destination = 1\<rparr>]
       = Inr [0, 2]"
proof -
  let ?c = "\<lparr>cfg_rank = \<lparr>global_rank = 1, world_size = 3\<rparr>, cfg_run_id = ''run'', cfg_rendezvous_addr = ''r'',
      cfg_rendezvous_bind_addr = None, cfg_listen_addr = ''l'', cfg_advertise_addr = ''b'',
      cfg_startup_timeout = 1, cfg_operation_timeout = 1, cfg_max_tensor_bytes = 64\<rparr> :: tcp_config"
  let ?peers = "map (\<lambda>i. \<lparr>pi_rank = i, pi_address = ''x''\<rparr>) [0..<3]"
  let ?h = "\<lparr>hs_protocol_version = 2, hs_run_id = ''run'', hs_world_size = 3, hs_source = 0, hs_destination = 1\<rparr>
    :: peer_handshake"
  have table: "accept_peer_table ?c (ReadyPeers ?peers) = Inr ?peers"
    by (rule accept_peer_table_ok) simp
  obtain streams where s: "establish_full_mesh (\<lambda>_. Inr (map of_char ''ready'')) (\<lambda>_. Written) ?c ?peers (\<lambda>_. Inr HandshakeReady) [Inr ?h] = Inr streams"
    by (simp add: establish_full_mesh_def accept_loop.simps accept_error_def validate_handshake_def
        PROTOCOL_VERSION_def upt_rec Let_def write_json_def CONTROL_FRAME_LIMIT_def)
  from full_mesh_complete [OF table s] have "streams = [0, 2]" by (simp add: upt_rec)
  with table s show ?thesis by blast
qed

end
