(* ===== verification/KvCacheProofs.thy ===== *)
theory KvCacheProofs
  imports KvCache Shards
begin

text \<open>
  The key/value cache refines a log of chunks: what an append hands to attention is the
  concatenation, along the sequence axis, of all chunks appended to that layer so far, and
  nothing of the unused tail of the allocation.
\<close>

section \<open>Chunks and what the allocation stores\<close>

definition chunk_len :: "'v tensor \<Rightarrow> nat" where
  "chunk_len t = t_dims t ! 2"

definition chunk_ok :: "nat \<Rightarrow> nat \<Rightarrow> dtype \<Rightarrow> 'v tensor \<Rightarrow> bool" where
  "chunk_ok K D dt t \<longleftrightarrow>
     t_device t = Cpu \<and> t_dtype t = dt \<and> t_dims t = [1, K, chunk_len t, D] \<and>
     length (t_values t) = K * (chunk_len t * D)"

definition head_rows :: "nat \<Rightarrow> nat \<Rightarrow> 'v tensor \<Rightarrow> 'v list" where
  "head_rows D o' t = block (o' * (chunk_len t * D)) (chunk_len t * D) (t_values t)"

definition log_len :: "'v tensor list \<Rightarrow> nat" where
  "log_len ts = sum_list (map chunk_len ts)"

definition log_rows :: "nat \<Rightarrow> nat \<Rightarrow> 'v tensor list \<Rightarrow> 'v list" where
  "log_rows D o' ts = concat (map (head_rows D o') ts)"

definition stores :: "nat \<Rightarrow> nat \<Rightarrow> nat \<Rightarrow> dtype \<Rightarrow> 'v tensor \<Rightarrow> 'v tensor list \<Rightarrow> bool" where
  "stores K D cap dt t ts \<longleftrightarrow>
     t_device t = Cpu \<and> t_dtype t = dt \<and> t_dims t = [1, K, cap, D] \<and>
     length (t_values t) = K * (cap * D) \<and> log_len ts \<le> cap \<and> list_all (chunk_ok K D dt) ts \<and>
     (\<forall>o' < K. block (o' * (cap * D)) (log_len ts * D) (t_values t) = log_rows D o' ts)"

definition layer_holds ::
  "nat \<Rightarrow> nat \<Rightarrow> nat \<Rightarrow> dtype \<Rightarrow> 'v layer_kv_cache \<Rightarrow> 'v tensor list \<Rightarrow> 'v tensor list \<Rightarrow> bool" where
  "layer_holds K D cap dt c ks vs \<longleftrightarrow>
     l_capacity c = cap \<and> l_length c = log_len ks \<and> map t_dims ks = map t_dims vs \<and>
     stores K D cap dt (l_keys c) ks \<and> stores K D cap dt (l_values c) vs"

lemma shape4 [simp]:
  "inner_size [a, b, c, d] 2 = d" "outer_size [a, b, c, d] 2 = a * b" "[a, b, c, d][2 := e] = [a, b, e, d]"
  by (simp_all add: inner_size_def outer_size_def numeral_2_eq_2)

lemma row_in_range: "o' < K \<Longrightarrow> o' * n + n \<le> K * (n :: nat)"
  using mult_le_mono1 [of "Suc o'" K n] by simp

lemma length_head_rows: "chunk_ok K D dt t \<Longrightarrow> o' < K \<Longrightarrow> length (head_rows D o' t) = chunk_len t * D"
  by (simp add: head_rows_def chunk_ok_def row_in_range)

lemma length_log_rows:
  "list_all (chunk_ok K D dt) ts \<Longrightarrow> o' < K \<Longrightarrow> length (log_rows D o' ts) = log_len ts * D"
  by (induction ts) (auto simp: log_rows_def log_len_def length_head_rows algebra_simps)

section \<open>Writing and reading\<close>

lemma slice_set_chunk:
  assumes st: "stores K D cap dt t ts" and k: "chunk_ok K D dt k" and fits: "log_len ts + chunk_len k \<le> cap"
  shows "\<exists>t'. slice_set t k 2 (log_len ts) = Inr t' \<and> stores K D cap dt t' (ts @ [k])"
proof -
  define n where "n = log_len ts"
  define s where "s = chunk_len k"
  define row where "row o' = block (o' * (cap * D)) (cap * D) (t_values t)" for o'
  define new where "new o' = take (n * D) (row o') @ head_rows D o' k @ drop (n * D + s * D) (row o')" for o'
  let ?t = "t\<lparr>t_values := concat (map new [0..<K])\<rparr>"
  have dims: "t_dims t = [1, K, cap, D]" "t_dims k = [1, K, s, D]"
    using st k by (simp_all add: stores_def chunk_ok_def s_def)
  have "n * D + s * D = (n + s) * D" by (simp add: algebra_simps)
  also have "\<dots> \<le> cap * D" using fits by (intro mult_le_mono1) (simp add: n_def s_def)
  finally have ns: "n * D + s * D \<le> cap * D" .
  have nc: "n \<le> cap" using fits by (simp add: n_def)
  have lrow: "length (row o') = cap * D" if "o' < K" for o'
    using st row_in_range [OF that] by (simp add: row_def stores_def)
  have lnew: "length (new o') = cap * D" if "o' < K" for o'
    using ns lrow [OF that] length_head_rows [OF k that] by (simp add: new_def s_def)
  have slice: "slice_set t k 2 n = Inr ?t"
    using st k fits dims
    by (simp add: slice_set_def stores_def chunk_ok_def new_def row_def head_rows_def Let_def
        s_def [symmetric] n_def [symmetric] mult.commute [of D] numeral_2_eq_2 [symmetric] cong: map_cong)
  have "block (o' * (cap * D)) (log_len (ts @ [k]) * D) (concat (map new [0..<K])) = log_rows D o' (ts @ [k])"
    if o: "o' < K" for o'
  proof -
    have "block (o' * (cap * D)) (cap * D) (concat (map new [0..<K])) = new o'"
      using block_of_blocks [of K new "cap * D" o'] lnew o by blast
    then have "block 0 (n * D + s * D) (new o') =
        block (o' * (cap * D)) (n * D + s * D) (concat (map new [0..<K]))"
      using block_block [of 0 "n * D + s * D" "cap * D" "o' * (cap * D)" "concat (map new [0..<K])"] ns
      by simp
    moreover have "block 0 (n * D + s * D) (new o') = take (n * D) (row o') @ head_rows D o' k"
      using nc lrow [OF o] length_head_rows [OF k o] by (simp add: block_def new_def s_def)
    moreover have "take (n * D) (row o') = log_rows D o' ts"
      using st o ns by (simp add: row_def block_def stores_def n_def min_absorb1)
    ultimately show ?thesis by (simp add: log_rows_def log_len_def n_def s_def algebra_simps)
  qed
  moreover have "length (concat (map new [0..<K])) = K * (cap * D)"
    using length_concat_const [of "[0..<K]" new "cap * D"] lnew by simp
  ultimately have "stores K D cap dt ?t (ts @ [k])"
    using st k fits by (simp add: stores_def log_len_def)
  with slice show ?thesis by (auto simp: n_def)
qed

lemma cat_mismatch_chunks:
  assumes "list_all (chunk_ok K D dt) ts"
  shows "cat_mismatch [1, K, n, D] 2 i ts = None"
  using assms
proof (induction ts arbitrary: i)
  case Nil
  then show ?case by simp
next
  case (Cons t ts)
  have dims: "t_dims t = [1, K, chunk_len t, D]" using Cons.prems by (simp add: chunk_ok_def)
  have "find (\<lambda>j. j \<noteq> 2 \<and> [1, K, n, D] ! j \<noteq> t_dims t ! j) [0..<4] = None"
    by (auto simp: find_None_iff dims upt_rec numeral_2_eq_2)
  with Cons dims show ?case by simp
qed

lemma cat_chunks:
  assumes "ts \<noteq> []" "list_all (chunk_ok K D dt) ts"
  shows "tensor_cat ts 2 = Inr \<lparr>t_device = Cpu, t_dtype = dt, t_dims = [1, K, log_len ts, D],
           t_values = concat (map (\<lambda>o'. log_rows D o' ts) [0..<K])\<rparr>"
proof (cases "tl ts = []")
  case True
  then obtain t where ts: "ts = [t]" using assms(1) by (cases ts) auto
  then have t: "chunk_ok K D dt t" using assms(2) by simp
  then have "concat (map (\<lambda>o'. log_rows D o' ts) [0..<K]) = t_values t"
    by (simp add: ts log_rows_def head_rows_def blocks_all chunk_ok_def)
  with t show ?thesis
    by (auto simp: ts tensor_cat_def log_len_def chunk_ok_def intro!: tensor.equality)
next
  case False
  then obtain t t' ts' where ts: "ts = t # t' # ts'" using assms(1) by (cases ts; cases "tl ts") auto
  have t: "t_dims t = [1, K, chunk_len t, D]" "t_device t = Cpu" "t_dtype t = dt"
    using assms(2) by (simp_all add: ts chunk_ok_def)
  have ok: "t_dims x = [1, K, chunk_len x, D]" if "x \<in> set ts" for x
    using assms(2) that by (simp add: list_all_iff chunk_ok_def)
  have "find (\<lambda>x. 2 \<ge> length (t_dims x)) ts = None"
    using ok by (auto simp: find_None_iff)
  moreover have "cat_foreign t ts = None"
    by (rule cat_foreign_none [where ty = dt and dev = Cpu])
       (use assms(2) t in \<open>auto simp: list_all_iff chunk_ok_def\<close>)
  moreover have "map (\<lambda>x. t_dims x ! 2) ts = map chunk_len ts" by (simp add: chunk_len_def [abs_def])
  ultimately have "tensor_cat ts 2 = Inr (t\<lparr>t_dims := [1, K, log_len ts, D],
      t_values := concat (map (\<lambda>o'. log_rows D o' ts) [0..<K])\<rparr>)"
    using cat_mismatch_chunks [OF assms(2)] t
    unfolding tensor_cat_def unfolding ts list.case unfolding ts [symmetric]
    by (simp add: log_len_def log_rows_def head_rows_def [abs_def] Let_def chunk_len_def [symmetric]
        del: map_eq_conv)
  with t show ?thesis by simp
qed

lemma narrow_stored:
  assumes "stores K D cap dt t ts" "ts \<noteq> []"
  shows "narrow t 2 0 (log_len ts) = tensor_cat ts 2"
proof -
  have rows: "map (\<lambda>o'. block (o' * (cap * D)) (log_len ts * D) (t_values t)) [0..<K] =
      map (\<lambda>o'. log_rows D o' ts) [0..<K]"
    using assms(1) by (auto simp: stores_def)
  have dims: "t_dims t = [1, K, cap, D]" and len: "length (t_values t) = K * (cap * D)"
    using assms(1) by (simp_all add: stores_def)
  show ?thesis
  proof (cases "log_len ts = cap")
    case True
    then have "t_values t = concat (map (\<lambda>o'. log_rows D o' ts) [0..<K])"
      using rows blocks_all [OF len] by (simp del: map_eq_conv)
    with True assms dims show ?thesis
      by (subst cat_chunks) (auto simp: narrow_def stores_def intro!: tensor.equality)
  next
    case False
    with assms dims rows show ?thesis
      by (subst cat_chunks)
         (auto simp: narrow_def stores_def Let_def mult.assoc intro!: tensor.equality
            simp del: map_eq_conv)
  qed
qed

section \<open>The cache is a log\<close>

lemma layer_new_holds:
  assumes "layer_new z cfg cap dt = Inr c" "head_dim cfg = Inr D"
  shows "layer_holds (num_key_value_heads cfg) D cap dt c [] []"
  using assms
  by (auto simp: layer_new_def layer_holds_def stores_def zeros_def log_len_def log_rows_def block_def Let_def)

lemma log_len_dims: "log_len ts = sum_list (map (\<lambda>ds. ds ! 2) (map t_dims ts))"
  by (simp add: log_len_def chunk_len_def [abs_def] comp_def)

lemma layer_append_holds:
  assumes h: "layer_holds K D cap dt c ks vs" and k: "chunk_ok K D dt k" and v: "chunk_ok K D dt v"
    and kv: "t_dims k = t_dims v" and fits: "log_len ks + chunk_len k \<le> cap"
  shows "\<exists>kview vview c'. layer_append c k v = (Inr (kview, vview), c') \<and>
     tensor_cat (ks @ [k]) 2 = Inr kview \<and> tensor_cat (vs @ [v]) 2 = Inr vview \<and>
     layer_holds K D cap dt c' (ks @ [k]) (vs @ [v])"
proof -
  have len: "log_len vs = log_len ks" "chunk_len v = chunk_len k"
    using h kv by (simp_all add: layer_holds_def log_len_dims chunk_len_def del: map_map)
  have st: "stores K D cap dt (l_keys c) ks" "stores K D cap dt (l_values c) vs"
    and c: "l_length c = log_len ks" "l_capacity c = cap" using h by (simp_all add: layer_holds_def)
  obtain k' where k': "slice_set (l_keys c) k 2 (log_len ks) = Inr k'" "stores K D cap dt k' (ks @ [k])"
    using slice_set_chunk [OF st(1) k fits] by blast
  obtain v' where v': "slice_set (l_values c) v 2 (log_len ks) = Inr v'" "stores K D cap dt v' (vs @ [v])"
    using slice_set_chunk [OF st(2) v] fits len by auto
  have n: "log_len ks + chunk_len k = log_len (ks @ [k])" "log_len ks + chunk_len k = log_len (vs @ [v])"
    using len by (simp_all add: log_len_def)
  have "list_all (chunk_ok K D dt) (ks @ [k])" "list_all (chunk_ok K D dt) (vs @ [v])"
    using k'(2) v'(2) by (simp_all add: stores_def)
  then obtain kview vview where cat: "tensor_cat (ks @ [k]) 2 = Inr kview" "tensor_cat (vs @ [v]) 2 = Inr vview"
    using cat_chunks [of "ks @ [k]"] cat_chunks [of "vs @ [v]"] by blast
  have views: "narrow k' 2 0 (log_len ks + chunk_len k) = Inr kview"
    "narrow v' 2 0 (log_len ks + chunk_len k) = Inr vview"
    using narrow_stored [OF k'(2)] cat(1) n(1) narrow_stored [OF v'(2)] cat(2) n(2) by simp_all
  have "dims4 k = Inr (1, K, chunk_len k, D)" using k by (simp add: dims4_def chunk_ok_def)
  then have "layer_append c k v = (Inr (kview, vview),
      c\<lparr>l_keys := k', l_values := v', l_length := log_len ks + chunk_len k\<rparr>)"
    using kv c fits k'(1) v'(1) views by (simp add: layer_append_def Let_def)
  moreover have "layer_holds K D cap dt (c\<lparr>l_keys := k', l_values := v', l_length := log_len ks + chunk_len k\<rparr>)
      (ks @ [k]) (vs @ [v])"
    using h k'(2) v'(2) kv n(1) by (simp add: layer_holds_def)
  ultimately show ?thesis using cat by blast
qed

lemma layer_append_full:
  assumes "layer_holds K D cap dt c ks vs" "chunk_ok K D dt k" "t_dims k = t_dims v" "cap < log_len ks + chunk_len k"
  shows "layer_append c k v = (Inl (CacheCapacityExceeded (log_len ks + chunk_len k) cap), c)"
proof -
  have "dims4 k = Inr (1, K, chunk_len k, D)" using assms(2) by (simp add: dims4_def chunk_ok_def)
  with assms show ?thesis by (simp add: layer_append_def layer_holds_def Let_def)
qed

text \<open>A history of appends to one layer, with every result.\<close>

fun layer_appends ::
  "'v layer_kv_cache \<Rightarrow> ('v tensor \<times> 'v tensor) list \<Rightarrow> ('v tensor \<times> 'v tensor) dresult list \<times> 'v layer_kv_cache" where
  "layer_appends c [] = ([], c)"
| "layer_appends c ((k, v) # cs) =
     (let (r, c1) = layer_append c k v; (rs, c2) = layer_appends c1 cs in (r # rs, c2))"

lemma layer_appends_hold:
  assumes "layer_holds K D cap dt c ks vs" "list_all (\<lambda>(k, v). chunk_ok K D dt k \<and> chunk_ok K D dt v \<and> t_dims k = t_dims v) cs"
    and "log_len ks + log_len (map fst cs) \<le> cap"
  shows "\<exists>rs c'. layer_appends c cs = (map Inr rs, c') \<and> length rs = length cs \<and>
     layer_holds K D cap dt c' (ks @ map fst cs) (vs @ map snd cs) \<and>
     (\<forall>i < length cs. tensor_cat (ks @ map fst (take (Suc i) cs)) 2 = Inr (fst (rs ! i)) \<and>
                       tensor_cat (vs @ map snd (take (Suc i) cs)) 2 = Inr (snd (rs ! i)))"
  using assms
proof (induction cs arbitrary: c ks vs)
  case Nil
  then show ?case by simp
next
  case (Cons x cs)
  obtain k v where x: "x = (k, v)" by (cases x)
  have ok: "chunk_ok K D dt k" "chunk_ok K D dt v" "t_dims k = t_dims v"
    and fit: "log_len ks + chunk_len k \<le> cap" "log_len (ks @ [k]) + log_len (map fst cs) \<le> cap"
    using Cons.prems by (auto simp: x log_len_def)
  obtain kw vw c1 where a: "layer_append c k v = (Inr (kw, vw), c1)" "tensor_cat (ks @ [k]) 2 = Inr kw"
    "tensor_cat (vs @ [v]) 2 = Inr vw" "layer_holds K D cap dt c1 (ks @ [k]) (vs @ [v])"
    using layer_append_holds [OF Cons.prems(1) ok fit(1)] by blast
  from Cons.IH [OF a(4) _ fit(2)] Cons.prems(2) obtain rs c' where
    r: "layer_appends c1 cs = (map Inr rs, c')" "length rs = length cs"
      "layer_holds K D cap dt c' (ks @ k # map fst cs) (vs @ v # map snd cs)"
      "\<forall>i < length cs. tensor_cat (ks @ k # map fst (take (Suc i) cs)) 2 = Inr (fst (rs ! i)) \<and>
                       tensor_cat (vs @ v # map snd (take (Suc i) cs)) 2 = Inr (snd (rs ! i))"
    by (auto simp: x)
  have "tensor_cat (ks @ map fst (take (Suc i) (x # cs))) 2 = Inr (fst (((kw, vw) # rs) ! i)) \<and>
        tensor_cat (vs @ map snd (take (Suc i) (x # cs))) 2 = Inr (snd (((kw, vw) # rs) ! i))"
    if "i < length (x # cs)" for i
    using that a(2,3) r(4) by (cases i) (auto simp: x)
  then show ?case using a(1) r(1-3) by (intro exI [of _ "(kw, vw) # rs"] exI [of _ c']) (auto simp: x)
qed

text \<open>
  C10. A cache layer refines a log of key and value chunks. Starting from a freshly
  allocated layer, as long as the appended positions fit the capacity every append
  succeeds, and what it returns to attention is exactly the concatenation along the
  sequence axis of all chunks appended so far, the new one included; the first append
  beyond the capacity is refused with the attempted and the available length and leaves
  the layer as it was.
\<close>

theorem kv_layer_refines_log:
  assumes "layer_new z cfg cap dt = Inr c" "head_dim cfg = Inr D"
    and "list_all (\<lambda>(k, v). chunk_ok (num_key_value_heads cfg) D dt k \<and> chunk_ok (num_key_value_heads cfg) D dt v
            \<and> t_dims k = t_dims v) cs"
    and "log_len (map fst cs) \<le> cap"
  shows "\<exists>rs c'. layer_appends c cs = (map Inr rs, c') \<and> length rs = length cs \<and>
     l_length c' = log_len (map fst cs) \<and>
     (\<forall>i < length cs. tensor_cat (map fst (take (Suc i) cs)) 2 = Inr (fst (rs ! i)) \<and>
                       tensor_cat (map snd (take (Suc i) cs)) 2 = Inr (snd (rs ! i))) \<and>
     (\<forall>k v. chunk_ok (num_key_value_heads cfg) D dt k \<longrightarrow> t_dims k = t_dims v \<longrightarrow>
        cap < l_length c' + chunk_len k \<longrightarrow>
        layer_append c' k v = (Inl (CacheCapacityExceeded (l_length c' + chunk_len k) cap), c'))"
proof -
  from layer_appends_hold [OF layer_new_holds [OF assms(1,2)] assms(3)] assms(4)
  obtain rs c' where r: "layer_appends c cs = (map Inr rs, c')" "length rs = length cs"
    "layer_holds (num_key_value_heads cfg) D cap dt c' (map fst cs) (map snd cs)"
    "\<forall>i < length cs. tensor_cat (map fst (take (Suc i) cs)) 2 = Inr (fst (rs ! i)) \<and>
                     tensor_cat (map snd (take (Suc i) cs)) 2 = Inr (snd (rs ! i))"
    by (auto simp: log_len_def)
  then show ?thesis using layer_append_full [OF r(3)] by (auto simp: layer_holds_def)
qed

theorem kv_layer_refines_log_witness:
  "\<exists>c rs c'. layer_new (0 :: int) \<lparr>vocab_size = 8, hidden_size = 2, intermediate_size = 4, num_hidden_layers = 1,
        num_attention_heads = 2, num_key_value_heads = 2, rms_norm_eps = 0, rope_theta = 0,
        max_position_embeddings = 3, bos_token_id = 1, eos_token_id = 2, tie_word_embeddings = True\<rparr> 3 F32 = Inr c \<and>
     layer_appends c [(cpu_f32 [1, 2, 2, 1] [1, 2, 3, 4], cpu_f32 [1, 2, 2, 1] [5, 6, 7, 8]),
                      (cpu_f32 [1, 2, 1, 1] [9, 10], cpu_f32 [1, 2, 1, 1] [11, 12])] = (map Inr rs, c') \<and>
     rs ! 1 = (cpu_f32 [1, 2, 3, 1] [1, 2, 9, 3, 4, 10], cpu_f32 [1, 2, 3, 1] [5, 6, 11, 7, 8, 12]) \<and>
     layer_append c' (cpu_f32 [1, 2, 1, 1] [0, 0]) (cpu_f32 [1, 2, 1, 1] [0, 0]) = (Inl (CacheCapacityExceeded 4 3), c')"
proof -
  let ?cfg = "\<lparr>vocab_size = 8, hidden_size = 2, intermediate_size = 4, num_hidden_layers = 1,
        num_attention_heads = 2, num_key_value_heads = 2, rms_norm_eps = 0, rope_theta = 0,
        max_position_embeddings = 3, bos_token_id = 1, eos_token_id = 2, tie_word_embeddings = True\<rparr>"
  let ?cs = "[(cpu_f32 [1, 2, 2, 1] [1, 2, 3, 4 :: int], cpu_f32 [1, 2, 2, 1] [5, 6, 7, 8 :: int]),
              (cpu_f32 [1, 2, 1, 1] [9, 10], cpu_f32 [1, 2, 1, 1] [11, 12])]"
  have hd: "head_dim ?cfg = Inr 1" by (simp add: head_dim_def)
  then obtain c where c: "layer_new (0 :: int) ?cfg 3 F32 = Inr c" by (simp add: layer_new_def Let_def)
  have ok: "list_all (\<lambda>(k, v). chunk_ok (num_key_value_heads ?cfg) 1 F32 k \<and>
      chunk_ok (num_key_value_heads ?cfg) 1 F32 v \<and> t_dims k = t_dims v) ?cs"
    by (simp add: chunk_ok_def chunk_len_def)
  have fit: "log_len (map fst ?cs) \<le> 3" by (simp add: log_len_def chunk_len_def)
  obtain rs c' where r: "layer_appends c ?cs = (map Inr rs, c')" "l_length c' = 3"
    "tensor_cat (map fst ?cs) 2 = Inr (fst (rs ! 1))" "tensor_cat (map snd ?cs) 2 = Inr (snd (rs ! 1))"
    "\<forall>k v. chunk_ok 2 1 F32 k \<longrightarrow> t_dims k = t_dims v \<longrightarrow> 3 < l_length c' + chunk_len k \<longrightarrow>
        layer_append c' k v = (Inl (CacheCapacityExceeded (l_length c' + chunk_len k) 3), c')"
    using kv_layer_refines_log [OF c hd ok fit] by (auto simp: log_len_def chunk_len_def numeral_2_eq_2)
  have "tensor_cat (map fst ?cs) 2 = Inr (cpu_f32 [1, 2, 3, 1] [1, 2, 9, 3, 4, 10])"
    "tensor_cat (map snd ?cs) 2 = Inr (cpu_f32 [1, 2, 3, 1] [5, 6, 11, 7, 8, 12])"
    by code_simp+
  with r have "rs ! 1 = (cpu_f32 [1, 2, 3, 1] [1, 2, 9, 3, 4, 10], cpu_f32 [1, 2, 3, 1] [5, 6, 11, 7, 8, 12])"
    by (simp add: prod_eq_iff)
  moreover have "layer_append c' (cpu_f32 [1, 2, 1, 1] [0, 0]) (cpu_f32 [1, 2, 1, 1] [0, 0]) =
      (Inl (CacheCapacityExceeded 4 3), c')"
    using r(2) r(5) [rule_format, of "cpu_f32 [1, 2, 1, 1] [0, 0]" "cpu_f32 [1, 2, 1, 1] [0, 0]"]
    by (simp add: chunk_ok_def chunk_len_def)
  ultimately show ?thesis using c r(1) by blast
qed

end
