(* ===== verification/GenerationProofs.thy ===== *)
theory GenerationProofs
  imports Generation
begin

text \<open>
  What a generation returns: how many tokens, why it stopped, how many forward passes it
  took, and that the event stream tells the same story.
\<close>

section \<open>The loop\<close>

definition event_tokens :: "run_event list \<Rightarrow> u32 list" where
  "event_tokens es = concat (map (\<lambda>e. case ev_event e of TokenGenerated t _ \<Rightarrow> [t] | _ \<Rightarrow> []) es)"

lemma event_tokens_emit:
  "event_tokens (er_events (emit k rec)) =
     event_tokens (er_events rec) @ (case k of TokenGenerated t _ \<Rightarrow> [t] | _ \<Rightarrow> [])"
  by (simp add: event_tokens_def emit_def)

text \<open>What a recorder has added since it was \<open>rec\<close>: events behind the old ones, with the
  next numbers and for the same rank, and the tokens announced among them.\<close>

definition announced :: "event_recorder \<Rightarrow> u32 list \<Rightarrow> event_recorder \<Rightarrow> bool" where
  "announced rec ts rec' \<longleftrightarrow>
     recorder_ok rec' \<and> er_rank rec' = er_rank rec \<and>
     (\<exists>added. er_events rec' = er_events rec @ added \<and> event_tokens added = ts)"

lemma announced_refl: "recorder_ok rec \<Longrightarrow> announced rec [] rec"
  by (simp add: announced_def event_tokens_def)

lemma announced_emit:
  assumes "announced rec ts rec'"
  shows "announced rec (ts @ (case k of TokenGenerated t _ \<Rightarrow> [t] | _ \<Rightarrow> [])) (emit k rec')"
proof -
  from assms obtain added where added: "er_events rec' = er_events rec @ added" "event_tokens added = ts"
    by (auto simp: announced_def)
  obtain e where e: "er_events (emit k rec') = er_events rec' @ [e]" "ev_event e = k" by (simp add: emit_def)
  then have "er_events (emit k rec') = er_events rec @ (added @ [e])
      \<and> event_tokens (added @ [e]) = ts @ (case k of TokenGenerated t _ \<Rightarrow> [t] | _ \<Rightarrow> [])"
    using added by (simp add: event_tokens_def)
  moreover have "er_rank (emit k rec') = er_rank rec'" by (simp add: emit_def)
  ultimately show ?thesis using assms emit_ok unfolding announced_def by metis
qed

text \<open>What holds of the state whenever the loop condition is tested.\<close>

definition loop_inv :: "u32 \<Rightarrow> event_recorder \<Rightarrow> ('v, 'd) gen_state \<Rightarrow> bool" where
  "loop_inv eos rec s \<longleftrightarrow>
     eos \<notin> set (gs_tokens s) \<and> gs_next s \<noteq> eos \<and> length (gs_tokens s) = Suc (gs_decode_forward_count s) \<and>
     announced rec (gs_tokens s) (gs_recorder s)"

definition finished :: "u32 \<Rightarrow> usize \<Rightarrow> usize \<Rightarrow> event_recorder \<Rightarrow> stop_reason \<Rightarrow> ('v, 'd) gen_state \<Rightarrow> bool" where
  "finished eos requested effective rec stop s \<longleftrightarrow>
     length (gs_tokens s) \<le> effective \<and> eos \<notin> set (gs_tokens s) \<and>
     gs_decode_forward_count s \<le> effective - 1 \<and>
     (case stop of
        Eos \<Rightarrow> gs_next s = eos \<and> gs_decode_forward_count s = length (gs_tokens s)
      | _ \<Rightarrow> gs_next s \<noteq> eos \<and> length (gs_tokens s) = effective \<and> Suc (gs_decode_forward_count s) = effective \<and>
              stop = (if requested > effective then ContextLimit else MaxNewTokens)) \<and>
     announced rec (gs_tokens s) (gs_recorder s)"

lemma decode_forward_inv:
  assumes "loop_inv eos rec s" "decode_forward ops m s = Inr s1"
  shows "gs_tokens s1 = gs_tokens s" "gs_decode_forward_count s1 = Suc (gs_decode_forward_count s)"
    "announced rec (gs_tokens s) (gs_recorder s1)"
proof -
  have a: "announced rec (gs_tokens s) (gs_recorder s)" using assms(1) by (simp add: loop_inv_def)
  have "announced rec (gs_tokens s) (emit (DecodeStepFinished n) (emit (DecodeStepStarted n) (gs_recorder s)))" for n
    using announced_emit [OF announced_emit [OF a, of "DecodeStepStarted n"], of "DecodeStepFinished n"] by simp
  then show "gs_tokens s1 = gs_tokens s" "gs_decode_forward_count s1 = Suc (gs_decode_forward_count s)"
    "announced rec (gs_tokens s) (gs_recorder s1)"
    using assms(2) by (auto simp: decode_forward_def Let_def)
qed

lemma accept_token_inv:
  assumes "accept_token tok s = Inr s'"
  shows "gs_tokens s' = gs_tokens s @ [gs_next s]" "gs_next s' = gs_next s" "gs_decode_forward_count s' = gs_decode_forward_count s"
    "announced rec (gs_tokens s) (gs_recorder s) \<Longrightarrow> announced rec (gs_tokens s') (gs_recorder s')"
  using assms by (auto simp: accept_token_def emit_token_def dest: announced_emit [where k = "TokenGenerated (gs_next s) x" for x])

lemma decode_loop_finished:
  assumes "decode_loop ops m tok eos requested effective s = Inr (stop, s')" "loop_inv eos rec s"
    and "length (gs_tokens s) \<le> effective"
  shows "finished eos requested effective rec stop s'"
  using assms
proof (induction ops m tok eos requested effective s rule: decode_loop.induct)
  case (1 ops m tok eos requested effective s)
  show ?case
  proof (cases "length (gs_tokens s) \<ge> effective")
    case True
    with 1(2-4) show ?thesis
      by (auto simp: decode_loop.simps [of ops m tok eos requested effective s] finished_def loop_inv_def
          token_limit_stop_reason_def)
  next
    case False
    with 1(2) obtain s1 where s1: "decode_forward ops m s = Inr s1"
      and rest: "(if gs_next s1 = eos then Inr (Eos, s1)
           else rbind (accept_token tok s1) (\<lambda>s2. decode_loop ops m tok eos requested effective s2)) = Inr (stop, s')"
      by (auto simp: decode_loop.simps [of ops m tok eos requested effective s])
    note f = decode_forward_inv [OF 1(3) s1]
    show ?thesis
    proof (cases "gs_next s1 = eos")
      case True
      with rest f False 1(3) show ?thesis by (auto simp: finished_def loop_inv_def)
    next
      case more: False
      with rest obtain s2 where s2: "accept_token tok s1 = Inr s2"
        and loop: "decode_loop ops m tok eos requested effective s2 = Inr (stop, s')" by auto
      note a = accept_token_inv [OF s2]
      have "loop_inv eos rec s2" using a f more 1(3) by (auto simp: loop_inv_def)
      moreover have "length (gs_tokens s2) \<le> effective" using a f False by simp
      ultimately show ?thesis using 1(1) [OF False s1 more s2 loop] by blast
    qed
  qed
qed

text \<open>
  C13. Generation always comes to an end and obeys its limits, whatever was recorded before
  it: it emits at most the effective number of tokens and runs at most one cached forward
  pass less than that; no emitted token is the end-of-sequence token; it stops with the
  end-of-sequence reason exactly when that token was selected, and otherwise with the full
  number of tokens and the reason that tells whether the context or the request was the
  limit; the earlier events are kept, the new ones follow them with the next numbers and for
  the same rank, and the tokens announced in the new ones are the tokens returned, in order.
\<close>

theorem generation_outcome:
  assumes "generate_tokens ops m tok eos prompt requested effective cache rec = Inr (stop, s)"
    and "1 \<le> effective" "recorder_ok rec"
  shows "finished eos requested effective rec stop s \<and> (stop = Eos \<longleftrightarrow> gs_next s = eos)"
proof -
  define rec1 where "rec1 = emit PrefillFinished (emit (PrefillStarted (length prompt)) rec)"
  have rec: "announced rec [] rec1"
    using announced_emit [OF announced_emit [OF announced_refl [OF assms(3)], of "PrefillStarted (length prompt)"],
      of PrefillFinished] by (simp add: rec1_def)
  from assms(1) obtain cache1 nxt where
    run: "(let s = \<lparr>gs_cache = cache1, gs_tokens = [], gs_next = nxt, gs_stream = tok_stream tok,
               gs_decode_forward_count = 0, gs_recorder = rec1\<rparr> in
      if nxt = eos then Inr (Eos, s)
      else rbind (accept_token tok s) (\<lambda>s1. decode_loop ops m tok eos requested effective s1)) = Inr (stop, s)"
    by (auto simp: generate_tokens_def Let_def rec1_def)
  have "finished eos requested effective rec stop s"
  proof (cases "nxt = eos")
    case True
    with run rec show ?thesis by (auto simp: finished_def Let_def)
  next
    case False
    with run obtain s1 where s1: "accept_token tok \<lparr>gs_cache = cache1, gs_tokens = [], gs_next = nxt,
        gs_stream = tok_stream tok, gs_decode_forward_count = 0, gs_recorder = rec1\<rparr> = Inr s1"
      and loop: "decode_loop ops m tok eos requested effective s1 = Inr (stop, s)" by (auto simp: Let_def)
    have "loop_inv eos rec s1" using accept_token_inv [OF s1] rec False by (simp add: loop_inv_def)
    then show ?thesis using decode_loop_finished [OF loop] accept_token_inv(1) [OF s1] assms(2) by simp
  qed
  then show ?thesis by (cases stop) (auto simp: finished_def)
qed

text \<open>Every successful request comes through there with a well-formed recorder and room for a
  token, and reports what the loop left.\<close>

lemma preflight_effective:
  assumes "generation_memory_preflight m dtype prompt requested budget = Inr (effective, memory)" "requested \<noteq> 0"
  shows "1 \<le> effective"
  using assms by (auto simp: generation_memory_preflight_def Let_def split: if_splits)

lemma guard_Inr: "(if b then Inl e else x) = Inr y \<longleftrightarrow> \<not> b \<and> x = Inr y"
  by simp

lemma generate_runs_loop:
  fixes env :: "('v, 'd) generation_env"
  assumes "generate env req = Inr report"
  shows "\<exists>m (tok :: 'd tokenizer) eos prompt effective cache rec stop s.
     generate_tokens (ge_ops env) m tok eos prompt (gr_max_new_tokens req) effective cache rec = Inr (stop, s)
     \<and> 1 \<le> effective \<and> recorder_ok rec \<and> er_rank rec = 0
     \<and> rep_generated_tokens report = gs_tokens s \<and> rep_stop_reason report = stop
     \<and> rep_events report = er_events (emit (GenerationFinished stop) (gs_recorder s))"
proof -
  let ?rec = "emit ModelLoadFinished (emit ModelLoadStarted (emit ArtifactResolutionFinished
     (emit ArtifactResolutionStarted (emit ArtifactResolutionFinished (emit ArtifactResolutionStarted (recorder_new 0))))))"
  have rec: "recorder_ok ?rec" "er_rank ?rec = 0"
    by (simp add: emit_ok recorder_new_ok) (simp add: emit_def recorder_new_def)
  have req: "gr_max_new_tokens req \<noteq> 0" using assms by (auto simp: generate_def split: if_splits)
  from assms obtain m and tok :: "'d tokenizer" and eos prompt effective memory cache stop s where
    "generation_memory_preflight (spec (gr_model req)) (gr_dtype req) (length prompt)
       (gr_max_new_tokens req) (gr_device_memory_budget req) = Inr (effective, memory)" and
    "generate_tokens (ge_ops env) m tok eos prompt (gr_max_new_tokens req) effective cache ?rec = Inr (stop, s)"
    "rep_generated_tokens report = gs_tokens s" "rep_stop_reason report = stop"
    "rep_events report = er_events (emit (GenerationFinished stop) (gs_recorder s))"
    by (auto simp: generate_def Let_def guard_Inr split del: if_split)
  with rec preflight_effective [OF _ req] show ?thesis by blast
qed

text \<open>
  A model small enough to run by hand: one value per position, the identity for every
  kernel, and the successor of the last token as the selected one.
\<close>

definition counting_ops :: "u32 candle_ops" where
  "counting_ops =
     \<lparr>op_add = (+), op_zero = 0, op_neg_infinity = 0,
      op_linear = (\<lambda>w x. Inr x),
      op_embedding = (\<lambda>w ids. Inr (cpu_f32 (t_dims ids @ [1]) (t_values ids))),
      op_rms_norm = (\<lambda>eps w x. Inr x),
      op_rope_tables = (\<lambda>c n. Inr (cpu_f32 [n, 1] (replicate n 0), cpu_f32 [n, 1] (replicate n 0))),
      op_rope = (\<lambda>x c s. Inr x),
      op_transpose = (\<lambda>x i j. Inr (x\<lparr>t_dims := (t_dims x)[i := t_dims x ! j, j := t_dims x ! i]\<rparr>)),
      op_t = (\<lambda>x. Inr x),
      op_matmul = (\<lambda>x y. Inr x),
      op_div_sqrt = (\<lambda>x d. Inr x),
      op_softmax_last_dim = (\<lambda>x. Inr x),
      op_silu = (\<lambda>x. Inr x),
      op_mul = (\<lambda>x y. Inr x),
      op_to_dtype = (\<lambda>x d. Inr (x\<lparr>t_dtype := d\<rparr>)),
      op_argmax = (\<lambda>x. Inr (hd (t_values x) + 1))\<rparr>"

definition counting_tokenizer :: "unit tokenizer" where
  "counting_tokenizer =
     \<lparr>tok_encode = (\<lambda>s. Inr []), tok_decode = (\<lambda>ids. Inr []), tok_stream = (), tok_step = (\<lambda>_ t. Inr (None, ()))\<rparr>"

definition headless :: "u32 llama" where
  "headless = \<lparr>embeddings = cpu_f32 [8, 1] [], blocks = [], final_norm = (0, cpu_f32 [1] [1]),
     lm_head = cpu_f32 [8, 1] [], rope = \<lparr>rope_cos = cpu_f32 [4, 1] [], rope_sin = cpu_f32 [4, 1] []\<rparr>\<rparr>"

text \<open>The recorder as \<open>generate\<close> hands it over: six events are already in it.\<close>

definition loaded_recorder :: event_recorder where
  "loaded_recorder = emit ModelLoadFinished (emit ModelLoadStarted (emit ArtifactResolutionFinished
     (emit ArtifactResolutionStarted (emit ArtifactResolutionFinished (emit ArtifactResolutionStarted (recorder_new 0))))))"

theorem generation_outcome_witness:
  "\<exists>s. generate_tokens counting_ops headless counting_tokenizer 7 [3] 5 4 \<lparr>kv_layers = [], kv_capacity = 4\<rparr>
         loaded_recorder = Inr (Eos, s) \<and> gs_tokens s = [4, 5, 6] \<and> finished 7 5 4 loaded_recorder Eos s
     \<and> length (er_events loaded_recorder) = 6"
proof -
  have "map_sum id (\<lambda>(stop, s). (stop, gs_tokens s)) (generate_tokens counting_ops headless counting_tokenizer 7 [3] 5 4
      \<lparr>kv_layers = [], kv_capacity = 4\<rparr> loaded_recorder) = (Inr (Eos, [4, 5, 6]) :: (dlir_error + _))"
    by code_simp
  then obtain s where s: "generate_tokens counting_ops headless counting_tokenizer 7 [3] 5 4
      \<lparr>kv_layers = [], kv_capacity = 4\<rparr> loaded_recorder = Inr (Eos, s)" "gs_tokens s = [4, 5, 6]"
    by (cases "generate_tokens counting_ops headless counting_tokenizer 7 [3] 5 4
      \<lparr>kv_layers = [], kv_capacity = 4\<rparr> loaded_recorder") auto
  have "recorder_ok loaded_recorder" by (simp add: loaded_recorder_def emit_ok recorder_new_ok)
  moreover have "length (er_events loaded_recorder) = 6" by code_simp
  ultimately show ?thesis using generation_outcome [OF s(1)] s by auto
qed

end
