(* ===== verification/Launch.thy ===== *)
theory Launch
  imports MemoryPlan Pipeline TensorPlan
begin

text \<open>
  The decisions of the launcher (\<open>crates/cli/src/launch.rs\<close>): CPU amounts, the division of the
  requested resources over the ranks, the arguments of a rank's container, and inside the
  container the reading of its cgroup limits and their comparison with the request. Docker
  itself and the file system are outside: \<open>docker info\<close> is a record, the cgroup files are a map from
  paths to contents. An error that prints byte counts (floating-point display) carries the
  numbers instead of the text.
\<close>

section \<open>Text\<close>

text \<open>\<open>str::split\<close> at every character with a property: there is always at least one part.\<close>

fun split_by :: "(char \<Rightarrow> bool) \<Rightarrow> string \<Rightarrow> string list" where
  "split_by P [] = [[]]"
| "split_by P (c # cs) =
     (if P c then [] # split_by P cs
      else (case split_by P cs of p # ps \<Rightarrow> (c # p) # ps | [] \<Rightarrow> [[c]]))"

definition split_on :: "char \<Rightarrow> string \<Rightarrow> string list" where
  "split_on d = split_by (\<lambda>c. c = d)"

definition split_whitespace :: "string \<Rightarrow> string list" where
  "split_whitespace s = filter (\<lambda>p. p \<noteq> []) (split_by is_ascii_whitespace s)"

definition parse_usize :: "string \<Rightarrow> usize option" where
  "parse_usize s = Option.bind (parse_nat s) (\<lambda>n. if n < 2 ^ 64 then Some n else None)"

text \<open>\<open>str::parse::<i64>()\<close>.\<close>

definition parse_i64 :: "string \<Rightarrow> int option" where
  "parse_i64 s =
     (case s of
        c # cs \<Rightarrow>
          if c = CHR ''-''
          then (if cs \<noteq> [] \<and> list_all is_ascii_digit cs \<and> digits_value cs \<le> 2 ^ 63 then Some (- int (digits_value cs)) else None)
          else Option.bind (parse_nat s) (\<lambda>n. if n < 2 ^ 63 then Some (int n) else None)
      | [] \<Rightarrow> None)"

section \<open>CPU amounts\<close>

definition MIN_WORLD_SIZE :: usize where "MIN_WORLD_SIZE = 2"
definition MAX_WORLD_SIZE :: usize where "MAX_WORLD_SIZE = 64"
definition MIN_CPU_MILLIS :: u64 where "MIN_CPU_MILLIS = 100"
definition MIN_MEMORY_BYTES :: u64 where "MIN_MEMORY_BYTES = 128 * 1024 * 1024"
definition MIB :: u64 where "MIB = 1024 * 1024"
definition RUN_LABEL :: string where "RUN_LABEL = ''io.dlir.run_id''"
definition RENDEZVOUS_PORT :: nat where "RENDEZVOUS_PORT = 29500"
definition PEER_PORT :: nat where "PEER_PORT = 29501"

text \<open>\<open>CpuAmount { millis }\<close> is its number of thousandths.\<close>

type_synonym cpu_amount = u64

definition cpu_from_str :: "string \<Rightarrow> string + cpu_amount" where
  "cpu_from_str s =
     (let v = trim s in
      if v = [] \<or> hd v \<in> {CHR ''-'', CHR ''+''} then Inl ''CPU total must be a positive decimal''
      else
        let parts = split_on (CHR ''.'') v in
        rbind (ok_or ''CPU total must be a positive decimal'' (parse_u64 (hd parts))) (\<lambda>whole.
        let fraction = (case tl parts of f # _ \<Rightarrow> f | [] \<Rightarrow> []) in
        if length parts > 2 \<or> length fraction > 3 \<or> \<not> list_all is_ascii_digit fraction
        then Inl ''CPU total accepts at most three decimal places''
        else
          rbind (if fraction = [] then Inr 0
                 else rbind (ok_or ''CPU total must be a positive decimal'' (parse_u64 fraction)) (\<lambda>f.
                   Inr (f * 10 ^ (3 - length fraction)))) (\<lambda>fraction.
          rbind (ok_or ''CPU total is too large'' (Option.bind (checked_mul whole 1000) (\<lambda>m. checked_add m fraction))) (\<lambda>millis.
          if millis = 0 then Inl ''CPU total must be greater than zero'' else Inr millis))))"

text \<open>\<open>{:03}\<close> of a number below 1000, and \<open>trim_end_matches('0')\<close>.\<close>

definition pad3 :: "nat \<Rightarrow> string" where
  "pad3 n = [digit_char (n div 100), digit_char (n div 10 mod 10), digit_char (n mod 10)]"

definition trim_end_zeros :: "string \<Rightarrow> string" where
  "trim_end_zeros s = rev (dropWhile (\<lambda>c. c = CHR ''0'') (rev s))"

definition format_cpu :: "u64 \<Rightarrow> string" where
  "format_cpu millis =
     (let whole = millis div 1000; fraction = millis mod 1000 in
      if fraction = 0 then show_nat (unat whole)
      else trim_end_zeros (show_nat (unat whole) @ ''.'' @ pad3 (unat fraction)))"

section \<open>The division of resources\<close>

datatype launch_error =
    Bail string
  | MemoryRequestTooLarge u64 u64
  | RankMemoryTooSmall u64
  | MemoryLimitDiffers u64 u64
  | StagePlacementFailed usize u64 u64
  | LaunchRuntime dlir_error
  | LaunchPipeline pipeline_error
  | LaunchTensor tensor_parallel_error
  | LaunchCollectives collectives_error

type_synonym 'a lresult = "launch_error + 'a"

record docker_info_json =
  di_server_version :: string
  di_operating_system :: string
  di_architecture :: string
  di_cgroup_version :: string
  di_ncpu :: u64
  di_mem_total :: u64

record docker_engine_report =
  de_server_version :: string
  de_operating_system :: string
  de_architecture :: string
  de_cgroup_version :: string
  de_cpu_millis :: u64
  de_memory_bytes :: u64

definition saturating_mul :: "u64 \<Rightarrow> u64 \<Rightarrow> u64" where
  "saturating_mul a b = (if unat a * unat b < 2 ^ 64 then a * b else - 1)"

definition docker_engine_info :: "docker_info_json \<Rightarrow> docker_engine_report lresult" where
  "docker_engine_info info =
     (if di_ncpu info = 0 \<or> di_mem_total info = 0
      then Inl (Bail ''Docker Engine reported zero CPU or memory capacity'')
      else Inr \<lparr>de_server_version = di_server_version info, de_operating_system = di_operating_system info,
                de_architecture = di_architecture info, de_cgroup_version = di_cgroup_version info,
                de_cpu_millis = saturating_mul (di_ncpu info) 1000, de_memory_bytes = di_mem_total info\<rparr>)"

record resource_plan =
  rp_requested_cpu_millis :: u64
  rp_requested_memory_bytes :: u64
  rp_per_rank_cpu_millis :: u64
  rp_per_rank_memory_bytes :: u64
  rp_allocated_cpu_millis :: u64
  rp_allocated_memory_bytes :: u64
  rp_unused_cpu_millis :: u64
  rp_unused_memory_bytes :: u64
  rp_engine_cpu_headroom_millis :: u64
  rp_engine_memory_headroom_bytes :: u64

definition validate_world_size :: "usize \<Rightarrow> unit lresult" where
  "validate_world_size n =
     (if \<not> (MIN_WORLD_SIZE \<le> n \<and> n \<le> MAX_WORLD_SIZE)
      then Inl (Bail (''nproc must be between '' @ show_nat MIN_WORLD_SIZE @ '' and '' @ show_nat MAX_WORLD_SIZE
                      @ '', got '' @ show_nat n))
      else Inr ())"

definition plan_resources ::
  "usize \<Rightarrow> cpu_amount \<Rightarrow> u64 \<Rightarrow> docker_engine_report \<Rightarrow> resource_plan lresult" where
  "plan_resources n total_cpus total_memory engine =
     rbind (validate_world_size n) (\<lambda>_.
     if total_cpus > de_cpu_millis engine
     then Inl (Bail (''requested '' @ format_cpu total_cpus @ '' CPUs but Docker Engine exposes ''
                     @ format_cpu (de_cpu_millis engine)))
     else if total_memory > de_memory_bytes engine
     then Inl (MemoryRequestTooLarge total_memory (de_memory_bytes engine))
     else
       let world = of_nat n;
           per_rank_cpu = total_cpus div world;
           per_rank_memory = (total_memory div world div MIB) * MIB in
       if per_rank_cpu < MIN_CPU_MILLIS
       then Inl (Bail (''each rank requires at least '' @ format_cpu MIN_CPU_MILLIS @ '' CPU after division''))
       else if per_rank_memory < MIN_MEMORY_BYTES
       then Inl (RankMemoryTooSmall MIN_MEMORY_BYTES)
       else
         let allocated_cpu = per_rank_cpu * world; allocated_memory = per_rank_memory * world in
         Inr \<lparr>rp_requested_cpu_millis = total_cpus, rp_requested_memory_bytes = total_memory,
              rp_per_rank_cpu_millis = per_rank_cpu, rp_per_rank_memory_bytes = per_rank_memory,
              rp_allocated_cpu_millis = allocated_cpu, rp_allocated_memory_bytes = allocated_memory,
              rp_unused_cpu_millis = total_cpus - allocated_cpu, rp_unused_memory_bytes = total_memory - allocated_memory,
              rp_engine_cpu_headroom_millis = de_cpu_millis engine - allocated_cpu,
              rp_engine_memory_headroom_bytes = de_memory_bytes engine - allocated_memory\<rparr>)"

definition validate_run_id :: "string \<Rightarrow> unit lresult" where
  "validate_run_id run_id =
     (if run_id = [] \<or> length run_id > 48 \<or>
         \<not> list_all (\<lambda>c. is_ascii_alphanumeric c \<or> c = CHR ''-'' \<or> c = CHR ''_'') run_id
      then Inl (Bail (''run ID must contain 1-48 ASCII letters, digits, '' @ [CHR 0x27, CHR ''-'', CHR 0x27] @ '' or ''
                      @ [CHR 0x27, CHR ''_'', CHR 0x27]))
      else Inr ())"

section \<open>Container arguments\<close>

text \<open>The options every workload gives to \<open>docker run\<close>, and those it gives to \<open>rank\<close> (timeouts in seconds).\<close>

definition docker_options :: "string \<Rightarrow> string \<Rightarrow> string \<Rightarrow> usize \<Rightarrow> resource_plan \<Rightarrow> string list" where
  "docker_options network name run_id rank res =
     [''run'', ''--detach'', ''--name'', name, ''--network'', network, ''--network-alias'', ''rank-'' @ show_nat rank,
      ''--label'', RUN_LABEL @ ''='' @ run_id, ''--cpus'', format_cpu (rp_per_rank_cpu_millis res),
      ''--memory'', show_nat (unat (rp_per_rank_memory_bytes res)) @ ''b'',
      ''--memory-swap'', show_nat (unat (rp_per_rank_memory_bytes res)) @ ''b'']"

definition rank_options :: "string \<Rightarrow> usize \<Rightarrow> usize \<Rightarrow> resource_plan \<Rightarrow> nat \<Rightarrow> nat \<Rightarrow> string list" where
  "rank_options run_id rank n res startup operation =
     [''--rank'', show_nat rank, ''--world-size'', show_nat n, ''--run-id'', run_id,
      ''--rendezvous-addr'', ''rank-0:'' @ show_nat RENDEZVOUS_PORT,
      ''--listen-addr'', ''0.0.0.0:'' @ show_nat PEER_PORT,
      ''--advertise-addr'', ''rank-'' @ show_nat rank @ '':'' @ show_nat PEER_PORT,
      ''--startup-timeout-seconds'', show_nat startup, ''--operation-timeout-seconds'', show_nat operation,
      ''--expected-cpu-millis'', show_nat (unat (rp_per_rank_cpu_millis res)),
      ''--expected-memory-bytes'', show_nat (unat (rp_per_rank_memory_bytes res))]
     @ (if rank = 0 then [''--rendezvous-bind-addr'', ''0.0.0.0:'' @ show_nat RENDEZVOUS_PORT] else [])"

definition container_arguments ::
  "string \<Rightarrow> string \<Rightarrow> string \<Rightarrow> string \<Rightarrow> usize \<Rightarrow> usize \<Rightarrow> resource_plan \<Rightarrow> nat \<Rightarrow> nat \<Rightarrow> string list" where
  "container_arguments img network name run_id rank n res startup operation =
     docker_options network name run_id rank res @ [img, ''rank''] @ rank_options run_id rank n res startup operation"

text \<open>Read-only bind mounts, each given as a pair of source and target.\<close>

definition mount_options :: "(string \<times> string) list \<Rightarrow> string list" where
  "mount_options mounts =
     concat (map (\<lambda>(src, dst). [''--mount'', ''type=bind,source='' @ src @ '',target='' @ dst @ '',readonly'']) mounts)"

record artifact_mounts =
  am_manifest :: string
  am_checkpoint :: string
  am_tokenizer :: string
  am_config :: string
  am_tokenizer_config :: string

definition CONTAINER_MANIFEST :: string where "CONTAINER_MANIFEST = ''/opt/dlir/request/pipeline.json''"
definition CONTAINER_CHECKPOINT :: string where "CONTAINER_CHECKPOINT = ''/opt/dlir/artifacts/model.safetensors''"
definition CONTAINER_TOKENIZER :: string where "CONTAINER_TOKENIZER = ''/opt/dlir/artifacts/tokenizer.json''"
definition CONTAINER_CONFIG :: string where "CONTAINER_CONFIG = ''/opt/dlir/artifacts/config.json''"
definition CONTAINER_TOKENIZER_CONFIG :: string where "CONTAINER_TOKENIZER_CONFIG = ''/opt/dlir/artifacts/tokenizer_config.json''"

definition pipeline_container_arguments ::
  "string \<Rightarrow> string \<Rightarrow> string \<Rightarrow> string \<Rightarrow> usize \<Rightarrow> usize \<Rightarrow> resource_plan \<Rightarrow> nat \<Rightarrow> nat \<Rightarrow> artifact_mounts \<Rightarrow> string list" where
  "pipeline_container_arguments img network name run_id rank n res startup operation mounts =
     docker_options network name run_id rank res
     @ mount_options [(am_manifest mounts, CONTAINER_MANIFEST), (am_checkpoint mounts, CONTAINER_CHECKPOINT),
         (am_tokenizer mounts, CONTAINER_TOKENIZER), (am_config mounts, CONTAINER_CONFIG),
         (am_tokenizer_config mounts, CONTAINER_TOKENIZER_CONFIG)]
     @ [img, ''rank'', ''--workload'', ''pipeline'', ''--pipeline-manifest'', CONTAINER_MANIFEST]
     @ rank_options run_id rank n res startup operation"

definition TENSOR_CONTAINER_MANIFEST :: string where "TENSOR_CONTAINER_MANIFEST = ''/opt/dlir/request/tensor.json''"

record tensor_artifact_mounts =
  tam_manifest :: string
  tam_checkpoint :: string
  tam_tokenizer :: string

definition tensor_container_arguments ::
  "string \<Rightarrow> string \<Rightarrow> string \<Rightarrow> string \<Rightarrow> usize \<Rightarrow> usize \<Rightarrow> resource_plan \<Rightarrow> nat \<Rightarrow> nat \<Rightarrow> tensor_artifact_mounts \<Rightarrow> string list" where
  "tensor_container_arguments img network name run_id rank n res startup operation mounts =
     docker_options network name run_id rank res
     @ mount_options [(tam_manifest mounts, TENSOR_CONTAINER_MANIFEST), (tam_checkpoint mounts, CONTAINER_CHECKPOINT),
         (tam_tokenizer mounts, CONTAINER_TOKENIZER)]
     @ [img, ''rank'', ''--workload'', ''tensor'', ''--tensor-manifest'', TENSOR_CONTAINER_MANIFEST]
     @ rank_options run_id rank n res startup operation"

section \<open>Inside the container\<close>

record resource_observation =
  ob_cpu_millis :: "u64 option"
  ob_memory_limit_bytes :: "u64 option"
  ob_memory_current_bytes :: "u64 option"
  ob_cpuset_cpus :: "string option"
  ob_cpuset_cpu_count :: "usize option"
  ob_cgroup_version :: "string option"

datatype resource_verification = Passed | NotEvaluated

definition parse_cpu_max :: "string \<Rightarrow> u64 option" where
  "parse_cpu_max s =
     (case split_whitespace s of
        quota # rest \<Rightarrow>
          (case rest of
             p # extra \<Rightarrow>
               Option.bind (parse_u64 p) (\<lambda>period.
                 if quota = ''max'' \<or> period = 0 \<or> extra \<noteq> [] then None
                 else Option.bind (parse_u64 quota) (\<lambda>q. Option.bind (checked_mul q 1000) (\<lambda>m. Some (m div period))))
           | [] \<Rightarrow> None)
      | [] \<Rightarrow> None)"

definition parse_cpu_v1 :: "string \<Rightarrow> string \<Rightarrow> u64 option" where
  "parse_cpu_v1 quota period =
     Option.bind (parse_i64 (trim quota)) (\<lambda>q.
     Option.bind (parse_u64 (trim period)) (\<lambda>p.
       if q < 0 \<or> p = 0 then None
       else Option.bind (checked_mul (of_int q) 1000) (\<lambda>m. Some (m div p))))"

definition parse_memory_limit :: "string \<Rightarrow> u64 option" where
  "parse_memory_limit s = (let v = trim s in if v = ''max'' then None else parse_u64 v)"

text \<open>The width of one group is computed with plain addition, which wraps in a release build.\<close>

fun cpuset_groups :: "string list \<Rightarrow> usize \<Rightarrow> usize option" where
  "cpuset_groups [] count = Some count"
| "cpuset_groups (g # gs) count =
     (let bounds = split_on (CHR ''-'') (trim g) in
      Option.bind (parse_usize (hd bounds)) (\<lambda>first.
      Option.bind (case tl bounds of b # _ \<Rightarrow> parse_usize b | [] \<Rightarrow> Some first) (\<lambda>last.
        if length bounds > 2 \<or> last < first then None
        else Option.bind (usize_checked_add count ((last - first + 1) mod 2 ^ 64)) (cpuset_groups gs))))"

definition parse_cpuset_count :: "string \<Rightarrow> usize option" where
  "parse_cpuset_count s = (if trim s = [] then None else cpuset_groups (split_on (CHR '','') s) 0)"

text \<open>\<open>read_optional\<close>: the trimmed contents of a readable file.\<close>

definition read_optional :: "(string \<Rightarrow> string option) \<Rightarrow> string \<Rightarrow> string option" where
  "read_optional files path = map_option trim (files path)"

definition or_else :: "'a option \<Rightarrow> 'a option \<Rightarrow> 'a option" where
  "or_else a b = (case a of None \<Rightarrow> b | Some _ \<Rightarrow> a)"

definition observe_cgroup_resources :: "(string \<Rightarrow> string option) \<Rightarrow> resource_observation" where
  "observe_cgroup_resources files =
     (let rd = read_optional files;
          v2_cpu = rd ''/sys/fs/cgroup/cpu.max''; v2_memory = rd ''/sys/fs/cgroup/memory.max'' in
      if v2_cpu \<noteq> None \<or> v2_memory \<noteq> None
      then
        let cpuset = or_else (rd ''/sys/fs/cgroup/cpuset.cpus.effective'') (rd ''/sys/fs/cgroup/cpuset.cpus'') in
        \<lparr>ob_cpu_millis = Option.bind v2_cpu parse_cpu_max, ob_memory_limit_bytes = Option.bind v2_memory parse_memory_limit,
         ob_memory_current_bytes = Option.bind (rd ''/sys/fs/cgroup/memory.current'') parse_memory_limit,
         ob_cpuset_cpus = cpuset, ob_cpuset_cpu_count = Option.bind cpuset parse_cpuset_count,
         ob_cgroup_version = Some ''v2''\<rparr>
      else
        let quota = rd ''/sys/fs/cgroup/cpu/cpu.cfs_quota_us''; period = rd ''/sys/fs/cgroup/cpu/cpu.cfs_period_us'';
            memory = rd ''/sys/fs/cgroup/memory/memory.limit_in_bytes''; cpuset = rd ''/sys/fs/cgroup/cpuset/cpuset.cpus'';
            present = (quota \<noteq> None \<or> memory \<noteq> None \<or> cpuset \<noteq> None) in
        \<lparr>ob_cpu_millis = Option.bind quota (\<lambda>q. Option.bind period (\<lambda>p. parse_cpu_v1 q p)),
         ob_memory_limit_bytes = Option.bind memory parse_memory_limit,
         ob_memory_current_bytes = Option.bind (rd ''/sys/fs/cgroup/memory/memory.usage_in_bytes'') parse_memory_limit,
         ob_cpuset_cpus = cpuset, ob_cpuset_cpu_count = Option.bind cpuset parse_cpuset_count,
         ob_cgroup_version = (if present then Some ''v1'' else None)\<rparr>)"

definition abs_diff :: "u64 \<Rightarrow> u64 \<Rightarrow> u64" where
  "abs_diff a b = (if a < b then b - a else a - b)"

definition verify_resources ::
  "resource_observation \<Rightarrow> u64 option \<Rightarrow> u64 option \<Rightarrow> resource_verification lresult" where
  "verify_resources seen expected_cpu expected_memory =
     (case (expected_cpu, expected_memory) of
        (None, None) \<Rightarrow> Inr NotEvaluated
      | (Some cpu, Some memory) \<Rightarrow>
          rbind (ok_or (Bail ''container cgroup does not expose an enforced CPU quota'') (ob_cpu_millis seen)) (\<lambda>actual_cpu.
          rbind (ok_or (Bail ''container cgroup does not expose an enforced memory maximum'') (ob_memory_limit_bytes seen))
            (\<lambda>actual_memory.
          if abs_diff actual_cpu cpu > 1
          then Inl (Bail (''cgroup CPU quota is '' @ format_cpu actual_cpu @ '' but launcher requested '' @ format_cpu cpu))
          else if actual_memory \<noteq> memory then Inl (MemoryLimitDiffers actual_memory memory)
          else Inr Passed))
      | _ \<Rightarrow> Inl (Bail ''expected CPU and memory limits must be supplied together''))"

definition resource_snapshot_of :: "resource_observation \<Rightarrow> resource_snapshot" where
  "resource_snapshot_of o' =
     \<lparr>rsn_cpu_millis = ob_cpu_millis o', rsn_memory_current_bytes = ob_memory_current_bytes o',
      rsn_memory_limit_bytes = ob_memory_limit_bytes o', rsn_cpuset_cpus = ob_cpuset_cpus o',
      rsn_cgroup_version = ob_cgroup_version o'\<rparr>"

end
