(* ===== verification/Manifests.thy ===== *)
theory Manifests
  imports Launch Artifacts TensorRunner
begin

text \<open>
  How the launcher prepares a distributed generation (\<open>run_pipeline\<close> of \<open>crates/cli/src/pipeline.rs\<close>
  and \<open>run_tensor\<close> of \<open>crates/cli/src/tensor.rs\<close>, up to the manifest they write for the ranks). What
  they fetch from outside is the record \<open>launch_env\<close>: the metadata files of the model, the tokenizer,
  the list of tensors in the checkpoint, the Docker engine, and the fresh identifiers. Progress
  output and the terminal check of \<open>--tui\<close> are left out.
\<close>

section \<open>Requests and environment\<close>

text \<open>Of a request, the fields that decide the plan; image, build context, timeouts and output are for Docker and the screen.\<close>

record pipeline_launch_request =
  plr_model :: supported_model_id
  plr_dtype :: plan_dtype
  plr_prompt :: string
  plr_max_new_tokens :: usize
  plr_nproc :: usize
  plr_total_cpus :: cpu_amount
  plr_total_memory :: string
  plr_run_id :: "string option"

record tensor_launch_request =
  tlr_model :: supported_model_id
  tlr_tp :: usize
  tlr_dtype :: plan_dtype
  tlr_prompt :: string
  tlr_max_new_tokens :: usize
  tlr_total_cpus :: cpu_amount
  tlr_total_memory :: string
  tlr_all_reduce :: all_reduce_algorithm
  tlr_run_id :: "string option"

record 'd launch_env =
  le_default_run_id :: string
  le_request_id :: string
  le_hub_config :: "hub_llama_config dresult"
  le_chat_template :: "string option dresult"
  le_tokenizer :: "string + 'd tokenizer"
  le_docker_info :: "docker_info_json lresult"
  le_checkpoint_tensors :: "tensor_metadata dresult"

section \<open>Shared steps\<close>

text \<open>Metadata, tokenizer, rendered and encoded prompt.\<close>

definition prompt_ids :: "'d launch_env \<Rightarrow> model_spec \<Rightarrow> string \<Rightarrow> u32 list lresult" where
  "prompt_ids env s prompt =
     rbind (map_err LaunchRuntime (validate_metadata s (le_hub_config env) (le_chat_template env))) (\<lambda>_.
     rbind (map_err (\<lambda>e. Bail (''tokenizer error: '' @ e)) (le_tokenizer env)) (\<lambda>tok.
     rbind (map_err LaunchRuntime (render_prompt (ms_prompt_template s) prompt)) (\<lambda>rendered.
     rbind (map_err (\<lambda>e. Bail (''tokenizer error: '' @ e)) (tok_encode tok rendered)) (\<lambda>ids.
     if ids = [] \<or> length ids \<ge> max_position_embeddings (config s)
     then Inl (Bail (''prompt has '' @ show_nat (length ids) @ '' tokens but model context is ''
                     @ show_nat (max_position_embeddings (config s))))
     else Inr ids))))"

definition effective_tokens :: "model_spec \<Rightarrow> u32 list \<Rightarrow> usize \<Rightarrow> usize" where
  "effective_tokens s ids requested = min requested (max_position_embeddings (config s) - length ids)"

definition launch_resources :: "'d launch_env \<Rightarrow> usize \<Rightarrow> cpu_amount \<Rightarrow> u64 \<Rightarrow> resource_plan lresult" where
  "launch_resources env n cpus memory =
     rbind (le_docker_info env) (\<lambda>info. rbind (docker_engine_info info) (plan_resources n cpus memory))"

text \<open>\<open>validate_checkpoint\<close>: the tensors of the mapped file, collected in a \<open>BTreeMap\<close>.\<close>

definition validate_checkpoint :: "model_spec \<Rightarrow> tensor_metadata dresult \<Rightarrow> unit dresult" where
  "validate_checkpoint s tensors = rbind tensors (\<lambda>ts. validate_tensor_metadata s (bt_collect ts))"

section \<open>The manifests\<close>

definition plan_pipeline_launch :: "'d launch_env \<Rightarrow> pipeline_launch_request \<Rightarrow> pipeline_manifest lresult" where
  "plan_pipeline_launch env req =
     (if plr_max_new_tokens req = 0 \<or> trim (plr_prompt req) = []
      then Inl (Bail ''pipeline prompt must be non-empty and max-new-tokens must be at least one'')
      else if plr_dtype req \<noteq> PlanF32 then Inl (Bail ''v0.4 pipeline execution supports only CPU/F32'')
      else let s = spec (plr_model req) in
      rbind (map_err LaunchRuntime (validate_cpu_dtype s (plr_dtype req))) (\<lambda>_.
      rbind (map_err LaunchPipeline (balanced s (plr_nproc req))) (\<lambda>part.
      rbind (map_err LaunchRuntime (parse_byte_size (plr_total_memory req))) (\<lambda>total_memory.
      let run_id = (case plr_run_id req of Some i \<Rightarrow> i | None \<Rightarrow> le_default_run_id env) in
      rbind (validate_run_id run_id) (\<lambda>_.
      rbind (prompt_ids env s (plr_prompt req)) (\<lambda>ids.
      let effective = effective_tokens s ids (plr_max_new_tokens req); cap = length ids + effective in
      rbind (launch_resources env (plr_nproc req) (plr_total_cpus req) total_memory) (\<lambda>res.
      rbind (map_err LaunchPipeline (collect_results (map (\<lambda>stage. stage_memory_plan_for_stage s stage (plr_dtype req) cap
               (rp_per_rank_memory_bytes res)) (stages part)))) (\<lambda>plans.
      case find (\<lambda>p. smp_placement p = DoesNotFit) plans of
        Some f \<Rightarrow> Inl (StagePlacementFailed (smp_rank f) (smp_persistent_bytes f) (smp_budget_bytes f))
      | None \<Rightarrow>
          rbind (map_err LaunchRuntime (validate_checkpoint s (le_checkpoint_tensors env))) (\<lambda>_.
          Inr \<lparr>pm_schema_version = 1, pm_run_id = run_id, pm_request_id = le_request_id env, pm_model = plr_model req,
               pm_dtype = plr_dtype req, pm_prompt_token_ids = ids, pm_prompt_characters = length (plr_prompt req),
               pm_requested_max_new_tokens = plr_max_new_tokens req, pm_effective_max_new_tokens = effective,
               pm_context_capacity = cap, pm_checkpoint_path = CONTAINER_CHECKPOINT,
               pm_tokenizer_path = CONTAINER_TOKENIZER, pm_partition = part, pm_memory_plans = plans,
               pm_expected_cpu_millis = rp_per_rank_cpu_millis res,
               pm_expected_memory_bytes = rp_per_rank_memory_bytes res\<rparr>)))))))))"

definition plan_tensor_launch :: "'d launch_env \<Rightarrow> tensor_launch_request \<Rightarrow> tensor_parallel_manifest lresult" where
  "plan_tensor_launch env req =
     (if trim (tlr_prompt req) = [] \<or> tlr_max_new_tokens req = 0
      then Inl (Bail ''tensor prompt must be non-empty and max-new-tokens must be at least one'')
      else if tlr_dtype req \<noteq> PlanF32 then Inl (Bail ''v0.5 tensor execution supports only CPU/F32'')
      else let s = spec (tlr_model req) in
      rbind (map_err LaunchRuntime (validate_cpu_dtype s (tlr_dtype req))) (\<lambda>_.
      rbind (map_err LaunchRuntime (parse_byte_size (tlr_total_memory req))) (\<lambda>total_memory.
      let run_id = (case tlr_run_id req of Some i \<Rightarrow> i | None \<Rightarrow> le_default_run_id env) in
      rbind (validate_run_id run_id) (\<lambda>_.
      rbind (prompt_ids env s (tlr_prompt req)) (\<lambda>ids.
      let effective = effective_tokens s ids (tlr_max_new_tokens req); cap = length ids + effective in
      rbind (launch_resources env (tlr_tp req) (tlr_total_cpus req) total_memory) (\<lambda>res.
      rbind (map_err LaunchTensor (tensor_parallel_plan (tlr_model req) (tlr_tp req) cap (Some (rp_per_rank_memory_bytes res)))) (\<lambda>part.
      rbind (map_err LaunchTensor (require_placement part)) (\<lambda>_.
      rbind (map_err LaunchRuntime (validate_checkpoint s (le_checkpoint_tensors env))) (\<lambda>_.
      Inr \<lparr>tman_schema_version = 1, tman_run_id = run_id, tman_request_id = le_request_id env, tman_model = tlr_model req,
           tman_dtype = tlr_dtype req, tman_tensor_parallel = tlr_tp req, tman_all_reduce = tlr_all_reduce req,
           tman_prompt_token_ids = ids, tman_requested_max_new_tokens = tlr_max_new_tokens req,
           tman_effective_max_new_tokens = effective, tman_context_capacity = cap,
           tman_checkpoint_path = CONTAINER_CHECKPOINT, tman_tokenizer_path = CONTAINER_TOKENIZER,
           tman_partition = part, tman_expected_cpu_millis = rp_per_rank_cpu_millis res,
           tman_expected_memory_bytes = rp_per_rank_memory_bytes res\<rparr>)))))))))"
end
