(* ===== verification/LaunchProofs.thy ===== *)
theory LaunchProofs
  imports Launch
begin

text \<open>
  The launcher's resources: what is divided, printed, enforced and read back is the same.
\<close>

section \<open>Printing and reading CPU amounts\<close>

lemma split_by_none: "list_all (\<lambda>c. \<not> P c) s \<Longrightarrow> split_by P s = [s]"
  by (induction s) auto

lemma split_by_append: "list_all (\<lambda>c. \<not> P c) s \<Longrightarrow> P d \<Longrightarrow> split_by P (s @ d # rest) = s # split_by P rest"
  by (induction s) auto

lemma digit_not: "is_ascii_digit c \<Longrightarrow> c \<noteq> CHR ''.'' \<and> c \<noteq> CHR ''-'' \<and> c \<noteq> CHR ''+'' \<and> c \<noteq> CHR '','' \<and> \<not> is_ascii_whitespace c"
  by (auto simp: is_ascii_digit_def is_ascii_whitespace_def Let_def)

lemma digits_no_dot: "list_all is_ascii_digit s \<Longrightarrow> list_all (\<lambda>c. c \<noteq> CHR ''.'') s"
  using digit_not by (fastforce simp: list_all_iff)

lemma digits_no_space: "list_all is_ascii_digit s \<Longrightarrow> list_all (\<lambda>c. \<not> is_ascii_whitespace c) s"
  using digit_not by (fastforce simp: list_all_iff)

lemma digit_char_zero: "d < 10 \<Longrightarrow> digit_char d = CHR ''0'' \<longleftrightarrow> d = 0"
proof -
  assume d: "d < 10"
  have "digit_char 0 = CHR ''0''" by code_simp
  moreover have "digit_value (CHR ''0'') = 0" by code_simp
  ultimately show ?thesis using digit_char_props(2) [OF d] by auto
qed

text \<open>The fraction that is printed: digits without trailing zeros, of the right value.\<close>

lemma trimmed_fraction:
  assumes "0 < f" "f < 1000"
  shows "\<exists>ds. trim_end_zeros (w @ ''.'' @ pad3 f) = w @ CHR ''.'' # ds \<and> ds \<noteq> [] \<and> length ds \<le> 3 \<and>
     list_all is_ascii_digit ds \<and> digits_value ds * 10 ^ (3 - length ds) = f"
proof -
  define a b c where abc: "a = f div 100" "b = f div 10 mod 10" "c = f mod 10"
  have d: "a < 10" "b < 10" "c < 10" using assms by (auto simp: abc)
  have val: "100 * a + 10 * b + c = f"
  proof -
    define q where "q = f div 10"
    have "10 * q + c = f" "10 * (q div 10) + b = q" by (simp_all add: q_def abc)
    moreover have "a = q div 10" using div_mult2_eq [of f 10 10] by (simp add: q_def abc)
    ultimately show ?thesis by linarith
  qed
  have pad: "pad3 f = [digit_char a, digit_char b, digit_char c]" by (simp add: pad3_def abc)
  note z = digit_char_zero [OF d(1)] digit_char_zero [OF d(2)] digit_char_zero [OF d(3)]
  note p = digit_char_props [OF d(1)] digit_char_props [OF d(2)] digit_char_props [OF d(3)]
  consider "c \<noteq> 0" | "c = 0" "b \<noteq> 0" | "c = 0" "b = 0" "a \<noteq> 0" using val assms(1) by fastforce
  then show ?thesis
  proof cases
    case 1
    then have "trim_end_zeros (w @ ''.'' @ pad3 f) = w @ CHR ''.'' # pad3 f" using z by (simp add: trim_end_zeros_def pad)
    then show ?thesis using p val by (intro exI [of _ "pad3 f"]) (simp add: pad digits_value_def)
  next
    case 2
    then have "trim_end_zeros (w @ ''.'' @ pad3 f) = w @ CHR ''.'' # [digit_char a, digit_char b]"
      using z by (simp add: trim_end_zeros_def pad)
    then show ?thesis using p val 2 by (intro exI [of _ "[digit_char a, digit_char b]"]) (simp add: digits_value_def)
  next
    case 3
    then have "trim_end_zeros (w @ ''.'' @ pad3 f) = w @ CHR ''.'' # [digit_char a]"
      using z by (simp add: trim_end_zeros_def pad)
    then show ?thesis using p val 3 by (intro exI [of _ "[digit_char a]"]) (simp add: digits_value_def)
  qed
qed

lemma hd_digits: "s \<noteq> [] \<Longrightarrow> list_all is_ascii_digit s \<Longrightarrow> is_ascii_digit (hd s)"
  by (cases s) auto

lemma last_digits: "s \<noteq> [] \<Longrightarrow> list_all is_ascii_digit s \<Longrightarrow> is_ascii_digit (last s)"
  by (auto simp: list_all_iff)

lemma parse_nat_digits: "s \<noteq> [] \<Longrightarrow> list_all is_ascii_digit s \<Longrightarrow> parse_nat s = Some (digits_value s)"
  using digit_not by (cases s) (auto simp: parse_nat_def Let_def)

lemma digits_value_bound: "list_all is_ascii_digit s \<Longrightarrow> digits_value s < 10 ^ length s"
proof (induction s rule: rev_induct)
  case (snoc c s)
  have "digit_value c < 10" using snoc.prems by (auto simp: digit_value_def is_ascii_digit_def Let_def)
  with snoc show ?case by (auto simp: digits_value_snoc)
qed (simp add: digits_value_def)

lemma parse_u64_digits_short: "s \<noteq> [] \<Longrightarrow> list_all is_ascii_digit s \<Longrightarrow> length s \<le> 3 \<Longrightarrow> parse_u64 s = Some (of_nat (digits_value s))"
proof -
  assume s: "s \<noteq> []" "list_all is_ascii_digit s" "length s \<le> 3"
  have "(10 :: nat) ^ length s \<le> 10 ^ 3" using s(3) by (intro power_increasing) simp_all
  then have "digits_value s < 1000" using digits_value_bound [OF s(2)] by simp
  then show ?thesis using parse_nat_digits [OF s(1,2)] by (simp add: parse_u64_def u64_try_from_def)
qed

lemma unat_1000: "unat (1000 :: u64) = 1000"
  by simp

theorem cpu_amount_round_trip:
  assumes "m \<noteq> 0"
  shows "cpu_from_str (format_cpu m) = Inr m"
proof -
  let ?w = "unat m div 1000" and ?f = "unat m mod 1000"
  let ?s = "show_nat ?w"
  have parts: "unat (m div 1000) = ?w" "unat (m mod 1000) = ?f" by (simp_all add: unat_div_distrib unat_mod_distrib)
  have big: "?w < 2 ^ 64" "1000 * ?w + ?f = unat m" using unat_u64_bound [of m] by auto
  note digs = show_nat_digits [of ?w]
  have hd_ok: "hd ?s \<noteq> CHR ''-''" "hd ?s \<noteq> CHR ''+''" "\<not> is_ascii_whitespace (hd ?s)"
    using digit_not [OF hd_digits [OF _ digs]] by simp_all
  have whole: "parse_u64 ?s = Some (of_nat ?w)" using parse_u64_show big(1) .
  have total: "Option.bind (checked_mul (of_nat ?w) 1000) (\<lambda>v. checked_add v (of_nat f)) = Some m" if "f = ?f" for f
  proof -
    have w: "unat (of_nat (1000 * ?w) :: u64) = 1000 * ?w" "unat (of_nat ?w :: u64) = ?w" "unat (of_nat ?f :: u64) = ?f"
      using big unat_u64_bound [of m] by (intro unat_of_nat_u64; linarith)+
    have m1: "checked_mul (of_nat ?w :: u64) 1000 = Some (of_nat (1000 * ?w))"
      unfolding checked_mul_Some w unat_1000 by (rule mult.commute)
    have "checked_add (of_nat (1000 * ?w)) (of_nat ?f) = Some m"
      unfolding checked_add_Some w using big(2) by simp
    with m1 that show ?thesis by simp
  qed
  show ?thesis
  proof (cases "?f = 0")
    case True
    then have fmt: "format_cpu m = ?s" using parts by (simp add: format_cpu_def unat_eq_zero [symmetric] Let_def del: unat_eq_zero)
    have "trim ?s = ?s" using hd_ok digit_not [OF last_digits [OF _ digs]] by (intro trim_id) simp_all
    moreover have "split_on (CHR ''.'') ?s = [?s]" unfolding split_on_def using digits_no_dot [OF digs] by (rule split_by_none)
    ultimately show ?thesis
      using assms hd_ok whole total [of 0] True by (simp add: cpu_from_str_def fmt Let_def)
  next
    case False
    then have f: "0 < ?f" "?f < 1000" by simp_all
    obtain ds where ds: "trim_end_zeros (?s @ ''.'' @ pad3 ?f) = ?s @ CHR ''.'' # ds" "ds \<noteq> []" "length ds \<le> 3"
      "list_all is_ascii_digit ds" "digits_value ds * 10 ^ (3 - length ds) = ?f"
      using trimmed_fraction [OF f, of ?s] by blast
    have nz: "m mod 1000 \<noteq> 0" using False parts(2) by (metis unat_0)
    have fmt: "format_cpu m = ?s @ CHR ''.'' # ds"
      using nz ds(1) unfolding format_cpu_def Let_def parts by simp
    have "trim (?s @ CHR ''.'' # ds) = ?s @ CHR ''.'' # ds"
      using hd_ok digit_not [OF last_digits [OF ds(2,4)]] ds(2) by (intro trim_id) simp_all
    moreover have "split_on (CHR ''.'') (?s @ CHR ''.'' # ds) = [?s, ds]"
      unfolding split_on_def using split_by_append [OF digits_no_dot [OF digs]] split_by_none [OF digits_no_dot [OF ds(4)]] by simp
    moreover have "of_nat (digits_value ds) * 10 ^ (3 - length ds) = (of_nat ?f :: u64)"
      unfolding ds(5) [symmetric] by simp
    ultimately show ?thesis
      using assms hd_ok whole total [OF refl] ds(2-4) parse_u64_digits_short [OF ds(2,4,3)]
      by (simp add: cpu_from_str_def fmt Let_def)
  qed
qed


section \<open>The division\<close>

lemma plan_resources_Inr:
  "plan_resources n cpus memory engine = Inr p \<longleftrightarrow>
     2 \<le> n \<and> n \<le> 64 \<and> cpus \<le> de_cpu_millis engine \<and> memory \<le> de_memory_bytes engine \<and>
     100 * n \<le> unat cpus \<and> 134217728 * n \<le> unat memory \<and>
     p = (let world = of_nat n; c = cpus div world; m = (memory div world div MIB) * MIB in
        \<lparr>rp_requested_cpu_millis = cpus, rp_requested_memory_bytes = memory, rp_per_rank_cpu_millis = c,
         rp_per_rank_memory_bytes = m, rp_allocated_cpu_millis = c * world, rp_allocated_memory_bytes = m * world,
         rp_unused_cpu_millis = cpus - c * world, rp_unused_memory_bytes = memory - m * world,
         rp_engine_cpu_headroom_millis = de_cpu_millis engine - c * world,
         rp_engine_memory_headroom_bytes = de_memory_bytes engine - m * world\<rparr>)"
proof (cases "2 \<le> n \<and> n \<le> 64")
  case n: True
  let ?w = "of_nat n :: u64"
  have w: "unat ?w = n" using n by (intro unat_of_nat_u64) simp
  have mib: "unat MIB = 1048576" "unat MIN_MEMORY_BYTES = 134217728" "unat MIN_CPU_MILLIS = 100"
    by (simp_all add: MIB_def MIN_MEMORY_BYTES_def MIN_CPU_MILLIS_def)
  have mem: "unat ((memory div ?w div MIB) * MIB) = unat memory div n div 1048576 * 1048576"
  proof -
    have "unat memory div n div 1048576 * 1048576 \<le> unat memory div n" by (rule div_times_less_eq_dividend)
    also have "\<dots> < 2 ^ 64" using unat_u64_bound [of memory] by (simp add: div_less_dividend less_le_trans le_less_trans [OF div_le_dividend])
    finally show ?thesis
      by (simp add: unat_word_ariths unat_div_distrib w mib)
  qed
  have c: "(cpus div ?w < MIN_CPU_MILLIS) \<longleftrightarrow> \<not> 100 * n \<le> unat cpus"
    using n by (simp add: word_less_nat_alt unat_div_distrib w mib not_less less_eq_div_iff_mult_less_eq flip: not_le)
  have "(134217728 \<le> unat memory div n div 1048576 * 1048576) \<longleftrightarrow> (128 \<le> unat memory div n div 1048576)" by auto
  also have "\<dots> \<longleftrightarrow> (134217728 \<le> unat memory div n)" by (simp add: less_eq_div_iff_mult_less_eq)
  also have "\<dots> \<longleftrightarrow> (134217728 * n \<le> unat memory)" using n by (simp add: less_eq_div_iff_mult_less_eq)
  finally have m: "((memory div ?w div MIB) * MIB < MIN_MEMORY_BYTES) \<longleftrightarrow> \<not> 134217728 * n \<le> unat memory"
    by (simp only: word_less_nat_alt mem mib not_le [symmetric])
  show ?thesis
    using n unfolding plan_resources_def Let_def c m
    by (auto simp: validate_world_size_def MIN_WORLD_SIZE_def MAX_WORLD_SIZE_def not_less)
qed (auto simp: plan_resources_def validate_world_size_def MIN_WORLD_SIZE_def MAX_WORLD_SIZE_def)


lemma plan_amounts:
  assumes "plan_resources n cpus memory engine = Inr p"
  shows "n * unat (rp_per_rank_cpu_millis p) + unat (rp_unused_cpu_millis p) = unat cpus \<and> unat (rp_unused_cpu_millis p) < n"
    "n * unat (rp_per_rank_memory_bytes p) + unat (rp_unused_memory_bytes p) = unat memory \<and> unat (rp_unused_memory_bytes p) < n * 1048576"
    "unat (rp_allocated_cpu_millis p) + unat (rp_engine_cpu_headroom_millis p) = unat (de_cpu_millis engine)"
    "unat (rp_allocated_memory_bytes p) + unat (rp_engine_memory_headroom_bytes p) = unat (de_memory_bytes engine)"
    "100 \<le> unat (rp_per_rank_cpu_millis p)" "134217728 \<le> unat (rp_per_rank_memory_bytes p)"
proof -
  let ?w = "of_nat n :: u64" and ?c = "unat cpus div n" and ?m = "unat memory div n div 1048576 * 1048576"
  from assms have n: "2 \<le> n" "n \<le> 64" and le: "unat cpus \<le> unat (de_cpu_millis engine)" "unat memory \<le> unat (de_memory_bytes engine)"
    and least: "100 * n \<le> unat cpus" "134217728 * n \<le> unat memory"
    by (auto simp: plan_resources_Inr word_le_nat_alt)
  have w: "unat ?w = n" using n by (intro unat_of_nat_u64) simp
  have mib: "unat MIB = 1048576" by (simp add: MIB_def)
  have bounds: "unat cpus < 2 ^ 64" "unat memory < 2 ^ 64" using unat_u64_bound by simp_all
  have mc: "?c * n \<le> unat cpus" by (rule div_times_less_eq_dividend)
  have mm: "?m * n \<le> unat memory"
  proof -
    have "?m * n \<le> unat memory div n * n" by (intro mult_le_mono1 div_times_less_eq_dividend)
    also have "\<dots> \<le> unat memory" by (rule div_times_less_eq_dividend)
    finally show ?thesis .
  qed
  have c: "unat (cpus div ?w) = ?c" by (simp add: unat_div_distrib w)
  have m: "unat ((memory div ?w div MIB) * MIB) = ?m"
  proof -
    have "?m * 1 \<le> ?m * n" using n by (intro mult_le_mono2) simp
    with mm bounds(2) have "?m < 2 ^ 64" by linarith
    then show ?thesis by (simp add: unat_word_ariths unat_div_distrib w mib)
  qed
  have prod: "unat (x * ?w) = k * n" if "unat x = k" "k * n < 2 ^ 64" for x :: u64 and k
    using that unfolding unat_word_ariths(2) that(1) w by simp
  have cw: "unat (cpus div ?w * ?w) = ?c * n" using mc bounds(1) by (intro prod [OF c]) linarith
  have mw: "unat ((memory div ?w div MIB) * MIB * ?w) = ?m * n" using mm bounds(2) by (intro prod [OF m]) linarith
  have p: "rp_per_rank_cpu_millis p = cpus div ?w" "rp_per_rank_memory_bytes p = (memory div ?w div MIB) * MIB"
    "rp_allocated_cpu_millis p = cpus div ?w * ?w" "rp_allocated_memory_bytes p = (memory div ?w div MIB) * MIB * ?w"
    "rp_unused_cpu_millis p = cpus - cpus div ?w * ?w" "rp_unused_memory_bytes p = memory - (memory div ?w div MIB) * MIB * ?w"
    "rp_engine_cpu_headroom_millis p = de_cpu_millis engine - cpus div ?w * ?w"
    "rp_engine_memory_headroom_bytes p = de_memory_bytes engine - (memory div ?w div MIB) * MIB * ?w"
    using assms by (simp_all add: plan_resources_Inr Let_def)
  have sub: "unat (x - y) = unat x - unat y" if "unat y \<le> unat x" for x y :: u64 using that by (simp add: unat_sub word_le_nat_alt)
  have uc: "unat (rp_unused_cpu_millis p) = unat cpus - ?c * n" unfolding p using mc by (simp only: sub cw)
  have um: "unat (rp_unused_memory_bytes p) = unat memory - ?m * n" unfolding p using mm by (simp only: sub mw)
  have rest: "unat cpus - ?c * n < n" using n by (simp add: minus_div_mult_eq_mod)
  show "n * unat (rp_per_rank_cpu_millis p) + unat (rp_unused_cpu_millis p) = unat cpus \<and> unat (rp_unused_cpu_millis p) < n"
    unfolding uc p(1) c using mc rest by (simp add: mult.commute)
  have "unat memory < (?m + 1048576) * n"
  proof -
    have "unat memory div n < ?m + 1048576" using mod_less_divisor [of 1048576 "unat memory div n"] div_mult_mod_eq [of "unat memory div n" 1048576] by linarith
    then have "Suc (unat memory div n) * n \<le> (?m + 1048576) * n" by (intro mult_le_mono1) simp
    moreover have "unat memory < Suc (unat memory div n) * n" using n dividend_less_times_div [of n "unat memory"] by (simp add: mult.commute)
    ultimately show ?thesis by linarith
  qed
  then show "n * unat (rp_per_rank_memory_bytes p) + unat (rp_unused_memory_bytes p) = unat memory \<and> unat (rp_unused_memory_bytes p) < n * 1048576"
    unfolding um p(2) m using mm by (simp add: algebra_simps)
  show "unat (rp_allocated_cpu_millis p) + unat (rp_engine_cpu_headroom_millis p) = unat (de_cpu_millis engine)"
    unfolding p using mc le(1) by (simp only: sub cw)
  show "unat (rp_allocated_memory_bytes p) + unat (rp_engine_memory_headroom_bytes p) = unat (de_memory_bytes engine)"
    unfolding p using mm le(2) by (simp only: sub mw)
  show "100 \<le> unat (rp_per_rank_cpu_millis p)" unfolding p c using least(1) n by (simp add: less_eq_div_iff_mult_less_eq)
  have "128 \<le> unat memory div n div 1048576" using least(2) n by (simp add: less_eq_div_iff_mult_less_eq)
  then show "134217728 \<le> unat (rp_per_rank_memory_bytes p)" unfolding p m by linarith
qed


lemma share_le: "plan_resources n cpus memory engine = Inr p \<Longrightarrow> unat (rp_per_rank_cpu_millis p) \<le> unat cpus"
  by (auto simp: plan_resources_Inr Let_def unat_div_distrib)

section \<open>Limits read back\<close>

text \<open>
  What Docker documents of \<open>--cpus\<close> and \<open>--memory\<close> under cgroup v2: a quota of so many hundredths of
  a millisecond in each period of 100 ms, and the memory maximum in bytes.
\<close>

definition enforces :: "(string \<Rightarrow> string option) \<Rightarrow> u64 \<Rightarrow> u64 \<Rightarrow> bool" where
  "enforces files cpu memory \<longleftrightarrow>
     files ''/sys/fs/cgroup/cpu.max'' = Some (show_nat (100 * unat cpu) @ '' 100000'' @ [CHR 0x0A]) \<and>
     files ''/sys/fs/cgroup/memory.max'' = Some (show_nat (unat memory) @ [CHR 0x0A])"

lemma trim_newline:
  assumes "s \<noteq> []" "\<not> is_ascii_whitespace (hd s)" "\<not> is_ascii_whitespace (last s)"
  shows "trim (s @ [CHR 0x0A]) = s"
proof -
  have nl: "is_ascii_whitespace (CHR 0x0A)" by code_simp
  have "dropWhile is_ascii_whitespace (s @ [CHR 0x0A]) = s @ [CHR 0x0A]" using assms(1,2) by (cases s) auto
  moreover have "dropWhile is_ascii_whitespace (rev s) = rev s" using assms(1,3) by (cases "rev s") (auto simp: hd_rev [symmetric])
  ultimately show ?thesis using nl by (simp add: trim_def)
qed

lemma show_nat_ends: "\<not> is_ascii_whitespace (hd (show_nat n))" "\<not> is_ascii_whitespace (last (show_nat n))"
  using digit_not hd_digits last_digits show_nat_digits show_nat_nonempty by metis+

lemma parse_cpu_max_quota:
  assumes "unat cpu < 2 ^ 40"
  shows "parse_cpu_max (show_nat (100 * unat cpu) @ '' 100000'') = Some cpu"
proof -
  let ?q = "100 * unat cpu"
  have sp: "is_ascii_whitespace (CHR '' '')" by code_simp
  have "list_all (\<lambda>c. \<not> is_ascii_whitespace c) ''100000''" by code_simp
  then have fields: "split_whitespace (show_nat ?q @ '' 100000'') = [show_nat ?q, ''100000'']"
    unfolding split_whitespace_def
    using split_by_append [OF digits_no_space [OF show_nat_digits [of ?q]] sp, of "''100000''"] split_by_none [of is_ascii_whitespace "''100000''"]
    by simp
  have period: "parse_u64 ''100000'' = Some 100000"
    by (simp add: parse_u64_def parse_nat_def digits_value_def digit_value_def is_ascii_digit_def u64_try_from_def Let_def)
  have quota: "parse_u64 (show_nat ?q) = Some (of_nat ?q)" using assms by (intro parse_u64_show) simp
  have "c \<noteq> CHR ''m''" if "c \<in> set (show_nat ?q)" for c
    using that show_nat_digits [of ?q] by (auto simp: list_all_iff is_ascii_digit_def Let_def)
  then have "show_nat ?q \<noteq> ''max''" by (metis list.set_intros(1))
  moreover have m: "checked_mul (of_nat ?q :: u64) 1000 = Some (of_nat (?q * 1000))"
  proof -
    have "unat (of_nat ?q :: u64) = ?q" "unat (of_nat (?q * 1000) :: u64) = ?q * 1000" using assms by (intro unat_of_nat_u64; simp)+
    then show ?thesis unfolding checked_mul_Some unat_1000 by simp
  qed
  moreover have "(of_nat (?q * 1000) :: u64) div 100000 = cpu"
  proof -
    have "unat (of_nat (?q * 1000) :: u64) = ?q * 1000" using assms by (intro unat_of_nat_u64) simp
    then have "unat ((of_nat (?q * 1000) :: u64) div 100000) = unat cpu" unfolding unat_div_distrib by simp
    then show ?thesis by (simp add: word_unat_eq_iff)
  qed
  ultimately show ?thesis using period quota unfolding parse_cpu_max_def fields by simp
qed

lemma observed_limits:
  assumes "enforces files cpu memory" "unat cpu < 2 ^ 40"
  shows "ob_cpu_millis (observe_cgroup_resources files) = Some cpu"
    "ob_memory_limit_bytes (observe_cgroup_resources files) = Some memory"
proof -
  have cpu: "read_optional files ''/sys/fs/cgroup/cpu.max'' = Some (show_nat (100 * unat cpu) @ '' 100000'')"
  proof -
    have "\<not> is_ascii_whitespace (CHR ''0'')" by code_simp
    then have "trim ((show_nat (100 * unat cpu) @ '' 100000'') @ [CHR 0x0A]) = show_nat (100 * unat cpu) @ '' 100000''"
      using show_nat_ends(1) by (intro trim_newline) simp_all
    then show ?thesis using assms(1) by (simp add: enforces_def read_optional_def)
  qed
  have memory: "read_optional files ''/sys/fs/cgroup/memory.max'' = Some (show_nat (unat memory))"
    using assms(1) trim_newline [OF _ show_nat_ends] by (simp add: enforces_def read_optional_def)
  show "ob_cpu_millis (observe_cgroup_resources files) = Some cpu"
    unfolding observe_cgroup_resources_def Let_def cpu memory using parse_cpu_max_quota [OF assms(2)] by simp
  have "trim (show_nat (unat memory)) = show_nat (unat memory)" using show_nat_ends by (intro trim_id) simp_all
  moreover have "c \<noteq> CHR ''m''" if "c \<in> set (show_nat (unat memory))" for c
    using that show_nat_digits [of "unat memory"] by (auto simp: list_all_iff is_ascii_digit_def Let_def)
  then have "show_nat (unat memory) \<noteq> ''max''" by (metis list.set_intros(1))
  moreover have "parse_u64 (show_nat (unat memory)) = Some memory"
    using parse_u64_show [of "unat memory"] unat_u64_bound [of memory] by simp
  ultimately show "ob_memory_limit_bytes (observe_cgroup_resources files) = Some memory"
    unfolding observe_cgroup_resources_def Let_def cpu memory by (simp add: parse_memory_limit_def)
qed

text \<open>
  C9. The resources of a launch are divided and enforced exactly. A plan exists if and only if the
  world has 2 to 64 ranks, the request fits the engine, and every rank gets at least a tenth
  of a CPU and 128 MiB; then the shares and the unused rest add up to the request, the rest is
  less than one unit (a millicpu, a mebibyte) per rank, and nothing overflows. The \<open>--cpus\<close> text
  parses back to the share, and, for a CPU total below \<open>2 ^ 40\<close> thousandths, a container whose
  cgroup enforces the two limits passes the verification inside the container and the check of
  the pipeline runner.
\<close>

theorem launch_resources_exact:
  "((\<exists>p. plan_resources n cpus memory engine = Inr p) \<longleftrightarrow>
      2 \<le> n \<and> n \<le> 64 \<and> cpus \<le> de_cpu_millis engine \<and> memory \<le> de_memory_bytes engine \<and>
      100 * n \<le> unat cpus \<and> 134217728 * n \<le> unat memory) \<and>
   (\<forall>p. plan_resources n cpus memory engine = Inr p \<longrightarrow>
      n * unat (rp_per_rank_cpu_millis p) + unat (rp_unused_cpu_millis p) = unat cpus \<and> unat (rp_unused_cpu_millis p) < n \<and>
      n * unat (rp_per_rank_memory_bytes p) + unat (rp_unused_memory_bytes p) = unat memory \<and>
      unat (rp_unused_memory_bytes p) < n * 1048576 \<and>
      unat (rp_allocated_cpu_millis p) + unat (rp_engine_cpu_headroom_millis p) = unat (de_cpu_millis engine) \<and>
      unat (rp_allocated_memory_bytes p) + unat (rp_engine_memory_headroom_bytes p) = unat (de_memory_bytes engine) \<and>
      cpu_from_str (format_cpu (rp_per_rank_cpu_millis p)) = Inr (rp_per_rank_cpu_millis p) \<and>
      (unat cpus < 2 ^ 40 \<and> enforces files (rp_per_rank_cpu_millis p) (rp_per_rank_memory_bytes p) \<longrightarrow>
         verify_resources (observe_cgroup_resources files) (Some (rp_per_rank_cpu_millis p)) (Some (rp_per_rank_memory_bytes p)) = Inr Passed \<and>
         (pm_expected_cpu_millis mf = rp_per_rank_cpu_millis p \<and> pm_expected_memory_bytes mf = rp_per_rank_memory_bytes p \<longrightarrow>
            check_resources mf (resource_snapshot_of (observe_cgroup_resources files)))))"
proof (intro conjI allI impI, goal_cases)
  case 1
  show ?case by (auto simp: plan_resources_Inr)
next
  case (8 p)
  from plan_amounts(5) [OF 8] have "rp_per_rank_cpu_millis p \<noteq> 0" by auto
  then show ?case by (rule cpu_amount_round_trip)
next
  case (9 p)
  with share_le have "unat (rp_per_rank_cpu_millis p) < 2 ^ 40" by fastforce
  with 9(2) show ?case using observed_limits [of files] by (auto simp: verify_resources_def abs_diff_def)
next
  case (10 p)
  with share_le have "unat (rp_per_rank_cpu_millis p) < 2 ^ 40" by fastforce
  with 10(2,3) show ?case using observed_limits [of files] by (auto simp: check_resources_def resource_snapshot_of_def)
qed (use plan_amounts in blast)+


definition sample_engine :: docker_engine_report where
  "sample_engine = \<lparr>de_server_version = ''27'', de_operating_system = ''linux'', de_architecture = ''x86_64'', de_cgroup_version = ''2'',
     de_cpu_millis = 8000, de_memory_bytes = 8589934592\<rparr>"

definition sample_files :: "string \<Rightarrow> string option" where
  "sample_files = [''/sys/fs/cgroup/cpu.max'' \<mapsto> show_nat 66600 @ '' 100000'' @ [CHR 0x0A],
     ''/sys/fs/cgroup/memory.max'' \<mapsto> show_nat 357564416 @ [CHR 0x0A]]"

theorem launch_resources_exact_witness:
  "\<exists>p. plan_resources 3 2000 1073741824 sample_engine = Inr p \<and> rp_per_rank_cpu_millis p = 666 \<and> rp_per_rank_memory_bytes p = 341 * MIB \<and>
     unat (rp_unused_cpu_millis p) = 2 \<and> cpu_from_str (format_cpu 666) = Inr 666 \<and>
     verify_resources (observe_cgroup_resources sample_files) (Some 666) (Some (341 * MIB)) = Inr Passed"
proof -
  let ?mib = "341 * MIB"
  have mib: "?mib = 357564416" by (simp add: MIB_def)
  obtain p where p: "plan_resources 3 2000 1073741824 sample_engine = Inr p" and share: "rp_per_rank_cpu_millis p = 666" "rp_per_rank_memory_bytes p = ?mib"
    by (simp add: plan_resources_Inr sample_engine_def MIB_def Let_def)
  have "enforces sample_files (rp_per_rank_cpu_millis p) (rp_per_rank_memory_bytes p)"
    unfolding share mib by (simp add: enforces_def sample_files_def)
  then show ?thesis
    using p share launch_resources_exact [where n = 3 and cpus = 2000 and memory = 1073741824 and engine = sample_engine and files = sample_files]
    by auto
qed

text \<open>
  The two checks of the CPU quota differ: the verification accepts a quota that is one millicpu
  off, which the pipeline runner then refuses.
\<close>

lemma tolerated_quota_refused:
  assumes "ob_cpu_millis seen = Some (cpu + 1)" "0 < cpu" "cpu < - 1" "ob_memory_limit_bytes seen = Some memory"
    and "pm_expected_cpu_millis mf = cpu" "pm_expected_memory_bytes mf = memory"
  shows "verify_resources seen (Some cpu) (Some memory) = Inr Passed \<and> \<not> check_resources mf (resource_snapshot_of seen)"
proof -
  have "\<not> cpu + 1 < cpu" using assms(3) by unat_arith
  then show ?thesis
    using assms by (auto simp: verify_resources_def abs_diff_def check_resources_def resource_snapshot_of_def)
qed

end
