(* ===== verification/LaunchRun.thy ===== *)
theory LaunchRun
  imports Manifests LaunchProofs PipelineRun TensorSample
begin

text \<open>
  From the command line to running ranks: a manifest that the launcher writes is one that every
  rank accepts, and everything the whole-run theorems ask of it holds.
\<close>

section \<open>What preparation establishes\<close>

lemma set_bt_insert: "set (bt_insert k v m) \<subseteq> insert (k, v) (set m)"
  by (induction m) (auto split: if_splits)

lemma set_bt_fold: "set (fold (\<lambda>(k, v). bt_insert k v) kvs m) \<subseteq> set kvs \<union> set m"
proof (induction kvs arbitrary: m)
  case (Cons kv kvs)
  obtain k v where "kv = (k, v)" by (cases kv)
  then show ?case using Cons [of "bt_insert k v m"] set_bt_insert [of k v m] by auto
qed simp

lemma set_bt_collect: "set (bt_collect kvs) \<subseteq> set kvs"
  unfolding bt_collect_def using set_bt_fold [of kvs "[]"] by simp

lemma checkpoint_validated:
  assumes "validate_checkpoint s (Inr ts) = Inr ()" "checkpoint_lists ck ts"
  shows "checkpoint_covers ck (config s)"
proof (rule validated_covers)
  show "validate_tensor_metadata s (bt_collect ts) = Inr ()" using assms(1) by (simp add: validate_checkpoint_def)
  show "checkpoint_lists ck (bt_collect ts)" using assms(2) set_bt_collect [of ts] unfolding checkpoint_lists_def by blast
qed

lemma prompt_ids_Inr:
  assumes "prompt_ids env s prompt = Inr ids" "0 < requested"
  shows "ids \<noteq> []" "1 \<le> effective_tokens s ids requested" "effective_tokens s ids requested \<le> max_position_embeddings (config s)"
    "0 < length ids + effective_tokens s ids requested"
    "length ids + effective_tokens s ids requested \<le> max_position_embeddings (config s)"
  using assms by (auto simp: prompt_ids_def effective_tokens_def split: if_splits)

lemma launch_resources_Inr:
  "launch_resources env n cpus memory = Inr res \<Longrightarrow> \<exists>engine. plan_resources n cpus memory engine = Inr res"
  by (auto simp: launch_resources_def)

lemma context_bound: "max_position_embeddings (config (spec m)) \<le> 131072"
  by (cases m) (simp_all add: spec_simps)

lemma registered_cache:
  assumes "0 < cap" "cap \<le> max_position_embeddings (config (spec m))"
  shows "\<exists>c. kv_new z (config (spec m)) cap dt = Inr c"
proof -
  have "0 < num_hidden_layers (config (spec m))" by (cases m) (simp_all add: spec_simps)
  moreover have "\<exists>l. layer_new z (config (spec m)) cap dt = Inr l" by (simp add: layer_new_def Let_def)
  ultimately show ?thesis using assms by (simp add: kv_new_def kv_new_for_layers_Inr)
qed

section \<open>Pipelines\<close>

lemma plan_pipeline_launch_Inr:
  assumes "plan_pipeline_launch env req = Inr mf"
  shows "\<exists>ts. le_checkpoint_tensors env = Inr ts \<and> validate_checkpoint (spec (pm_model mf)) (Inr ts) = Inr ()"
    "balanced (spec (pm_model mf)) (plr_nproc req) = Inr (pm_partition mf)"
    "map (\<lambda>a. stage_memory_plan_for_stage (spec (pm_model mf)) a PlanF32 (pm_context_capacity mf) (pm_expected_memory_bytes mf))
       (stages (pm_partition mf)) = map Inr (pm_memory_plans mf)"
    "list_all (\<lambda>p. smp_placement p \<noteq> DoesNotFit) (pm_memory_plans mf)" "pm_dtype mf = PlanF32"
    "pm_checkpoint_path mf = CONTAINER_CHECKPOINT" "pm_tokenizer_path mf = CONTAINER_TOKENIZER"
    "\<exists>engine memory res. plan_resources (plr_nproc req) (plr_total_cpus req) memory engine = Inr res \<and>
       pm_expected_cpu_millis mf = rp_per_rank_cpu_millis res \<and> pm_expected_memory_bytes mf = rp_per_rank_memory_bytes res"
    "pm_prompt_token_ids mf \<noteq> []" "1 \<le> pm_effective_max_new_tokens mf"
    "pm_effective_max_new_tokens mf \<le> 131072" "0 < pm_context_capacity mf"
    "pm_context_capacity mf \<le> max_position_embeddings (config (spec (pm_model mf)))"
    "prompt_ids env (spec (pm_model mf)) (plr_prompt req) = Inr (pm_prompt_token_ids mf)"
    "pm_context_capacity mf = length (pm_prompt_token_ids mf) + pm_effective_max_new_tokens mf"
proof -
  let ?s = "spec (plr_model req)"
  from assms obtain part mem ids res plans ts where
    plan: "balanced ?s (plr_nproc req) = Inr part" "prompt_ids env ?s (plr_prompt req) = Inr ids"
      "launch_resources env (plr_nproc req) (plr_total_cpus req) mem = Inr res"
      "collect_results (map (\<lambda>stage. stage_memory_plan_for_stage ?s stage PlanF32
         (length ids + effective_tokens ?s ids (plr_max_new_tokens req)) (rp_per_rank_memory_bytes res)) (stages part)) = Inr plans"
      "find (\<lambda>p. smp_placement p = DoesNotFit) plans = None" "le_checkpoint_tensors env = Inr ts"
      "validate_checkpoint ?s (Inr ts) = Inr ()" "0 < plr_max_new_tokens req"
    and mf: "pm_model mf = plr_model req" "pm_partition mf = part" "pm_memory_plans mf = plans" "pm_dtype mf = PlanF32"
      "pm_checkpoint_path mf = CONTAINER_CHECKPOINT" "pm_tokenizer_path mf = CONTAINER_TOKENIZER"
      "pm_expected_cpu_millis mf = rp_per_rank_cpu_millis res" "pm_expected_memory_bytes mf = rp_per_rank_memory_bytes res"
      "pm_prompt_token_ids mf = ids" "pm_effective_max_new_tokens mf = effective_tokens ?s ids (plr_max_new_tokens req)"
      "pm_context_capacity mf = length ids + effective_tokens ?s ids (plr_max_new_tokens req)"
    by (auto simp: plan_pipeline_launch_def validate_checkpoint_def Let_def split: if_splits option.splits)
  note ids = prompt_ids_Inr [OF plan(2,8)]
  show "\<exists>ts. le_checkpoint_tensors env = Inr ts \<and> validate_checkpoint (spec (pm_model mf)) (Inr ts) = Inr ()"
    "balanced (spec (pm_model mf)) (plr_nproc req) = Inr (pm_partition mf)" "pm_dtype mf = PlanF32"
    "pm_checkpoint_path mf = CONTAINER_CHECKPOINT" "pm_tokenizer_path mf = CONTAINER_TOKENIZER"
    "prompt_ids env (spec (pm_model mf)) (plr_prompt req) = Inr (pm_prompt_token_ids mf)"
    "pm_context_capacity mf = length (pm_prompt_token_ids mf) + pm_effective_max_new_tokens mf"
    using plan mf by simp_all
  show "map (\<lambda>a. stage_memory_plan_for_stage (spec (pm_model mf)) a PlanF32 (pm_context_capacity mf) (pm_expected_memory_bytes mf))
       (stages (pm_partition mf)) = map Inr (pm_memory_plans mf)"
    using plan(4) unfolding mf by (simp add: collect_results_Inr)
  show "list_all (\<lambda>p. smp_placement p \<noteq> DoesNotFit) (pm_memory_plans mf)"
    using plan(5) unfolding mf by (simp add: find_None_iff list_all_iff)
  show "\<exists>engine memory res. plan_resources (plr_nproc req) (plr_total_cpus req) memory engine = Inr res \<and>
       pm_expected_cpu_millis mf = rp_per_rank_cpu_millis res \<and> pm_expected_memory_bytes mf = rp_per_rank_memory_bytes res"
    using launch_resources_Inr [OF plan(3)] mf by blast
  show "pm_prompt_token_ids mf \<noteq> []" "1 \<le> pm_effective_max_new_tokens mf" "0 < pm_context_capacity mf"
    "pm_context_capacity mf \<le> max_position_embeddings (config (spec (pm_model mf)))" "pm_effective_max_new_tokens mf \<le> 131072"
    using ids context_bound [of "plr_model req"] unfolding mf by linarith+
qed

text \<open>
  C4. A pipeline that the launcher prepares starts. If the preparation on the host succeeds for
  a CPU total below \<open>2 ^ 40\<close> thousandths, the containers enforce the planned limits, and the
  mounted checkpoint holds the tensors that were validated, then the manifest is consistent on
  every rank, the whole model and its cache can be built from it, and every rank passes all
  its checks and loads its stage. With these facts
  the equality of a pipeline run with single-process generation applies.
\<close>

theorem pipeline_launch_accepted:
  assumes plan: "plan_pipeline_launch lenv req = Inr mf" "unat (plr_total_cpus req) < 2 ^ 40"
    and limits: "list_all (\<lambda>r. enforces (files r) (pm_expected_cpu_millis mf) (pm_expected_memory_bytes mf)) [0..<plr_nproc req]"
    and mounted: "pe_checkpoint env CONTAINER_CHECKPOINT PlanF32 = Inr (checkpoint_get ck)" "le_checkpoint_tensors lenv = Inr ts"
      "checkpoint_lists ck ts" "pe_tokenizer env CONTAINER_TOKENIZER = Inr tok"
    and tables: "op_rope_tables (pe_ops env) (config (spec (pm_model mf))) (pm_context_capacity mf) = Inr tables"
  shows "let rs = (\<lambda>r. resource_snapshot_of (observe_cgroup_resources (files r))) in
     manifest_ok (plr_nproc req) env mf rs (checkpoint_get ck) tok \<and>
     (\<exists>m. llama_load (pe_ops env) (checkpoint_get ck) (config (spec (pm_model mf))) (pm_context_capacity mf) = Inr m) \<and>
     (\<exists>C. kv_new (op_zero (pe_ops env)) (config (spec (pm_model mf))) (pm_context_capacity mf) F32 = Inr C) \<and>
     list_all (\<lambda>r. \<exists>stage cache. prepare_rank env (member (plr_nproc req) r) mf (rs r) =
        Inr (stages (pm_partition mf) ! r, pm_memory_plans mf ! r, stage, cache)) [0..<plr_nproc req]"
proof -
  let ?W = "plr_nproc req" and ?cfg = "config (spec (pm_model mf))" and ?cap = "pm_context_capacity mf"
  let ?rs = "\<lambda>r. resource_snapshot_of (observe_cgroup_resources (files r))"
  note p = plan_pipeline_launch_Inr [OF plan(1)]
  obtain engine memory res where res: "plan_resources ?W (plr_total_cpus req) memory engine = Inr res"
    "pm_expected_cpu_millis mf = rp_per_rank_cpu_millis res" using p(8) by blast
  have small: "unat (pm_expected_cpu_millis mf) < 2 ^ 40" using share_le [OF res(1)] plan(2) res(2) by simp
  have "check_resources mf (?rs r)" if "r < ?W" for r
  proof -
    have "enforces (files r) (pm_expected_cpu_millis mf) (pm_expected_memory_bytes mf)" using limits that by (simp add: list_all_iff)
    from observed_limits [OF this small] show ?thesis by (simp add: check_resources_def resource_snapshot_of_def)
  qed
  moreover have "length (pm_memory_plans mf) = ?W"
    using arg_cong [OF p(3), of length] p(2) by (auto simp: balanced_Inr)
  ultimately have ok: "manifest_ok ?W env mf ?rs (checkpoint_get ck) tok"
    using p mounted by (simp add: manifest_ok_def list_all_iff)
  have "checkpoint_covers ck ?cfg" using p(1) mounted(2,3) checkpoint_validated by auto
  from full_loads [OF this spec_head_dim tables] obtain m where m: "llama_load (pe_ops env) (checkpoint_get ck) ?cfg ?cap = Inr m" by blast
  from registered_cache [OF p(12,13), of "op_zero (pe_ops env)" F32] obtain C where C: "kv_new (op_zero (pe_ops env)) ?cfg ?cap F32 = Inr C" by blast
  from stages_hold_model [OF p(2) m C] prepare_rank_ok [OF ok]
  have "\<exists>stage cache. prepare_rank env (member ?W r) mf (?rs r) = Inr (stages (pm_partition mf) ! r, pm_memory_plans mf ! r, stage, cache)"
    if "r < ?W" for r using that by blast
  with ok m C show ?thesis by (simp add: list_all_iff)
qed

section \<open>Tensor parallelism\<close>

lemma plan_tensor_launch_Inr:
  assumes "plan_tensor_launch env req = Inr mf"
  shows "\<exists>ts. le_checkpoint_tensors env = Inr ts \<and> validate_checkpoint (spec (tman_model mf)) (Inr ts) = Inr ()"
    "\<exists>budget. tensor_parallel_plan (tman_model mf) (tlr_tp req) (tman_context_capacity mf) budget = Inr (tman_partition mf)"
    "tman_schema_version mf = 1" "tman_dtype mf = PlanF32" "tman_tensor_parallel mf = tlr_tp req"
    "tman_checkpoint_path mf = CONTAINER_CHECKPOINT" "tman_tokenizer_path mf = CONTAINER_TOKENIZER"
    "tman_effective_max_new_tokens mf \<le> 131072" "tman_prompt_token_ids mf \<noteq> []"
    "tman_all_reduce mf = tlr_all_reduce req"
proof -
  let ?s = "spec (tlr_model req)"
  from assms obtain ids budget ts where
    plan: "prompt_ids env ?s (tlr_prompt req) = Inr ids" "le_checkpoint_tensors env = Inr ts" "validate_checkpoint ?s (Inr ts) = Inr ()"
      "0 < tlr_max_new_tokens req"
      "tensor_parallel_plan (tlr_model req) (tlr_tp req) (length ids + effective_tokens ?s ids (tlr_max_new_tokens req))
         budget = Inr (tman_partition mf)"
    and mf: "tman_schema_version mf = 1" "tman_dtype mf = PlanF32" "tman_tensor_parallel mf = tlr_tp req" "tman_model mf = tlr_model req"
      "tman_checkpoint_path mf = CONTAINER_CHECKPOINT" "tman_tokenizer_path mf = CONTAINER_TOKENIZER"
      "tman_prompt_token_ids mf = ids" "tman_effective_max_new_tokens mf = effective_tokens ?s ids (tlr_max_new_tokens req)"
      "tman_context_capacity mf = length ids + effective_tokens ?s ids (tlr_max_new_tokens req)" "tman_all_reduce mf = tlr_all_reduce req"
    unfolding plan_tensor_launch_def validate_checkpoint_def Let_def
    by (clarsimp split: if_splits)
  note ids = prompt_ids_Inr [OF plan(1,4)]
  show "\<exists>ts. le_checkpoint_tensors env = Inr ts \<and> validate_checkpoint (spec (tman_model mf)) (Inr ts) = Inr ()"
    "\<exists>budget. tensor_parallel_plan (tman_model mf) (tlr_tp req) (tman_context_capacity mf) budget = Inr (tman_partition mf)"
    "tman_schema_version mf = 1" "tman_dtype mf = PlanF32" "tman_tensor_parallel mf = tlr_tp req"
    "tman_checkpoint_path mf = CONTAINER_CHECKPOINT" "tman_tokenizer_path mf = CONTAINER_TOKENIZER" "tman_all_reduce mf = tlr_all_reduce req"
    using plan mf by auto
  show "tman_effective_max_new_tokens mf \<le> 131072" "tman_prompt_token_ids mf \<noteq> []"
    using ids context_bound [of "tlr_model req"] unfolding mf by linarith+
qed

lemma plan_degree: "tensor_parallel_plan m tp ctx budget = Inr p \<Longrightarrow> tpp_tensor_parallel p = tp"
  unfolding tensor_parallel_plan_def Let_def spec_head_dim map_err.simps rbind.simps
  by (cases "collect_results (map (plan_rank (config (spec m)) tp ctx budget 64) [0..<tp])") (auto split: if_splits)

lemma registered_shard_cache:
  assumes "2 \<le> tp" "tp dvd num_key_value_heads (config (spec m))" "0 < cap" "cap \<le> max_position_embeddings (config (spec m))"
  shows "\<exists>c. kv_new_tensor_parallel z (config (spec m)) tp cap dt = Inr c"
proof -
  have "0 < num_hidden_layers (config (spec m))" by (cases m) (simp_all add: spec_simps)
  then show ?thesis
    using admissible_tp [OF assms(1,2)] assms
    by (elim disjE conjE) (simp_all add: kv_new_tensor_parallel_def kv_new_def kv_new_for_layers_Inr layer_new_def Let_def spec_simps head_dim_def)
qed

text \<open>
  C5. A tensor-parallel generation that the launcher prepares starts: the degree divides the heads,
  so every rank's shard of the validated checkpoint loads, every rank's cache is built, and the
  manifest satisfies all that the agreement of the ranks asks of it.
\<close>

theorem tensor_launch_accepted:
  assumes plan: "plan_tensor_launch lenv req = Inr mf"
    and mounted: "te_checkpoint env CONTAINER_CHECKPOINT = Inr ck" "le_checkpoint_tensors lenv = Inr ts"
      "checkpoint_lists ck ts" "te_tokenizer env CONTAINER_TOKENIZER = Inr tok"
    and tables: "op_rope_tables (te_ops env) (config (spec (tman_model mf))) (tman_context_capacity mf) = Inr tables"
  shows "\<exists>m c. tensor_manifest_ok (tlr_tp req) env mf ck tok m c \<and>
     list_all (\<lambda>r. prepare_tensor_rank env (member (tlr_tp req) r) mf = Inr (tpp_ranks (tman_partition mf) ! r, m r, c)) [0..<tlr_tp req]"
proof -
  let ?W = "tlr_tp req" and ?cfg = "config (spec (tman_model mf))" and ?cap = "tman_context_capacity mf"
  note p = plan_tensor_launch_Inr [OF plan]
  obtain budget where part: "tensor_parallel_plan (tman_model mf) ?W ?cap budget = Inr (tman_partition mf)" using p(2) by blast
  note d = plan_Inr_divides [OF part]
  obtain q where q: "tensor_parallel_plan (tman_model mf) ?W ?cap budget = Inr q" "length (tpp_ranks q) = ?W"
    using partition_registered [OF d] by blast
  have W: "0 < ?W" "?W \<le> 256" using admissible_tp [OF d(1,2)] by auto
  have tp: "tpp_tensor_parallel (tman_partition mf) = ?W"
    using part by (rule plan_degree)
  have vocab: "0 < vocab_size ?cfg" by (cases "tman_model mf") (simp_all add: spec_simps)
  have covers: "checkpoint_covers ck ?cfg" using p(1) mounted(2,3) checkpoint_validated by auto
  have "\<forall>r. \<exists>m. r < ?W \<longrightarrow> tp_load_sharded (te_ops env) ck ?cfg (tp_context r ?W) ?cap (tman_all_reduce mf) = Inr m"
  proof (intro allI)
    fix r
    show "\<exists>m. r < ?W \<longrightarrow> tp_load_sharded (te_ops env) ck ?cfg (tp_context r ?W) ?cap (tman_all_reduce mf) = Inr m"
    proof (cases "r < ?W")
      case True
      from tp_loads [OF covers spec_head_dim shard_registered [OF d(1,2) True] vocab tables, of "tman_all_reduce mf"]
      show ?thesis by (elim exE conjE) (rule exI, rule impI)
    qed simp
  qed
  then obtain m where m: "\<forall>r < ?W. tp_load_sharded (te_ops env) ck ?cfg (tp_context r ?W) ?cap (tman_all_reduce mf) = Inr (m r)" by metis
  obtain c where c: "kv_new_tensor_parallel (op_zero (te_ops env)) ?cfg ?W ?cap F32 = Inr c"
    using registered_shard_cache [OF d(1,2) _ d(4), of "op_zero (te_ops env)" F32] d(3) by auto
  have ok: "tensor_manifest_ok ?W env mf ck tok m c"
    using W p(3-8) part q tp m c mounted by (simp add: tensor_manifest_ok_def)
  with prepare_tensor_rank_ok [OF ok] show ?thesis by (auto simp: list_all_iff)
qed


section \<open>A launch\<close>

lemma bt_insert_map: "bt_insert k (f v) (map (\<lambda>(k, v). (k, f v)) m) = map (\<lambda>(k, v). (k, f v)) (bt_insert k v m)"
  by (induction m) auto

lemma bt_fold_map:
  "fold (\<lambda>(k, v). bt_insert k v) (map (\<lambda>(k, v). (k, f v)) kvs) (map (\<lambda>(k, v). (k, f v)) m) =
     map (\<lambda>(k, v). (k, f v)) (fold (\<lambda>(k, v). bt_insert k v) kvs m)"
  by (induction kvs arbitrary: m) (auto simp: bt_insert_map)

definition stored_metadata :: "supported_model_id \<Rightarrow> tensor_metadata" where
  "stored_metadata m = map (\<lambda>(n, sh). (n, sh, checkpoint_safetensors (ms_checkpoint_dtype (spec m))))
     (tensor_insertions (config (spec m)) (num_key_value_heads (config (spec m)) * 64))"

lemma stored_metadata_collects: "bt_collect (stored_metadata m) = expected_metadata m"
  using bt_fold_map [where m = "[]" and f = "\<lambda>sh. (sh, checkpoint_safetensors (ms_checkpoint_dtype (spec m)))"]
  by (simp add: stored_metadata_def expected_metadata_def expected_tensor_shapes_def bt_collect_def)

lemma stored_metadata_accepted: "validate_checkpoint (spec m) (Inr (stored_metadata m)) = Inr ()"
  by (simp add: validate_checkpoint_def stored_metadata_collects expected_metadata_accepted)

lemma stored_metadata_lists: "checkpoint_lists (sample_store m) (stored_metadata m)"
proof -
  have "distinct (map fst (stored_metadata m))"
    using distinct_insertions by (simp add: stored_metadata_def comp_def case_prod_unfold)
  then have "set (stored_metadata m) = set (expected_metadata m)"
    using bt_collect_mset stored_metadata_collects by (metis set_mset_mset)
  with sample_store_lists [of m] show ?thesis by (simp add: checkpoint_lists_def)
qed

definition sample_launch_env :: "unit launch_env" where
  "sample_launch_env =
     \<lparr>le_default_run_id = ''run-1'', le_request_id = ''request-1'',
      le_hub_config = Inr \<lparr>hub_architectures = [''LlamaForCausalLM''], hub_model_type = ''llama'', hub_hidden_act = ''silu'',
        hub_attention_bias = False, hub_mlp_bias = False, hub_config = config (spec SmolLm2_135MInstruct), hub_rope_scaling = False\<rparr>,
      le_chat_template = Inr (Some ''<|im_start|>{{ m }}<|im_end|>''), le_tokenizer = Inr sample_tokenizer,
      le_docker_info = Inr \<lparr>di_server_version = ''27'', di_operating_system = ''linux'', di_architecture = ''x86_64'',
        di_cgroup_version = ''2'', di_ncpu = 8, di_mem_total = 8589934592\<rparr>,
      le_checkpoint_tensors = Inr (stored_metadata SmolLm2_135MInstruct)\<rparr>"

definition sample_pipeline_request :: pipeline_launch_request where
  "sample_pipeline_request =
     \<lparr>plr_model = SmolLm2_135MInstruct, plr_dtype = PlanF32, plr_prompt = ''hi'', plr_max_new_tokens = 1, plr_nproc = 2,
      plr_total_cpus = 2000, plr_total_memory = ''4GiB'', plr_run_id = None\<rparr>"

definition sample_tensor_request :: tensor_launch_request where
  "sample_tensor_request =
     \<lparr>tlr_model = SmolLm2_135MInstruct, tlr_tp = 3, tlr_dtype = PlanF32, tlr_prompt = ''hi'', tlr_max_new_tokens = 1,
      tlr_total_cpus = 2000, tlr_total_memory = ''3GiB'', tlr_all_reduce = Ring, tlr_run_id = Some ''tp''\<rparr>"

lemma sample_prompt: "prompt_ids sample_launch_env (spec SmolLm2_135MInstruct) ''hi'' = Inr [3]"
proof -
  have "check_markers (spec SmolLm2_135MInstruct) ''<|im_start|>{{ m }}<|im_end|>'' [''<|im_start|>'', ''<|im_end|>''] = Inr ()"
    by simp
  moreover have "trim ''hi'' = ''hi''" by code_simp
  ultimately show ?thesis
    by (simp add: prompt_ids_def sample_launch_env_def validate_metadata_def required_template_markers_def spec_simps
        render_prompt_def sample_tokenizer_def)
qed

lemma sample_sizes: "parse_byte_size ''4GiB'' = Inr 4294967296" "parse_byte_size ''3GiB'' = Inr 3221225472"
proof -
  have "to_ascii_lowercase ''GiB'' = ''gib''" by code_simp
  then have "size_multiplier ''GiB'' = Some 1073741824" by (simp add: size_multiplier_def push_bit_eq_mult)
  then show "parse_byte_size ''4GiB'' = Inr 4294967296" "parse_byte_size ''3GiB'' = Inr 3221225472"
    by (simp_all add: parse_byte_size_def trim_def is_ascii_whitespace_def is_ascii_digit_def digits_value_def digit_value_def
        parse_u64_def parse_nat_def u64_try_from_def checked_mul_def Let_def)
qed

lemma sample_launch_resources:
  "\<exists>res. launch_resources sample_launch_env 2 2000 4294967296 = Inr res \<and>
     rp_per_rank_cpu_millis res = 1000 \<and> rp_per_rank_memory_bytes res = 2147483648"
  "\<exists>res. launch_resources sample_launch_env 3 2000 3221225472 = Inr res \<and> rp_per_rank_memory_bytes res = 1073741824"
  by (simp_all add: launch_resources_def sample_launch_env_def docker_engine_info_def saturating_mul_def plan_resources_Inr MIB_def Let_def)


lemma sample_texts: "trim ''hi'' = ''hi''" "validate_run_id ''run-1'' = Inr ()" "validate_run_id ''tp'' = Inr ()"
  by code_simp+

lemma sample_dtype: "validate_cpu_dtype (spec m) PlanF32 = Inr ()"
  by (cases m) (simp_all add: validate_cpu_dtype_def spec_simps)

lemma sample_effective: "effective_tokens (spec SmolLm2_135MInstruct) [3] (Suc 0) = Suc 0"
  by (simp add: effective_tokens_def spec_simps)

lemma sample_env_sel:
  "le_default_run_id sample_launch_env = ''run-1''" "le_checkpoint_tensors sample_launch_env = Inr (stored_metadata SmolLm2_135MInstruct)"
  by (simp_all add: sample_launch_env_def)

lemma sample_stage_plan:
  assumes "0 < layer_count a" "layer_count a \<le> 30"
  shows "\<exists>p. stage_memory_plan_for_stage (spec SmolLm2_135MInstruct) a PlanF32 2 2147483648 = Inr p \<and> smp_placement p \<noteq> DoesNotFit"
proof -
  let ?c = "config (spec SmolLm2_135MInstruct)"
  obtain p where p: "stage_memory_plan_for_stage (spec SmolLm2_135MInstruct) a PlanF32 2 2147483648 = Inr p"
    "unat (smp_persistent_bytes p) = stage_weights ?c a * 4 + 2 * layer_count a * 2 * (num_key_value_heads ?c * 64) * 4"
    "smp_placement p = FitsPersistentEstimate \<longleftrightarrow> unat (smp_persistent_bytes p) \<le> unat (2147483648 :: u64)"
    using stage_memory_plan_registered [of 2 SmolLm2_135MInstruct a PlanF32 2147483648] assms by (auto simp: spec_simps)
  have "stage_weights ?c a \<le> 3540672 * layer_count a + 2 * 28311552 + 576"
    by (simp add: stage_weights_def stage_blocks_def stage_embedding_def stage_norm_def stage_head_def block_weights_def spec_simps)
  with p(2) assms have "unat (smp_persistent_bytes p) \<le> 2147483648" by (simp add: spec_simps)
  with p show ?thesis by auto
qed

lemma sample_pipeline_launch:
  "\<exists>mf. plan_pipeline_launch sample_launch_env sample_pipeline_request = Inr mf \<and> pm_model mf = SmolLm2_135MInstruct \<and>
     pm_expected_cpu_millis mf = 1000 \<and> pm_expected_memory_bytes mf = 2147483648 \<and> pm_context_capacity mf = 2"
proof -
  let ?s = "spec SmolLm2_135MInstruct" and ?part = "pm_partition sample_manifest"
  obtain res where res: "launch_resources sample_launch_env 2 2000 4294967296 = Inr res" "rp_per_rank_cpu_millis res = 1000"
    "rp_per_rank_memory_bytes res = 2147483648" using sample_launch_resources(1) by blast
  let ?plan = "\<lambda>a. stage_memory_plan_for_stage ?s a PlanF32 2 2147483648"
  have "\<forall>a \<in> set (stages ?part). 0 < layer_count a \<and> layer_count a \<le> 30"
    using sample_balanced by (simp add: balanced_Inr spec_simps upt_rec layer_count_def)
  with sample_stage_plan have "\<forall>a \<in> set (stages ?part). \<exists>p. ?plan a = Inr p \<and> smp_placement p \<noteq> DoesNotFit" by blast
  then obtain f where f: "\<forall>a \<in> set (stages ?part). ?plan a = Inr (f a) \<and> smp_placement (f a) \<noteq> DoesNotFit" by metis
  then have "map ?plan (stages ?part) = map Inr (map f (stages ?part))" by simp
  then have plans: "collect_results (map ?plan (stages ?part)) = Inr (map f (stages ?part))" by (simp only: collect_results_Inr)
  have "find (\<lambda>p. smp_placement p = DoesNotFit) (map f (stages ?part)) = None" using f by (auto simp: find_None_iff)
  then show ?thesis
    using sample_balanced sample_sizes sample_texts sample_prompt res plans stored_metadata_accepted [of SmolLm2_135MInstruct]
    by (simp add: plan_pipeline_launch_def sample_pipeline_request_def sample_env_sel sample_dtype sample_effective numeral_2_eq_2)
qed


lemma sample_tensor_launch:
  "\<exists>mf. plan_tensor_launch sample_launch_env sample_tensor_request = Inr mf \<and> tman_model mf = SmolLm2_135MInstruct"
proof -
  let ?m = SmolLm2_135MInstruct
  obtain res where res: "launch_resources sample_launch_env 3 2000 3221225472 = Inr res" "rp_per_rank_memory_bytes res = 1073741824"
    using sample_launch_resources(2) by blast
  obtain p where p: "tensor_parallel_plan ?m 3 2 (Some 1073741824) = Inr p" "length (tpp_ranks p) = 3"
    and ok: "\<And>r. r < 3 \<Longrightarrow> rank_plan_ok (config (spec ?m)) 3 2 (Some 1073741824) r (tpp_ranks p ! r)"
    by (rule partition_registered [of 3 ?m 2 "Some 1073741824"]) (auto simp: spec_simps)
  have "tmp_placement (tpp_ranks p ! r) \<noteq> DoesNotFit" if "r < 3" for r
    using ok [OF that] by (auto simp: rank_plan_ok_def local_weights_def norm_weights_def llama_parameters_def spec_simps)
  then have "require_placement p = Inr ()" using p(2) by (simp add: require_placement_iff list_all_length)
  then show ?thesis
    using sample_sizes sample_texts sample_prompt res p(1) stored_metadata_accepted [of ?m]
    by (simp add: plan_tensor_launch_def sample_tensor_request_def sample_env_sel sample_dtype sample_effective numeral_2_eq_2)
qed

definition launched_env :: "(unit, unit) pipeline_env" where
  "launched_env = sample_env\<lparr>pe_checkpoint := (\<lambda>_ _. Inr (checkpoint_get (sample_store SmolLm2_135MInstruct)))\<rparr>"

definition launched_files :: "string \<Rightarrow> string option" where
  "launched_files = [''/sys/fs/cgroup/cpu.max'' \<mapsto> show_nat 100000 @ '' 100000'' @ [CHR 0x0A],
     ''/sys/fs/cgroup/memory.max'' \<mapsto> show_nat 2147483648 @ [CHR 0x0A]]"

theorem pipeline_launch_accepted_witness:
  "\<exists>mf. plan_pipeline_launch sample_launch_env sample_pipeline_request = Inr mf \<and>
     (\<exists>stage cache. prepare_rank launched_env (member 2 1) mf (resource_snapshot_of (observe_cgroup_resources launched_files)) =
        Inr (stages (pm_partition mf) ! 1, pm_memory_plans mf ! 1, stage, cache))"
proof -
  obtain mf where mf: "plan_pipeline_launch sample_launch_env sample_pipeline_request = Inr mf" "pm_model mf = SmolLm2_135MInstruct"
    "pm_expected_cpu_millis mf = 1000" "pm_expected_memory_bytes mf = 2147483648" using sample_pipeline_launch by blast
  have "enforces launched_files (pm_expected_cpu_millis mf) (pm_expected_memory_bytes mf)"
    unfolding mf by (simp add: enforces_def launched_files_def)
  then have limits: "list_all (\<lambda>r. enforces launched_files (pm_expected_cpu_millis mf) (pm_expected_memory_bytes mf)) [0..<plr_nproc sample_pipeline_request]"
    by (simp add: list_all_iff)
  have n: "plr_nproc sample_pipeline_request = 2" "unat (plr_total_cpus sample_pipeline_request) < 2 ^ 40" by (simp_all add: sample_pipeline_request_def)
  have env: "pe_checkpoint launched_env CONTAINER_CHECKPOINT PlanF32 = Inr (checkpoint_get (sample_store SmolLm2_135MInstruct))"
    "pe_tokenizer launched_env CONTAINER_TOKENIZER = Inr sample_tokenizer"
    "op_rope_tables (pe_ops launched_env) cfg k = Inr (ones [k, 32], ones [k, 32])" for cfg k
    by (simp_all add: launched_env_def sample_env_def sample_ops_sel)
  from pipeline_launch_accepted [OF mf(1) n(2) limits env(1) sample_env_sel(2) stored_metadata_lists env(2,3)] mf(1) n(1)
  show ?thesis by (intro exI [of _ mf]) (simp add: list_all_iff Let_def)
qed

theorem tensor_launch_accepted_witness:
  "\<exists>mf m c. plan_tensor_launch sample_launch_env sample_tensor_request = Inr mf \<and>
     prepare_tensor_rank (shard_env\<lparr>te_checkpoint := (\<lambda>_. Inr (sample_store SmolLm2_135MInstruct))\<rparr>) (member 3 2) mf =
       Inr (tpp_ranks (tman_partition mf) ! 2, m, c)"
proof -
  let ?env = "shard_env\<lparr>te_checkpoint := (\<lambda>_. Inr (sample_store SmolLm2_135MInstruct))\<rparr>"
  obtain mf where mf: "plan_tensor_launch sample_launch_env sample_tensor_request = Inr mf" using sample_tensor_launch by blast
  have env: "te_checkpoint ?env CONTAINER_CHECKPOINT = Inr (sample_store SmolLm2_135MInstruct)"
    "te_tokenizer ?env CONTAINER_TOKENIZER = Inr sample_tokenizer"
    "op_rope_tables (te_ops ?env) cfg k = Inr (ones [k, 32], ones [k, 32])" for cfg k
    by (simp_all add: shard_env_def shard_ops_sel)
  have n: "tlr_tp sample_tensor_request = 3" by (simp add: sample_tensor_request_def)
  from tensor_launch_accepted [OF mf env(1) sample_env_sel(2) stored_metadata_lists env(2,3)] obtain m c where
    "list_all (\<lambda>r. prepare_tensor_rank ?env (member 3 r) mf = Inr (tpp_ranks (tman_partition mf) ! r, m r, c)) [0..<3]"
    unfolding n by blast
  then have "prepare_tensor_rank ?env (member 3 2) mf = Inr (tpp_ranks (tman_partition mf) ! 2, m 2, c)" by (simp add: list_all_iff)
  with mf show ?thesis by blast
qed

end
