(* ===== verification/Collector.thy ===== *)
theory Collector
  imports Manifests
begin

text \<open>
  The two ends of a rank's output. Inside a container, \<open>run_pipeline_rank_process\<close> and
  \<open>run_tensor_rank_process\<close> check the manifest, the checkpoint and the limits, run the rank and print
  its events and its report as lines. On the host, \<open>collect_rank_streams\<close> of \<open>cli/pipeline.rs\<close> and of
  \<open>cli/tensor.rs\<close> merges the lines of all containers, and the launcher draws up the final report.

  Parsing of lines is left out: a line is a record, or a log line when it does not parse. The
  envelope of an event (schema, run and request ids) is the same for all events of a run and
  left out too. The rank programs start on an established transport.
\<close>

section \<open>Rank processes\<close>

text \<open>Of a rank's arguments, the identity and the limits; the addresses and timeouts configure the transport.\<close>

record rank_request =
  rq_rank :: usize
  rq_world_size :: usize
  rq_expected_cpu_millis :: "u64 option"
  rq_expected_memory_bytes :: "u64 option"

definition final_memory_sample :: "run_event list \<Rightarrow> usize \<Rightarrow> resource_snapshot \<Rightarrow> run_event" where
  "final_memory_sample events r rs =
     \<lparr>ev_sequence = of_nat (length events), ev_rank = r,
      ev_event = MemorySample (rsn_memory_current_bytes rs) (rsn_memory_limit_bytes rs)\<rparr>"

definition pipeline_rank_checks ::
  "rank_request \<Rightarrow> pipeline_manifest lresult \<Rightarrow> tensor_metadata dresult \<Rightarrow> resource_observation
     \<Rightarrow> (pipeline_manifest \<times> rank \<times> resource_snapshot) lresult" where
  "pipeline_rank_checks req manifest_file tensors seen =
     rbind manifest_file (\<lambda>mf.
     if pm_schema_version mf \<noteq> 1
     then Inl (Bail (''unsupported pipeline manifest schema '' @ show_nat (unat (pm_schema_version mf))))
     else
       rbind (map_err LaunchRuntime (validate_checkpoint (spec (pm_model mf)) tensors)) (\<lambda>_.
       rbind (map_err LaunchCollectives (rank_new (rq_rank req) (rq_world_size req))) (\<lambda>rk.
       rbind (verify_resources seen (rq_expected_cpu_millis req) (rq_expected_memory_bytes req)) (\<lambda>_.
       Inr (mf, rk, resource_snapshot_of seen)))))"

definition finish_pipeline_rank ::
  "rank_request \<Rightarrow> resource_observation \<Rightarrow> pipeline_rank_report \<Rightarrow> pipeline_rank_report lresult" where
  "finish_pipeline_rank req seen rep =
     rbind (verify_resources seen (rq_expected_cpu_millis req) (rq_expected_memory_bytes req)) (\<lambda>_.
     let rs = resource_snapshot_of seen in
     Inr (rep\<lparr>prr_resources := rs, prr_events := prr_events rep @ [final_memory_sample (prr_events rep) (prr_rank rep) rs]\<rparr>))"

definition run_pipeline_rank_process ::
  "nat \<Rightarrow> ('v, 'd) pipeline_env \<Rightarrow> rank_request \<Rightarrow> pipeline_manifest lresult \<Rightarrow> tensor_metadata dresult
     \<Rightarrow> (string \<Rightarrow> string option) \<Rightarrow> (string \<Rightarrow> string option) \<Rightarrow> ('v, pipeline_rank_report lresult) prog" where
  "run_pipeline_rank_process fuel env req manifest_file tensors before after =
     pr_bind (Ret (pipeline_rank_checks req manifest_file tensors (observe_cgroup_resources before))) (\<lambda>(mf, rk, rs).
     pbind (run_pipeline_rank fuel env rk mf rs) (\<lambda>r.
     Ret (rbind (map_err LaunchPipeline r) (finish_pipeline_rank req (observe_cgroup_resources after)))))"

definition tensor_rank_checks ::
  "rank_request \<Rightarrow> tensor_parallel_manifest lresult \<Rightarrow> tensor_metadata dresult \<Rightarrow> resource_observation
     \<Rightarrow> (tensor_parallel_manifest \<times> rank \<times> resource_snapshot) lresult" where
  "tensor_rank_checks req manifest_file tensors seen =
     rbind manifest_file (\<lambda>mf.
     rbind (map_err LaunchRuntime (validate_checkpoint (spec (tman_model mf)) tensors)) (\<lambda>_.
     rbind (verify_resources seen (rq_expected_cpu_millis req) (rq_expected_memory_bytes req)) (\<lambda>_.
     rbind (map_err LaunchCollectives (rank_new (rq_rank req) (rq_world_size req))) (\<lambda>rk.
     Inr (mf, rk, resource_snapshot_of seen)))))"

definition append_final_memory_sample :: "tensor_parallel_rank_report \<Rightarrow> tensor_parallel_rank_report" where
  "append_final_memory_sample rep =
     rep\<lparr>tprr_events := tprr_events rep @ [final_memory_sample (tprr_events rep) (tprr_rank rep) (tprr_resources rep)]\<rparr>"

definition run_tensor_rank_process ::
  "('v, 'd) tensor_env \<Rightarrow> rank_request \<Rightarrow> tensor_parallel_manifest lresult \<Rightarrow> tensor_metadata dresult \<Rightarrow> peer_info list
     \<Rightarrow> (string \<Rightarrow> string option) \<Rightarrow> (string \<Rightarrow> string option) \<Rightarrow> ('v, tensor_parallel_rank_report lresult) prog" where
  "run_tensor_rank_process env req manifest_file tensors peers before after =
     pr_bind (Ret (tensor_rank_checks req manifest_file tensors (observe_cgroup_resources before))) (\<lambda>(mf, rk, rs).
     pbind (run_tensor_parallel_rank env rk mf peers rs) (\<lambda>r.
     Ret (rbind (map_err LaunchTensor r) (\<lambda>rep.
       let seen = observe_cgroup_resources after in
       rbind (verify_resources seen (rq_expected_cpu_millis req) (rq_expected_memory_bytes req)) (\<lambda>_.
       Inr (append_final_memory_sample (rep\<lparr>tprr_resources := resource_snapshot_of seen\<rparr>)))))))"

section \<open>Messages\<close>

text \<open>\<open>PipelineStreamRecord\<close> and \<open>TensorParallelStreamRecord\<close> differ in the type of the report only.\<close>

datatype 'r stream_record = StreamEvent run_event | StreamResult 'r

datatype 'r host_message =
    HostRecord usize "'r stream_record"
  | HostLog usize string
  | StreamEnded usize
  | HostExit usize int

text \<open>What a rank prints: each event when it is recorded, then the report.\<close>

definition rank_stream :: "run_event list \<Rightarrow> 'r \<Rightarrow> 'r stream_record list" where
  "rank_stream events rep = map StreamEvent events @ [StreamResult rep]"

record received_event =
  rcv_sequence :: u64
  rcv_published :: run_event

definition show_i32 :: "int \<Rightarrow> string" where
  "show_i32 n = (if n < 0 then CHR ''-'' # show_nat (nat (- n)) else show_nat (nat n))"

definition starts_with :: "string \<Rightarrow> string \<Rightarrow> bool" where
  "starts_with s p = (take (length p) s = p)"

section \<open>The collector of a pipeline\<close>

text \<open>
  \<open>co_stops\<close> counts the calls of \<open>stop_containers\<close>. Indexing is as in the code: the senders are
  spawned for the ranks of the world, so every rank is in range.
\<close>

record 'r collector =
  co_ranks :: "'r option list"
  co_events :: "received_event list"
  co_exit_codes :: "int option list"
  co_failures :: "string list"
  co_sequences :: "u64 list"
  co_ended :: "bool list"
  co_exited :: "bool list"
  co_stopped :: bool
  co_stops :: nat

definition collector_new :: "usize \<Rightarrow> 'r collector" where
  "collector_new W =
     \<lparr>co_ranks = replicate W None, co_events = [], co_exit_codes = replicate W None, co_failures = [],
      co_sequences = replicate W 0, co_ended = replicate W False, co_exited = replicate W False,
      co_stopped = False, co_stops = 0\<rparr>"

definition receive_event :: "run_event \<Rightarrow> 'r collector \<Rightarrow> 'r collector" where
  "receive_event e c =
     c\<lparr>co_events := co_events c @ [\<lparr>rcv_sequence = of_nat (length (co_events c)), rcv_published = e\<rparr>]\<rparr>"

definition add_failure :: "string \<Rightarrow> 'r collector \<Rightarrow> 'r collector" where
  "add_failure f c = c\<lparr>co_failures := co_failures c @ [f]\<rparr>"

definition stop_containers :: "'r collector \<Rightarrow> 'r collector" where
  "stop_containers c = c\<lparr>co_stopped := True, co_stops := co_stops c + 1\<rparr>"

fun collect_pipeline :: "pipeline_rank_report host_message \<Rightarrow> pipeline_rank_report collector \<Rightarrow> pipeline_rank_report collector" where
  "collect_pipeline (HostRecord r (StreamEvent e)) c =
     receive_event e
       (if ev_rank e \<noteq> r \<or> ev_sequence e \<noteq> co_sequences c ! r
        then add_failure (''rank '' @ show_nat r @ '' event sequence '' @ show_nat (unat (ev_sequence e)) @ '', expected ''
               @ show_nat (unat (co_sequences c ! r))) c
        else c\<lparr>co_sequences := (co_sequences c)[r := co_sequences c ! r + 1]\<rparr>)"
| "collect_pipeline (HostRecord r (StreamResult rep)) c =
     (if prr_rank rep \<noteq> r
      then add_failure (''rank '' @ show_nat r @ '' stream reported result for rank '' @ show_nat (prr_rank rep)) c
      else c\<lparr>co_ranks := (co_ranks c)[r := Some rep]\<rparr>)"
| "collect_pipeline (HostLog r line) c =
     (if starts_with line ''invalid rank JSON'' then add_failure (''rank '' @ show_nat r @ '': '' @ line) c else c)"
| "collect_pipeline (StreamEnded r) c = c\<lparr>co_ended := (co_ended c)[r := True]\<rparr>"
| "collect_pipeline (HostExit r code) c =
     (let c1 = c\<lparr>co_exited := (co_exited c)[r := True], co_exit_codes := (co_exit_codes c)[r := Some code]\<rparr> in
      if code \<noteq> 0 \<and> \<not> co_stopped c
      then stop_containers (add_failure (''rank '' @ show_nat r @ '' exited with code '' @ show_i32 code) c1)
      else c1)"

definition collection_over :: "'r collector \<Rightarrow> bool" where
  "collection_over c \<longleftrightarrow> list_all id (co_ended c) \<and> list_all id (co_exited c)"

text \<open>
  One round of the loop reads the interrupt flag and waits for a message, \<open>None\<close> when the wait
  times out. The list of rounds ends where the channel is disconnected.
\<close>

fun pipeline_rounds ::
  "(bool \<times> pipeline_rank_report host_message option) list \<Rightarrow> pipeline_rank_report collector \<Rightarrow> pipeline_rank_report collector" where
  "pipeline_rounds [] c = c"
| "pipeline_rounds ((interrupted, msg) # rounds) c =
     (if collection_over c then c
      else
        let c1 = (if interrupted \<and> \<not> co_stopped c then stop_containers c else c) in
        pipeline_rounds rounds (case msg of None \<Rightarrow> c1 | Some m \<Rightarrow> collect_pipeline m c1))"

fun missing_reports :: "nat \<Rightarrow> 'r option list \<Rightarrow> string list" where
  "missing_reports r [] = []"
| "missing_reports r (None # rs) = (''rank '' @ show_nat r @ '' emitted no final report'') # missing_reports (Suc r) rs"
| "missing_reports r (Some _ # rs) = missing_reports (Suc r) rs"

definition collect_rank_streams ::
  "usize \<Rightarrow> (bool \<times> pipeline_rank_report host_message option) list \<Rightarrow> bool \<Rightarrow> pipeline_rank_report collector" where
  "collect_rank_streams W rounds interrupted =
     (let c = pipeline_rounds rounds (collector_new W);
          c1 = (if interrupted then add_failure ''pipeline launch interrupted'' c else c) in
      c1\<lparr>co_failures := co_failures c1 @ missing_reports 0 (co_ranks c1)\<rparr>)"

section \<open>The collector of a tensor-parallel run\<close>

record tensor_collector =
  tco_ranks :: "tensor_parallel_rank_report option list"
  tco_events :: "received_event list"
  tco_exit_codes :: "int option list"
  tco_expected_sequence :: "u64 list"
  tco_failures :: "string list"
  tco_ended :: nat
  tco_exited :: nat
  tco_stops :: nat

definition tensor_collector_new :: "usize \<Rightarrow> tensor_collector" where
  "tensor_collector_new W =
     \<lparr>tco_ranks = replicate W None, tco_events = [], tco_exit_codes = replicate W None,
      tco_expected_sequence = replicate W 0, tco_failures = [], tco_ended = 0, tco_exited = 0, tco_stops = 0\<rparr>"

fun collect_tensor :: "tensor_parallel_rank_report host_message \<Rightarrow> tensor_collector \<Rightarrow> tensor_collector" where
  "collect_tensor (HostRecord r (StreamEvent e)) c =
     c\<lparr>tco_failures := tco_failures c @
          (if ev_rank e \<noteq> r \<or> ev_sequence e \<noteq> tco_expected_sequence c ! r
           then [''rank '' @ show_nat r @ '' event sequence mismatch: expected ''
                 @ show_nat (unat (tco_expected_sequence c ! r)) @ '', got '' @ show_nat (unat (ev_sequence e))]
           else []),
        tco_expected_sequence := (tco_expected_sequence c)[r := saturating_add (ev_sequence e) 1],
        tco_events := tco_events c @ [\<lparr>rcv_sequence = of_nat (length (tco_events c)), rcv_published = e\<rparr>]\<rparr>"
| "collect_tensor (HostRecord r (StreamResult rep)) c = c\<lparr>tco_ranks := (tco_ranks c)[r := Some rep]\<rparr>"
| "collect_tensor (HostLog r line) c = c"
| "collect_tensor (StreamEnded r) c =
     c\<lparr>tco_ended := tco_ended c + 1,
       tco_failures := tco_failures c @
          (if tco_ranks c ! r = None then [''rank '' @ show_nat r @ '' stream ended without a result''] else [])\<rparr>"
| "collect_tensor (HostExit r code) c =
     (let c1 = c\<lparr>tco_exited := tco_exited c + 1, tco_exit_codes := (tco_exit_codes c)[r := Some code]\<rparr> in
      if code \<noteq> 0
      then c1\<lparr>tco_failures := tco_failures c1 @ [''rank '' @ show_nat r @ '' exited with status '' @ show_i32 code],
              tco_stops := tco_stops c1 + 1\<rparr>
      else c1)"

text \<open>The list of messages ends where all senders are gone.\<close>

fun tensor_rounds :: "usize \<Rightarrow> tensor_parallel_rank_report host_message list \<Rightarrow> tensor_collector \<Rightarrow> tensor_collector" where
  "tensor_rounds W [] c = c"
| "tensor_rounds W (m # ms) c =
     (let c1 = collect_tensor m c in
      if tco_ended c1 = W \<and> tco_exited c1 = W then c1 else tensor_rounds W ms c1)"

definition collect_tensor_streams :: "usize \<Rightarrow> tensor_parallel_rank_report host_message list \<Rightarrow> tensor_collector" where
  "collect_tensor_streams W ms = tensor_rounds W ms (tensor_collector_new W)"

section \<open>The final report\<close>

text \<open>\<open>into_iter().flatten()\<close>: the reports that are present.\<close>

definition present :: "'r option list \<Rightarrow> 'r list" where
  "present rs = map the (filter (\<lambda>r. r \<noteq> None) rs)"

record pipeline_resource_plan =
  pr_engine_cpu_millis :: u64
  pr_engine_memory_bytes :: u64
  pr_requested_cpu_millis :: u64
  pr_requested_memory_bytes :: u64
  pr_per_rank_cpu_millis :: u64
  pr_per_rank_memory_bytes :: u64
  pr_unused_cpu_millis :: u64
  pr_unused_memory_bytes :: u64

definition pipeline_resource_report :: "docker_engine_report \<Rightarrow> resource_plan \<Rightarrow> pipeline_resource_plan" where
  "pipeline_resource_report engine plan =
     \<lparr>pr_engine_cpu_millis = de_cpu_millis engine, pr_engine_memory_bytes = de_memory_bytes engine,
      pr_requested_cpu_millis = rp_requested_cpu_millis plan, pr_requested_memory_bytes = rp_requested_memory_bytes plan,
      pr_per_rank_cpu_millis = rp_per_rank_cpu_millis plan, pr_per_rank_memory_bytes = rp_per_rank_memory_bytes plan,
      pr_unused_cpu_millis = rp_unused_cpu_millis plan, pr_unused_memory_bytes = rp_unused_memory_bytes plan\<rparr>"

record pipeline_report =
  plp_schema_version :: u32
  plp_run_id :: string
  plp_request_id :: string
  plp_model :: supported_model_id
  plp_repository :: string
  plp_revision :: string
  plp_device :: string
  plp_dtype :: plan_dtype
  plp_backend :: string
  plp_world_size :: usize
  plp_tensor_parallel :: usize
  plp_pipeline_parallel :: usize
  plp_expert_parallel :: usize
  plp_partition :: pipeline_partition
  plp_model_parameters :: u64
  plp_materialized_parameters :: u64
  plp_duplicated_parameters :: u64
  plp_resources :: pipeline_resource_plan
  plp_prompt_tokens :: usize
  plp_requested_max_new_tokens :: usize
  plp_generated_tokens :: "u32 list"
  plp_completion :: string
  plp_stop_reason :: stop_reason
  plp_ranks :: "pipeline_rank_report list"
  plp_events :: "received_event list"
  plp_decode_forward_count :: usize
  plp_communication_bytes :: u64
  plp_failures :: "string list"
  plp_success :: bool

definition pipeline_launch_report ::
  "pipeline_launch_request \<Rightarrow> pipeline_manifest \<Rightarrow> docker_engine_report \<Rightarrow> resource_plan
     \<Rightarrow> pipeline_rank_report collector \<Rightarrow> pipeline_report" where
  "pipeline_launch_report req mf engine res c =
     (let s = spec (plr_model req);
          rank_zero = (case co_ranks c of r # _ \<Rightarrow> r | [] \<Rightarrow> None);
          ranks = present (co_ranks c);
          materialized = sum_list (map smp_materialized_parameters (pm_memory_plans mf)) in
      \<lparr>plp_schema_version = 1, plp_run_id = pm_run_id mf, plp_request_id = pm_request_id mf, plp_model = plr_model req,
       plp_repository = repository s, plp_revision = revision s, plp_device = ''cpu'', plp_dtype = plr_dtype req,
       plp_backend = ''tcp'', plp_world_size = plr_nproc req, plp_tensor_parallel = 1, plp_pipeline_parallel = plr_nproc req,
       plp_expert_parallel = 1, plp_partition = pm_partition mf, plp_model_parameters = expected_parameters s,
       plp_materialized_parameters = materialized,
       plp_duplicated_parameters = saturating_sub materialized (expected_parameters s),
       plp_resources = pipeline_resource_report engine res, plp_prompt_tokens = length (pm_prompt_token_ids mf),
       plp_requested_max_new_tokens = plr_max_new_tokens req,
       plp_generated_tokens = (case rank_zero of Some r \<Rightarrow> prr_generated_tokens r | None \<Rightarrow> []),
       plp_completion = (case rank_zero of Some r \<Rightarrow> prr_completion r | None \<Rightarrow> []),
       plp_stop_reason = (case rank_zero of Some r \<Rightarrow> prr_stop_reason r | None \<Rightarrow> MaxNewTokens),
       plp_ranks = ranks, plp_events = co_events c,
       plp_decode_forward_count =
         (case find (\<lambda>r. prr_rank r = 0) ranks of Some r \<Rightarrow> prr_decode_forward_count r | None \<Rightarrow> 0),
       plp_communication_bytes = sum_list (map (\<lambda>r. tensor_bytes_sent (prr_communication r)
         + control_bytes_sent (prr_communication r)) ranks),
       plp_failures = co_failures c,
       plp_success = (co_failures c = [] \<and> length ranks = plr_nproc req \<and> list_all prr_success ranks \<and>
         list_all (\<lambda>code. code = Some 0) (co_exit_codes c))\<rparr>)"

record tensor_parallel_report =
  tpr_schema_version :: u32
  tpr_run_id :: string
  tpr_request_id :: string
  tpr_model :: supported_model_id
  tpr_repository :: string
  tpr_revision :: string
  tpr_dtype :: plan_dtype
  tpr_transport :: string
  tpr_collective_backend :: string
  tpr_all_reduce :: all_reduce_algorithm
  tpr_tensor_parallel :: usize
  tpr_pipeline_parallel :: usize
  tpr_expert_parallel :: usize
  tpr_partition :: tensor_parallel_partition
  tpr_resources :: pipeline_resource_plan
  tpr_prompt_tokens :: usize
  tpr_generated_tokens :: "u32 list"
  tpr_completion :: string
  tpr_stop_reason :: stop_reason
  tpr_ranks :: "tensor_parallel_rank_report list"
  tpr_events :: "received_event list"
  tpr_communication_bytes :: u64
  tpr_failures :: "string list"
  tpr_success :: bool

text \<open>\<open>resource_report\<close> of \<open>cli/tensor.rs\<close> fills the same fields as \<open>pipeline_resource_report\<close>.\<close>

definition tensor_launch_report ::
  "tensor_launch_request \<Rightarrow> tensor_parallel_manifest \<Rightarrow> docker_engine_report \<Rightarrow> resource_plan \<Rightarrow> tensor_collector
     \<Rightarrow> tensor_parallel_report" where
  "tensor_launch_report req mf engine res c =
     (let s = spec (tlr_model req);
          ranks = sort_key tprr_rank (present (tco_ranks c));
          rank_zero = find (\<lambda>r. tprr_rank r = 0) ranks in
      \<lparr>tpr_schema_version = 1, tpr_run_id = tman_run_id mf, tpr_request_id = tman_request_id mf, tpr_model = tlr_model req,
       tpr_repository = repository s, tpr_revision = revision s, tpr_dtype = tlr_dtype req, tpr_transport = ''tcp'',
       tpr_collective_backend = ''native'', tpr_all_reduce = tlr_all_reduce req, tpr_tensor_parallel = tlr_tp req,
       tpr_pipeline_parallel = 1, tpr_expert_parallel = 1, tpr_partition = tman_partition mf,
       tpr_resources = pipeline_resource_report engine res, tpr_prompt_tokens = length (tman_prompt_token_ids mf),
       tpr_generated_tokens = (case rank_zero of Some r \<Rightarrow> tprr_generated_tokens r | None \<Rightarrow> []),
       tpr_completion = (case rank_zero of Some r \<Rightarrow> tprr_completion r | None \<Rightarrow> []),
       tpr_stop_reason = (case rank_zero of Some r \<Rightarrow> tprr_stop_reason r | None \<Rightarrow> MaxNewTokens),
       tpr_ranks = ranks, tpr_events = tco_events c,
       tpr_communication_bytes = sum_list (map tprr_sent_bytes ranks), tpr_failures = tco_failures c,
       tpr_success = (tco_failures c = [] \<and> length ranks = tlr_tp req \<and> list_all tprr_success ranks \<and>
         list_all (\<lambda>code. code = Some 0) (tco_exit_codes c))\<rparr>)"

end
