(* ===== verification/RankEvents.thy ===== *)
theory RankEvents
  imports Collector
begin

text \<open>
  What a rank program can return, whatever the other ranks send: the events in its report are
  counted from zero without a gap and carry its rank.
\<close>

section \<open>Returned values\<close>

inductive may_return :: "('v, 'r) prog \<Rightarrow> 'r \<Rightarrow> bool" where
  ret: "may_return (Ret x) x"
| send: "may_return k x \<Longrightarrow> may_return (Send d t p k) x"
| recv: "may_return (k p) x \<Longrightarrow> may_return (Recv s q t k) x"
| barrier: "may_return k x \<Longrightarrow> may_return (Barrier k) x"

inductive_simps may_return_Ret_iff: "may_return (Ret y) x"

lemma may_return_Ret [simp]: "may_return (Ret y) x \<longleftrightarrow> y = x"
  by (auto simp: may_return_Ret_iff)

inductive_simps may_return_simps [simp]:
  "may_return (Fail e) x"
  "may_return (Send d t p k) x"
  "may_return (Recv s q t k) x"
  "may_return (Barrier k) x"

lemma may_return_pbind [simp]: "may_return (pbind m f) y \<longleftrightarrow> (\<exists>x. may_return m x \<and> may_return (f x) y)"
  by (induction m) auto

lemma may_return_pr_bind [simp]:
  "may_return (pr_bind m f) (Inr y) \<longleftrightarrow> (\<exists>x. may_return m (Inr x) \<and> may_return (f x) (Inr y))"
  unfolding pr_bind_def by (auto split: sum.splits) (metis sum.exhaust)

text \<open>In a world, every rank returns a value its program can return.\<close>

lemma step_may_return:
  assumes "world_step W w w'" "may_return (progs w' r) x" "r < W"
  shows "may_return (progs w r) x"
proof -
  obtain i where i: "exec_rank W i w = Some w'" "i < W" using assms(1) by (auto elim: world_stepE)
  show ?thesis
  proof (cases "is_barrier (progs w i)")
    case True
    then have "\<forall>j < W. is_barrier (progs w j)" "w' = w\<lparr>progs := (\<lambda>j. if j < W then after_barrier (progs w j) else progs w j)\<rparr>"
      using i(1) by (auto simp: exec_rank_def split: prog.splits if_splits option.splits)
    then show ?thesis using assms(2,3) by (cases "progs w r") auto
  next
    case False
    with i(1) show ?thesis
      by (cases rule: exec_cases) (use assms(2) in \<open>auto split: if_splits\<close>)
  qed
qed

lemma run_may_return:
  assumes "reach W (start W f) (start W (\<lambda>r. Ret (res r)))" "r < W"
  shows "may_return (f r) (res r)"
proof -
  have "may_return (progs w r) x \<longrightarrow> may_return (progs (start W f) r) x" if "reach W (start W f) w" for w x
    using that
  proof (induction rule: rtranclp_induct)
    case (step u v)
    then show ?case using step_may_return [OF step(2) _ assms(2)] by simp
  qed simp
  from this [OF assms(1), of "res r"] show ?thesis using assms(2) by (simp add: start_def)
qed

section \<open>Numbered events\<close>

definition events_numbered :: "usize \<Rightarrow> run_event list \<Rightarrow> bool" where
  "events_numbered r es \<longleftrightarrow> (\<forall>i < length es. ev_sequence (es ! i) = of_nat i \<and> ev_rank (es ! i) = r)"

lemma events_numbered_Nil [simp]: "events_numbered r []"
  by (simp add: events_numbered_def)

lemma events_numbered_snoc [simp]:
  "events_numbered r (es @ [e]) \<longleftrightarrow> events_numbered r es \<and> ev_sequence e = of_nat (length es) \<and> ev_rank e = r"
  by (auto simp: events_numbered_def nth_append less_Suc_eq)

definition records_for :: "usize \<Rightarrow> event_recorder \<Rightarrow> bool" where
  "records_for r rec \<longleftrightarrow> er_rank rec = r \<and> recorder_ok rec"

lemma records_numbered: "records_for r rec \<Longrightarrow> events_numbered r (er_events rec)"
  by (auto simp: records_for_def recorder_ok_def events_numbered_def)

lemma records_new [simp]: "records_for r (recorder_new r)"
  by (simp add: records_for_def recorder_new_ok) (simp add: recorder_new_def)

lemma records_emit [simp]: "records_for r rec \<Longrightarrow> records_for r (emit k rec)"
  by (simp add: records_for_def emit_ok)

section \<open>Pipeline ranks\<close>

abbreviation records_at :: "usize \<Rightarrow> ('v, 'd) rank_state \<Rightarrow> bool" where
  "records_at r s \<equiv> records_for r (rs_recorder s)"

lemma emit_st_records [simp]: "records_at r s \<Longrightarrow> records_at r (emit_st k s)"
  by (simp add: emit_st_def)

lemma emit_layers_records: "records_at r s \<Longrightarrow> records_at r (emit_layers phase step ls s)"
  by (induction ls arbitrary: s) auto

lemma memory_sample_records [simp]: "records_at r s \<Longrightarrow> records_at r (memory_sample rs s)"
  by (simp add: memory_sample_def)

named_theorems keeps_records \<open>operations of a rank that keep its events in sequence\<close>

lemma send_activation_records [keeps_records]:
  "may_return (send_activation rk d t phase step s) (Inr s') \<Longrightarrow> records_at r s \<Longrightarrow> records_at r s'"
  by (auto simp: send_activation_def Let_def)

lemma recv_activation_records [keeps_records]:
  "may_return (recv_activation rk src phase step s) (Inr (t, s')) \<Longrightarrow> records_at r s \<Longrightarrow> records_at r s'"
  by (auto simp: recv_activation_def Let_def)

lemma send_control_records [keeps_records]:
  "may_return (send_pipeline_control env rk d tag c purpose phase step s) (Inr s') \<Longrightarrow> records_at r s \<Longrightarrow> records_at r s'"
  by (auto simp: send_pipeline_control_def Let_def)

lemma recv_control_records [keeps_records]:
  "may_return (recv_pipeline_control env rk src tag purpose phase step s) (Inr (c, s')) \<Longrightarrow> records_at r s \<Longrightarrow> records_at r s'"
  by (auto simp: recv_pipeline_control_def Let_def)

lemma barrier_records [keeps_records]:
  "may_return (observed_barrier g s) (Inr s') \<Longrightarrow> records_at r s \<Longrightarrow> records_at r s'"
  by (auto simp: observed_barrier_def Let_def)

lemma begin_phase_records: "records_at r s \<Longrightarrow> records_at r (begin_phase mf s)"
  by (auto simp: begin_phase_def split: execution_phase.splits)

lemma stage_result_records: "stage_result cx x s = Inr (h, s') \<Longrightarrow> records_at r s \<Longrightarrow> records_at r s'"
  by (auto simp: stage_result_def intro!: emit_layers_records)

lemma compute_stage_records [keeps_records]:
  "may_return (compute_stage env cx s) (Inr (h, s')) \<Longrightarrow> records_at r s \<Longrightarrow> records_at r s'"
  by (auto simp: compute_stage_def Let_def dest!: keeps_records intro: stage_result_records split: if_splits)

lemma forward_result_records [keeps_records]:
  "may_return (forward_result env cx h s) (Inr s') \<Longrightarrow> records_at r s \<Longrightarrow> records_at r s'"
  by (auto simp: forward_result_def Let_def dest: keeps_records split: if_splits)

lemma decide_records: "decide cx t s = Inr (d, s') \<Longrightarrow> records_at r s \<Longrightarrow> records_at r s'"
  by (auto simp: decide_def Let_def split: if_splits)

lemma send_decisions_records [keeps_records]:
  "may_return (send_decisions env rk c step ds s) (Inr s') \<Longrightarrow> records_at r s \<Longrightarrow> records_at r s'"
  by (induction ds arbitrary: s) (auto dest: keeps_records)

lemma may_return_control [simp]:
  "may_return (case c of Token n t \<Rightarrow> f n t | Decision n d \<Rightarrow> g n d) x \<longleftrightarrow>
     (\<exists>n t. c = Token n t \<and> may_return (f n t) x) \<or> (\<exists>n d. c = Decision n d \<and> may_return (g n d) x)"
  by (cases c) auto

lemma exchange_decision_records [keeps_records]:
  "may_return (exchange_decision env cx s) (Inr (d, s')) \<Longrightarrow> records_at r s \<Longrightarrow> records_at r s'"
  by (auto simp: exchange_decision_def Let_def split: if_splits
      dest!: recv_control_records decide_records send_decisions_records)

lemma end_phase_records: "records_at r s \<Longrightarrow> records_at r (end_phase cx s)"
  by (auto simp: end_phase_def split: execution_phase.splits)

lemma pipeline_round_records:
  "may_return (pipeline_round env cx s) (Inr (d, s')) \<Longrightarrow> records_at r s \<Longrightarrow> records_at r s'"
  by (auto simp: pipeline_round_def intro!: end_phase_records begin_phase_records
      dest!: compute_stage_records forward_result_records exchange_decision_records)

lemma pipeline_loop_records:
  "may_return (pipeline_loop fuel env cx s) (Inr (reason, s')) \<Longrightarrow> records_at r s \<Longrightarrow> records_at r s'"
proof (induction fuel arbitrary: s)
  case (Suc fuel)
  from Suc.prems(1) obtain d s1 where round: "may_return (pipeline_round env cx s) (Inr (d, s1))"
    and rest: "may_return (case d of Continue \<Rightarrow> pipeline_loop fuel env cx (s1\<lparr>rs_step := rs_step s1 + 1\<rparr>) | Stop reason \<Rightarrow> Ret (Inr (reason, s1))) (Inr (reason, s'))"
    by auto
  from pipeline_round_records [OF round Suc.prems(2)] have "records_at r s1" .
  then show ?case using rest Suc.IH [of "s1\<lparr>rs_step := rs_step s1 + 1\<rparr>"] by (cases d) auto
qed simp

lemma pipeline_rank_returns:
  fixes env :: "('v, 'd) pipeline_env"
  assumes "may_return (run_pipeline_rank fuel env rk mf rs) (Inr rep)"
  shows "events_numbered (global_rank rk) (prr_events rep)" "prr_success rep"
    "prr_rank rep = sa_rank (stages (pm_partition mf) ! global_rank rk)"
proof -
  let ?r = "global_rank rk"
  from assms obtain a memory stage cache where prep: "prepare_rank env rk mf rs = Inr (a, memory, stage, cache)"
    by (auto simp: run_pipeline_rank_def)
  have a: "a = stages (pm_partition mf) ! ?r" using prep by (auto simp: prepare_rank_def partition_stage_def Let_def split: if_splits)
  define st1 :: "('v, 'd) rank_state" where "st1 = memory_sample rs (emit_st ModelLoadFinished (emit_st ModelLoadStarted (memory_sample rs
      \<lparr>rs_cache = cache, rs_tokens = [], rs_stream = None, rs_previous = None, rs_step = 0, rs_decode_forward_count = 0,
       rs_communication = communication_default, rs_recorder = recorder_new ?r\<rparr>)))"
  have st1: "records_at ?r st1" by (simp add: st1_def)
  from assms obtain st2 cx stream reason st3 st4 where
    run: "may_return (observed_barrier 0 st1) (Inr st2)"
      "may_return (pipeline_loop fuel env cx (st2\<lparr>rs_stream := stream\<rparr>)) (Inr (reason, st3))"
      "may_return (observed_barrier 1 (emit_st (GenerationFinished reason) st3)) (Inr st4)"
    and rep: "prr_events rep = er_events (rs_recorder st4)" "prr_success rep" "prr_rank rep = sa_rank a"
    unfolding run_pipeline_rank_def prep Let_def by (auto simp: st1_def)
  from barrier_records [OF run(1) st1] have "records_at ?r (st2\<lparr>rs_stream := stream\<rparr>)" by simp
  from pipeline_loop_records [OF run(2) this] have "records_at ?r (emit_st (GenerationFinished reason) st3)" by simp
  from barrier_records [OF run(3) this] show "events_numbered ?r (prr_events rep)" unfolding rep(1) by (rule records_numbered)
  show "prr_success rep" "prr_rank rep = sa_rank (stages (pm_partition mf) ! ?r)" using rep a by simp_all
qed

lemma pipeline_process_returns:
  assumes "may_return (run_pipeline_rank_process fuel env req (Inr mf) tensors before after) (Inr rep)"
    and "balanced (spec (pm_model mf)) (rq_world_size req) = Inr (pm_partition mf)"
  shows "events_numbered (rq_rank req) (prr_events rep)" "prr_success rep" "prr_rank rep = rq_rank req"
proof -
  from assms(1) obtain rk rep0 rs where rk: "rank_new (rq_rank req) (rq_world_size req) = Inr rk"
    and run: "may_return (run_pipeline_rank fuel env rk mf rs) (Inr rep0)"
    and fin: "finish_pipeline_rank req (observe_cgroup_resources after) rep0 = Inr rep"
    by (auto simp: run_pipeline_rank_process_def pipeline_rank_checks_def split: if_splits)
  have r: "global_rank rk = rq_rank req" "rq_rank req < rq_world_size req" using rk by (auto simp: rank_new_def split: if_splits)
  note p = pipeline_rank_returns [OF run]
  have rank: "prr_rank rep0 = rq_rank req" using p(3) balanced_stage_sel(1) [OF assms(2) r(2)] r(1) by simp
  with fin p r(1) show "events_numbered (rq_rank req) (prr_events rep)" "prr_success rep" "prr_rank rep = rq_rank req"
    by (auto simp: finish_pipeline_rank_def final_memory_sample_def Let_def)
qed


section \<open>Tensor-parallel ranks\<close>

text \<open>
  The layers report to an observer and do not touch its state otherwise: what every report of
  the observer keeps, the forward pass keeps.
\<close>

locale observer_invariant =
  fixes ob :: "'o tp_observer" and P :: "'o \<Rightarrow> bool"
  assumes started: "P o' \<Longrightarrow> P (ob_layer_started ob l o')"
    and completed: "P o' \<Longrightarrow> P (ob_layer_completed ob l o')"
    and collective: "P o' \<Longrightarrow> P (ob_collective ob e o')"
begin

lemma collectives_keep: "P o' \<Longrightarrow> P (fold (ob_collective ob) es o')"
  by (induction es arbitrary: o') (auto intro: collective)

lemma observe_call_keeps:
  "may_return (observe_call ob f s) (Inr (t, s')) \<Longrightarrow> P (ts_observer s) \<Longrightarrow> P (ts_observer s')"
  by (auto simp: observe_call_def intro!: collectives_keep)

lemma row_keeps: "may_return (row_forward ops ob l x s) (Inr (t, s')) \<Longrightarrow> P (ts_observer s) \<Longrightarrow> P (ts_observer s')"
  by (auto simp: row_forward_def dest: observe_call_keeps)

lemma block_keeps:
  "may_return (tp_block_forward ops ob b x pos layer rp s) (Inr (t, s')) \<Longrightarrow> P (ts_observer s) \<Longrightarrow> P (ts_observer s')"
  by (auto simp: tp_block_forward_def tp_attention_forward_def tp_mlp_forward_def dest!: row_keeps)

lemma blocks_keep:
  "may_return (tp_forward_blocks ops ob rp pos layer bs x s) (Inr (t, s')) \<Longrightarrow> P (ts_observer s) \<Longrightarrow> P (ts_observer s')"
proof (induction bs arbitrary: layer x s)
  case (Cons b bs)
  from Cons.prems(1) obtain y s1 where
    blk: "may_return (tp_block_forward ops ob b x pos layer rp (s\<lparr>ts_observer := ob_layer_started ob layer (ts_observer s)\<rparr>)) (Inr (y, s1))"
    and rest: "may_return (tp_forward_blocks ops ob rp pos (Suc layer) bs y
        (s1\<lparr>ts_observer := ob_layer_completed ob layer (ts_observer s1)\<rparr>)) (Inr (t, s'))" by auto
  from block_keeps [OF blk] Cons.prems(2) have "P (ts_observer s1)" by (simp add: started)
  with Cons.IH [OF rest] show ?case by (simp add: completed)
qed simp

lemma column_keeps: "may_return (column_forward ops ob l x s) (Inr (t, s')) \<Longrightarrow> P (ts_observer s) \<Longrightarrow> P (ts_observer s')"
  unfolding column_forward_def Let_def by (auto split: if_splits dest: observe_call_keeps)

lemma forward_keeps:
  "may_return (tp_forward_observed ops sc ob m ids pos s) (Inr (t, s')) \<Longrightarrow> P (ts_observer s) \<Longrightarrow> P (ts_observer s')"
  by (auto simp: tp_forward_observed_def embedding_forward_def dest!: observe_call_keeps blocks_keep column_keeps)

end

interpretation rec: observer_invariant "event_observer phase step" "records_for r" for phase step r
proof
  fix rec :: event_recorder and l e
  assume r: "records_for r rec"
  then show "records_for r (ob_layer_started (event_observer phase step) l rec)"
    "records_for r (ob_layer_completed (event_observer phase step) l rec)" by (simp_all add: event_observer_def)
  show "records_for r (ob_collective (event_observer phase step) e rec)"
    using r by (cases e) (simp_all add: event_observer_def)
qed

abbreviation records_run :: "usize \<Rightarrow> 'v tensor_run \<Rightarrow> bool" where
  "records_run r rs \<equiv> records_for r (ts_observer (tru_tp rs))"

lemma emit_run_records [simp]: "records_run r rs \<Longrightarrow> records_run r (emit_run k rs)"
  by (simp add: emit_run_def)

lemma tensor_barrier_records: "may_return (tensor_barrier g rs) (Inr rs') \<Longrightarrow> records_run r rs \<Longrightarrow> records_run r rs'"
  by (auto simp: tensor_barrier_def Let_def)

lemma forward_step_records:
  "may_return (forward_step cx step rs) (Inr (t, rs')) \<Longrightarrow> records_run r rs \<Longrightarrow> records_run r rs'"
  by (auto simp: forward_step_def lift_runtime_def dest: rec.forward_keeps)

lemma send_token_decisions_records:
  "may_return (send_token_decisions rk tag bytes step ds rs) (Inr rs') \<Longrightarrow> records_run r rs \<Longrightarrow> records_run r rs'"
  by (induction ds arbitrary: rs) auto

lemma exchange_token_records:
  "may_return (exchange_token cx step logits rs) (Inr (d, rs')) \<Longrightarrow> records_run r rs \<Longrightarrow> records_run r rs'"
  by (auto simp: exchange_token_def Let_def split: if_splits dest: send_token_decisions_records)

lemma accept_decision_records: "accept_decision cx step d rs = Inr rs' \<Longrightarrow> records_run r rs \<Longrightarrow> records_run r rs'"
  by (auto simp: accept_decision_def Let_def split: if_splits)

lemma tensor_step_records:
  "may_return (tensor_step cx step rs) (Inr (d, rs')) \<Longrightarrow> records_run r rs \<Longrightarrow> records_run r rs'"
  by (auto simp: tensor_step_def start_step_def split: if_splits
      dest!: forward_step_records exchange_token_records accept_decision_records)

lemma tensor_loop_records:
  "may_return (tensor_loop cx steps rs) (Inr (stop, rs')) \<Longrightarrow> records_run r rs \<Longrightarrow> records_run r rs'"
proof (induction steps arbitrary: rs)
  case (Cons step steps)
  from Cons.prems(1) obtain d rs1 where step: "may_return (tensor_step cx step rs) (Inr (d, rs1))"
    and rest: "rs' = rs1 \<or> (\<exists>n. may_return (tensor_loop cx steps (rs1\<lparr>tru_position := tru_position rs1 + n,
       tru_input := token_input [td_token d]\<rparr>)) (Inr (stop, rs')))" by (auto split: if_splits)
  from tensor_step_records [OF step Cons.prems(2)] have "records_run r rs1" .
  with rest Cons.IH show ?case by fastforce
qed simp

lemma tensor_rank_returns:
  fixes env :: "('v, 'd) tensor_env"
  assumes "may_return (run_tensor_parallel_rank env rk mf peers rsn) (Inr rep)"
  shows "events_numbered (global_rank rk) (tprr_events rep)" "tprr_success rep" "tprr_rank rep = global_rank rk"
proof -
  let ?r = "global_rank rk"
  from assms obtain memory m cache where prep: "prepare_tensor_rank env rk mf = Inr (memory, m, cache)"
    by (auto simp: run_tensor_parallel_rank_def)
  define rs0 :: "'v tensor_run" where "rs0 = \<lparr>tru_tp = \<lparr>ts_cache = cache, ts_collectives = native_new rk,
      ts_observer = emit ModelLoadFinished (emit ModelLoadStarted (emit (MemorySample (rsn_memory_current_bytes rsn)
        (rsn_memory_limit_bytes rsn)) (recorder_new ?r)))\<rparr>,
      tru_input = token_input (tman_prompt_token_ids mf), tru_position = 0, tru_tokens = [], tru_decode_forward_count = 0\<rparr>"
  have rs0: "records_run ?r rs0" by (simp add: rs0_def)
  from assms obtain rs1 and cx :: "('v, 'd) tensor_context" and stop rs2 reason rs3 where
    run: "may_return (tensor_barrier 0 rs0) (Inr rs1)" "may_return (tensor_loop cx [0..<tman_effective_max_new_tokens mf] rs1) (Inr (stop, rs2))"
      "may_return (tensor_barrier 1 (emit_run (GenerationFinished reason) rs2)) (Inr rs3)"
    and rep: "tprr_events rep = er_events (ts_observer (tru_tp rs3))" "tprr_success rep" "tprr_rank rep = ?r"
    unfolding run_tensor_parallel_rank_def prep Let_def by (auto simp: rs0_def)
  from tensor_barrier_records [OF run(1) rs0] tensor_loop_records [OF run(2)]
  have "records_run ?r (emit_run (GenerationFinished reason) rs2)" by simp
  from tensor_barrier_records [OF run(3) this] show "events_numbered ?r (tprr_events rep)" unfolding rep(1) by (rule records_numbered)
  show "tprr_success rep" "tprr_rank rep = ?r" using rep by simp_all
qed

lemma tensor_process_returns:
  assumes "may_return (run_tensor_rank_process env req (Inr mf) tensors peers before after) (Inr rep)"
  shows "events_numbered (rq_rank req) (tprr_events rep)" "tprr_success rep" "tprr_rank rep = rq_rank req"
proof -
  from assms obtain rk rep0 rs seen where rk: "rank_new (rq_rank req) (rq_world_size req) = Inr rk"
    and run: "may_return (run_tensor_parallel_rank env rk mf peers rs) (Inr rep0)"
    and rep: "rep = append_final_memory_sample (rep0\<lparr>tprr_resources := resource_snapshot_of seen\<rparr>)"
    by (auto simp: run_tensor_rank_process_def tensor_rank_checks_def Let_def)
  have r: "global_rank rk = rq_rank req" using rk by (auto simp: rank_new_def split: if_splits)
  from tensor_rank_returns [OF run] show "events_numbered (rq_rank req) (tprr_events rep)" "tprr_success rep" "tprr_rank rep = rq_rank req"
    unfolding rep r by (simp_all add: append_final_memory_sample_def final_memory_sample_def)
qed

end
