(* ===== verification/CollectorProofs.thy ===== *)
theory CollectorProofs
  imports RankEvents
begin

text \<open>
  The host's view of a run. Both collectors refine one specification on acceptable messages;
  whatever the interleaving of the ranks' streams, the final report is complete and positive.
\<close>

section \<open>Streams inside the messages\<close>

fun message_rank :: "'r host_message \<Rightarrow> usize" where
  "message_rank (HostRecord r _) = r"
| "message_rank (HostLog r _) = r"
| "message_rank (StreamEnded r) = r"
| "message_rank (HostExit r _) = r"

fun record_from :: "usize \<Rightarrow> 'r host_message \<Rightarrow> 'r stream_record list" where
  "record_from r (HostRecord r' x) = (if r' = r then [x] else [])"
| "record_from r _ = []"

definition records_of :: "usize \<Rightarrow> 'r host_message list \<Rightarrow> 'r stream_record list" where
  "records_of r ms = concat (map (record_from r) ms)"

fun event_in :: "'r stream_record \<Rightarrow> run_event list" where
  "event_in (StreamEvent e) = [e]"
| "event_in (StreamResult _) = []"

fun published_in :: "'r host_message \<Rightarrow> run_event list" where
  "published_in (HostRecord r x) = event_in x"
| "published_in _ = []"

definition published :: "'r host_message list \<Rightarrow> run_event list" where
  "published ms = concat (map published_in ms)"

lemma records_simps [simp]:
  "records_of r [] = []" "records_of r (m # ms) = record_from r m @ records_of r ms"
  "records_of r (ms @ ms') = records_of r ms @ records_of r ms'"
  by (simp_all add: records_of_def)

lemma published_simps [simp]:
  "published [] = []" "published (m # ms) = published_in m @ published ms" "published (ms @ ms') = published ms @ published ms'"
  by (simp_all add: published_def)

text \<open>
  A run delivers its streams: of every rank the records arrive in order and all before the end
  of its stream, the stream ends once, the container exits once with status 0, and no line was
  unreadable. Nothing is said of the order between ranks, or of exits and records.
\<close>

definition delivers :: "usize \<Rightarrow> (usize \<Rightarrow> run_event list) \<Rightarrow> (usize \<Rightarrow> 'r) \<Rightarrow> 'r host_message list \<Rightarrow> bool" where
  "delivers W events rep ms \<longleftrightarrow>
     list_all (\<lambda>m. message_rank m < W \<and>
       (case m of HostLog _ line \<Rightarrow> \<not> starts_with line ''invalid rank JSON'' | HostExit _ code \<Rightarrow> code = 0 | _ \<Rightarrow> True)) ms \<and>
     list_all (\<lambda>r. records_of r ms = rank_stream (events r) (rep r) \<and>
       records_of r (dropWhile (\<lambda>m. m \<noteq> StreamEnded r) ms) = [] \<and>
       count_list ms (StreamEnded r) = 1 \<and> count_list ms (HostExit r 0) = 1) [0..<W]"

lemma rank_stream_split:
  assumes "rank_stream es rep = xs @ y # ys"
  shows "(\<exists>e. y = StreamEvent e \<and> xs = map StreamEvent (take (length xs) es) \<and> length xs < length es \<and> e = es ! length xs) \<or>
     (y = StreamResult rep \<and> xs = map StreamEvent es \<and> ys = [])"
proof (cases "length xs < length es")
  case True
  have "y = rank_stream es rep ! length xs" "xs = take (length xs) (rank_stream es rep)" using assms by simp_all
  with True show ?thesis by (simp add: rank_stream_def nth_append take_map)
next
  case False
  have "length (xs @ y # ys) = Suc (length es)" using assms by (metis length_append_singleton length_map rank_stream_def)
  with False have "length ys = 0" unfolding length_append list.size by linarith
  then have ys: "ys = []" by simp
  with assms show ?thesis by (simp add: rank_stream_def)
qed

lemma dropWhile_first: "x \<notin> set a \<Longrightarrow> dropWhile (\<lambda>m. m \<noteq> x) (a @ x # b) = x # b"
  by (induction a) auto

lemma after_end:
  assumes "records_of r (dropWhile (\<lambda>m. m \<noteq> StreamEnded r) (p @ q)) = []" "StreamEnded r \<in> set p"
  shows "records_of r q = []"
proof -
  obtain a b where p: "p = a @ StreamEnded r # b" "StreamEnded r \<notin> set a" using split_list_first [OF assms(2)] by blast
  then have "dropWhile (\<lambda>m. m \<noteq> StreamEnded r) (p @ q) = StreamEnded r # b @ q" by (simp add: dropWhile_first)
  with assms(1) show ?thesis by simp
qed

section \<open>Specification\<close>

record 'r host_view =
  hv_ranks :: "'r option list"
  hv_events :: "received_event list"
  hv_codes :: "int option list"
  hv_sequences :: "u64 list"
  hv_failures :: "string list"

definition host_view_new :: "usize \<Rightarrow> 'r host_view" where
  "host_view_new W = \<lparr>hv_ranks = replicate W None, hv_events = [], hv_codes = replicate W None, hv_sequences = replicate W 0, hv_failures = []\<rparr>"

fun accept :: "'r host_message \<Rightarrow> 'r host_view \<Rightarrow> 'r host_view" where
  "accept (HostRecord r (StreamEvent e)) v =
     v\<lparr>hv_sequences := (hv_sequences v)[r := hv_sequences v ! r + 1],
       hv_events := hv_events v @ [\<lparr>rcv_sequence = of_nat (length (hv_events v)), rcv_published = e\<rparr>]\<rparr>"
| "accept (HostRecord r (StreamResult rep)) v = v\<lparr>hv_ranks := (hv_ranks v)[r := Some rep]\<rparr>"
| "accept (HostLog _ _) v = v"
| "accept (StreamEnded _) v = v"
| "accept (HostExit r code) v = v\<lparr>hv_codes := (hv_codes v)[r := Some code]\<rparr>"

text \<open>
  A report must come from its own rank, an event must have the expected number. A collector that
  computes the next number with saturation (\<open>sat\<close>) has no number after the largest one.
\<close>

fun acceptable :: "bool \<Rightarrow> ('r \<Rightarrow> usize) \<Rightarrow> 'r host_view \<Rightarrow> 'r host_message \<Rightarrow> bool" where
  "acceptable sat rank_of v (HostRecord r (StreamEvent e)) \<longleftrightarrow>
     ev_rank e = r \<and> ev_sequence e = hv_sequences v ! r \<and> (sat \<longrightarrow> ev_sequence e \<noteq> - 1)"
| "acceptable sat rank_of v (HostRecord r (StreamResult rep)) \<longleftrightarrow> rank_of rep = r"
| "acceptable sat rank_of v (HostLog r line) \<longleftrightarrow> \<not> starts_with line ''invalid rank JSON''"
| "acceptable sat rank_of v (StreamEnded r) \<longleftrightarrow> hv_ranks v ! r \<noteq> None"
| "acceptable sat rank_of v (HostExit r code) \<longleftrightarrow> code = 0"

text \<open>What the specification holds after some of the messages.\<close>

definition received :: "usize \<Rightarrow> (usize \<Rightarrow> 'r) \<Rightarrow> 'r host_message list \<Rightarrow> 'r host_view \<Rightarrow> bool" where
  "received W rep p v \<longleftrightarrow>
     length (hv_ranks v) = W \<and> length (hv_codes v) = W \<and> length (hv_sequences v) = W \<and> hv_failures v = [] \<and>
     map rcv_published (hv_events v) = published p \<and> map rcv_sequence (hv_events v) = map of_nat [0..<length (published p)] \<and>
     (\<forall>r < W. hv_sequences v ! r = of_nat (length (concat (map event_in (records_of r p)))) \<and>
        hv_ranks v ! r = (if StreamResult (rep r) \<in> set (records_of r p) then Some (rep r) else None) \<and>
        hv_codes v ! r = (if HostExit r 0 \<in> set p then Some 0 else None))"

lemma received_new: "received W rep [] (host_view_new W)"
  by (simp add: received_def host_view_new_def)

lemma concat_events [simp]: "concat (map event_in (map StreamEvent es)) = es" "concat (map (event_in \<circ> StreamEvent) es) = es"
  by (induction es) auto


text \<open>The next message of a delivered run is acceptable, and accepting it keeps the description.\<close>

lemma delivered_rank:
  assumes "delivers W events rep (p @ m # q)"
  shows "message_rank m < W"
    "\<And>r. r < W \<Longrightarrow> rank_stream (events r) (rep r) = records_of r p @ record_from r m @ records_of r q"
  using assms by (simp_all add: delivers_def list_all_iff)

lemma event_delivered:
  assumes "delivers W events rep (p @ HostRecord r (StreamEvent e) # q)"
  shows "r < W" "e = events r ! length (records_of r p)" "length (records_of r p) < length (events r)"
    "records_of r p = map StreamEvent (take (length (records_of r p)) (events r))"
proof -
  note d = delivered_rank [OF assms]
  show r: "r < W" using d(1) by simp
  from d(2) [OF r] rank_stream_split [of "events r" "rep r" "records_of r p" "StreamEvent e"]
  show "e = events r ! length (records_of r p)" "length (records_of r p) < length (events r)"
    "records_of r p = map StreamEvent (take (length (records_of r p)) (events r))" by auto
qed

lemma result_delivered:
  assumes "delivers W events rep (p @ HostRecord r (StreamResult x) # q)"
  shows "r < W" "x = rep r" "records_of r p = map StreamEvent (events r)"
proof -
  note d = delivered_rank [OF assms]
  show r: "r < W" using d(1) by simp
  from d(2) [OF r] rank_stream_split [of "events r" "rep r" "records_of r p" "StreamResult x"]
  show "x = rep r" "records_of r p = map StreamEvent (events r)" by auto
qed

lemma end_delivered:
  assumes "delivers W events rep (p @ q)" "StreamEnded r \<in> set p" "r < W"
  shows "records_of r p = rank_stream (events r) (rep r)"
proof -
  have "records_of r (dropWhile (\<lambda>m. m \<noteq> StreamEnded r) (p @ q)) = []" "records_of r (p @ q) = rank_stream (events r) (rep r)"
    using assms(1,3) by (simp_all add: delivers_def list_all_iff)
  with after_end [OF this(1) assms(2)] show ?thesis by simp
qed

lemma map_event_in_take: "xs = map StreamEvent (take n es) \<Longrightarrow> length (concat (map event_in xs)) = length xs"
  by (simp only: concat_events length_map)

lemma received_step:
  assumes v: "received W rep p v" and d: "delivers W events rep (p @ m # q)"
    and own: "\<forall>r < W. events_numbered r (events r) \<and> rank_of (rep r) = r \<and> (sat \<longrightarrow> length (events r) < 2 ^ 64)"
  shows "acceptable sat rank_of v m \<and> received W rep (p @ [m]) (accept m v)"
proof (cases "(sat, rank_of, v, m)" rule: acceptable.cases)
  case (1 _ _ _ r e)
  then have m: "m = HostRecord r (StreamEvent e)" by simp
  note e = event_delivered [OF d [unfolded m]]
  let ?n = "length (records_of r p)"
  have n: "length (concat (map event_in (records_of r p))) = ?n" using map_event_in_take [OF e(4)] .
  have es: "ev_rank e = r" "ev_sequence e = of_nat ?n" "sat \<longrightarrow> ?n < 2 ^ 64 - 1"
    using own e(1-3) by (auto simp: events_numbered_def)
  have "sat \<longrightarrow> of_nat ?n \<noteq> (- 1 :: u64)"
  proof (intro impI notI)
    assume sat and "of_nat ?n = (- 1 :: u64)"
    then have "(of_nat (Suc ?n) :: u64) = 0" by simp
    moreover have "unat (of_nat (Suc ?n) :: u64) = Suc ?n" using es(3) \<open>sat\<close> by (intro unat_of_nat_u64) simp
    ultimately show False by simp
  qed
  moreover have "hv_sequences v ! r = of_nat ?n" using v e(1) n by (simp add: received_def)
  moreover have "length (hv_events v) = length (published p)" using v by (metis length_map received_def)
  ultimately show ?thesis
    using v e(1) es n unfolding m by (auto simp: received_def nth_list_update)
next
  case (2 _ _ _ r x)
  then have m: "m = HostRecord r (StreamResult x)" by simp
  note x = result_delivered [OF d [unfolded m]]
  have "acceptable sat rank_of v m" using own x(1) unfolding m x(2) by simp
  moreover have "received W rep (p @ [m]) (v\<lparr>hv_ranks := (hv_ranks v)[r := Some (rep r)]\<rparr>)"
  proof -
    have "(hv_ranks v)[r := Some (rep r)] ! i = (if StreamResult (rep i) \<in> set (records_of i (p @ [m])) then Some (rep i) else None)"
      "concat (map event_in (records_of i (p @ [m]))) = concat (map event_in (records_of i p))" if "i < W" for i
      using v that by (cases "i = r"; simp add: received_def m x(2))+
    then show ?thesis using v by (simp add: received_def m x(2))
  qed
  ultimately show ?thesis unfolding m x(2) by simp
next
  case (3 _ _ _ r line)
  then have m: "m = HostLog r line" by simp
  show ?thesis using v d unfolding m by (auto simp: received_def delivers_def)
next
  case (4 _ _ _ r)
  then have m: "m = StreamEnded r" by simp
  have r: "r < W" using delivered_rank(1) [OF d] m by simp
  have "delivers W events rep ((p @ [m]) @ q)" using d by simp
  from end_delivered [OF this, of r] r have "StreamResult (rep r) \<in> set (records_of r p)"
    by (simp add: m rank_stream_def)
  then show ?thesis using v r unfolding m by (auto simp: received_def)
next
  case (5 _ _ _ r code)
  then have m: "m = HostExit r code" by simp
  have "r < W" "code = 0" using d m by (auto simp: delivers_def)
  then show ?thesis using v unfolding m by (auto simp: received_def nth_list_update)
qed


lemma received_prefix:
  assumes d: "delivers W events rep (p @ q)"
    and own: "\<forall>r < W. events_numbered r (events r) \<and> rank_of (rep r) = r \<and> (sat \<longrightarrow> length (events r) < 2 ^ 64)"
  shows "received W rep p (fold accept p (host_view_new W))"
  using d
proof (induction p arbitrary: q rule: rev_induct)
  case Nil
  show ?case by (simp add: received_new)
next
  case (snoc m p)
  have d: "delivers W events rep (p @ m # q)" using snoc.prems by simp
  from received_step [OF snoc.IH [OF d] d own] show ?case by simp
qed

text \<open>After the end of all streams and the exit of all containers nothing is missing.\<close>

lemma received_all:
  assumes v: "received W rep p v" and d: "delivers W events rep (p @ q)"
    and over: "\<forall>r < W. StreamEnded r \<in> set p \<and> HostExit r 0 \<in> set p"
  shows "hv_ranks v = map (\<lambda>r. Some (rep r)) [0..<W]" "hv_codes v = replicate W (Some 0)" "hv_failures v = []"
    "map rcv_sequence (hv_events v) = map of_nat [0..<length (hv_events v)]" "map rcv_published (hv_events v) = published p"
    "\<forall>r < W. records_of r p = rank_stream (events r) (rep r)"
proof -
  show full: "\<forall>r < W. records_of r p = rank_stream (events r) (rep r)" using end_delivered [OF d] over by blast
  then have "\<forall>r < W. StreamResult (rep r) \<in> set (records_of r p)" by (simp add: rank_stream_def)
  with v over show "hv_ranks v = map (\<lambda>r. Some (rep r)) [0..<W]" "hv_codes v = replicate W (Some 0)"
    by (auto simp: received_def intro!: nth_equalityI)
  show "hv_failures v = []" "map rcv_published (hv_events v) = published p" using v by (simp_all add: received_def)
  then show "map rcv_sequence (hv_events v) = map of_nat [0..<length (hv_events v)]"
    using v by (metis length_map received_def)
qed

lemma published_by_rank:
  assumes "list_all (\<lambda>m. \<forall>e \<in> set (published_in m). ev_rank e = message_rank m) p"
  shows "filter (\<lambda>e. ev_rank e = r) (published p) = concat (map event_in (records_of r p))"
  using assms
proof (induction p)
  case (Cons m p)
  then have "filter (\<lambda>e. ev_rank e = r) (published_in m) = concat (map event_in (record_from r m))"
  proof (cases m)
    case (HostRecord r' x)
    with Cons.prems show ?thesis by (cases x) auto
  qed auto
  with Cons show ?case by simp
qed simp

lemma published_streams:
  assumes d: "delivers W events rep (p @ q)" and own: "\<forall>r < W. events_numbered r (events r)"
    and full: "\<forall>r < W. records_of r p = rank_stream (events r) (rep r)" and r: "r < W"
  shows "filter (\<lambda>e. ev_rank e = r) (published p) = events r"
proof -
  have "ev_rank e = message_rank m" if m: "m \<in> set p" and e: "e \<in> set (published_in m)" for m e
  proof -
    obtain i x where mx: "m = HostRecord i x" "x = StreamEvent e"
    proof (cases m)
      case (HostRecord i x)
      with e that show thesis by (cases x) auto
    qed (use e in auto)
    have "message_rank m < W" using d m by (simp add: delivers_def list_all_iff)
    then have i: "i < W" using mx by simp
    have "x \<in> set (records_of i p)" using m mx by (auto simp: records_of_def intro!: bexI [of _ m])
    then have "e \<in> set (events i)" using full i mx(2) by (auto simp: rank_stream_def)
    then show ?thesis using own i mx by (auto simp: events_numbered_def in_set_conv_nth)
  qed
  then have "filter (\<lambda>e. ev_rank e = r) (published p) = concat (map event_in (records_of r p))"
    by (intro published_by_rank) (simp add: list_all_iff)
  then show ?thesis using full r by (simp add: rank_stream_def)
qed

section \<open>Both collectors refine it\<close>

locale stream_collector =
  fixes W :: usize and sat :: bool and rank_of :: "'r \<Rightarrow> usize" and step :: "'r host_message \<Rightarrow> 's \<Rightarrow> 's" and fresh :: 's and view :: "'s \<Rightarrow> 'r host_view"
  assumes view_fresh: "view fresh = host_view_new W"
    and refines: "message_rank m < W \<Longrightarrow> length (hv_sequences (view c)) = W \<Longrightarrow> acceptable sat rank_of (view c) m \<Longrightarrow>
      view (step m c) = accept m (view c)"
begin

lemma collects:
  assumes "delivers W events rep (p @ q)"
    and "\<forall>r < W. events_numbered r (events r) \<and> rank_of (rep r) = r \<and> (sat \<longrightarrow> length (events r) < 2 ^ 64)"
  shows "view (fold step p fresh) = fold accept p (host_view_new W)"
  using assms(1)
proof (induction p arbitrary: q rule: rev_induct)
  case Nil
  show ?case by (simp add: view_fresh)
next
  case (snoc m p)
  have d: "delivers W events rep (p @ m # q)" using snoc.prems by simp
  note v = received_prefix [OF d assms(2)]
  from received_step [OF v d assms(2)] have "acceptable sat rank_of (view (fold step p fresh)) m" using snoc.IH [OF d] by simp
  moreover have "length (hv_sequences (view (fold step p fresh))) = W" using v snoc.IH [OF d] by (simp add: received_def)
  ultimately show ?case using refines delivered_rank(1) [OF d] snoc.IH [OF d] by simp
qed

end

definition pipeline_view_of :: "'r collector \<Rightarrow> 'r host_view" where
  "pipeline_view_of c = \<lparr>hv_ranks = co_ranks c, hv_events = co_events c, hv_codes = co_exit_codes c,
     hv_sequences = co_sequences c, hv_failures = co_failures c\<rparr>"

definition tensor_view_of :: "tensor_collector \<Rightarrow> tensor_parallel_rank_report host_view" where
  "tensor_view_of c = \<lparr>hv_ranks = tco_ranks c, hv_events = tco_events c, hv_codes = tco_exit_codes c,
     hv_sequences = tco_expected_sequence c, hv_failures = tco_failures c\<rparr>"

interpretation pipe: stream_collector W False prr_rank collect_pipeline "collector_new W" pipeline_view_of for W
proof
  show "pipeline_view_of (collector_new W) = host_view_new W"
    by (simp add: pipeline_view_of_def collector_new_def host_view_new_def)
  fix m and c :: "pipeline_rank_report collector"
  assume "message_rank m < W" "length (hv_sequences (pipeline_view_of c)) = W" "acceptable False prr_rank (pipeline_view_of c) m"
  then show "pipeline_view_of (collect_pipeline m c) = accept m (pipeline_view_of c)"
    by (cases "(m, c)" rule: collect_pipeline.cases) (auto simp: pipeline_view_of_def receive_event_def Let_def)
qed

lemma saturating_add_one: "w \<noteq> - 1 \<Longrightarrow> saturating_add w 1 = w + 1" for w :: u64
proof -
  assume w: "w \<noteq> - 1"
  have "unat w + 1 \<noteq> 2 ^ 64"
  proof
    assume n: "unat w + 1 = 2 ^ 64"
    have "w + 1 = of_nat (unat w + 1)" by simp
    also have "\<dots> = 0" unfolding n by simp
    finally show False using w by (simp add: eq_neg_iff_add_eq_0)
  qed
  with unat_u64_bound [of w] have "unat w + unat (1 :: u64) < 2 ^ 64" by simp
  then show ?thesis by (simp add: saturating_add_def)
qed

interpretation tens: stream_collector W True tprr_rank collect_tensor "tensor_collector_new W" tensor_view_of for W
proof
  show "tensor_view_of (tensor_collector_new W) = host_view_new W"
    by (simp add: tensor_view_of_def tensor_collector_new_def host_view_new_def)
  fix m c
  assume "message_rank m < W" "length (hv_sequences (tensor_view_of c)) = W" "acceptable True tprr_rank (tensor_view_of c) m"
  then show "tensor_view_of (collect_tensor m c) = accept m (tensor_view_of c)"
    by (cases "(m, c)" rule: collect_tensor.cases)
       (auto simp: tensor_view_of_def saturating_add_one Let_def)
qed


section \<open>The loops\<close>

definition messages :: "(bool \<times> 'r host_message option) list \<Rightarrow> 'r host_message list" where
  "messages rounds = concat (map (\<lambda>(_, m). case m of None \<Rightarrow> [] | Some m \<Rightarrow> [m]) rounds)"

lemma messages_simps [simp]:
  "messages [] = []" "messages ((b, None) # rounds) = messages rounds" "messages ((b, Some m) # rounds) = m # messages rounds"
  by (simp_all add: messages_def)

text \<open>Each loop handles the messages up to some point, where they end or the loop is done.\<close>

lemma pipeline_rounds_prefix:
  "list_all (\<lambda>(interrupted, _). \<not> interrupted) rounds \<Longrightarrow>
     \<exists>p q. messages rounds = p @ q \<and> pipeline_rounds rounds c = fold collect_pipeline p c \<and>
       (q = [] \<or> collection_over (fold collect_pipeline p c))"
proof (induction rounds arbitrary: c)
  case (Cons x rounds)
  obtain m where x: "x = (False, m)" using Cons.prems by (cases x) auto
  have rest: "list_all (\<lambda>(interrupted, _). \<not> interrupted) rounds" using Cons.prems by simp
  show ?case
  proof (cases "collection_over c")
    case True
    then show ?thesis by (intro exI [of _ "[]"] exI [of _ "messages (x # rounds)"]) (simp add: x)
  next
    case False
    show ?thesis
    proof (cases m)
      case None
      with False show ?thesis using Cons.IH [OF rest, of c] by (simp add: x Let_def)
    next
      case (Some y)
      obtain p q where "messages rounds = p @ q" "pipeline_rounds rounds (collect_pipeline y c) = fold collect_pipeline p (collect_pipeline y c)"
        "q = [] \<or> collection_over (fold collect_pipeline p (collect_pipeline y c))"
        using Cons.IH [OF rest, of "collect_pipeline y c"] by blast
      with False Some show ?thesis by (intro exI [of _ "y # p"] exI [of _ q]) (simp add: x Let_def)
    qed
  qed
qed simp

lemma tensor_rounds_prefix:
  "\<exists>p q. ms = p @ q \<and> tensor_rounds W ms c = fold collect_tensor p c \<and>
     (q = [] \<or> tco_ended (fold collect_tensor p c) = W \<and> tco_exited (fold collect_tensor p c) = W)"
proof (induction ms arbitrary: c)
  case (Cons m ms)
  show ?case
  proof (cases "tco_ended (collect_tensor m c) = W \<and> tco_exited (collect_tensor m c) = W")
    case True
    then show ?thesis by (intro exI [of _ "[m]"] exI [of _ ms]) (simp add: Let_def)
  next
    case False
    obtain p q where "ms = p @ q" "tensor_rounds W ms (collect_tensor m c) = fold collect_tensor p (collect_tensor m c)"
      "q = [] \<or> tco_ended (fold collect_tensor p (collect_tensor m c)) = W \<and> tco_exited (fold collect_tensor p (collect_tensor m c)) = W"
      using Cons.IH by blast
    with False show ?thesis by (intro exI [of _ "m # p"] exI [of _ q]) (auto simp: Let_def)
  qed
qed simp

text \<open>How the collectors know that a stream ended and a container exited.\<close>

fun is_end :: "'r host_message \<Rightarrow> bool" where
  "is_end (StreamEnded _) = True"
| "is_end _ = False"

fun is_exit :: "'r host_message \<Rightarrow> bool" where
  "is_exit (HostExit _ _) = True"
| "is_exit _ = False"

lemma receive_event_sel [simp]:
  "co_ended (receive_event e c) = co_ended c" "co_exited (receive_event e c) = co_exited c"
  "co_stops (receive_event e c) = co_stops c" "co_exit_codes (receive_event e c) = co_exit_codes c"
  "co_failures (receive_event e c) = co_failures c" "co_ranks (receive_event e c) = co_ranks c"
  "co_sequences (receive_event e c) = co_sequences c" "co_stopped (receive_event e c) = co_stopped c"
  by (simp_all add: receive_event_def)

lemma add_failure_sel [simp]:
  "co_ended (add_failure f c) = co_ended c" "co_exited (add_failure f c) = co_exited c" "co_stops (add_failure f c) = co_stops c"
  "co_exit_codes (add_failure f c) = co_exit_codes c" "co_failures (add_failure f c) = co_failures c @ [f]"
  "co_ranks (add_failure f c) = co_ranks c" "co_sequences (add_failure f c) = co_sequences c"
  "co_stopped (add_failure f c) = co_stopped c" "co_events (add_failure f c) = co_events c"
  by (simp_all add: add_failure_def)

lemma stop_containers_sel [simp]:
  "co_ended (stop_containers c) = co_ended c" "co_exited (stop_containers c) = co_exited c"
  "co_exit_codes (stop_containers c) = co_exit_codes c" "co_failures (stop_containers c) = co_failures c"
  "co_ranks (stop_containers c) = co_ranks c" "co_sequences (stop_containers c) = co_sequences c"
  "co_events (stop_containers c) = co_events c"
  by (simp_all add: stop_containers_def)

lemma nth_update_read: "j < length xs \<Longrightarrow> xs[i := v] ! j = (if i = j then v else xs ! j)"
  by simp

lemma pipeline_flags:
  "length (co_ended (fold collect_pipeline p (collector_new W))) = W \<and> length (co_exited (fold collect_pipeline p (collector_new W))) = W \<and>
   (\<forall>r < W. (co_ended (fold collect_pipeline p (collector_new W)) ! r \<longleftrightarrow> StreamEnded r \<in> set p) \<and>
     (co_exited (fold collect_pipeline p (collector_new W)) ! r \<longleftrightarrow> (\<exists>code. HostExit r code \<in> set p)))"
proof (induction p rule: rev_induct)
  case (snoc m p)
  then show ?case
    by (cases "(m, fold collect_pipeline p (collector_new W))" rule: collect_pipeline.cases)
       (auto simp: nth_update_read Let_def split: if_splits)
qed (simp add: collector_new_def)

lemma pipeline_no_stop:
  "list_all (\<lambda>m. case m of HostExit _ code \<Rightarrow> code = 0 | _ \<Rightarrow> True) p \<Longrightarrow> co_stops (fold collect_pipeline p (collector_new W)) = 0"
proof (induction p rule: rev_induct)
  case (snoc m p)
  then show ?case
    by (cases "(m, fold collect_pipeline p (collector_new W))" rule: collect_pipeline.cases) (auto simp: Let_def)
qed (simp add: collector_new_def)

lemma tensor_flags:
  "tco_ended (fold collect_tensor p (tensor_collector_new W)) = length (filter is_end p) \<and>
   tco_exited (fold collect_tensor p (tensor_collector_new W)) = length (filter is_exit p)"
proof (induction p rule: rev_induct)
  case (snoc m p)
  then show ?case
    by (cases "(m, fold collect_tensor p (tensor_collector_new W))" rule: collect_tensor.cases) (auto simp: Let_def)
qed (simp add: tensor_collector_new_def)

lemma tensor_no_stop:
  "list_all (\<lambda>m. case m of HostExit _ code \<Rightarrow> code = 0 | _ \<Rightarrow> True) p \<Longrightarrow> tco_stops (fold collect_tensor p (tensor_collector_new W)) = 0"
proof (induction p rule: rev_induct)
  case (snoc m p)
  then show ?case
    by (cases "(m, fold collect_tensor p (tensor_collector_new W))" rule: collect_tensor.cases) (auto simp: Let_def)
qed (simp add: tensor_collector_new_def)

end
