(* ===== verification/RunReports.thy ===== *)
theory RunReports
  imports CollectorProofs LaunchRun
begin

text \<open>
  What the launcher reports at the end of a run: every interleaving of complete streams gives a
  positive report with all that the ranks reported, and a positive report is never wrong
  about the streams.
\<close>

section \<open>The loops see everything\<close>

lemma sum_bump: "i < W \<Longrightarrow> (\<Sum>r < W. if i = r then c r + 1 else c r) = Suc (\<Sum>r < W. c r)" for W :: nat
proof -
  have "(\<Sum>r < W. if i = r then c r + 1 else c r) = (\<Sum>r < W. c r + (if r = i then 1 else 0))" by (intro sum.cong) auto
  then show "i < W \<Longrightarrow> ?thesis" by (simp add: sum.distrib)
qed

lemma ends_counted:
  "list_all (\<lambda>m. message_rank m < W) ms \<Longrightarrow> length (filter is_end ms) = (\<Sum>r < W. count_list ms (StreamEnded r))"
proof (induction ms)
  case (Cons m ms)
  then show ?case by (cases m) (simp_all add: sum_bump)
qed simp

lemma exits_counted:
  "list_all (\<lambda>m. message_rank m < W \<and> (case m of HostExit _ code \<Rightarrow> code = 0 | _ \<Rightarrow> True)) ms \<Longrightarrow>
     length (filter is_exit ms) = (\<Sum>r < W. count_list ms (HostExit r 0))"
proof (induction ms)
  case (Cons m ms)
  then show ?case by (cases m) (simp_all add: sum_bump)
qed simp

lemma delivers_exits: "delivers W events rep ms \<Longrightarrow> list_all (\<lambda>m. case m of HostExit _ code \<Rightarrow> code = 0 | _ \<Rightarrow> True) ms"
  unfolding delivers_def list_all_iff by (auto split: host_message.splits)

lemma delivers_counts:
  assumes "delivers W events rep ms"
  shows "length (filter is_end ms) = W" "length (filter is_exit ms) = W"
    "\<forall>r < W. StreamEnded r \<in> set ms \<and> HostExit r 0 \<in> set ms"
proof -
  have "list_all (\<lambda>m. message_rank m < W) ms" "list_all (\<lambda>m. message_rank m < W \<and> (case m of HostExit _ code \<Rightarrow> code = 0 | _ \<Rightarrow> True)) ms"
    using assms unfolding delivers_def list_all_iff by (auto split: host_message.splits)
  moreover have one: "\<forall>r < W. count_list ms (StreamEnded r) = 1 \<and> count_list ms (HostExit r 0) = 1"
    using assms by (simp add: delivers_def list_all_iff)
  ultimately show "length (filter is_end ms) = W" "length (filter is_exit ms) = W" by (simp_all add: ends_counted exits_counted)
  show "\<forall>r < W. StreamEnded r \<in> set ms \<and> HostExit r 0 \<in> set ms" using one by (metis count_list_0_iff zero_neq_one)
qed

lemma pipeline_loop_complete:
  assumes d: "delivers W events rep (p @ q)"
    and stop: "q = [] \<or> collection_over (fold collect_pipeline p (collector_new W))"
  shows "\<forall>r < W. StreamEnded r \<in> set p \<and> HostExit r 0 \<in> set p"
proof (intro allI impI)
  fix r
  assume r: "r < W"
  then have all: "StreamEnded r \<in> set (p @ q)" "HostExit r 0 \<in> set (p @ q)" using delivers_counts(3) [OF d] by blast+
  show "StreamEnded r \<in> set p \<and> HostExit r 0 \<in> set p"
  proof (cases "q = []")
    case True
    with all show ?thesis by simp
  next
    case False
    with stop have "collection_over (fold collect_pipeline p (collector_new W))" by simp
    then have "StreamEnded r \<in> set p" "\<exists>code. HostExit r code \<in> set p"
      using pipeline_flags [of p W] r by (auto simp: collection_over_def list_all_length)
    moreover have "code = 0" if "HostExit r code \<in> set p" for code
      using delivers_exits [OF d] that by (force simp: list_all_iff)
    ultimately show ?thesis by blast
  qed
qed

lemma tensor_loop_complete:
  assumes d: "delivers W events rep (p @ q)"
    and stop: "q = [] \<or> tco_ended (fold collect_tensor p (tensor_collector_new W)) = W \<and> tco_exited (fold collect_tensor p (tensor_collector_new W)) = W"
  shows "\<forall>r < W. StreamEnded r \<in> set p \<and> HostExit r 0 \<in> set p"
proof (cases "q = []")
  case False
  with stop have "length (filter is_end p) = W" "length (filter is_exit p) = W" using tensor_flags [of p W] by simp_all
  with delivers_counts(1,2) [OF d] have "filter is_end q = []" "filter is_exit q = []" by simp_all
  then have "StreamEnded r \<notin> set q" "HostExit r 0 \<notin> set q" for r by (auto simp: filter_empty_conv)
  with delivers_counts(3) [OF d] show ?thesis by auto
qed (use delivers_counts(3) [OF d] in simp)

lemma present_all: "present (map (\<lambda>r. Some (f r)) rs) = map f rs"
  by (induction rs) (simp_all add: present_def)

lemma missing_none: "missing_reports n (map (\<lambda>r. Some (f r)) rs) = []"
  by (induction rs arbitrary: n) auto


section \<open>Complete streams give a positive report\<close>

text \<open>
  C6. The launcher reports a pipeline run faithfully. Let the rank processes return reports, whatever
  they received from each other, and let their output reach the host in any interleaving, with
  any timeouts in between. Then no failure is recorded, no container is stopped, the launch
  succeeds, the report holds every rank's report in rank order with tokens, completion and stop
  reason of rank 0, and of every rank exactly the events of its report, in order.
\<close>

theorem pipeline_run_reported:
  assumes ranks: "\<forall>r < W. rq_rank (req r) = r \<and> rq_world_size (req r) = W \<and>
        may_return (run_pipeline_rank_process fuel env (req r) (Inr mf) stored (before r) (after r)) (Inr (rep r))"
    and part: "balanced (spec (pm_model mf)) W = Inr (pm_partition mf)"
    and quiet: "list_all (\<lambda>(interrupted, _). \<not> interrupted) rounds"
    and d: "delivers W (\<lambda>r. prr_events (rep r)) rep (messages rounds)" and W: "plr_nproc launch = W"
  shows "let c = collect_rank_streams W rounds False; report = pipeline_launch_report launch mf engine res c in
     plp_success report \<and> plp_failures report = [] \<and> co_stops c = 0 \<and> plp_ranks report = map rep [0..<W] \<and>
     plp_generated_tokens report = prr_generated_tokens (rep 0) \<and> plp_completion report = prr_completion (rep 0) \<and>
     plp_stop_reason report = prr_stop_reason (rep 0) \<and>
     map rcv_sequence (plp_events report) = map of_nat [0..<length (plp_events report)] \<and>
     (\<forall>r < W. filter (\<lambda>e. ev_rank e = r) (map rcv_published (plp_events report)) = prr_events (rep r))"
proof -
  have own: "\<forall>r < W. events_numbered r (prr_events (rep r)) \<and> prr_rank (rep r) = r \<and> (False \<longrightarrow> length (prr_events (rep r)) < 2 ^ 64)"
    and good: "\<forall>r < W. prr_success (rep r)"
    using ranks pipeline_process_returns part by metis+
  obtain p q where pq: "messages rounds = p @ q" "pipeline_rounds rounds (collector_new W) = fold collect_pipeline p (collector_new W)"
    "q = [] \<or> collection_over (fold collect_pipeline p (collector_new W))"
    using pipeline_rounds_prefix [OF quiet] by blast
  let ?c = "fold collect_pipeline p (collector_new W)"
  have dp: "delivers W (\<lambda>r. prr_events (rep r)) rep (p @ q)" using d pq(1) by simp
  have "received W rep p (pipeline_view_of ?c)" unfolding pipe.collects [OF dp own] by (rule received_prefix [OF dp own])
  note all = received_all [OF this dp pipeline_loop_complete [OF dp pq(3)]]
  have c: "co_ranks ?c = map (\<lambda>r. Some (rep r)) [0..<W]" "co_exit_codes ?c = replicate W (Some 0)" "co_failures ?c = []"
    "map rcv_sequence (co_events ?c) = map of_nat [0..<length (co_events ?c)]" "map rcv_published (co_events ?c) = published p"
    using all(1-5) by (simp_all add: pipeline_view_of_def)
  have stops: "co_stops ?c = 0" using delivers_exits [OF dp] by (intro pipeline_no_stop) simp
  have events: "\<forall>r < W. filter (\<lambda>e. ev_rank e = r) (map rcv_published (co_events ?c)) = prr_events (rep r)"
    unfolding c(5) using published_streams [OF dp _ all(6)] own by blast
  have W2: "0 < W" using part by (simp add: balanced_Inr)
  have col: "collect_rank_streams W rounds False = ?c"
    unfolding collect_rank_streams_def pq(2) using c(1,3) missing_none [of 0 rep "[0..<W]"] by simp
  have pres: "present (co_ranks ?c) = map rep [0..<W]" "(case co_ranks ?c of r # _ \<Rightarrow> r | [] \<Rightarrow> None) = Some (rep 0)"
    using W2 by (simp_all add: c(1) present_all) (simp add: upt_rec)
  have "prr_success x" if "x \<in> set (map rep [0..<W])" for x using that good by auto
  then show ?thesis
    unfolding Let_def col using c(2-5) stops events W pres
    by (simp add: pipeline_launch_report_def Let_def list_all_iff)
qed

text \<open>
  C8. The launcher reports a tensor-parallel run faithfully: whatever the interleaving in which the
  streams of the ranks arrive, the launch succeeds and the report holds the reports of all
  ranks in rank order, the result of rank 0, the bytes sent by all, and every rank's events.
\<close>

theorem tensor_run_reported:
  assumes ranks: "\<forall>r < W. events_numbered r (tprr_events (rep r)) \<and> tprr_rank (rep r) = r \<and> tprr_success (rep r) \<and>
        length (tprr_events (rep r)) < 2 ^ 64"
    and d: "delivers W (\<lambda>r. tprr_events (rep r)) rep ms" and W: "tlr_tp launch = W" "0 < W"
  shows "let c = collect_tensor_streams W ms; report = tensor_launch_report launch mf engine res c in
     tpr_success report \<and> tpr_failures report = [] \<and> tco_stops c = 0 \<and> tpr_ranks report = map rep [0..<W] \<and>
     tpr_generated_tokens report = tprr_generated_tokens (rep 0) \<and> tpr_completion report = tprr_completion (rep 0) \<and>
     tpr_stop_reason report = tprr_stop_reason (rep 0) \<and> tpr_communication_bytes report = (\<Sum>r < W. tprr_sent_bytes (rep r)) \<and>
     map rcv_sequence (tpr_events report) = map of_nat [0..<length (tpr_events report)] \<and>
     (\<forall>r < W. filter (\<lambda>e. ev_rank e = r) (map rcv_published (tpr_events report)) = tprr_events (rep r))"
proof -
  have own: "\<forall>r < W. events_numbered r (tprr_events (rep r)) \<and> tprr_rank (rep r) = r \<and> (True \<longrightarrow> length (tprr_events (rep r)) < 2 ^ 64)"
    using ranks by blast
  obtain p q where pq: "ms = p @ q" "tensor_rounds W ms (tensor_collector_new W) = fold collect_tensor p (tensor_collector_new W)"
    "q = [] \<or> tco_ended (fold collect_tensor p (tensor_collector_new W)) = W \<and> tco_exited (fold collect_tensor p (tensor_collector_new W)) = W"
    using tensor_rounds_prefix by blast
  let ?c = "fold collect_tensor p (tensor_collector_new W)"
  have dp: "delivers W (\<lambda>r. tprr_events (rep r)) rep (p @ q)" using d pq(1) by simp
  have "received W rep p (tensor_view_of ?c)" unfolding tens.collects [OF dp own] by (rule received_prefix [OF dp own])
  note all = received_all [OF this dp tensor_loop_complete [OF dp pq(3)]]
  have c: "tco_ranks ?c = map (\<lambda>r. Some (rep r)) [0..<W]" "tco_exit_codes ?c = replicate W (Some 0)" "tco_failures ?c = []"
    "map rcv_sequence (tco_events ?c) = map of_nat [0..<length (tco_events ?c)]" "map rcv_published (tco_events ?c) = published p"
    using all(1-5) by (simp_all add: tensor_view_of_def)
  have stops: "tco_stops ?c = 0" using delivers_exits [OF dp] by (intro tensor_no_stop) simp
  have events: "\<forall>r < W. filter (\<lambda>e. ev_rank e = r) (map rcv_published (tco_events ?c)) = tprr_events (rep r)"
    unfolding c(5) using published_streams [OF dp _ all(6)] own by blast
  have col: "collect_tensor_streams W ms = ?c" by (simp add: collect_tensor_streams_def pq(2))
  have sorted: "sort_key tprr_rank (map rep [0..<W]) = map rep [0..<W]"
  proof (rule sort_key_id_if_sorted)
    have "map (tprr_rank \<circ> rep) [0..<W] = [0..<W]" using ranks by (intro map_idI) simp
    then show "sorted (map tprr_rank (map rep [0..<W]))" by simp
  qed
  have "find (\<lambda>r. tprr_rank r = 0) (map rep [0..<W]) = Some (rep 0)" using W(2) ranks by (simp add: upt_rec)
  moreover have "tprr_success x" if "x \<in> set (map rep [0..<W])" for x using that ranks by auto
  ultimately show ?thesis
    unfolding Let_def col using c stops events W sorted
    by (simp add: tensor_launch_report_def Let_def present_all list_all_iff sum_list_sum_nth atLeast0LessThan)
qed


section \<open>A positive report is never wrong\<close>

definition published_by :: "usize \<Rightarrow> received_event list \<Rightarrow> run_event list" where
  "published_by r es = filter (\<lambda>e. ev_rank e = r) (map rcv_published es)"

text \<open>What holds of a collector as long as it has recorded no failure.\<close>

definition sound_so_far :: "usize \<Rightarrow> pipeline_rank_report collector \<Rightarrow> bool" where
  "sound_so_far W c \<longleftrightarrow>
     length (co_ranks c) = W \<and> length (co_sequences c) = W \<and> length (co_exit_codes c) = W \<and>
     (co_failures c = [] \<longrightarrow>
        (\<forall>r < W. co_sequences c ! r = of_nat (length (published_by r (co_events c))) \<and>
           events_numbered r (published_by r (co_events c)) \<and>
           (\<forall>rep. co_ranks c ! r = Some rep \<longrightarrow> prr_rank rep = r)))"

lemma sound_new: "sound_so_far W (collector_new W)"
  by (simp add: sound_so_far_def collector_new_def published_by_def)

lemma published_by_receive:
  "published_by r (co_events (receive_event e c)) = published_by r (co_events c) @ (if ev_rank e = r then [e] else [])"
  by (simp add: published_by_def receive_event_def)

lemma collect_sound:
  assumes "sound_so_far W c" "message_rank m < W"
  shows "sound_so_far W (collect_pipeline m c)"
proof (cases "(m, c)" rule: collect_pipeline.cases)
  case (1 r e c')
  then have m: "m = HostRecord r (StreamEvent e)" by simp
  show ?thesis using assms unfolding m by (auto simp: sound_so_far_def published_by_receive nth_update_read)
next
  case (2 r rep c')
  then have m: "m = HostRecord r (StreamResult rep)" by simp
  show ?thesis using assms unfolding m by (auto simp: sound_so_far_def nth_update_read split: if_splits)
qed (use assms in \<open>auto simp: sound_so_far_def Let_def\<close>)

lemma rounds_sound:
  "sound_so_far W c \<Longrightarrow> list_all (\<lambda>m. message_rank m < W) (messages rounds) \<Longrightarrow> sound_so_far W (pipeline_rounds rounds c)"
proof (induction rounds arbitrary: c)
  case (Cons x rounds)
  obtain i m where x: "x = (i, m)" by (cases x)
  define c1 where "c1 = (if i \<and> \<not> co_stopped c then stop_containers c else c)"
  have c1: "sound_so_far W c1" using Cons.prems(1) by (simp add: c1_def sound_so_far_def)
  show ?case
  proof (cases m)
    case None
    then show ?thesis using Cons.IH [OF c1] Cons.prems by (simp add: x c1_def [symmetric] Let_def)
  next
    case (Some y)
    then have "sound_so_far W (collect_pipeline y c1)" using Cons.prems(2) by (intro collect_sound [OF c1]) (simp add: x)
    then show ?thesis using Some Cons.IH Cons.prems by (simp add: x c1_def [symmetric] Let_def)
  qed
qed simp

lemma missing_empty: "missing_reports n rs = [] \<Longrightarrow> list_all (\<lambda>x. x \<noteq> None) rs"
  by (induction n rs rule: missing_reports.induct) auto

text \<open>
  C7. A positive report of a pipeline run can be trusted, whatever messages arrived and whenever the user
  interrupted: there was no interrupt at the end, every rank delivered a report of its own in which it
  declares success, every container exited with status 0, and of every rank the events that were
  received have consecutive numbers from 0 in the order of arrival, so there is no gap, repetition
  or swap among those received (events lost behind the last received one would not be seen).
\<close>

theorem pipeline_success_sound:
  fixes rounds W interrupted engine res launch mf
  defines "c \<equiv> collect_rank_streams W rounds interrupted"
  assumes success: "plp_success (pipeline_launch_report launch mf engine res c)" and W: "plr_nproc launch = W"
    and ranks: "list_all (\<lambda>m. message_rank m < W) (messages rounds)"
  shows "\<not> interrupted \<and> co_exit_codes c = replicate W (Some 0) \<and>
     (\<forall>r < W. prr_rank (plp_ranks (pipeline_launch_report launch mf engine res c) ! r) = r \<and>
        prr_success (plp_ranks (pipeline_launch_report launch mf engine res c) ! r) \<and> events_numbered r (published_by r (co_events c)))"
proof -
  let ?d = "pipeline_rounds rounds (collector_new W)"
  have inv: "sound_so_far W ?d" by (rule rounds_sound [OF sound_new ranks])
  have s: "co_failures c = []" "list_all prr_success (present (co_ranks c))" "list_all (\<lambda>code. code = Some 0) (co_exit_codes c)"
    using success by (simp_all add: pipeline_launch_report_def Let_def)
  have i: "\<not> interrupted" using s(1) by (auto simp: c_def collect_rank_streams_def Let_def)
  have c: "co_ranks c = co_ranks ?d" "co_events c = co_events ?d" "co_exit_codes c = co_exit_codes ?d" "co_failures ?d = []"
    "missing_reports 0 (co_ranks ?d) = []"
    using s(1) i by (simp_all add: c_def collect_rank_streams_def Let_def)
  have all: "list_all (\<lambda>x. x \<noteq> None) (co_ranks c)" using missing_empty c(1,5) by metis
  then have p: "present (co_ranks c) = map the (co_ranks c)" by (simp add: present_def list_all_iff filter_id_conv)
  have len: "length (co_ranks c) = W" "length (co_exit_codes c) = W" using inv c by (simp_all add: sound_so_far_def)
  have "prr_rank (present (co_ranks c) ! r) = r \<and> prr_success (present (co_ranks c) ! r) \<and> events_numbered r (published_by r (co_events c))"
    if r: "r < W" for r
  proof -
    obtain rep where rep: "co_ranks c ! r = Some rep" using all r len(1) by (auto simp: list_all_length)
    then show ?thesis using inv c r len(1) s(2) p by (auto simp: sound_so_far_def list_all_length)
  qed
  moreover have "co_exit_codes c = replicate W (Some 0)" using s(3) len(2) by (intro nth_equalityI) (auto simp: list_all_length)
  ultimately show ?thesis using i by (simp add: pipeline_launch_report_def Let_def)
qed


section \<open>Runs that are reported\<close>

definition all_of :: "usize \<Rightarrow> run_event list \<Rightarrow> 'r \<Rightarrow> 'r host_message list" where
  "all_of r events rep = map (HostRecord r) (rank_stream events rep) @ [StreamEnded r]"

text \<open>Rank 1 exits before its output is read, then the streams arrive one after the other.\<close>

definition two_streams :: "(usize \<Rightarrow> run_event list) \<Rightarrow> (usize \<Rightarrow> 'r) \<Rightarrow> 'r host_message list" where
  "two_streams events rep =
     HostExit 1 0 # HostLog 0 ''loading'' # all_of 1 (events 1) (rep 1) @ all_of 0 (events 0) (rep 0) @ [HostExit 0 0]"

lemma records_map: "records_of r (map (HostRecord i) xs) = (if i = r then xs else [])"
  by (induction xs) auto

lemma counts_map [simp]:
  "count_list (map (HostRecord i) xs) (StreamEnded r) = 0" "count_list (map (HostRecord i) xs) (HostExit r code) = 0"
  by (induction xs) auto

lemma dropWhile_records: "dropWhile (\<lambda>m. m \<noteq> StreamEnded r) (map (HostRecord i) xs @ ms) = dropWhile (\<lambda>m. m \<noteq> StreamEnded r) ms"
  by (induction xs) auto

lemma two_streams_delivered: "delivers 2 events rep (two_streams events rep)"
proof -
  have log: "\<not> starts_with ''loading'' ''invalid rank JSON''" by (simp add: starts_with_def)
  have "\<forall>r \<in> set [0..<2]. r = 0 \<or> r = 1" by auto
  then show ?thesis
    by (auto simp: delivers_def two_streams_def all_of_def log list_all_iff records_map dropWhile_records)
qed

definition as_rounds :: "'r host_message list \<Rightarrow> (bool \<times> 'r host_message option) list" where
  "as_rounds ms = (False, None) # map (\<lambda>m. (False, Some m)) ms"

lemma as_rounds_sel: "messages (as_rounds ms) = ms" "list_all (\<lambda>(interrupted, _). \<not> interrupted) (as_rounds ms)"
proof -
  have "messages (map (\<lambda>m. (False, Some m)) ms) = ms" by (induction ms) auto
  then show "messages (as_rounds ms) = ms" by (simp add: as_rounds_def)
  show "list_all (\<lambda>(interrupted, _). \<not> interrupted) (as_rounds ms)" by (simp add: as_rounds_def list_all_iff)
qed

definition free_request :: "usize \<Rightarrow> rank_request" where
  "free_request r = \<lparr>rq_rank = r, rq_world_size = 2, rq_expected_cpu_millis = None, rq_expected_memory_bytes = None\<rparr>"

lemma no_cgroup: "resource_snapshot_of (observe_cgroup_resources (\<lambda>_. None)) = sample_resources"
  by (simp add: observe_cgroup_resources_def read_optional_def resource_snapshot_of_def sample_resources_def)

abbreviation sample_process :: "usize \<Rightarrow> (unit, pipeline_rank_report lresult) prog" where
  "sample_process r \<equiv> run_pipeline_rank_process 1 sample_env (free_request r) (Inr sample_manifest)
     (Inr (stored_metadata SmolLm2_135MInstruct)) (\<lambda>_. None) (\<lambda>_. None)"

lemma sample_process_returns:
  "\<exists>rep. (\<forall>r < 2. may_return (sample_process r) (Inr (rep r))) \<and> prr_generated_tokens (rep 0) = [5] \<and> prr_completion (rep 0) = ''x''"
proof -
  obtain reports where run: "computes 2 (\<lambda>r. run_pipeline_rank 1 sample_env (member 2 r) sample_manifest sample_resources) (\<lambda>r. Inr (reports r))"
    and out: "prr_generated_tokens (reports 0) = [5]" "prr_completion (reports 0) = ''x''" using sample_run_computes by blast
  define rep where "rep r = projr (finish_pipeline_rank (free_request r) (observe_cgroup_resources (\<lambda>_. None)) (reports r))" for r
  have fin: "finish_pipeline_rank (free_request r) (observe_cgroup_resources (\<lambda>_. None)) (reports r) = Inr (rep r)" for r
    by (simp add: rep_def finish_pipeline_rank_def free_request_def verify_resources_def Let_def)
  have "may_return (sample_process r) (Inr (rep r))" if "r < 2" for r
  proof -
    have "may_return (run_pipeline_rank 1 sample_env (member 2 r) sample_manifest sample_resources) (Inr (reports r))"
      using run_may_return [OF run [unfolded computes_def] that] .
    moreover have "pipeline_rank_checks (free_request r) (Inr sample_manifest) (Inr (stored_metadata SmolLm2_135MInstruct))
        (observe_cgroup_resources (\<lambda>_. None)) = Inr (sample_manifest, member 2 r, sample_resources)"
      using that stored_metadata_accepted [of SmolLm2_135MInstruct]
      by (simp add: pipeline_rank_checks_def sample_manifest_def free_request_def rank_new_def verify_resources_def no_cgroup)
    ultimately show ?thesis using fin by (auto simp: run_pipeline_rank_process_def)
  qed
  moreover have "prr_generated_tokens (rep 0) = [5]" "prr_completion (rep 0) = ''x''"
    using out by (simp_all add: rep_def finish_pipeline_rank_def free_request_def verify_resources_def Let_def)
  ultimately show ?thesis by blast
qed

definition sample_resource_plan :: resource_plan where
  "sample_resource_plan = projr (plan_resources 2 2000 4294967296 sample_engine)"

theorem pipeline_run_reported_witness:
  "\<exists>rep rounds. messages rounds = two_streams (\<lambda>r. prr_events (rep r)) rep \<and>
     may_return (sample_process 1) (Inr (rep 1)) \<and>
     (let report = pipeline_launch_report sample_pipeline_request sample_manifest sample_engine sample_resource_plan (collect_rank_streams 2 rounds False) in
      plp_success report \<and> plp_generated_tokens report = [5] \<and> plp_completion report = ''x'')"
proof -
  obtain rep where rep: "\<forall>r < 2. may_return (sample_process r) (Inr (rep r))" "prr_generated_tokens (rep 0) = [5]" "prr_completion (rep 0) = ''x''"
    using sample_process_returns by blast
  let ?rounds = "as_rounds (two_streams (\<lambda>r. prr_events (rep r)) rep)"
  have ranks: "\<forall>r < 2. rq_rank (free_request r) = r \<and> rq_world_size (free_request r) = 2 \<and> may_return (sample_process r) (Inr (rep r))"
    using rep(1) by (simp add: free_request_def)
  have part: "balanced (spec (pm_model sample_manifest)) 2 = Inr (pm_partition sample_manifest)"
    using sample_balanced by (simp add: sample_manifest_def)
  have d: "delivers 2 (\<lambda>r. prr_events (rep r)) rep (messages ?rounds)" by (simp add: as_rounds_sel two_streams_delivered)
  have n: "plr_nproc sample_pipeline_request = 2" by (simp add: sample_pipeline_request_def)
  from pipeline_run_reported [OF ranks part as_rounds_sel(2) d n] rep
  show ?thesis by (intro exI [of _ rep] exI [of _ ?rounds]) (simp add: as_rounds_sel Let_def)
qed

definition shard_report :: "usize \<Rightarrow> tensor_parallel_rank_report" where
  "shard_report r =
     \<lparr>tprr_schema_version = 1, tprr_run_id = ''run'', tprr_request_id = ''request'', tprr_rank = r, tprr_peers = [],
      tprr_memory = tpp_ranks (tman_partition shard_manifest) ! r, tprr_resources = sample_resources, tprr_final_kv_cache_bytes = 0,
      tprr_collectives = [], tprr_sent_bytes = 8, tprr_received_bytes = 8, tprr_generated_tokens = [5],
      tprr_completion = (if r = 0 then ''x'' else []), tprr_stop_reason = MaxNewTokens, tprr_decode_forward_count = 0,
      tprr_events = [\<lparr>ev_sequence = 0, ev_rank = r, ev_event = ModelLoadStarted\<rparr>, \<lparr>ev_sequence = 1, ev_rank = r, ev_event = ModelLoadFinished\<rparr>],
      tprr_barriers_passed = True, tprr_success = True\<rparr>"

theorem tensor_run_reported_witness:
  "let report = tensor_launch_report (sample_tensor_request\<lparr>tlr_tp := 2\<rparr>) shard_manifest sample_engine sample_resource_plan
       (collect_tensor_streams 2 (two_streams (\<lambda>r. tprr_events (shard_report r)) shard_report)) in
     tpr_success report \<and> tpr_completion report = ''x'' \<and> tpr_communication_bytes report = 16"
proof -
  let ?req = "sample_tensor_request\<lparr>tlr_tp := 2\<rparr>"
  have two: "\<forall>i. i < Suc (Suc 0) \<longrightarrow> i = 0 \<or> i = Suc 0" by auto
  have "\<forall>r < 2. events_numbered r (tprr_events (shard_report r)) \<and> tprr_rank (shard_report r) = r \<and> tprr_success (shard_report r) \<and>
      length (tprr_events (shard_report r)) < 2 ^ 64"
    using two by (auto simp: events_numbered_def shard_report_def)
  from tensor_run_reported [OF this two_streams_delivered, of ?req]
  have "let report = tensor_launch_report ?req shard_manifest sample_engine sample_resource_plan
       (collect_tensor_streams 2 (two_streams (\<lambda>r. tprr_events (shard_report r)) shard_report)) in
     tpr_success report \<and> tpr_completion report = tprr_completion (shard_report 0) \<and>
     tpr_communication_bytes report = (\<Sum>r < 2. tprr_sent_bytes (shard_report r))" by (simp add: Let_def)
  moreover have "tprr_completion (shard_report 0) = ''x''" "(\<Sum>r < 2 :: nat. tprr_sent_bytes (shard_report r)) = 16"
    by (simp_all add: shard_report_def numeral_2_eq_2)
  ultimately show ?thesis by metis
qed

definition stage_report :: "usize \<Rightarrow> pipeline_rank_report" where
  "stage_report r =
     \<lparr>prr_schema_version = 1, prr_run_id = ''run'', prr_request_id = ''request'', prr_rank = r,
      prr_assignment = stages (pm_partition sample_manifest) ! r, prr_memory = sample_plan, prr_resources = sample_resources,
      prr_final_kv_cache_bytes = 0, prr_communication = communication_default, prr_decode_forward_count = 0,
      prr_generated_tokens = [5], prr_completion = ''x'', prr_stop_reason = MaxNewTokens, prr_barriers_passed = True,
      prr_events = [\<lparr>ev_sequence = 0, ev_rank = r, ev_event = ModelLoadStarted\<rparr>], prr_success = True\<rparr>"

theorem pipeline_success_sound_witness:
  "\<exists>c. c = collect_rank_streams 2 (as_rounds (two_streams (\<lambda>r. prr_events (stage_report r)) stage_report)) False \<and>
     plp_success (pipeline_launch_report sample_pipeline_request sample_manifest sample_engine sample_resource_plan c) \<and>
     events_numbered 1 (published_by 1 (co_events c)) \<and> published_by 1 (co_events c) \<noteq> []"
proof -
  let ?ms = "two_streams (\<lambda>r. prr_events (stage_report r)) stage_report"
  let ?c = "collect_rank_streams 2 (as_rounds ?ms) False"
  have rep: "prr_rank (stage_report r) = r" "prr_success (stage_report r)"
    "prr_events (stage_report r) = [\<lparr>ev_sequence = 0, ev_rank = r, ev_event = ModelLoadStarted\<rparr>]" for r by (simp_all add: stage_report_def)
  have log: "\<not> starts_with ''loading'' ''invalid rank JSON''" by (simp add: starts_with_def)
  have c: "co_failures ?c = []" "co_ranks ?c = [Some (stage_report 0), Some (stage_report 1)]" "co_exit_codes ?c = [Some 0, Some 0]"
    "map rcv_published (co_events ?c) = [\<lparr>ev_sequence = 0, ev_rank = 1, ev_event = ModelLoadStarted\<rparr>, \<lparr>ev_sequence = 0, ev_rank = 0, ev_event = ModelLoadStarted\<rparr>]"
    by (simp_all add: collect_rank_streams_def as_rounds_def two_streams_def all_of_def rank_stream_def rep log collector_new_def
        collection_over_def receive_event_def numeral_2_eq_2 Let_def)
  then have success: "plp_success (pipeline_launch_report sample_pipeline_request sample_manifest sample_engine sample_resource_plan ?c)"
    by (simp add: pipeline_launch_report_def present_def rep sample_pipeline_request_def Let_def)
  have n: "plr_nproc sample_pipeline_request = 2" by (simp add: sample_pipeline_request_def)
  have ranks: "list_all (\<lambda>m. message_rank m < 2) (messages (as_rounds ?ms))"
    by (simp add: as_rounds_sel two_streams_def all_of_def rank_stream_def rep)
  from pipeline_success_sound [OF success n ranks] have "events_numbered 1 (published_by 1 (co_events ?c))" by simp
  moreover have "published_by 1 (co_events ?c) \<noteq> []" unfolding published_by_def c(4) by simp
  ultimately show ?thesis using success by blast
qed

end
