(* ===== verification/Spec2Isabelle.thy ===== *)
theory Spec2Isabelle
  imports AllToAllProofs TensorSample RingAllReduce InMemory InMemoryBarrier TcpProofs Rendezvous
    TensorPlan KvCacheProofs GenerationProofs PipelineRun LaunchRun RunReports
begin

text \<open>
  Verification of a distributed inference workspace: ranks that exchange tensors over a
  transport, collectives built on it, a Llama model that runs on one rank, split by layers over
  a pipeline or sharded over tensor-parallel ranks, and the planning that decides whether a split fits.

  \<^bold>\<open>How the program is put together.\<close> The crate \<open>collectives\<close> has ranks, packets, two transports
  (in memory and TCP) and six collectives. The crate \<open>runtime\<close> has the registry of models, memory
  plans, the model with its key/value cache, and single-rank generation. The crates \<open>pipeline\<close>
  and \<open>tensor\<close> plan how a model is split and run one rank of a split model. The crate \<open>cli\<close>
  launches ranks in containers and \<open>tui\<close> shows their events.

  \<^bold>\<open>Prelude.\<close> Results as sums with \<open>rbind\<close> and \<open>map_err\<close>, checked machine arithmetic (\<open>u64\<close> values are
  64-bit words; a \<open>usize\<close> is a natural number, with the checks of the source written out where
  it checks), decimal strings, trimming and number parsing.

  \<^bold>\<open>Communication\<close> (\<open>crates/collectives\<close>).
  \<^item> \<open>Ranks\<close>: \<open>rank.rs\<close>, \<open>error.rs\<close>. \<open>Packets\<close>: \<open>tensor.rs\<close>, \<open>control.rs\<close> and the Candle operations they
    use (\<open>vendor/candle-core\<close>), on row-major values; strides and gradients are left out.
  \<^item> \<open>Transport\<close>: \<open>transport.rs\<close>, \<open>communicator.rs\<close>; the contract between transport and client is the
    locale \<open>mailbox_transport\<close>, interpreted on both transports.
  \<^item> \<open>World\<close>: a rank is a program (send, receive, barrier, return, fail), a world is one program per rank
    and the messages under way, a step is one action of one rank. Steps of different ranks
    commute (locale \<open>commuting_steps\<close>, interpreted on worlds), so if one schedule ends with all ranks
    returning then all do: \<open>all_runs_return\<close>.
  \<^item> \<open>Collectives\<close>, \<open>CollectiveTags\<close>: \<open>collective.rs\<close>. \<open>CentralizedProofs\<close>, \<open>CentralizedCollectives\<close>, \<open>RingProofs\<close>,
    \<open>RingAllReduce\<close>, \<open>AllToAllProofs\<close>, \<open>Shards\<close>: every collective returns the specified tensor on every
    rank in every schedule; ring and centralized all-reduce agree; tags never collide.
  \<^item> \<open>InMemory\<close>, \<open>InMemoryBarrier\<close>: \<open>in_memory.rs\<close>; the barrier is a state machine with an invariant.
  \<^item> \<open>Wire\<close>, \<open>TcpTransport\<close>, \<open>TcpProofs\<close>, \<open>Rendezvous\<close>: \<open>tcp.rs\<close>, from bytes to the established mesh.
    The wire round trip is exact (frames of at most 64 dimensions come back, others are refused), and
    the rendezvous server ends the same way in every order of arrival.

  \<^bold>\<open>Plans.\<close>
  \<^item> \<open>Registry\<close>: \<open>runtime/registry.rs\<close>, \<open>runtime/error.rs\<close>. \<open>MemoryPlan\<close>: \<open>runtime/memory.rs\<close>.
  \<^item> \<open>Partition\<close>: \<open>pipeline/partition.rs\<close>. \<open>TensorPlan\<close>: \<open>runtime/parallel.rs\<close> (geometry) and
    \<open>tensor/plan.rs\<close>. The plans of the registered models are exact: nothing overflows, every layer, row,
    head and parameter is accounted for once (duplicates are counted as such), and a placement
    is accepted exactly when the bytes fit.

  \<^bold>\<open>Model and generation.\<close>
  \<^item> \<open>KvCache\<close>: \<open>runtime/model/cache.rs\<close>; \<open>KvCacheProofs\<close>: a cache layer refines a log of chunks.
  \<^item> \<open>Llama\<close>: \<open>runtime/model/llama.rs\<close>, the whole model and a pipeline stage.
  \<^item> \<open>Events\<close>: the events and recorders of \<open>runtime/report.rs\<close>, \<open>runtime/generation.rs\<close>, \<open>pipeline/event.rs\<close>.
  \<^item> \<open>Generation\<close>: \<open>runtime/generation.rs\<close>, \<open>runtime/prompt.rs\<close>. The decode loop is a total function (the
    termination proof is that every round adds a token below the limit). \<open>GenerationProofs\<close>: limits,
    stop reasons and events, whatever was recorded before; every successful request is such a run.

  \<^bold>\<open>Pipeline.\<close>
  \<^item> \<open>PipelineProtocol\<close>: \<open>pipeline/protocol.rs\<close>. \<open>Pipeline\<close>: \<open>pipeline/runner.rs\<close> as a rank program. Its loop
    has no bound of its own and takes fuel, one unit a round; as many units as the manifest
    allows tokens are enough, which is part of what is proved.
  \<^item> \<open>PipelineStages\<close>: one forward pass of the model is the passes of the stages in a row.
    \<open>PipelineProofs\<close>: one round of all ranks, and all rounds. \<open>PipelineRun\<close>: loading and whole runs;
    pipeline-parallel generation equals single-rank generation. \<open>PipelineSample\<close>: an environment in
    which everything assumed holds.

  \<^bold>\<open>Tensor parallelism.\<close>
  \<^item> \<open>TensorParallel\<close>: the sharded layers of \<open>runtime/parallel.rs\<close> and \<open>runtime/model/tensor_parallel.rs\<close>, as rank
    programs; loading reads weights from a full checkpoint or from mapped slices
    (\<open>vendor/candle-nn/var_builder.rs\<close>). \<open>Artifacts\<close>: \<open>runtime/artifacts.rs\<close> and \<open>runtime/inspect.rs\<close>.
    \<open>TensorLoad\<close>: a validated checkpoint loads, and both sources give the same shards.
  \<^item> \<open>AllReduceContract\<close>: what a layer needs of an all-reduce, as a locale interpreted on the ring and
    the centralized algorithm. \<open>TensorLockstep\<close>: the forward pass in one process as specification, and
    the rank programs refine it. \<open>TensorExact\<close>: over exact arithmetic the sharded MLP, embedding and
    head equal the unsharded ones.
  \<^item> \<open>TensorRunner\<close>: \<open>tensor/runner.rs\<close> and \<open>tensor/report.rs\<close> as a rank program; its loop runs over the
    step numbers and needs no fuel. \<open>TensorRun\<close>: all ranks of a run agree with one generation loop
    over the specification. The bound of \<open>2 ^ 36\<close> tokens a run keeps the collective sequence numbers
    below \<open>2 ^ 44\<close>, where tags stay distinct; contexts of registered models are far shorter.
    \<open>TensorSample\<close>: concrete runs on two and three ranks.

  \<^bold>\<open>Launcher\<close> (\<open>crates/cli\<close>).
  \<^item> \<open>Launch\<close>: the planning and checking functions of \<open>cli/launch.rs\<close>, and the container arguments of
    \<open>cli/pipeline.rs\<close> and \<open>cli/tensor.rs\<close>. \<open>LaunchProofs\<close>: the division of resources is exact, and a container
    that enforces the limits passes the checks. CPU totals below \<open>2 ^ 40\<close> thousandths keep the parsed
    quota from overflowing.
  \<^item> \<open>Manifests\<close>: the preparation of \<open>run_pipeline\<close> and \<open>run_tensor\<close> up to the manifest. \<open>LaunchRun\<close>: a manifest
    that preparation writes is accepted by every rank, so that the theorems on whole runs apply.
  \<^item> \<open>Collector\<close>: the rank processes inside the containers, the collectors that merge their output on the
    host, and the final reports. \<open>RankEvents\<close>: whatever a rank receives, the events it reports are
    numbered without a gap. \<open>CollectorProofs\<close>: both collectors refine one specification (the locale
    \<open>stream_collector\<close>). \<open>RunReports\<close>: every interleaving of complete streams is reported in full, and a
    positive report is never wrong about the streams.

  \<^bold>\<open>Outside the model.\<close> The floating-point kernels of Candle are the fields of \<open>candle_ops\<close>; what
  is used of them is \<open>kernels_ok\<close> (shapes only). The checkpoint file, the tokenizer and the JSON codec
  are arguments too, with \<open>checkpoint_ok\<close>, \<open>checkpoint_lists\<close>, \<open>codec_ok\<close> and \<open>tensor_codec_ok\<close>. Arithmetic on tensor values is an arbitrary
  operation; where its laws matter (ring against centralized reduction, sharded against
  unsharded layers) they are assumed by name.

  How a socket takes a write (\<open>socket_write\<close>) and the bytes a serializer makes of a control message
  are arguments as well: sends, the answers of the rendezvous server and the handshakes of the
  mesh fail where the code's writes fail or a control frame exceeds its limit of 64 KiB.

  \<^bold>\<open>Not modelled.\<close> Clocks and durations; sockets beyond that, retries and socket options; Hub access and
  the reading of checkpoint files; argument parsing, Docker commands and child processes of \<open>cli\<close>; the
  drawing of \<open>tui\<close>; lock poisoning; display of byte counts as floating-point numbers.
\<close>

end
